(* ===== verification/Prelude.thy ===== *)
theory Prelude
  imports Main
    "HOL-Library.Word"
    "HOL-Library.Finite_Map"
    "HOL-Library.List_Lexorder"
    "HOL-Library.Multiset"
begin

text \<open>
  Shared vocabulary of the development: the Rust result type with its standard
  combinators (a panic is a third outcome, so that every \<^verbatim>\<open>unwrap\<close> and \<^verbatim>\<open>expect\<close>
  of the source is a branch of the model), byte strings, fixed-width integers and
  their byte encodings, hash maps as finite maps, and the generic lemmas about
  them that the component theories use.
\<close>

unbundle bit_operations_syntax

named_theorems result_simps \<open>inversion rules for the result combinators\<close>
named_theorems byte_simps \<open>byte and integer encodings\<close>
named_theorems fmap_simps \<open>finite maps as hash maps\<close>

section \<open>Types\<close>

type_synonym u8 = "8 word"
type_synonym u32 = "32 word"
type_synonym u64 = "64 word"
type_synonym bytes = "u8 list"

text \<open>A Rust \<^verbatim>\<open>str\<close> is its UTF-8 byte sequence.\<close>

type_synonym str = bytes

text \<open>\<^verbatim>\<open>Result<A, E>\<close>, with a panic of the evaluating task as a third outcome.\<close>

datatype ('a, 'e) result =
    Ok 'a
  | Err 'e
  | Panicked

text \<open>A serialization library (\<^verbatim>\<open>postcard\<close>) at one type. What the program relies on is that
  decoding an encoded value gives the value back.\<close>

record 't codec =
  encode :: "'t \<Rightarrow> (bytes, string) result"
  decode :: "bytes \<Rightarrow> ('t, string) result"

definition codec_ok :: "'t codec \<Rightarrow> bool" where
  "codec_ok c \<longleftrightarrow> (\<forall>x b. encode c x = Ok b \<longrightarrow> decode c b = Ok x)"

section \<open>Combinators of the Rust standard library\<close>

fun and_then :: "('a, 'e) result \<Rightarrow> ('a \<Rightarrow> ('b, 'e) result) \<Rightarrow> ('b, 'e) result" where
  "and_then (Ok x) k = k x"
| "and_then (Err e) k = Err e"
| "and_then Panicked k = Panicked"

fun map_err :: "('e \<Rightarrow> 'f) \<Rightarrow> ('a, 'e) result \<Rightarrow> ('a, 'f) result" where
  "map_err f (Ok x) = Ok x"
| "map_err f (Err e) = Err (f e)"
| "map_err f Panicked = Panicked"

fun map_ok :: "('a \<Rightarrow> 'b) \<Rightarrow> ('a, 'e) result \<Rightarrow> ('b, 'e) result" where
  "map_ok f (Ok x) = Ok (f x)"
| "map_ok f (Err e) = Err e"
| "map_ok f Panicked = Panicked"

text \<open>\<^verbatim>\<open>collect::<Result<_, _>>\<close> stops at the first error.\<close>

fun collect_results :: "('a, 'e) result list \<Rightarrow> ('a list, 'e) result" where
  "collect_results [] = Ok []"
| "collect_results (r # rs) = and_then r (\<lambda>x. map_ok ((#) x) (collect_results rs))"

fun ok_or :: "'e \<Rightarrow> 'a option \<Rightarrow> ('a, 'e) result" where
  "ok_or e (Some x) = Ok x"
| "ok_or e None = Err e"

fun expect :: "('a, 'e) result \<Rightarrow> ('a, 'f) result" where
  "expect (Ok x) = Ok x"
| "expect (Err e) = Panicked"
| "expect Panicked = Panicked"

fun expect_some :: "'a option \<Rightarrow> ('a, 'e) result" where
  "expect_some (Some x) = Ok x"
| "expect_some None = Panicked"

fun the_ok :: "('a, 'e) result \<Rightarrow> 'a" where
  "the_ok (Ok x) = x"

fun is_ok :: "('a, 'e) result \<Rightarrow> bool" where
  "is_ok (Ok x) = True"
| "is_ok (Err e) = False"
| "is_ok Panicked = False"

text \<open>\<^verbatim>\<open>if c { return Err(e) }\<close> followed by the rest of the function.\<close>

definition ensure :: "bool \<Rightarrow> 'e \<Rightarrow> (unit, 'e) result" where
  "ensure c e = (if c then Ok () else Err e)"

text \<open>Sequencing of fallible operations that change a state.\<close>

fun bind_st ::
  "('a, 'e) result \<times> 's \<Rightarrow> ('a \<Rightarrow> 's \<Rightarrow> ('b, 'e) result \<times> 's) \<Rightarrow> ('b, 'e) result \<times> 's" where
  "bind_st (Ok x, s) f = f x s"
| "bind_st (Err e, s) f = (Err e, s)"
| "bind_st (Panicked, s) f = (Panicked, s)"

definition map_err_st :: "('e \<Rightarrow> 'f) \<Rightarrow> ('a, 'e) result \<times> 's \<Rightarrow> ('a, 'f) result \<times> 's" where
  "map_err_st f r = (map_err f (fst r), snd r)"

section \<open>Strings and integers as bytes\<close>

text \<open>A string literal of the source; all of them are ASCII.\<close>

definition utf8 :: "string \<Rightarrow> str" where
  "utf8 s = map of_char s"

definition hex_digit_upper :: "nat \<Rightarrow> u8" where
  "hex_digit_upper n = (if n < 10 then of_nat (48 + n) else of_nat (55 + n))"

text \<open>\<^verbatim>\<open>write!(f, "{:02X}", byte)\<close> for every byte.\<close>

definition fmt_02X :: "bytes \<Rightarrow> str" where
  "fmt_02X bs = concat (map (\<lambda>b. [hex_digit_upper (unat b div 16), hex_digit_upper (unat b mod 16)]) bs)"

text \<open>\<^verbatim>\<open>u64::to_le_bytes\<close> and \<^verbatim>\<open>u32::to_be_bytes\<close>.\<close>

definition u64_to_le_bytes :: "u64 \<Rightarrow> bytes" where
  "u64_to_le_bytes w = map (\<lambda>i. ucast (drop_bit (8 * i) w)) [0..<8]"

definition u32_to_be_bytes :: "u32 \<Rightarrow> bytes" where
  "u32_to_be_bytes w = map (\<lambda>i. ucast (drop_bit (8 * i) w)) [3, 2, 1, 0]"

definition u32_from_be_bytes :: "bytes \<Rightarrow> u32" where
  "u32_from_be_bytes bs = foldl (\<lambda>acc b. push_bit 8 acc OR ucast b) 0 bs"

definition u128_to_be_bytes :: "128 word \<Rightarrow> bytes" where
  "u128_to_be_bytes w = map (\<lambda>i. ucast (drop_bit (8 * i) w)) (rev [0..<16])"

section \<open>Result combinators: inversion\<close>

lemma and_then_Ok_iff [result_simps]:
  "and_then r k = Ok y \<longleftrightarrow> (\<exists>x. r = Ok x \<and> k x = Ok y)"
  by (cases r) auto

lemma and_then_Err_iff [result_simps]:
  "and_then r k = Err e \<longleftrightarrow> r = Err e \<or> (\<exists>x. r = Ok x \<and> k x = Err e)"
  by (cases r) auto

lemma and_then_Panicked_iff [result_simps]:
  "and_then r k = Panicked \<longleftrightarrow> r = Panicked \<or> (\<exists>x. r = Ok x \<and> k x = Panicked)"
  by (cases r) auto

lemma map_err_Ok_iff [result_simps]: "map_err f r = Ok y \<longleftrightarrow> r = Ok y"
  by (cases r) auto

lemma map_err_Err_iff [result_simps]:
  "map_err f r = Err e \<longleftrightarrow> (\<exists>e'. r = Err e' \<and> e = f e')"
  by (cases r) auto

lemma map_err_Panicked_iff [result_simps]: "map_err f r = Panicked \<longleftrightarrow> r = Panicked"
  by (cases r) auto

lemma map_ok_Ok_iff [result_simps]: "map_ok f r = Ok y \<longleftrightarrow> (\<exists>x. r = Ok x \<and> y = f x)"
  by (cases r) auto

lemma map_ok_Err_iff [result_simps]: "map_ok f r = Err e \<longleftrightarrow> r = Err e"
  by (cases r) auto

lemma map_ok_Panicked_iff [result_simps]: "map_ok f r = Panicked \<longleftrightarrow> r = Panicked"
  by (cases r) auto

lemma ok_or_Ok_iff [result_simps]: "ok_or e r = Ok y \<longleftrightarrow> r = Some y"
  by (cases r) auto

lemma ok_or_Err_iff [result_simps]: "ok_or e r = Err e' \<longleftrightarrow> r = None \<and> e' = e"
  by (cases r) auto

lemma ok_or_not_Panicked [result_simps, simp]: "ok_or e r \<noteq> Panicked"
  by (cases r) auto

lemma expect_Ok_iff [result_simps]: "expect r = Ok y \<longleftrightarrow> r = Ok y"
  by (cases r) auto

lemma expect_not_Err [result_simps, simp]: "expect r \<noteq> Err e"
  by (cases r) auto

lemma expect_some_Ok_iff [result_simps]: "expect_some r = Ok y \<longleftrightarrow> r = Some y"
  by (cases r) auto

lemma expect_some_not_Err [result_simps, simp]: "expect_some r \<noteq> Err e"
  by (cases r) auto

lemma is_ok_iff [result_simps]: "is_ok r \<longleftrightarrow> (\<exists>x. r = Ok x)"
  by (cases r) auto

lemma ensure_Ok_iff [result_simps]: "ensure c e = Ok u \<longleftrightarrow> c"
  by (simp add: ensure_def)

lemma ensure_Err_iff [result_simps]: "ensure c e = Err e' \<longleftrightarrow> \<not> c \<and> e' = e"
  by (auto simp: ensure_def)

lemma ensure_not_Panicked [result_simps, simp]: "ensure c e \<noteq> Panicked"
  by (simp add: ensure_def)

lemma ensure_simps [simp]: "ensure True e = Ok ()" "ensure False e = Err e"
  by (simp_all add: ensure_def)

lemma bind_st_Ok_iff [result_simps]:
  "bind_st p f = (Ok y, s') \<longleftrightarrow> (\<exists>x s. p = (Ok x, s) \<and> f x s = (Ok y, s'))"
  by (cases p; cases "fst p") auto

lemma bind_st_fst_Ok_iff [result_simps]:
  "fst (bind_st p f) = Ok y \<longleftrightarrow> (\<exists>x s. p = (Ok x, s) \<and> fst (f x s) = Ok y)"
  by (cases p; cases "fst p") auto

text \<open>An invariant of every step is an invariant of the sequence.\<close>

lemma bind_st_inv:
  "P (snd p) \<Longrightarrow> (\<And>x s. p = (Ok x, s) \<Longrightarrow> P s \<Longrightarrow> P (snd (f x s))) \<Longrightarrow> P (snd (bind_st p f))"
  by (cases p; cases "fst p") auto

lemma map_err_st_sel [simp]: "fst (map_err_st f r) = map_err f (fst r)" "snd (map_err_st f r) = snd r"
  by (simp_all add: map_err_st_def)

lemma map_err_st_Ok_iff [result_simps]: "map_err_st f r = (Ok y, s) \<longleftrightarrow> r = (Ok y, s)"
  by (cases r) (auto simp: map_err_st_def result_simps)

section \<open>Collecting results\<close>

lemma collect_results_snoc:
  "collect_results (rs @ [Ok x]) = map_ok (\<lambda>l. l @ [x]) (collect_results rs)"
proof (induction rs)
  case (Cons r rs)
  then show ?case by (cases r; cases "collect_results rs") auto
qed simp

lemma collect_results_length: "collect_results rs = Ok hs \<Longrightarrow> length hs = length rs"
  by (induction rs arbitrary: hs) (auto simp: result_simps)

lemma collect_results_all_Ok: "(\<forall>r \<in> set rs. is_ok r) \<Longrightarrow> collect_results rs = Ok (map the_ok rs)"
  by (induction rs) (auto simp: is_ok_iff)

lemma collect_results_map_Ok: "collect_results (map Ok xs) = Ok xs"
  by (induction xs) simp_all

section \<open>Lists and encodings\<close>

lemma unat_u8_less: "unat (b :: u8) < 256"
  using unsigned_less [of b, where ?'a = nat] by simp

lemma concat_map_const_length:
  "(\<And>x. x \<in> set xs \<Longrightarrow> length (f x) = n) \<Longrightarrow> length (concat (map f xs)) = n * length xs"
  by (induction xs) auto

lemma concat_map_inj:
  assumes "\<And>x. length (f x) = n" "0 < n" "inj f"
  shows "concat (map f xs) = concat (map f ys) \<longleftrightarrow> xs = ys"
proof (induction xs arbitrary: ys)
  case Nil
  show ?case
    using assms(1,2) by (cases ys) (auto dest: arg_cong [where f = length])
next
  case (Cons x xs)
  show ?case
  proof (cases ys)
    case Nil
    then show ?thesis using assms(1,2) by (auto dest: arg_cong [where f = length])
  next
    case (Cons y ys')
    have "f x @ a = f y @ b \<longleftrightarrow> f x = f y \<and> a = b" for a b
      using assms(1) [of x] assms(1) [of y] by (intro append_eq_append_conv) simp
    then show ?thesis
      using Cons.IH [of ys'] Cons assms(3) by (auto simp: inj_def)
  qed
qed

lemma append_eq_length_cong:
  "length a = length b \<Longrightarrow> a @ x = b @ y \<longleftrightarrow> a = b \<and> x = y"
  by simp

lemma unat_hex_digit_upper:
  "n < 16 \<Longrightarrow> unat (hex_digit_upper n) = (if n < 10 then 48 + n else 55 + n)"
  by (simp add: hex_digit_upper_def unsigned_of_nat take_bit_nat_eq_self del: of_nat_add)

lemma hex_digit_upper_inj:
  assumes "m < 16" "n < 16"
  shows "hex_digit_upper m = hex_digit_upper n \<longleftrightarrow> m = n"
proof
  assume "hex_digit_upper m = hex_digit_upper n"
  then have "unat (hex_digit_upper m) = unat (hex_digit_upper n)" by simp
  then show "m = n"
    unfolding unat_hex_digit_upper [OF assms(1)] unat_hex_digit_upper [OF assms(2)]
    using assms by (simp split: if_splits)
qed simp

lemma length_fmt_02X [simp]: "length (fmt_02X bs) = 2 * length bs"
  unfolding fmt_02X_def by (rule concat_map_const_length) simp

lemma fmt_02X_inj: "fmt_02X xs = fmt_02X ys \<longleftrightarrow> xs = ys"
  unfolding fmt_02X_def
proof (rule concat_map_inj [where n = 2])
  show "inj (\<lambda>b :: u8. [hex_digit_upper (unat b div 16), hex_digit_upper (unat b mod 16)])"
  proof (rule injI)
    fix b c :: u8
    assume "[hex_digit_upper (unat b div 16), hex_digit_upper (unat b mod 16)]
      = [hex_digit_upper (unat c div 16), hex_digit_upper (unat c mod 16)]"
    moreover have "unat b < 256" "unat c < 256"
      using unsigned_less [of b] unsigned_less [of c] by simp_all
    ultimately have "unat b div 16 = unat c div 16" "unat b mod 16 = unat c mod 16"
      using hex_digit_upper_inj [of "unat b div 16" "unat c div 16"]
        hex_digit_upper_inj [of "unat b mod 16" "unat c mod 16"] by auto
    then have "unat b = unat c"
      by (metis div_mult_mod_eq)
    then show "b = c" by (rule unsigned_word_eqI)
  qed
qed simp_all

lemma length_u64_to_le_bytes [simp]: "length (u64_to_le_bytes w) = 8"
  by (simp add: u64_to_le_bytes_def)

lemma length_u32_to_be_bytes [simp]: "length (u32_to_be_bytes w) = 4"
  by (simp add: u32_to_be_bytes_def)

lemma u64_to_le_bytes_inj: "u64_to_le_bytes v = u64_to_le_bytes w \<longleftrightarrow> v = w"
proof
  assume eq: "u64_to_le_bytes v = u64_to_le_bytes w"
  show "v = w"
  proof (rule bit_word_eqI)
    fix n assume "n < LENGTH(64)"
    then have div: "n div 8 < 8" by simp
    have "ucast (drop_bit (8 * (n div 8)) v) = (ucast (drop_bit (8 * (n div 8)) w) :: u8)"
      using arg_cong [OF eq, of "\<lambda>xs. xs ! (n div 8)"] div
      by (simp add: u64_to_le_bytes_def)
    from arg_cong [OF this, of "\<lambda>x. bit x (n mod 8)"]
    show "bit v n = bit w n"
      by (simp add: bit_simps)
  qed
qed simp

lemma u32_be_round_trip [simp, byte_simps]: "u32_from_be_bytes (u32_to_be_bytes w) = w"
proof (rule bit_word_eqI)
  fix n assume "n < LENGTH(32)"
  then consider "n < 8" | "8 \<le> n" "n < 16" | "16 \<le> n" "n < 24" | "24 \<le> n" "n < 32"
    by fastforce
  then show "bit (u32_from_be_bytes (u32_to_be_bytes w)) n = bit w n"
    by cases (auto simp: u32_from_be_bytes_def u32_to_be_bytes_def bit_simps)
qed

section \<open>Hash maps as finite maps\<close>

text \<open>\<^verbatim>\<open>HashMap::insert\<close> then \<^verbatim>\<open>remove\<close> of a fresh key, and \<^verbatim>\<open>remove\<close> then \<^verbatim>\<open>insert\<close> of the
  entry that was there, both restore the map.\<close>

lemma fmdrop_fmupd_fresh [fmap_simps]:
  "fmlookup m k = None \<Longrightarrow> fmdrop k (fmupd k v m) = m"
  by (rule fmap_ext) auto

lemma fmupd_fmdrop_same [fmap_simps]:
  "fmlookup m k = Some v \<Longrightarrow> fmupd k v (fmdrop k m) = m"
  by (rule fmap_ext) auto

end
