(* ===== verification/Certificate.thy ===== *)
theory Certificate
  imports Prelude
begin

text \<open>
  Certificates (\<^verbatim>\<open>svalin_pki/src/certificate.rs\<close>): the certificate types and what they
  may sign, the parsed certificate data, the three wrappers that record how far a
  certificate is trusted, parsing with its convention checks, signature verification
  and validity. The X.509 parser, the hash functions and Ed25519 are third-party code:
  they are the fields of the record \<^verbatim>\<open>crypto\<close> that every operation takes.
\<close>

section \<open>Third-party interface\<close>

text \<open>Errors of the X.509 library, by their message.\<close>

type_synonym x509_error = string

text \<open>A distinguished name: its DER encoding and what the iterators over its common
  names and organizational units return; \<^verbatim>\<open>as_str\<close> on an attribute may fail.\<close>

record x509_name =
  name_raw :: bytes
  common_names :: "(str, x509_error) result list"
  organizational_units :: "(str, x509_error) result list"

text \<open>What the source reads of a parsed \<^verbatim>\<open>X509Certificate\<close>; times are seconds since the
  epoch (\<^verbatim>\<open>ASN1Time::timestamp\<close> is an \<^verbatim>\<open>i64\<close>).\<close>

record x509_certificate =
  x_subject :: x509_name
  x_issuer :: x509_name
  x_spki_raw :: bytes
  x_subject_public_key :: bytes
  x_not_before :: int
  x_not_after :: int
  x_is_ca :: bool

record crypto =
  sha512 :: "bytes \<Rightarrow> bytes"
  sha512_256 :: "bytes \<Rightarrow> bytes"
  ed25519_sign :: "bytes \<Rightarrow> bytes \<Rightarrow> bytes"
  ed25519_verify :: "bytes \<Rightarrow> bytes \<Rightarrow> bytes \<Rightarrow> bool"
  x509_from_der :: "bytes \<Rightarrow> (x509_certificate, x509_error) result"
  x509_verify_signature :: "x509_certificate \<Rightarrow> bytes \<Rightarrow> (unit, x509_error) result"
  asn1_time_sub :: "int \<Rightarrow> int \<Rightarrow> int option"

section \<open>Certificate types\<close>

datatype certificate_type = Root | Temporary | User | UserSession | Agent | Server

datatype certificate_type_error = InvalidType

fun should_be_ca :: "certificate_type \<Rightarrow> bool" where
  "should_be_ca Root = True"
| "should_be_ca User = True"
| "should_be_ca UserSession = False"
| "should_be_ca Agent = False"
| "should_be_ca Server = False"
| "should_be_ca Temporary = False"

text \<open>\<^verbatim>\<open>time::Duration\<close> in seconds.\<close>

definition duration_days :: "int \<Rightarrow> int" where
  "duration_days d = d * 86400"

definition duration_minutes :: "int \<Rightarrow> int" where
  "duration_minutes m = m * 60"

fun validity_duration :: "certificate_type \<Rightarrow> int" where
  "validity_duration Root = duration_days (365 * 10)"
| "validity_duration User = duration_days (365 * 1)"
| "validity_duration UserSession = duration_days 30"
| "validity_duration Agent = duration_days (365 * 1)"
| "validity_duration Server = duration_days (365 * 10)"
| "validity_duration Temporary = duration_minutes 1"

fun may_be_parent_of :: "certificate_type \<Rightarrow> certificate_type \<Rightarrow> bool" where
  "may_be_parent_of Root child_type = (case child_type of
      Root \<Rightarrow> False
    | Server \<Rightarrow> True
    | User \<Rightarrow> True
    | Agent \<Rightarrow> True
    | UserSession \<Rightarrow> True
    | Temporary \<Rightarrow> False)"
| "may_be_parent_of User child_type = (case child_type of
      Root \<Rightarrow> False
    | Server \<Rightarrow> False
    | User \<Rightarrow> True
    | Agent \<Rightarrow> True
    | UserSession \<Rightarrow> True
    | Temporary \<Rightarrow> False)"
| "may_be_parent_of UserSession child_type = False"
| "may_be_parent_of Agent child_type = False"
| "may_be_parent_of Server child_type = False"
| "may_be_parent_of Temporary child_type = False"

fun is_user :: "certificate_type \<Rightarrow> bool" where
  "is_user Root = True"
| "is_user User = True"
| "is_user _ = False"

fun certificate_type_to_string :: "certificate_type \<Rightarrow> str" where
  "certificate_type_to_string Root = utf8 ''root''"
| "certificate_type_to_string User = utf8 ''user''"
| "certificate_type_to_string UserSession = utf8 ''user_device''"
| "certificate_type_to_string Agent = utf8 ''agent''"
| "certificate_type_to_string Server = utf8 ''server''"
| "certificate_type_to_string Temporary = utf8 ''temporary''"

definition certificate_type_from_str :: "str \<Rightarrow> (certificate_type, certificate_type_error) result" where
  "certificate_type_from_str s =
    (if s = utf8 ''root'' then Ok Root
     else if s = utf8 ''user'' then Ok User
     else if s = utf8 ''user_device'' then Ok UserSession
     else if s = utf8 ''agent'' then Ok Agent
     else if s = utf8 ''server'' then Ok Server
     else if s = utf8 ''temporary'' then Ok Temporary
     else Err InvalidType)"

section \<open>SPKI hashes\<close>

datatype spki_hash = SpkiHash (spki_bytes: bytes)

text \<open>The derived \<^verbatim>\<open>Ord\<close> of the array: lexicographic on the bytes.\<close>

instantiation spki_hash :: linorder
begin

definition less_eq_spki_hash :: "spki_hash \<Rightarrow> spki_hash \<Rightarrow> bool" where
  "less_eq_spki_hash a b \<longleftrightarrow> spki_bytes a \<le> spki_bytes b"

definition less_spki_hash :: "spki_hash \<Rightarrow> spki_hash \<Rightarrow> bool" where
  "less_spki_hash a b \<longleftrightarrow> spki_bytes a < spki_bytes b"

instance
  by standard (auto simp: less_eq_spki_hash_def less_spki_hash_def intro: spki_hash.expand)

end

definition spki_to_string :: "spki_hash \<Rightarrow> str" where
  "spki_to_string h = fmt_02X (spki_bytes h)"

definition spki_from_slice :: "bytes \<Rightarrow> (spki_hash, unit) result" where
  "spki_from_slice sl =
    (if length sl \<noteq> 32 then Err () else Ok (SpkiHash sl))"

text \<open>The 32-byte array type of \<^verbatim>\<open>SpkiHash\<close>.\<close>

definition spki_hash_wf :: "spki_hash \<Rightarrow> bool" where
  "spki_hash_wf h \<longleftrightarrow> length (spki_bytes h) = 32"

section \<open>Certificate data and its wrappers\<close>

record certificate_data =
  der :: bytes
  certificate_type :: certificate_type
  public_key :: bytes
  spki_hash :: spki_hash
  is_ca :: bool
  issuer :: spki_hash
  not_before :: int
  not_after :: int

type_synonym unverified_certificate = certificate_data

datatype certificate = Certificate (as_unverified: unverified_certificate)

datatype root_certificate = RootCertificate (as_certificate: certificate)

text \<open>Field access on the wrappers goes through \<^verbatim>\<open>Deref\<close>.\<close>

abbreviation cert_der :: "certificate \<Rightarrow> bytes" where
  "cert_der c \<equiv> der (as_unverified c)"

abbreviation cert_spki :: "certificate \<Rightarrow> spki_hash" where
  "cert_spki c \<equiv> spki_hash (as_unverified c)"

abbreviation cert_type :: "certificate \<Rightarrow> certificate_type" where
  "cert_type c \<equiv> certificate_type (as_unverified c)"

abbreviation root_as_unverified :: "root_certificate \<Rightarrow> unverified_certificate" where
  "root_as_unverified r \<equiv> as_unverified (as_certificate r)"

text \<open>All \<^verbatim>\<open>PartialEq\<close> instances between the wrappers compare the DER encodings.\<close>

definition cert_eq :: "unverified_certificate \<Rightarrow> unverified_certificate \<Rightarrow> bool" where
  "cert_eq a b \<longleftrightarrow> der a = der b"

datatype validity_error = NotYetValid | Expired

datatype certificate_parse_error =
    X509ParserError x509_error
  | X509Error x509_error
  | MissingCommonName
  | MissingOrganizationalUnit
  | InvalidCertificateType certificate_type_error
  | IssuerMissingCommonName
  | SpkiHashMismatch
  | ShouldNotBeCa certificate_type
  | ShouldBeCa certificate_type
  | SelfSignedNotRootOrTemp
  | BrokenValidity
  | IncorrectValidityDuration certificate_type int int
  | InvalidIssuer str

datatype signature_verification_error =
    SigX509ParserError x509_error
  | X509VerificationError x509_error
  | SigInvalidCertificateType certificate_type certificate_type
  | SigValidityError validity_error

datatype use_as_root_error = NotRootCertificate

section \<open>Parsing\<close>

definition compute_spki_hash :: "crypto \<Rightarrow> bytes \<Rightarrow> (spki_hash, 'e) result" where
  "compute_spki_hash C spki_der =
    (let raw_identifier = sha512_256 C spki_der in
     if length raw_identifier = 32 then Ok (SpkiHash raw_identifier) else Panicked)"

text \<open>\<^verbatim>\<open>str::is_char_boundary\<close> and the slice \<^verbatim>\<open>&s[a..b]\<close>, which panics off a boundary.\<close>

definition is_char_boundary :: "str \<Rightarrow> nat \<Rightarrow> bool" where
  "is_char_boundary s i \<longleftrightarrow>
    i = 0 \<or> i = length s \<or> (i < length s \<and> (s ! i) AND 0xC0 \<noteq> 0x80)"

definition str_slice :: "str \<Rightarrow> nat \<Rightarrow> nat \<Rightarrow> (str, 'e) result" where
  "str_slice s a b =
    (if a \<le> b \<and> is_char_boundary s a \<and> is_char_boundary s b
     then Ok (take (b - a) (drop a s)) else Panicked)"

definition hex_digit_value :: "u8 \<Rightarrow> nat option" where
  "hex_digit_value c =
    (let n = unat c in
     if 48 \<le> n \<and> n \<le> 57 then Some (n - 48)
     else if 65 \<le> n \<and> n \<le> 70 then Some (n - 55)
     else if 97 \<le> n \<and> n \<le> 102 then Some (n - 87)
     else None)"

fun radix16_digits :: "nat \<Rightarrow> str \<Rightarrow> nat option" where
  "radix16_digits acc [] = Some acc"
| "radix16_digits acc (c # cs) = (case hex_digit_value c of
      None \<Rightarrow> None
    | Some d \<Rightarrow> if 16 * acc + d < 256 then radix16_digits (16 * acc + d) cs else None)"

text \<open>\<^verbatim>\<open>u8::from_str_radix(s, 16)\<close>: a single leading plus sign is accepted.\<close>

definition u8_from_str_radix_16 :: "str \<Rightarrow> (u8, unit) result" where
  "u8_from_str_radix_16 s =
    (case s of
       [] \<Rightarrow> Err ()
     | c # cs \<Rightarrow>
        let digits = (if c = 43 \<and> cs \<noteq> [] then cs else s) in
        (case radix16_digits 0 digits of None \<Rightarrow> Err () | Some n \<Rightarrow> Ok (of_nat n)))"

text \<open>The loop over \<^verbatim>\<open>i in 0..32\<close> that fills \<^verbatim>\<open>issuer_data\<close>.\<close>

fun parse_issuer_bytes :: "str \<Rightarrow> nat list \<Rightarrow> (bytes, certificate_parse_error) result" where
  "parse_issuer_bytes issuer_str [] = Ok []"
| "parse_issuer_bytes issuer_str (i # is) =
    and_then (str_slice issuer_str (i * 2) (i * 2 + 2)) (\<lambda>hex_byte.
    and_then (map_err (\<lambda>_. InvalidIssuer issuer_str) (u8_from_str_radix_16 hex_byte)) (\<lambda>b.
    map_ok ((#) b) (parse_issuer_bytes issuer_str is)))"

fun next_attr :: "'a list \<Rightarrow> 'a option" where
  "next_attr [] = None"
| "next_attr (x # xs) = Some x"

definition from_der :: "crypto \<Rightarrow> bytes \<Rightarrow> (unverified_certificate, certificate_parse_error) result" where
  "from_der C der0 =
    and_then (map_err X509ParserError (x509_from_der C der0)) (\<lambda>cert.
    and_then (compute_spki_hash C (x_spki_raw cert)) (\<lambda>hash.
    and_then (ok_or MissingCommonName (next_attr (common_names (x_subject cert)))) (\<lambda>cn_attr.
    and_then (map_err X509Error cn_attr) (\<lambda>cn.
    and_then (ok_or MissingOrganizationalUnit
      (next_attr (organizational_units (x_subject cert)))) (\<lambda>ou_attr.
    and_then (map_err X509Error ou_attr) (\<lambda>ou.
    and_then (map_err InvalidCertificateType (certificate_type_from_str ou)) (\<lambda>ctype.
    and_then (ensure (spki_to_string hash = cn) SpkiHashMismatch) (\<lambda>_.
    and_then (ok_or BrokenValidity
      (asn1_time_sub C (x_not_after cert) (x_not_before cert))) (\<lambda>validity_time.
    and_then (ensure (validity_time = validity_duration ctype)
      (IncorrectValidityDuration ctype (validity_duration ctype) validity_time)) (\<lambda>_.
    and_then (ok_or MissingCommonName (next_attr (common_names (x_issuer cert)))) (\<lambda>issuer_attr.
    and_then (map_err X509Error issuer_attr) (\<lambda>issuer_str.
    and_then (ensure (length issuer_str = 64) (InvalidIssuer issuer_str)) (\<lambda>_.
    and_then (parse_issuer_bytes issuer_str [0..<32]) (\<lambda>issuer_data.
    and_then (ensure (x_issuer cert = x_subject cert \<longrightarrow> ctype = Root \<or> ctype = Temporary)
      SelfSignedNotRootOrTemp) (\<lambda>_.
    and_then (ensure (x_is_ca cert = should_be_ca ctype)
      (if x_is_ca cert then ShouldNotBeCa ctype else ShouldBeCa ctype)) (\<lambda>_.
    Ok \<lparr> der = der0,
         certificate_type = ctype,
         public_key = x_subject_public_key cert,
         spki_hash = hash,
         is_ca = x_is_ca cert,
         issuer = SpkiHash issuer_data,
         not_before = x_not_before cert,
         not_after = x_not_after cert \<rparr>))))))))))))))))"

text \<open>\<^verbatim>\<open>Serialize\<close> writes the DER bytes, \<^verbatim>\<open>Deserialize\<close> parses them again.\<close>

definition cert_serialize :: "unverified_certificate \<Rightarrow> bytes" where
  "cert_serialize c = der c"

definition cert_deserialize :: "crypto \<Rightarrow> bytes \<Rightarrow> (unverified_certificate, certificate_parse_error) result" where
  "cert_deserialize C v = from_der C v"

section \<open>Validity, signatures, trust\<close>

text \<open>\<^verbatim>\<open>timestamp().try_into().unwrap()\<close>: an \<^verbatim>\<open>i64\<close> below zero panics.\<close>

definition timestamp_u64 :: "int \<Rightarrow> (u64, 'e) result" where
  "timestamp_u64 t = (if 0 \<le> t then Ok (of_int t) else Panicked)"

definition check_validity_at :: "unverified_certificate \<Rightarrow> u64 \<Rightarrow> (unit, validity_error) result" where
  "check_validity_at c time =
    and_then (timestamp_u64 (not_before c)) (\<lambda>nb.
    if time < nb then Err NotYetValid
    else and_then (timestamp_u64 (not_after c)) (\<lambda>na.
      if time > na then Err Expired else Ok ()))"

definition verify_signature ::
  "crypto \<Rightarrow> unverified_certificate \<Rightarrow> certificate \<Rightarrow> u64 \<Rightarrow> (certificate, signature_verification_error) result" where
  "verify_signature C self issuer0 time =
    (if \<not> may_be_parent_of (cert_type issuer0) (certificate_type self)
     then Err (SigInvalidCertificateType (cert_type issuer0) (certificate_type self))
     else
       and_then (map_err SigX509ParserError (x509_from_der C (der self))) (\<lambda>cert.
       and_then (map_err SigX509ParserError (x509_from_der C (cert_der issuer0))) (\<lambda>issuer_cert.
       and_then (map_err X509VerificationError
         (x509_verify_signature C cert (x_spki_raw issuer_cert))) (\<lambda>_.
       and_then (map_err SigValidityError (check_validity_at self time)) (\<lambda>_.
       Ok (Certificate self))))))"

definition mark_as_trusted :: "unverified_certificate \<Rightarrow> certificate" where
  "mark_as_trusted c = Certificate c"

definition use_as_temporary :: "unverified_certificate \<Rightarrow> certificate option" where
  "use_as_temporary c = (if certificate_type c \<noteq> Temporary then None else Some (Certificate c))"

definition use_as_root :: "unverified_certificate \<Rightarrow> (root_certificate, use_as_root_error) result" where
  "use_as_root c =
    (if certificate_type c = Root then Ok (RootCertificate (Certificate c)) else Err NotRootCertificate)"

definition dangerous_from_already_verified_der :: "crypto \<Rightarrow> bytes \<Rightarrow> (certificate, certificate_parse_error) result" where
  "dangerous_from_already_verified_der C d = map_ok mark_as_trusted (from_der C d)"

section \<open>A sample instance of the third-party interface\<close>

text \<open>A small concrete \<^verbatim>\<open>crypto\<close> on which the hypotheses of the theorems are discharged:
  hashes pad to their output length, a signature is the public key followed by the
  message, and a four-byte encoding holds type, key, issuer key and start of validity (in
  units of two days).\<close>

definition sample_pad :: "nat \<Rightarrow> bytes \<Rightarrow> bytes" where
  "sample_pad n bs = take n (bs @ replicate n 0)"

definition sample_type :: "u8 \<Rightarrow> certificate_type" where
  "sample_type t = (if t = 0 then Root else if t = 1 then User else if t = 2 then UserSession
     else if t = 3 then Agent else if t = 4 then Server else Temporary)"

definition sample_name :: "u8 \<Rightarrow> certificate_type \<Rightarrow> x509_name" where
  "sample_name k t = \<lparr> name_raw = [k],
     common_names = [Ok (fmt_02X (sample_pad 32 [k]))],
     organizational_units = [Ok (certificate_type_to_string t)] \<rparr>"

fun sample_from_der :: "bytes \<Rightarrow> (x509_certificate, x509_error) result" where
  "sample_from_der [t, k, i, nb] = Ok \<lparr>
     x_subject = sample_name k (sample_type t),
     x_issuer = sample_name i (sample_type t),
     x_spki_raw = [k],
     x_subject_public_key = [k],
     x_not_before = uint nb * 172800,
     x_not_after = uint nb * 172800 + validity_duration (sample_type t),
     x_is_ca = should_be_ca (sample_type t) \<rparr>"
| "sample_from_der _ = Err ''parse error''"

definition sample_crypto :: crypto where
  "sample_crypto = \<lparr>
     sha512 = sample_pad 64,
     sha512_256 = sample_pad 32,
     ed25519_sign = (\<lambda>key msg. key @ msg),
     ed25519_verify = (\<lambda>pk msg sig. sig = pk @ msg),
     x509_from_der = sample_from_der,
     x509_verify_signature = (\<lambda>cert spki.
       if common_names (x_issuer cert) = [Ok (fmt_02X (sample_pad 32 spki))]
       then Ok () else Err ''bad signature''),
     asn1_time_sub = (\<lambda>a b. if a > b then Some (a - b) else None) \<rparr>"

text \<open>The certificate that the sample encoding stands for.\<close>

definition sample_cert :: "certificate_type \<Rightarrow> u8 \<Rightarrow> u8 \<Rightarrow> u8 \<Rightarrow> u8 \<Rightarrow> unverified_certificate" where
  "sample_cert ty t k i nb = \<lparr> der = [t, k, i, nb], certificate_type = ty, public_key = [k],
     spki_hash = SpkiHash (sample_pad 32 [k]), is_ca = should_be_ca ty,
     issuer = SpkiHash (sample_pad 32 [i]), not_before = uint nb * 172800,
     not_after = uint nb * 172800 + validity_duration ty \<rparr>"

section \<open>Certificate types: lemmas\<close>

lemmas cert_defs = verify_signature_def check_validity_at_def timestamp_u64_def

lemma certificate_type_from_to_string [simp]:
  "certificate_type_from_str (certificate_type_to_string t) = Ok t"
  by (cases t) (simp_all add: certificate_type_from_str_def utf8_def)

lemma certificate_type_from_str_Ok_iff:
  "certificate_type_from_str s = Ok t \<longleftrightarrow> s = certificate_type_to_string t"
  by (cases t) (auto simp: certificate_type_from_str_def utf8_def)

lemma may_be_parent_of_ca: "may_be_parent_of p c \<Longrightarrow> should_be_ca p"
  by (cases p) auto

lemma may_be_parent_of_child: "may_be_parent_of p c \<Longrightarrow> c \<noteq> Root \<and> c \<noteq> Temporary"
  by (cases p; cases c) auto

lemma may_be_parent_of_is_user: "may_be_parent_of p c \<Longrightarrow> is_user p"
  by (cases p) auto

lemma validity_duration_pos: "0 < validity_duration t"
  by (cases t) (simp_all add: duration_days_def duration_minutes_def)

section \<open>Hexadecimal issuer names: lemmas\<close>

lemma ascii_char_boundary:
  assumes "\<forall>c \<in> set s. unat c < 128" "i \<le> length s"
  shows "is_char_boundary s i"
proof (cases "i < length s")
  case True
  then have "unat (s ! i) < 128" using assms(1) by simp
  then have "\<not> bit (unat (s ! i)) 7"
    by (simp add: bit_iff_odd)
  then have "\<not> bit (s ! i) 7"
    by (simp add: bit_unsigned_iff)
  moreover have "bit ((0x80 :: u8)) 7" by simp
  ultimately have "(s ! i) AND 0xC0 \<noteq> 0x80"
    by (metis bit_and_iff)
  then show ?thesis using True by (simp add: is_char_boundary_def)
qed (use assms in \<open>simp add: is_char_boundary_def\<close>)

lemma fmt_02X_ascii: "\<forall>c \<in> set (fmt_02X bs). unat c < 128"
proof -
  have "unat (hex_digit_upper n) < 128" if "n < 16" for n
    using that by (simp add: unat_hex_digit_upper)
  moreover have "unat b div 16 < 16" "unat b mod 16 < 16" for b :: u8
    using unat_u8_less [of b] by simp_all
  ultimately show ?thesis by (auto simp: fmt_02X_def)
qed

lemma hex_digit_value_upper [simp]: "n < 16 \<Longrightarrow> hex_digit_value (hex_digit_upper n) = Some n"
  by (simp add: hex_digit_value_def unat_hex_digit_upper Let_def)

lemma u8_from_str_radix_16_fmt:
  "u8_from_str_radix_16 [hex_digit_upper (unat b div 16), hex_digit_upper (unat b mod 16)] = Ok b"
proof -
  have lt: "unat b div 16 < 16" "unat b mod 16 < 16" "unat b < 256"
    using unat_u8_less [of b] by simp_all
  then have "unat (hex_digit_upper (unat b div 16)) \<noteq> 43"
    by (simp add: unat_hex_digit_upper)
  then have "hex_digit_upper (unat b div 16) \<noteq> 43" by auto
  moreover have "16 * (unat b div 16) + unat b mod 16 = unat b" by simp
  ultimately show ?thesis using lt by (simp add: u8_from_str_radix_16_def)
qed

lemma fmt_02X_slice:
  "i < length bs \<Longrightarrow> take 2 (drop (2 * i) (fmt_02X bs))
    = [hex_digit_upper (unat (bs ! i) div 16), hex_digit_upper (unat (bs ! i) mod 16)]"
proof (induction bs arbitrary: i)
  case (Cons b bs)
  show ?case
  proof (cases i)
    case 0
    then show ?thesis by (simp add: fmt_02X_def)
  next
    case (Suc j)
    then show ?thesis using Cons.IH [of j] Cons.prems by (simp add: fmt_02X_def)
  qed
qed simp

lemma parse_issuer_bytes_fmt:
  "\<forall>i \<in> set is. i < length bs \<Longrightarrow> parse_issuer_bytes (fmt_02X bs) is = Ok (map ((!) bs) is)"
proof (induction "is")
  case (Cons i "is")
  have "is_char_boundary (fmt_02X bs) (i * 2)" "is_char_boundary (fmt_02X bs) (i * 2 + 2)"
    using Cons.prems by (auto intro!: ascii_char_boundary fmt_02X_ascii)
  then have "str_slice (fmt_02X bs) (i * 2) (i * 2 + 2)
      = (Ok [hex_digit_upper (unat (bs ! i) div 16), hex_digit_upper (unat (bs ! i) mod 16)]
          :: (str, certificate_parse_error) result)"
    using fmt_02X_slice [of i bs] Cons.prems by (simp add: str_slice_def mult.commute)
  then show ?case using Cons u8_from_str_radix_16_fmt by simp
qed simp

lemma parse_issuer_bytes_spki:
  assumes "length bs = 32"
  shows "parse_issuer_bytes (spki_to_string (SpkiHash bs)) [0..<32] = Ok bs"
    "length (spki_to_string (SpkiHash bs)) = 64"
proof -
  have "map ((!) bs) [0..<32] = bs"
    using assms by (metis map_nth)
  then show "parse_issuer_bytes (spki_to_string (SpkiHash bs)) [0..<32] = Ok bs"
    "length (spki_to_string (SpkiHash bs)) = 64"
    using parse_issuer_bytes_fmt [of "[0..<32]" bs] assms by (simp_all add: spki_to_string_def)
qed

lemma parse_issuer_bytes_length:
  "parse_issuer_bytes s is = Ok bs \<Longrightarrow> length bs = length is"
  by (induction s "is" arbitrary: bs rule: parse_issuer_bytes.induct) (auto simp: result_simps)

lemma parse_issuer_bytes_no_panic:
  assumes "\<forall>c \<in> set s. unat c < 128" "\<forall>i \<in> set is. 2 * i + 2 \<le> length s"
  shows "parse_issuer_bytes s is \<noteq> Panicked"
  using assms(2)
proof (induction "is")
  case (Cons i "is")
  have "is_char_boundary s (i * 2)" "is_char_boundary s (i * 2 + 2)"
    using Cons.prems assms(1) by (auto intro!: ascii_char_boundary)
  then obtain h where "str_slice s (i * 2) (i * 2 + 2) = (Ok h :: (str, certificate_parse_error) result)"
    by (auto simp: str_slice_def)
  moreover have "u8_from_str_radix_16 h \<noteq> Panicked"
    by (auto simp: u8_from_str_radix_16_def Let_def split: list.splits option.splits)
  ultimately show ?case using Cons by (auto simp: result_simps)
qed simp

section \<open>Validity: lemmas\<close>

lemma check_validity_at_Ok_iff:
  assumes "0 \<le> not_before c" "0 \<le> not_after c" "not_before c < 2 ^ 63" "not_after c < 2 ^ 63"
  shows "check_validity_at c t = Ok () \<longleftrightarrow> not_before c \<le> uint t \<and> uint t \<le> not_after c"
  using assms
  by (auto simp: check_validity_at_def timestamp_u64_def word_less_def uint_word_of_int take_bit_int_eq_self
      unsigned_of_int)

section \<open>Parsing: lemmas\<close>

lemmas from_der_unfold = from_der_def compute_spki_hash_def

lemma from_der_OkD:
  assumes "from_der C d = Ok c"
  obtains x where "x509_from_der C d = Ok x" "der c = d"
    "spki_hash c = SpkiHash (sha512_256 C (x_spki_raw x))" "spki_hash_wf (spki_hash c)"
    "common_names (x_subject x) \<noteq> []"
    "hd (common_names (x_subject x)) = Ok (spki_to_string (spki_hash c))"
    "spki_hash_wf (issuer c)"
    "public_key c = x_subject_public_key x"
    "not_before c = x_not_before x" "not_after c = x_not_after x"
    "asn1_time_sub C (not_after c) (not_before c) = Some (validity_duration (certificate_type c))"
    "is_ca c = should_be_ca (certificate_type c)"
    "x_issuer x = x_subject x \<Longrightarrow> certificate_type c = Root \<or> certificate_type c = Temporary"
proof -
  from assms obtain x hash cn_attr cn ou_attr ou ctype vt ia istr idata where
    x: "x509_from_der C d = Ok x"
    and hash: "compute_spki_hash C (x_spki_raw x)
      = (Ok hash :: (spki_hash, certificate_parse_error) result)"
    and cn: "next_attr (common_names (x_subject x)) = Some cn_attr" "cn_attr = Ok cn"
      "spki_to_string hash = cn"
    and vt: "asn1_time_sub C (x_not_after x) (x_not_before x) = Some vt" "vt = validity_duration ctype"
    and idata: "parse_issuer_bytes istr [0..<32] = Ok idata"
    and self: "x_issuer x = x_subject x \<longrightarrow> ctype = Root \<or> ctype = Temporary"
    and ca: "x_is_ca x = should_be_ca ctype"
    and c: "Ok \<lparr> der = d, certificate_type = ctype, public_key = x_subject_public_key x,
         spki_hash = hash, is_ca = x_is_ca x, issuer = SpkiHash idata,
         not_before = x_not_before x, not_after = x_not_after x \<rparr>
      = (Ok c :: (unverified_certificate, certificate_parse_error) result)"
    unfolding from_der_def and_then_Ok_iff map_err_Ok_iff ok_or_Ok_iff ensure_Ok_iff
    by (elim exE conjE) (rule that; assumption)
  have "hash = SpkiHash (sha512_256 C (x_spki_raw x))" "spki_hash_wf hash"
    using hash by (auto simp: compute_spki_hash_def Let_def spki_hash_wf_def split: if_splits)
  moreover have "common_names (x_subject x) \<noteq> []"
    "hd (common_names (x_subject x)) = Ok (spki_to_string hash)"
    using cn by (cases "common_names (x_subject x)"; simp)+
  moreover have "spki_hash_wf (SpkiHash idata)"
    using parse_issuer_bytes_length [OF idata] by (simp add: spki_hash_wf_def)
  ultimately show thesis
    using x vt self ca c by (intro that [of x]) auto
qed

lemma from_der_der: "from_der C d = Ok c \<Longrightarrow> der c = d"
  by (erule from_der_OkD)

text \<open>A certificate value is well formed when it is what parsing its own encoding gives;
  every certificate of the program is obtained that way.\<close>

definition cert_wf :: "crypto \<Rightarrow> unverified_certificate \<Rightarrow> bool" where
  "cert_wf C c \<longleftrightarrow> from_der C (der c) = Ok c"

lemma from_der_wf: "from_der C d = Ok c \<Longrightarrow> cert_wf C c"
  using from_der_der by (fastforce simp: cert_wf_def)

lemma cert_eq_wf:
  assumes "cert_wf C a" "cert_wf C b"
  shows "cert_eq a b \<longleftrightarrow> a = b"
proof
  assume "cert_eq a b"
  then have "(Ok a :: (unverified_certificate, certificate_parse_error) result) = Ok b"
    using assms unfolding cert_wf_def cert_eq_def by metis
  then show "a = b" by simp
qed (simp add: cert_eq_def)

lemma verify_signature_OkD:
  assumes "verify_signature C self iss t = Ok c"
  obtains x ix where "c = Certificate self"
    "may_be_parent_of (cert_type iss) (certificate_type self)"
    "x509_from_der C (der self) = Ok x" "x509_from_der C (cert_der iss) = Ok ix"
    "x509_verify_signature C x (x_spki_raw ix) = Ok ()"
    "check_validity_at self t = Ok ()"
  using assms by (auto simp: verify_signature_def result_simps split: if_splits)

section \<open>Properties\<close>

text \<open>C38. A certificate that parses follows the conventions of the system: it keeps its
  encoding, its SPKI hash is the hash of the encoded key, has 32 bytes and is the common
  name of the subject, its validity is the one fixed for its type, it is a CA exactly when
  its type is one, and only root and temporary certificates name themselves as issuer.
  Parsing the kept encoding gives the same certificate again.\<close>

theorem from_der_sound:
  assumes "from_der C d = Ok c"
  shows "\<exists>x. x509_from_der C d = Ok x \<and> der c = d
    \<and> spki_hash c = SpkiHash (sha512_256 C (x_spki_raw x))
    \<and> hd (common_names (x_subject x)) = Ok (spki_to_string (spki_hash c))
    \<and> length (spki_bytes (spki_hash c)) = 32 \<and> length (spki_bytes (issuer c)) = 32
    \<and> asn1_time_sub C (not_after c) (not_before c) = Some (validity_duration (certificate_type c))
    \<and> is_ca c = should_be_ca (certificate_type c)
    \<and> (x_issuer x \<noteq> x_subject x \<or> certificate_type c \<in> {Root, Temporary})
    \<and> cert_deserialize C (cert_serialize c) = Ok c"
proof (rule from_der_OkD [OF assms])
  fix x assume x: "x509_from_der C d = Ok x" and facts: "der c = d"
    "spki_hash c = SpkiHash (sha512_256 C (x_spki_raw x))" "spki_hash_wf (spki_hash c)"
    "hd (common_names (x_subject x)) = Ok (spki_to_string (spki_hash c))"
    "spki_hash_wf (issuer c)"
    "asn1_time_sub C (not_after c) (not_before c) = Some (validity_duration (certificate_type c))"
    "is_ca c = should_be_ca (certificate_type c)"
    "x_issuer x = x_subject x \<Longrightarrow> certificate_type c = Root \<or> certificate_type c = Temporary"
  then show ?thesis
    using assms by (intro exI [of _ x]) (auto simp: spki_hash_wf_def cert_serialize_def cert_deserialize_def)
qed

theorem from_der_sound_witness:
  "\<exists>x. x509_from_der sample_crypto [0, 7, 7, 100] = Ok x
    \<and> is_ca (sample_cert Root 0 7 7 100)
    \<and> cert_deserialize sample_crypto (cert_serialize (sample_cert Root 0 7 7 100))
        = Ok (sample_cert Root 0 7 7 100)"
proof -
  have "from_der sample_crypto [0, 7, 7, 100] = Ok (sample_cert Root 0 7 7 100)"
    by code_simp
  from from_der_sound [OF this] show ?thesis
    by (auto simp: sample_cert_def)
qed

text \<open>The issuer name is the inverse of the printed SPKI hash: the 64 hexadecimal
  digits that \<^verbatim>\<open>Display\<close> writes for a 32-byte hash are parsed back to the same bytes.\<close>

theorem issuer_name_round_trip:
  assumes "length bs = 32"
  shows "parse_issuer_bytes (spki_to_string (SpkiHash bs)) [0..<32] = Ok bs
    \<and> length (spki_to_string (SpkiHash bs)) = 64"
  using parse_issuer_bytes_spki [OF assms] by simp

theorem issuer_name_round_trip_witness:
  "parse_issuer_bytes (spki_to_string (SpkiHash (replicate 32 171))) [0..<32]
    = Ok (replicate 32 171)"
  using issuer_name_round_trip [of "replicate 32 171"] by simp

text \<open>A finding about the slice \<^verbatim>\<open>&issuer_str[i * 2..i * 2 + 2]\<close>: when the issuer name has
  64 bytes and a multi-byte character straddles byte 2, the loop panics instead of
  returning \<^verbatim>\<open>InvalidIssuer\<close>; an ASCII name never panics.\<close>

theorem issuer_slice_panic:
  "(length s = 64 \<longrightarrow> (s ! 2) AND 0xC0 = 0x80 \<longrightarrow> parse_issuer_bytes s [0..<32] = Panicked)
   \<and> (length s = 64 \<longrightarrow> (\<forall>c \<in> set s. unat c < 128) \<longrightarrow> parse_issuer_bytes s [0..<32] \<noteq> Panicked)"
proof (intro conjI impI)
  assume "length s = 64" "(s ! 2) AND 0xC0 = 0x80"
  then have "str_slice s 0 2 = (Panicked :: (str, certificate_parse_error) result)"
    by (simp add: str_slice_def is_char_boundary_def)
  then show "parse_issuer_bytes s [0..<32] = Panicked"
    by (simp add: upt_rec [of 0 32] numeral_2_eq_2)
qed (use parse_issuer_bytes_no_panic [of s "[0..<32]"] in auto)

theorem issuer_slice_panic_witness:
  "parse_issuer_bytes (49 # 195 # 169 # replicate 61 49) [0..<32] = Panicked"
  using issuer_slice_panic [of "49 # 195 # 169 # replicate 61 49"] by simp

text \<open>C39. Only a root or user certificate passes \<^verbatim>\<open>verify_signature\<close> as an issuer, and only
  for server, user, agent or session certificates; a server certificate needs the root.
  The certificate returned is the one presented, is valid at the given time, and carries
  a signature that verifies under the issuer's key.\<close>

theorem verify_signature_sound:
  assumes "verify_signature C self iss t = Ok c"
  shows "as_unverified c = self
    \<and> (cert_type iss = Root \<or> cert_type iss = User)
    \<and> certificate_type self \<in> {Server, User, Agent, UserSession}
    \<and> (certificate_type self = Server \<longrightarrow> cert_type iss = Root)
    \<and> check_validity_at self t = Ok ()
    \<and> (\<exists>x ix. x509_from_der C (der self) = Ok x \<and> x509_from_der C (cert_der iss) = Ok ix
         \<and> x509_verify_signature C x (x_spki_raw ix) = Ok ())"
proof (rule verify_signature_OkD [OF assms])
  fix x ix assume *: "c = Certificate self"
    "may_be_parent_of (cert_type iss) (certificate_type self)"
    "x509_from_der C (der self) = Ok x" "x509_from_der C (cert_der iss) = Ok ix"
    "x509_verify_signature C x (x_spki_raw ix) = Ok ()" "check_validity_at self t = Ok ()"
  from *(2) have "cert_type iss = Root \<or> cert_type iss = User"
    "certificate_type self \<in> {Server, User, Agent, UserSession}"
    "certificate_type self = Server \<longrightarrow> cert_type iss = Root"
    by (cases "cert_type iss"; cases "certificate_type self"; simp)+
  with * show ?thesis by auto
qed

theorem verify_signature_sound_witness:
  "check_validity_at (sample_cert Agent 3 9 7 100) 20000000 = Ok ()
   \<and> cert_type (Certificate (sample_cert Root 0 7 7 100)) = Root"
proof -
  have "verify_signature sample_crypto (sample_cert Agent 3 9 7 100)
      (Certificate (sample_cert Root 0 7 7 100)) 20000000 = Ok (Certificate (sample_cert Agent 3 9 7 100))"
    by code_simp
  from verify_signature_sound [OF this] show ?thesis
    by (auto simp: sample_cert_def)
qed

end
