(* ===== verification/Encrypt.thy ===== *)
theory Encrypt
  imports Certificate
begin

text \<open>
  Symmetric encryption and password hashing (\<^verbatim>\<open>svalin_pki/src/encrypt.rs\<close> and
  \<^verbatim>\<open>svalin_pki/src/argon.rs\<close>): the nonce sequence fed to the AEAD, encryption of byte
  strings and of serialized objects, and the Argon2 parameters. The AEAD and Argon2
  themselves are third-party code and enter as the records \<^verbatim>\<open>aead\<close> and \<^verbatim>\<open>argon2\<close>; random
  values are arguments.
\<close>

section \<open>Nonces\<close>

text \<open>\<^verbatim>\<open>ring::aead::NONCE_LEN\<close>.\<close>

definition NONCE_LEN :: nat where
  "NONCE_LEN = 12"

record nonce_counter =
  mask :: bytes
  counter :: "128 word"

definition nonce_counter_new :: "bytes \<Rightarrow> nonce_counter" where
  "nonce_counter_new m = \<lparr> mask = m, counter = 0 \<rparr>"

definition advance :: "nonce_counter \<Rightarrow> (bytes, unit) result \<times> nonce_counter" where
  "advance self =
    (let c = counter self + 1 in
     if c \<ge> push_bit (NONCE_LEN * 8) 1 then (Err (), self)
     else
       let self' = self \<lparr> counter := c \<rparr>;
           count_bytes = u128_to_be_bytes (counter self')
       in (Ok (map2 (XOR) (mask self') (drop (16 - NONCE_LEN) count_bytes)), self'))"

text \<open>The nonces handed out by at most \<^verbatim>\<open>k\<close> consecutive calls.\<close>

fun advances :: "nat \<Rightarrow> nonce_counter \<Rightarrow> bytes list" where
  "advances 0 s = []"
| "advances (Suc k) s = (case advance s of
      (Ok n, s') \<Rightarrow> n # advances k s'
    | (_, s') \<Rightarrow> [])"

section \<open>Encrypted data\<close>

datatype encryption_algorithm = Chacha20Poly1305 | Aes256Gcm

text \<open>The AEAD of \<^verbatim>\<open>ring\<close>: loading a key, sealing and opening with a nonce.\<close>

record aead =
  unbound_key :: "encryption_algorithm \<Rightarrow> bytes \<Rightarrow> (unit, unit) result"
  seal :: "encryption_algorithm \<Rightarrow> bytes \<Rightarrow> bytes \<Rightarrow> bytes \<Rightarrow> (bytes, unit) result"
  unseal :: "encryption_algorithm \<Rightarrow> bytes \<Rightarrow> bytes \<Rightarrow> bytes \<Rightarrow> (bytes, unit) result"

text \<open>Opening under the same algorithm, key and nonce undoes sealing.\<close>

definition aead_ok :: "aead \<Rightarrow> bool" where
  "aead_ok A \<longleftrightarrow> (\<forall>alg key nonce d e. seal A alg key nonce d = Ok e \<longrightarrow> unseal A alg key nonce e = Ok d)"

datatype encryption_key = EncryptionKey (key_bytes: bytes)

record encrypted_data =
  ciphertext :: bytes
  enc_alg :: encryption_algorithm
  nonce_mask :: bytes

datatype decrypt_error =
    UnmarshalError string
  | MissingHashParameters
  | DecCreateUnboundError
  | UnsealError

datatype encrypt_error =
    MarshalError string
  | EncCreateUnboundError
  | SealError

definition DEFAULT_ALG :: encryption_algorithm where
  "DEFAULT_ALG = Chacha20Poly1305"

definition encrypt_with_alg ::
  "aead \<Rightarrow> bytes \<Rightarrow> bytes \<Rightarrow> encryption_key \<Rightarrow> encryption_algorithm
    \<Rightarrow> (encrypted_data, encrypt_error) result" where
  "encrypt_with_alg A random_mask data key alg =
    and_then (map_err (\<lambda>_. EncCreateUnboundError) (unbound_key A alg (key_bytes key))) (\<lambda>_.
    and_then (map_err (\<lambda>_. SealError) (fst (advance (nonce_counter_new random_mask)))) (\<lambda>nonce.
    and_then (map_err (\<lambda>_. SealError) (seal A alg (key_bytes key) nonce data)) (\<lambda>encrypted.
    Ok \<lparr> ciphertext = encrypted, enc_alg = alg, nonce_mask = random_mask \<rparr>)))"

definition encrypt_bytes ::
  "aead \<Rightarrow> bytes \<Rightarrow> bytes \<Rightarrow> encryption_key \<Rightarrow> (encrypted_data, encrypt_error) result" where
  "encrypt_bytes A random_mask data key = encrypt_with_alg A random_mask data key DEFAULT_ALG"

definition decrypt_bytes ::
  "aead \<Rightarrow> encrypted_data \<Rightarrow> encryption_key \<Rightarrow> (bytes, decrypt_error) result" where
  "decrypt_bytes A self key =
    and_then (map_err (\<lambda>_. DecCreateUnboundError) (unbound_key A (enc_alg self) (key_bytes key))) (\<lambda>_.
    and_then (map_err (\<lambda>_. UnsealError) (fst (advance (nonce_counter_new (nonce_mask self))))) (\<lambda>nonce.
    map_err (\<lambda>_. UnsealError) (unseal A (enc_alg self) (key_bytes key) nonce (ciphertext self))))"

text \<open>\<^verbatim>\<open>EncryptedObject<T>\<close>: the encrypted serialization of a \<^verbatim>\<open>T\<close>.\<close>

datatype 't encrypted_object = EncryptedObject (object_ciphertext: encrypted_data)

definition encrypt_object ::
  "aead \<Rightarrow> 't codec \<Rightarrow> bytes \<Rightarrow> 't \<Rightarrow> encryption_key \<Rightarrow> ('t encrypted_object, encrypt_error) result" where
  "encrypt_object A P random_mask obj key =
    and_then (map_err MarshalError (encode P obj)) (\<lambda>serialized.
    map_ok EncryptedObject (encrypt_bytes A random_mask serialized key))"

definition decrypt_object ::
  "aead \<Rightarrow> 't codec \<Rightarrow> 't encrypted_object \<Rightarrow> encryption_key \<Rightarrow> ('t, decrypt_error) result" where
  "decrypt_object A P self key =
    and_then (decrypt_bytes A (object_ciphertext self) key) (\<lambda>encoded.
    map_err UnmarshalError (decode P encoded))"

section \<open>Password hashing\<close>

record argon_cost =
  m_cost :: u32
  t_cost :: u32
  p_cost :: u32

record argon_params =
  cost :: argon_cost
  salt :: bytes

record password_hash =
  hash_params :: argon_params
  password_digest :: bytes

text \<open>Argon2id with the given costs, salt and secret, or its error.\<close>

type_synonym argon2 = "argon_cost \<Rightarrow> bytes \<Rightarrow> bytes \<Rightarrow> (bytes, string) result"

datatype params_string_parse_error = MCostUnavailable | TCostUnavailable | PCostUnavailable

datatype derive_key_error = HashError string | JoinError

definition argon_cost_strong :: argon_cost where
  "argon_cost_strong = \<lparr> m_cost = 128 * 1024, t_cost = 2, p_cost = 8 \<rparr>"

definition argon_cost_basic :: argon_cost where
  "argon_cost_basic = \<lparr> m_cost = 32 * 1024, t_cost = 2, p_cost = 4 \<rparr>"

text \<open>\<^verbatim>\<open>ParamsString::get_decimal\<close> is an argument.\<close>

definition argon_cost_try_from ::
  "(string \<Rightarrow> u32 option) \<Rightarrow> (argon_cost, params_string_parse_error) result" where
  "argon_cost_try_from get_decimal =
    and_then (ok_or MCostUnavailable (get_decimal ''m'')) (\<lambda>m.
    and_then (ok_or TCostUnavailable (get_decimal ''t'')) (\<lambda>t.
    and_then (ok_or PCostUnavailable (get_decimal ''p'')) (\<lambda>p.
    Ok \<lparr> m_cost = m, t_cost = t, p_cost = p \<rparr>)))"

definition fake_salt :: "crypto \<Rightarrow> bytes \<Rightarrow> bytes" where
  "fake_salt C seed = sha512_256 C seed"

definition strong_with_salt :: "bytes \<Rightarrow> argon_params" where
  "strong_with_salt s = \<lparr> cost = argon_cost_strong, salt = s \<rparr>"

definition basic_with_salt :: "bytes \<Rightarrow> argon_params" where
  "basic_with_salt s = \<lparr> cost = argon_cost_basic, salt = s \<rparr>"

definition strong_with_fake_salt :: "crypto \<Rightarrow> bytes \<Rightarrow> argon_params" where
  "strong_with_fake_salt C seed = strong_with_salt (fake_salt C seed)"

definition basic_with_fake_salt :: "crypto \<Rightarrow> bytes \<Rightarrow> argon_params" where
  "basic_with_fake_salt C seed = basic_with_salt (fake_salt C seed)"

definition derive_key :: "argon2 \<Rightarrow> argon_params \<Rightarrow> bytes \<Rightarrow> (bytes, derive_key_error) result" where
  "derive_key H self secret = map_err HashError (H (cost self) (salt self) secret)"

definition derive_encryption_key ::
  "argon2 \<Rightarrow> argon_params \<Rightarrow> bytes \<Rightarrow> (encryption_key, derive_key_error) result" where
  "derive_encryption_key H self secret = map_ok EncryptionKey (derive_key H self secret)"

definition derive_password_hash ::
  "argon2 \<Rightarrow> argon_params \<Rightarrow> bytes \<Rightarrow> (password_hash, derive_key_error) result" where
  "derive_password_hash H self secret =
    map_ok (\<lambda>h. \<lparr> hash_params = self, password_digest = h \<rparr>) (derive_key H self secret)"

definition password_verify :: "argon2 \<Rightarrow> password_hash \<Rightarrow> bytes \<Rightarrow> (bool, derive_key_error) result" where
  "password_verify H self secret =
    map_ok (\<lambda>h. password_digest self = h) (derive_key H (hash_params self) secret)"

section \<open>Lemmas\<close>

lemma length_u128_to_be_bytes [simp]: "length (u128_to_be_bytes w) = 16"
  by (simp add: u128_to_be_bytes_def)

lemma u128_low_bytes_inj:
  assumes "drop 4 (u128_to_be_bytes v) = drop 4 (u128_to_be_bytes w)"
    and "v < push_bit 96 1" "w < push_bit 96 1"
  shows "v = w"
proof (rule bit_word_eqI)
  fix n assume "n < LENGTH(128)"
  have small: "\<not> bit u n" if "u < push_bit 96 1" "96 \<le> n" for u :: "128 word"
  proof -
    have "unat u < 2 ^ 96"
      using that(1) by (simp add: word_less_nat_alt push_bit_eq_mult)
    also have "(2 :: nat) ^ 96 \<le> 2 ^ n"
      using that(2) by (intro power_increasing) simp_all
    finally have "\<not> bit (unat u) n"
      by (simp add: bit_iff_odd)
    then show ?thesis
      using \<open>n < LENGTH(128)\<close> by (simp add: bit_unsigned_iff)
  qed
  show "bit v n = bit w n"
  proof (cases "n < 96")
    case True
    then have idx: "11 - n div 8 < 12" by simp
    have at: "drop 4 (u128_to_be_bytes u) ! (11 - k) = ucast (drop_bit (8 * k) u)" if "k < 12" for u k
    proof -
      have "drop 4 (u128_to_be_bytes u) ! (11 - k) = u128_to_be_bytes u ! (15 - k)"
        using that by simp
      also have "\<dots> = ucast (drop_bit (8 * (rev [0..<16] ! (15 - k))) u)"
        unfolding u128_to_be_bytes_def by (subst nth_map) simp_all
      also have "rev [0..<16] ! (15 - k) = k"
        using that by (subst rev_nth) auto
      finally show ?thesis .
    qed
    have "ucast (drop_bit (8 * (n div 8)) v) = (ucast (drop_bit (8 * (n div 8)) w) :: u8)"
      using assms(1) at [of "n div 8" v] at [of "n div 8" w] True by simp
    from arg_cong [OF this, of "\<lambda>x. bit x (n mod 8)"]
    show ?thesis by (simp add: bit_simps)
  next
    case False
    then show ?thesis using small assms(2,3) by simp
  qed
qed

lemma map2_xor_inj:
  "length xs = length m \<Longrightarrow> length ys = length m \<Longrightarrow>
    map2 (XOR) m xs = map2 (XOR) m ys \<Longrightarrow> xs = (ys :: bytes)"
proof (induction m arbitrary: xs ys)
  case (Cons a m)
  then obtain x xs' y ys' where "xs = x # xs'" "ys = y # ys'"
    by (metis length_Suc_conv)
  moreover have "a XOR x = a XOR y \<Longrightarrow> x = y" for x y :: u8
    by (metis xor.left_commute xor_self_eq xor.right_neutral)
  ultimately show ?case using Cons by auto
qed simp

lemma advance_OkD:
  assumes "advance s = (Ok n, s')"
  shows "counter s' = counter s + 1" "mask s' = mask s" "counter s' < push_bit 96 1"
    "n = map2 (XOR) (mask s) (drop 4 (u128_to_be_bytes (counter s')))"
  using assms by (auto simp: advance_def Let_def NONCE_LEN_def not_le split: if_splits)

lemma advance_cases:
  obtains (ok) m s' where "advance s = (Ok m, s')" | (err) "advance s = (Err (), s)"
  by (cases "counter s + 1 \<ge> push_bit (NONCE_LEN * 8) 1") (auto simp: advance_def Let_def)

lemma advances_nonces:
  assumes "length (mask s) = 12" "counter s < push_bit 96 1" "n \<in> set (advances k s)"
  shows "\<exists>c. counter s < c \<and> c < push_bit 96 1
    \<and> n = map2 (XOR) (mask s) (drop 4 (u128_to_be_bytes c))"
  using assms
proof (induction k arbitrary: s)
  case (Suc k)
  show ?case
  proof (cases s rule: advance_cases)
    case (ok m s')
    note D = advance_OkD [OF ok]
    have lt: "counter s < counter s'"
      unfolding D(1) using Suc.prems(2) by (simp add: word_less_nat_alt unat_word_ariths)
    from Suc.prems(3) ok consider "n = m" | "n \<in> set (advances k s')" by auto
    then show ?thesis
    proof cases
      case 1
      then show ?thesis using D lt by blast
    next
      case 2
      have "\<exists>c. counter s' < c \<and> c < push_bit 96 1
          \<and> n = map2 (XOR) (mask s') (drop 4 (u128_to_be_bytes c))"
        by (rule Suc.IH) (use 2 D(2,3) Suc.prems(1) in simp_all)
      then show ?thesis unfolding D(2) using lt order.strict_trans by blast
    qed
  next
    case err
    then show ?thesis using Suc.prems(3) by simp
  qed
qed simp

lemma advances_distinct:
  assumes "length (mask s) = 12" "counter s < push_bit 96 1"
  shows "distinct (advances k s)"
  using assms
proof (induction k arbitrary: s)
  case (Suc k)
  show ?case
  proof (cases s rule: advance_cases)
    case (ok m s')
    note D = advance_OkD [OF ok]
    have len: "length (mask s') = 12" using Suc.prems(1) D(2) by simp
    have "m \<notin> set (advances k s')"
    proof
      assume "m \<in> set (advances k s')"
      from advances_nonces [OF len D(3) this] obtain c where c: "counter s' < c" "c < push_bit 96 1"
          "m = map2 (XOR) (mask s') (drop 4 (u128_to_be_bytes c))"
        by blast
      have "drop 4 (u128_to_be_bytes (counter s')) = drop 4 (u128_to_be_bytes c)"
        by (rule map2_xor_inj [of _ "mask s"]) (use c(3) D(2,4) Suc.prems(1) in simp_all)
      from u128_low_bytes_inj [OF this D(3) c(2)] c(1) show False by simp
    qed
    then show ?thesis using Suc.IH [OF len D(3)] ok by simp
  next
    case err
    then show ?thesis by simp
  qed
qed simp

lemma encrypt_bytes_OkD:
  assumes "encrypt_with_alg A m d key alg = Ok e"
  obtains nonce where "fst (advance (nonce_counter_new m)) = Ok nonce"
    "unbound_key A alg (key_bytes key) = Ok ()"
    "seal A alg (key_bytes key) nonce d = Ok (ciphertext e)" "enc_alg e = alg" "nonce_mask e = m"
  using assms by (auto simp: encrypt_with_alg_def result_simps)

lemma encrypted_object_opens:
  assumes "aead_ok A" "codec_ok P" "encrypt_object A P m obj key = Ok e"
  shows "decrypt_object A P e key = Ok obj"
proof -
  from assms(3) obtain b where b: "encode P obj = Ok b"
    and enc: "encrypt_with_alg A m b key DEFAULT_ALG = Ok (object_ciphertext e)"
    by (auto simp: encrypt_object_def encrypt_bytes_def result_simps)
  from enc have "decrypt_bytes A (object_ciphertext e) key = Ok b"
  proof (rule encrypt_bytes_OkD)
    fix nonce assume "fst (advance (nonce_counter_new m)) = Ok nonce"
      "unbound_key A DEFAULT_ALG (key_bytes key) = Ok ()"
      "seal A DEFAULT_ALG (key_bytes key) nonce b = Ok (ciphertext (object_ciphertext e))"
      "enc_alg (object_ciphertext e) = DEFAULT_ALG" "nonce_mask (object_ciphertext e) = m"
    then show ?thesis
      using assms(1) by (simp add: decrypt_bytes_def aead_ok_def)
  qed
  then show ?thesis
    using assms(2) b by (simp add: decrypt_object_def codec_ok_def)
qed

section \<open>Properties\<close>

text \<open>C40. The nonce sequence never repeats: for every 12-byte mask, the nonces handed out by
  any number of consecutive calls of \<^verbatim>\<open>advance\<close> on a fresh counter are pairwise distinct
  (and the sequence ends with an error before the 96-bit counter could wrap).\<close>

theorem nonces_distinct:
  assumes "length m = 12"
  shows "distinct (advances k (nonce_counter_new m))
    \<and> (counter s = push_bit 96 1 - 1 \<longrightarrow> fst (advance s) = Err ())"
  using advances_distinct [of "nonce_counter_new m" k] assms
  by (simp add: nonce_counter_new_def advance_def NONCE_LEN_def)

theorem nonces_distinct_witness:
  "distinct (advances 5 (nonce_counter_new (replicate 12 165)))"
  using nonces_distinct [of "replicate 12 165" 5] by simp

text \<open>Encrypting an object and decrypting it with the same key gives the object back,
  for every random mask, whenever the AEAD opens what it sealed and the serializer
  decodes what it encoded.\<close>

theorem encrypt_decrypt_object:
  assumes "aead_ok A" "codec_ok P" "encrypt_object A P m obj key = Ok e"
  shows "decrypt_object A P e key = Ok obj"
  using assms by (rule encrypted_object_opens)

text \<open>A toy AEAD that prefixes the key and nonce, and the identity serializer.\<close>

definition sample_aead :: aead where
  "sample_aead = \<lparr> unbound_key = (\<lambda>_ _. Ok ()),
     seal = (\<lambda>_ k n d. Ok (k @ n @ d)),
     unseal = (\<lambda>_ k n e. if take (length (k @ n)) e = k @ n then Ok (drop (length (k @ n)) e) else Err ()) \<rparr>"

definition sample_codec :: "bytes codec" where
  "sample_codec = \<lparr> encode = Ok, decode = Ok \<rparr>"

lemma sample_codec_ok [simp]: "codec_ok sample_codec"
  by (simp add: codec_ok_def sample_codec_def)

lemma sample_aead_ok [simp]: "aead_ok sample_aead"
  by (simp add: aead_ok_def sample_aead_def)

theorem encrypt_decrypt_object_witness:
  "\<exists>e. encrypt_object sample_aead sample_codec (replicate 12 9) [1, 2, 3] (EncryptionKey [4]) = Ok e
    \<and> decrypt_object sample_aead sample_codec e (EncryptionKey [4]) = Ok [1, 2, 3]"
proof -
  have "is_ok (encrypt_object sample_aead sample_codec (replicate 12 9) [1, 2, 3] (EncryptionKey [4]))"
    by code_simp
  then obtain e where "encrypt_object sample_aead sample_codec (replicate 12 9) [1, 2, 3] (EncryptionKey [4]) = Ok e"
    by (auto simp: is_ok_iff)
  with encrypt_decrypt_object [OF sample_aead_ok sample_codec_ok this] show ?thesis by blast
qed

text \<open>A password verifies against the hash derived from it, and a password verifies
  exactly when Argon2 gives the same digest under the stored cost and salt. The salt
  reported for an unknown user depends on the name only, so repeated attempts see the
  same salt.\<close>

theorem password_hash_round_trip:
  assumes "derive_password_hash H params secret = Ok h"
  shows "password_verify H h secret = Ok True
    \<and> (password_verify H h other = Ok True
        \<longleftrightarrow> H (cost params) (salt params) other = H (cost params) (salt params) secret)
    \<and> salt (strong_with_fake_salt C seed) = sha512_256 C seed"
  using assms
  by (auto simp: derive_password_hash_def password_verify_def derive_key_def result_simps
      strong_with_fake_salt_def strong_with_salt_def fake_salt_def)

theorem password_hash_round_trip_witness:
  "password_verify (\<lambda>c s p. Ok (s @ p))
     \<lparr> hash_params = strong_with_salt [1], password_digest = [1, 2] \<rparr> [2] = Ok True"
  using password_hash_round_trip [of "\<lambda>c s p. Ok (s @ p)" "strong_with_salt [1]" "[2]"
      "\<lparr> hash_params = strong_with_salt [1], password_digest = [1, 2] \<rparr>" "[2]" sample_crypto "[]"]
  by (simp add: derive_password_hash_def derive_key_def strong_with_salt_def)

end
