(* ===== verification/Credential.thy ===== *)
theory Credential
  imports Encrypt
begin

text \<open>
  Key pairs and credentials (\<^verbatim>\<open>svalin_pki/src/keypair.rs\<close>, \<^verbatim>\<open>svalin_pki/src/credential.rs\<close>): a
  credential is a key pair with the certificate of its public key. Certificate creation
  is delegated to \<^verbatim>\<open>rcgen\<close>, which enters as the record \<^verbatim>\<open>rcgen\<close>; the two clock readings of a
  creation are arguments, in nanoseconds.
\<close>

section \<open>Definitions\<close>

datatype algorithm = PkcsEd25519

record exported_public_key =
  epk_der :: bytes
  epk_alg :: algorithm

record keypair =
  kp_serialized_der :: bytes
  kp_public_der :: bytes

record saved_keypair =
  saved_der :: bytes
  saved_alg :: algorithm

record credential =
  cred_keypair :: keypair
  cred_certificate :: certificate

record encrypted_credential =
  encrypted_keypair :: "saved_keypair encrypted_object"
  enc_certificate :: unverified_certificate

datatype key_usage = DigitalSignature | KeyCertSign

record certificate_params =
  p_not_before :: int
  p_not_after :: int
  p_is_ca :: bool
  p_key_usages :: "key_usage list"
  p_use_authority_key_identifier_extension :: bool
  p_organizational_unit :: str
  p_common_name :: str

text \<open>What the source calls of \<^verbatim>\<open>rcgen\<close> and of the key parser of \<^verbatim>\<open>ring\<close>.\<close>

record rcgen =
  subject_public_key_info :: "exported_public_key \<Rightarrow> bytes"
  self_signed :: "certificate_params \<Rightarrow> keypair \<Rightarrow> (bytes, string) result"
  from_ca_cert_der :: "bytes \<Rightarrow> keypair \<Rightarrow> (unit, string) result"
  signed_by :: "certificate_params \<Rightarrow> exported_public_key \<Rightarrow> bytes \<Rightarrow> keypair \<Rightarrow> (bytes, string) result"
  from_der_and_sign_algo :: "bytes \<Rightarrow> algorithm \<Rightarrow> (keypair, string) result"

datatype create_certificate_error =
    SignCertificateError string
  | CreateParseError certificate_parse_error
  | IssuerCreateError string

datatype create_credentials_error =
    SelfSignError string
  | CreateCertificateError create_certificate_error
  | KeyMismatch

datatype decode_keypair_error =
    DecryptError decrypt_error
  | ParseKeypairError string

datatype decode_credentials_error =
    DecodeKeypairError decode_keypair_error
  | CreateCredentialsError create_credentials_error

definition export_public_key :: "keypair \<Rightarrow> exported_public_key" where
  "export_public_key kp = \<lparr> epk_der = kp_public_der kp, epk_alg = PkcsEd25519 \<rparr>"

definition sign :: "crypto \<Rightarrow> keypair \<Rightarrow> bytes \<Rightarrow> bytes" where
  "sign C kp msg = ed25519_sign C (kp_serialized_der kp) msg"

definition credential_new ::
  "crypto \<Rightarrow> rcgen \<Rightarrow> keypair \<Rightarrow> unverified_certificate \<Rightarrow> (credential, create_credentials_error) result" where
  "credential_new C R kp cert =
    and_then (compute_spki_hash C (subject_public_key_info R (export_public_key kp))) (\<lambda>keypair_spki_hash.
    if keypair_spki_hash \<noteq> spki_hash cert then Err KeyMismatch
    else Ok \<lparr> cred_keypair = kp, cred_certificate = mark_as_trusted cert \<rparr>)"

definition upgrade ::
  "crypto \<Rightarrow> rcgen \<Rightarrow> keypair \<Rightarrow> unverified_certificate \<Rightarrow> (credential, create_credentials_error) result" where
  "upgrade C R self cert = credential_new C R self cert"

definition keypair_encrypt ::
  "aead \<Rightarrow> saved_keypair codec \<Rightarrow> bytes \<Rightarrow> keypair \<Rightarrow> encryption_key
    \<Rightarrow> (saved_keypair encrypted_object, encrypt_error) result" where
  "keypair_encrypt A P m kp key =
    encrypt_object A P m \<lparr> saved_der = kp_serialized_der kp, saved_alg = PkcsEd25519 \<rparr> key"

definition keypair_decrypt ::
  "aead \<Rightarrow> saved_keypair codec \<Rightarrow> rcgen \<Rightarrow> saved_keypair encrypted_object \<Rightarrow> encryption_key
    \<Rightarrow> (keypair, decode_keypair_error) result" where
  "keypair_decrypt A P R ct key =
    and_then (map_err DecryptError (decrypt_object A P ct key)) (\<lambda>saved.
    map_err ParseKeypairError (from_der_and_sign_algo R (saved_der saved) (saved_alg saved)))"

definition credential_export ::
  "aead \<Rightarrow> saved_keypair codec \<Rightarrow> bytes \<Rightarrow> credential \<Rightarrow> encryption_key
    \<Rightarrow> (encrypted_credential, encrypt_error) result" where
  "credential_export A P m self key =
    and_then (keypair_encrypt A P m (cred_keypair self) key) (\<lambda>ek.
    Ok \<lparr> encrypted_keypair = ek, enc_certificate = as_unverified (cred_certificate self) \<rparr>)"

definition credential_decrypt ::
  "crypto \<Rightarrow> aead \<Rightarrow> saved_keypair codec \<Rightarrow> rcgen \<Rightarrow> encrypted_credential \<Rightarrow> encryption_key
    \<Rightarrow> (credential, decode_credentials_error) result" where
  "credential_decrypt C A P R self key =
    and_then (map_err DecodeKeypairError (keypair_decrypt A P R (encrypted_keypair self) key)) (\<lambda>kp.
    map_err CreateCredentialsError (credential_new C R kp (enc_certificate self)))"

text \<open>The lifetime of a type in nanoseconds (\<^verbatim>\<open>saturating_add\<close> on the second clock reading).\<close>

definition not_after_ns :: "int \<Rightarrow> certificate_type \<Rightarrow> int" where
  "not_after_ns now ty = now + validity_duration ty * 10 ^ 9"

definition temporary_params :: "int \<Rightarrow> int \<Rightarrow> spki_hash \<Rightarrow> certificate_params" where
  "temporary_params now1 now2 hash = \<lparr>
     p_not_before = now1,
     p_not_after = not_after_ns now2 Temporary,
     p_is_ca = False,
     p_key_usages = [],
     p_use_authority_key_identifier_extension = False,
     p_organizational_unit = certificate_type_to_string Temporary,
     p_common_name = spki_to_string hash \<rparr>"

definition generate_temporary ::
  "crypto \<Rightarrow> rcgen \<Rightarrow> int \<Rightarrow> int \<Rightarrow> keypair \<Rightarrow> (credential, create_credentials_error) result" where
  "generate_temporary C R now1 now2 kp =
    and_then (compute_spki_hash C (subject_public_key_info R (export_public_key kp))) (\<lambda>hash.
    and_then (map_err SelfSignError (self_signed R (temporary_params now1 now2 hash) kp)) (\<lambda>d.
    and_then (map_err (CreateCertificateError \<circ> CreateParseError) (from_der C d)) (\<lambda>cert.
    credential_new C R kp cert)))"

definition root_params :: "int \<Rightarrow> int \<Rightarrow> spki_hash \<Rightarrow> certificate_params" where
  "root_params now1 now2 hash = \<lparr>
     p_not_before = now1,
     p_not_after = not_after_ns now2 Root,
     p_is_ca = True,
     p_key_usages = [DigitalSignature, KeyCertSign],
     p_use_authority_key_identifier_extension = False,
     p_organizational_unit = certificate_type_to_string Root,
     p_common_name = spki_to_string hash \<rparr>"

definition generate_root ::
  "crypto \<Rightarrow> rcgen \<Rightarrow> int \<Rightarrow> int \<Rightarrow> keypair \<Rightarrow> (credential, create_credentials_error) result" where
  "generate_root C R now1 now2 kp =
    and_then (compute_spki_hash C (subject_public_key_info R (export_public_key kp))) (\<lambda>hash.
    and_then (map_err SelfSignError (self_signed R (root_params now1 now2 hash) kp)) (\<lambda>d.
    and_then (map_err (CreateCertificateError \<circ> CreateParseError) (from_der C d)) (\<lambda>cert.
    credential_new C R kp cert)))"

definition leaf_params :: "int \<Rightarrow> int \<Rightarrow> certificate_type \<Rightarrow> spki_hash \<Rightarrow> certificate_params" where
  "leaf_params now1 now2 ty hash = \<lparr>
     p_not_before = now1,
     p_not_after = not_after_ns now2 ty,
     p_is_ca = should_be_ca ty,
     p_key_usages = [DigitalSignature],
     p_use_authority_key_identifier_extension = True,
     p_organizational_unit = certificate_type_to_string ty,
     p_common_name = spki_to_string hash \<rparr>"

definition create_certificate_for_key ::
  "crypto \<Rightarrow> rcgen \<Rightarrow> int \<Rightarrow> int \<Rightarrow> credential \<Rightarrow> exported_public_key \<Rightarrow> certificate_type
    \<Rightarrow> (unverified_certificate, create_certificate_error) result" where
  "create_certificate_for_key C R now1 now2 self pk ty =
    and_then (compute_spki_hash C (subject_public_key_info R pk)) (\<lambda>hash.
    and_then (map_err IssuerCreateError
      (from_ca_cert_der R (cert_der (cred_certificate self)) (cred_keypair self))) (\<lambda>_.
    and_then (map_err SignCertificateError
      (signed_by R (leaf_params now1 now2 ty hash) pk (cert_der (cred_certificate self)) (cred_keypair self))) (\<lambda>d.
    map_err CreateParseError (from_der C d))))"

definition create_agent_certificate_for_key ::
  "crypto \<Rightarrow> rcgen \<Rightarrow> int \<Rightarrow> int \<Rightarrow> credential \<Rightarrow> exported_public_key
    \<Rightarrow> (certificate, create_certificate_error) result" where
  "create_agent_certificate_for_key C R now1 now2 self pk =
    map_ok mark_as_trusted (create_certificate_for_key C R now1 now2 self pk Agent)"

definition create_server_certificate_for_key ::
  "crypto \<Rightarrow> rcgen \<Rightarrow> int \<Rightarrow> int \<Rightarrow> credential \<Rightarrow> exported_public_key
    \<Rightarrow> (certificate, create_certificate_error) result" where
  "create_server_certificate_for_key C R now1 now2 self pk =
    map_ok mark_as_trusted (create_certificate_for_key C R now1 now2 self pk Server)"

definition create_user_device_credential ::
  "crypto \<Rightarrow> rcgen \<Rightarrow> int \<Rightarrow> int \<Rightarrow> credential \<Rightarrow> keypair \<Rightarrow> (credential, create_credentials_error) result" where
  "create_user_device_credential C R now1 now2 self kp =
    and_then (map_err CreateCertificateError
      (create_certificate_for_key C R now1 now2 self (export_public_key kp) UserSession)) (\<lambda>cert.
    upgrade C R kp cert)"

section \<open>Documented behaviour of the libraries\<close>

text \<open>An X.509 encoding made by \<^verbatim>\<open>rcgen\<close> for given parameters and key: the parser reads the
  names and flags back, and times are truncated to whole seconds.\<close>

definition encodes_params :: "crypto \<Rightarrow> rcgen \<Rightarrow> certificate_params \<Rightarrow> exported_public_key \<Rightarrow> bytes \<Rightarrow> bool" where
  "encodes_params C R p pk d \<longleftrightarrow> (\<exists>x. x509_from_der C d = Ok x
     \<and> x_spki_raw x = subject_public_key_info R pk
     \<and> common_names (x_subject x) = [Ok (p_common_name p)]
     \<and> organizational_units (x_subject x) = [Ok (p_organizational_unit p)]
     \<and> x_not_before x = p_not_before p div 10 ^ 9
     \<and> x_not_after x = p_not_after p div 10 ^ 9
     \<and> x_is_ca x = p_is_ca p)"

definition self_signed_ok :: "crypto \<Rightarrow> rcgen \<Rightarrow> bool" where
  "self_signed_ok C R \<longleftrightarrow> (\<forall>p kp d. self_signed R p kp = Ok d \<longrightarrow>
     encodes_params C R p (export_public_key kp) d
     \<and> (\<forall>x. x509_from_der C d = Ok x \<longrightarrow> x_issuer x = x_subject x))"

text \<open>\<^verbatim>\<open>rcgen\<close> encodes the parameters and the key that it is given.\<close>

definition signed_by_ok :: "crypto \<Rightarrow> rcgen \<Rightarrow> bool" where
  "signed_by_ok C R \<longleftrightarrow> (\<forall>p pk ca kp d. signed_by R p pk ca kp = Ok d \<longrightarrow> encodes_params C R p pk d)"

text \<open>Subtraction of times in the X.509 library.\<close>

definition asn1_time_sub_ok :: "crypto \<Rightarrow> bool" where
  "asn1_time_sub_ok C \<longleftrightarrow>
    (\<forall>a b. asn1_time_sub C a b = (if a > b then Some (a - b) else None))"

definition sha512_256_ok :: "crypto \<Rightarrow> bool" where
  "sha512_256_ok C \<longleftrightarrow> (\<forall>bs. length (sha512_256 C bs) = 32)"

section \<open>Lemmas\<close>

lemma credential_new_Ok_iff:
  "credential_new C R kp cert = Ok c \<longleftrightarrow>
    compute_spki_hash C (subject_public_key_info R (export_public_key kp))
      = (Ok (spki_hash cert) :: (spki_hash, create_credentials_error) result)
    \<and> c = \<lparr> cred_keypair = kp, cred_certificate = Certificate cert \<rparr>"
  by (auto simp: credential_new_def result_simps mark_as_trusted_def split: if_splits)

lemma compute_spki_hash_ok [simp]:
  "sha512_256_ok C \<Longrightarrow> compute_spki_hash C b = Ok (SpkiHash (sha512_256 C b))"
  by (simp add: compute_spki_hash_def sha512_256_ok_def)

lemma compute_spki_hash_Ok:
  "compute_spki_hash C b = Ok h \<longleftrightarrow> length (sha512_256 C b) = 32 \<and> h = SpkiHash (sha512_256 C b)"
  by (auto simp: compute_spki_hash_def Let_def)

lemma from_der_spki:
  assumes "from_der C d = Ok c" "x509_from_der C d = Ok x"
  shows "compute_spki_hash C (x_spki_raw x) = (Ok (spki_hash c) :: (spki_hash, 'e) result)"
  using assms by (auto simp: from_der_def result_simps compute_spki_hash_Ok split: if_splits)

text \<open>A certificate that was made for the key of a key pair upgrades the key pair.\<close>

lemma certificate_for_key_upgrades:
  assumes "signed_by_ok C R" "create_certificate_for_key C R now1 now2 self (export_public_key kp) ty = Ok c"
  shows "upgrade C R kp c = Ok \<lparr> cred_keypair = kp, cred_certificate = Certificate c \<rparr>"
proof -
  obtain p d where d: "signed_by R p (export_public_key kp) (cert_der (cred_certificate self)) (cred_keypair self) = Ok d"
      "from_der C d = Ok c"
    using assms(2) by (auto simp: create_certificate_for_key_def result_simps)
  then obtain x where x: "x509_from_der C d = Ok x" "x_spki_raw x = subject_public_key_info R (export_public_key kp)"
    using assms(1) unfolding signed_by_ok_def encodes_params_def by blast
  show ?thesis
    using from_der_spki [OF d(2) x(1)] x(2) by (simp add: upgrade_def credential_new_Ok_iff)
qed

text \<open>Parsing what \<^verbatim>\<open>rcgen\<close> encoded for a self-signed certificate of a CA or temporary type.\<close>

lemma from_der_self_signed:
  assumes C: "asn1_time_sub_ok C" "sha512_256_ok C"
    and enc: "encodes_params C R p pk d"
    and self: "\<And>x. x509_from_der C d = Ok x \<Longrightarrow> x_issuer x = x_subject x"
    and p: "p_common_name p = spki_to_string (SpkiHash (sha512_256 C (subject_public_key_info R pk)))"
      "p_organizational_unit p = certificate_type_to_string ty" "p_is_ca p = should_be_ca ty"
    and ty: "ty = Root \<or> ty = Temporary"
    and pos: "p_not_before p div 10 ^ 9 < p_not_after p div 10 ^ 9"
  defines "dt \<equiv> p_not_after p div 10 ^ 9 - p_not_before p div 10 ^ 9"
  shows "dt = validity_duration ty \<Longrightarrow> \<exists>c. from_der C d = Ok c
      \<and> spki_hash c = SpkiHash (sha512_256 C (subject_public_key_info R pk)) \<and> certificate_type c = ty"
    and "dt \<noteq> validity_duration ty \<Longrightarrow>
      from_der C d = Err (IncorrectValidityDuration ty (validity_duration ty) dt)"
proof -
  from enc obtain x where x: "x509_from_der C d = Ok x"
      "x_spki_raw x = subject_public_key_info R pk"
      "common_names (x_subject x) = [Ok (p_common_name p)]"
      "organizational_units (x_subject x) = [Ok (p_organizational_unit p)]"
      "x_not_before x = p_not_before p div 10 ^ 9" "x_not_after x = p_not_after p div 10 ^ 9"
      "x_is_ca x = p_is_ca p"
    by (auto simp: encodes_params_def)
  let ?h = "sha512_256 C (subject_public_key_info R pk)"
  have "length ?h = 32" using C(2) by (simp add: sha512_256_ok_def)
  note issuer = parse_issuer_bytes_spki [OF this]
  have sub: "asn1_time_sub C (x_not_after x) (x_not_before x) = Some dt"
    using C(1) pos by (simp add: asn1_time_sub_ok_def x dt_def)
  show "\<exists>c. from_der C d = Ok c \<and> spki_hash c = SpkiHash ?h \<and> certificate_type c = ty"
    if "dt = validity_duration ty"
    unfolding from_der_def x(1) using C(2) x(2-4,7) self [OF x(1)] p ty issuer sub that by simp
  show "from_der C d = Err (IncorrectValidityDuration ty (validity_duration ty) dt)"
    if "dt \<noteq> validity_duration ty"
    unfolding from_der_def x(1) using C(2) x(2-4,7) self [OF x(1)] p ty issuer sub that by simp
qed

section \<open>Properties\<close>

text \<open>A credential survives being exported under a key and decrypted with the same key:
  the same key pair with the same certificate comes back, for every random nonce mask,
  provided the AEAD, the serializer and the key parser undo what they did and the
  credential's certificate is for its key (which \<^verbatim>\<open>Credential::new\<close> checked).\<close>

theorem credential_export_round_trip:
  assumes "aead_ok A" "codec_ok P"
    and "from_der_and_sign_algo R (kp_serialized_der (cred_keypair c)) PkcsEd25519 = Ok (cred_keypair c)"
    and "credential_new C R (cred_keypair c) (as_unverified (cred_certificate c)) = Ok c'"
    and "credential_export A P m c key = Ok e"
  shows "credential_decrypt C A P R e key = Ok c"
proof -
  from assms(5) obtain ek where ek:
      "encrypt_object A P m \<lparr> saved_der = kp_serialized_der (cred_keypair c), saved_alg = PkcsEd25519 \<rparr> key
        = Ok ek"
      "e = \<lparr> encrypted_keypair = ek, enc_certificate = as_unverified (cred_certificate c) \<rparr>"
    by (auto simp: credential_export_def keypair_encrypt_def result_simps)
  have "decrypt_object A P ek key
      = Ok \<lparr> saved_der = kp_serialized_der (cred_keypair c), saved_alg = PkcsEd25519 \<rparr>"
    using ek(1) by (rule encrypted_object_opens [OF assms(1,2)])
  moreover have "c' = c"
    using assms(4) by (simp add: credential_new_Ok_iff)
  ultimately show ?thesis
    using assms(3,4) ek(2) by (simp add: credential_decrypt_def keypair_decrypt_def)
qed

text \<open>A sample of the certificate library: one key, one pair of clock readings.\<close>

definition sample_keypair :: keypair where
  "sample_keypair = \<lparr> kp_serialized_der = [7], kp_public_der = [7] \<rparr>"

definition sample_rcgen :: rcgen where
  "sample_rcgen = \<lparr>
     subject_public_key_info = epk_der,
     self_signed = (\<lambda>p kp. if p = root_params 500000000 600000000 (SpkiHash (sample_pad 32 [7]))
         \<and> kp = sample_keypair then Ok [0, 7, 7, 0] else Err ''unsupported''),
     from_ca_cert_der = (\<lambda>_ _. Ok ()),
     signed_by = (\<lambda>_ _ _ _. Err ''unsupported''),
     from_der_and_sign_algo = (\<lambda>d _. Ok \<lparr> kp_serialized_der = d, kp_public_der = d \<rparr>) \<rparr>"

definition sample_saved_codec :: "saved_keypair codec" where
  "sample_saved_codec = \<lparr> encode = (\<lambda>s. Ok (saved_der s)),
     decode = (\<lambda>b. Ok \<lparr> saved_der = b, saved_alg = PkcsEd25519 \<rparr>) \<rparr>"

definition sample_root_credential :: credential where
  "sample_root_credential = \<lparr> cred_keypair = sample_keypair,
     cred_certificate = Certificate (sample_cert Root 0 7 7 0) \<rparr>"

lemma sample_saved_codec_ok [simp]: "codec_ok sample_saved_codec"
proof -
  have "saved_alg s = PkcsEd25519" for s :: saved_keypair
    by (cases "saved_alg s") simp
  then have "\<lparr> saved_der = saved_der s, saved_alg = PkcsEd25519 \<rparr> = s" for s :: saved_keypair
    by (metis saved_keypair.surjective old.unit.exhaust)
  then show ?thesis by (simp add: codec_ok_def sample_saved_codec_def)
qed

lemma sample_crypto_ok [simp]: "sha512_256_ok sample_crypto" "asn1_time_sub_ok sample_crypto"
  by (auto simp: sha512_256_ok_def asn1_time_sub_ok_def sample_crypto_def sample_pad_def)

lemma sample_spki: "compute_spki_hash sample_crypto b = Ok (SpkiHash (sample_pad 32 b))"
  by (simp add: compute_spki_hash_Ok) (simp add: sample_crypto_def sample_pad_def)

theorem credential_export_round_trip_witness:
  "\<exists>e. credential_export sample_aead sample_saved_codec (replicate 12 9) sample_root_credential
        (EncryptionKey [4]) = Ok e
    \<and> credential_decrypt sample_crypto sample_aead sample_saved_codec sample_rcgen e (EncryptionKey [4])
        = Ok sample_root_credential"
proof -
  have "is_ok (credential_export sample_aead sample_saved_codec (replicate 12 9) sample_root_credential
      (EncryptionKey [4]))"
    by code_simp
  then obtain e where e: "credential_export sample_aead sample_saved_codec (replicate 12 9)
      sample_root_credential (EncryptionKey [4]) = Ok e"
    by (auto simp: is_ok_iff)
  have "from_der_and_sign_algo sample_rcgen (kp_serialized_der (cred_keypair sample_root_credential)) PkcsEd25519
      = Ok (cred_keypair sample_root_credential)"
    by (simp add: sample_rcgen_def sample_root_credential_def sample_keypair_def)
  moreover have "credential_new sample_crypto sample_rcgen (cred_keypair sample_root_credential)
      (as_unverified (cred_certificate sample_root_credential)) = Ok sample_root_credential"
    by code_simp
  ultimately show ?thesis
    using credential_export_round_trip [OF sample_aead_ok sample_saved_codec_ok _ _ e] e by blast
qed

text \<open>A finding about credential creation: \<^verbatim>\<open>not_before\<close> and \<^verbatim>\<open>not_after\<close> come from two
  separate clock readings and X.509 times are whole seconds, while \<^verbatim>\<open>from_der\<close> demands the
  exact lifetime. Generating a root credential therefore succeeds exactly when both
  readings fall into the same second, and fails otherwise.\<close>

theorem generate_root_needs_one_second:
  assumes "self_signed_ok C R" "asn1_time_sub_ok C" "sha512_256_ok C" "now1 \<le> now2"
    and "self_signed R (root_params now1 now2
      (SpkiHash (sha512_256 C (subject_public_key_info R (export_public_key kp))))) kp = Ok d"
  shows "is_ok (generate_root C R now1 now2 kp) \<longleftrightarrow> now1 div 10 ^ 9 = now2 div 10 ^ 9"
proof -
  let ?h = "SpkiHash (sha512_256 C (subject_public_key_info R (export_public_key kp)))"
  let ?p = "root_params now1 now2 ?h"
  have after: "p_not_after ?p div 10 ^ 9 = now2 div 10 ^ 9 + validity_duration Root"
    by (simp add: root_params_def not_after_ns_def)
  have before: "p_not_before ?p = now1" by (simp add: root_params_def)
  have pos: "p_not_before ?p div 10 ^ 9 < p_not_after ?p div 10 ^ 9"
    unfolding after before using zdiv_mono1 [OF assms(4), of "10 ^ 9"] validity_duration_pos [of Root] by simp
  have enc: "encodes_params C R ?p (export_public_key kp) d"
    and self: "x509_from_der C d = Ok x \<Longrightarrow> x_issuer x = x_subject x" for x
    using assms(1,5) unfolding self_signed_ok_def by blast+
  have params: "p_common_name ?p = spki_to_string ?h"
      "p_organizational_unit ?p = certificate_type_to_string Root" "p_is_ca ?p = should_be_ca Root"
    by (simp_all add: root_params_def)
  note fd = from_der_self_signed [OF assms(2,3) enc self params disjI1 [OF refl] pos, unfolded after before]
  have gen: "generate_root C R now1 now2 kp
      = and_then (map_err (CreateCertificateError \<circ> CreateParseError) (from_der C d)) (credential_new C R kp)"
    using assms(3,5) by (simp add: generate_root_def)
  show ?thesis
  proof (cases "now1 div 10 ^ 9 = now2 div 10 ^ 9")
    case True
    then obtain c where "from_der C d = Ok c" "spki_hash c = ?h"
      using fd(1) by auto
    then show ?thesis using True assms(3) by (simp add: gen credential_new_def)
  next
    case False
    then have "\<exists>e. from_der C d = Err e"
      using fd(2) by auto
    then show ?thesis using False by (auto simp: gen)
  qed
qed

theorem generate_root_needs_one_second_witness:
  "is_ok (generate_root sample_crypto sample_rcgen 500000000 600000000 sample_keypair)"
proof -
  have "self_signed_ok sample_crypto sample_rcgen"
    by (auto simp: self_signed_ok_def encodes_params_def sample_rcgen_def sample_crypto_def
        sample_keypair_def export_public_key_def root_params_def not_after_ns_def sample_name_def
        sample_type_def spki_to_string_def)
  moreover have "self_signed sample_rcgen (root_params 500000000 600000000
      (SpkiHash (sha512_256 sample_crypto
        (subject_public_key_info sample_rcgen (export_public_key sample_keypair))))) sample_keypair
      = Ok [0, 7, 7, 0]"
    by (simp add: sample_rcgen_def sample_crypto_def export_public_key_def sample_keypair_def)
  ultimately show ?thesis
    using generate_root_needs_one_second [of sample_crypto sample_rcgen 500000000 600000000 sample_keypair]
    by simp
qed

end
