(* ===== verification/SecureChain.thy ===== *)
theory SecureChain
  imports Credential
begin

text \<open>
  The signed, hash-linked transaction chain (\<^verbatim>\<open>svalin_pki/src/secure_chain.rs\<close>). The trait
  \<^verbatim>\<open>ChainState\<close> is the record \<^verbatim>\<open>chain_state\<close> of its operations, which every function of
  \<^verbatim>\<open>Chain<State>\<close> takes; a hasher is the byte string fed to it. What the chain relies on of
  a state is the locale \<^verbatim>\<open>chain_state_laws\<close>; the facts about chains are proved there once
  and hold for every state that satisfies it.
\<close>

section \<open>Chain states and blocks\<close>

text \<open>\<^verbatim>\<open>apply\<close> may panic (\<^verbatim>\<open>None\<close>): it \<^verbatim>\<open>expect\<close>s that the transaction was checked.\<close>

record ('st, 'tx, 'err, 'ex, 'ierr) chain_state =
  cs_check :: "'st \<Rightarrow> spki_hash \<Rightarrow> u64 \<Rightarrow> 'tx \<Rightarrow> (unit, 'err) result"
  cs_apply :: "'st \<Rightarrow> spki_hash \<Rightarrow> u64 \<Rightarrow> 'tx \<Rightarrow> 'st option"
  cs_revert :: "'st \<Rightarrow> 'tx \<Rightarrow> 'st"
  cs_digest :: "'st \<Rightarrow> bytes"
  cs_export :: "'st \<Rightarrow> 'ex"
  cs_import :: "'ex \<Rightarrow> ('st, 'ierr) result"
  tx_digest :: "'tx \<Rightarrow> bytes"

type_synonym block_digest = bytes
type_synonym state_digest = bytes
type_synonym chain_digest = bytes

definition block_digest_empty :: block_digest where
  "block_digest_empty = replicate 64 0"

record 'tx unchecked_block =
  block_sequence :: u64
  block_time :: u64
  previous_block_hash :: block_digest
  resulting_state :: state_digest
  block_signer :: spki_hash
  block_transaction :: 'tx
  block_signature :: bytes

datatype 'tx checked_block = CheckedBlock (as_unchecked: "'tx unchecked_block")

record ('st, 'tx) chain =
  last_block :: "'tx checked_block option"
  chain_st :: 'st

record ('ex, 'tx) exported_chain =
  exported_state :: 'ex
  exported_last_block :: "'tx unchecked_block option"

datatype 'err check_block_error =
    SequenceMismatch
  | PreviousBlockHashMismatch
  | TimeToEarly u64 u64
  | IncorrectCertificate
  | BlockSignatureVerificationFailed
  | InvalidTransaction 'err
  | ResultingStateMismatch
  | TimeInFuture

datatype 'err create_block_error = CreateInvalidTransaction 'err

datatype 'ierr chain_import_error = ChainImportError 'ierr | IncorrectStateDigest

section \<open>Digests\<close>

text \<open>The bytes fed to the hasher for a block; the signature is not part of them.\<close>

definition block_encoding ::
  "('st, 'tx, 'err, 'ex, 'ierr) chain_state \<Rightarrow> 'tx unchecked_block \<Rightarrow> bytes" where
  "block_encoding T b =
    u64_to_le_bytes (block_sequence b) @ u64_to_le_bytes (block_time b)
    @ previous_block_hash b @ resulting_state b @ spki_bytes (block_signer b)
    @ tx_digest T (block_transaction b)"

definition block_digest ::
  "('st, 'tx, 'err, 'ex, 'ierr) chain_state \<Rightarrow> crypto \<Rightarrow> 'tx unchecked_block \<Rightarrow> block_digest" where
  "block_digest T C b = sha512 C (block_encoding T b)"

definition state_digest ::
  "('st, 'tx, 'err, 'ex, 'ierr) chain_state \<Rightarrow> crypto \<Rightarrow> 'st \<Rightarrow> state_digest" where
  "state_digest T C s = sha512 C (cs_digest T s)"

text \<open>\<^verbatim>\<open>PartialEq\<close> of blocks: digests and signatures.\<close>

definition block_eq ::
  "('st, 'tx, 'err, 'ex, 'ierr) chain_state \<Rightarrow> crypto \<Rightarrow> 'tx unchecked_block \<Rightarrow> 'tx unchecked_block \<Rightarrow> bool" where
  "block_eq T C a b \<longleftrightarrow> block_digest T C a = block_digest T C b \<and> block_signature a = block_signature b"

section \<open>Operations\<close>

definition chain_initialize :: "'st \<Rightarrow> ('st, 'tx) chain" where
  "chain_initialize s = \<lparr> last_block = None, chain_st = s \<rparr>"

text \<open>The block that follows the last one, before it is signed.\<close>

definition next_block ::
  "('st, 'tx, 'err, 'ex, 'ierr) chain_state \<Rightarrow> crypto \<Rightarrow> 'tx checked_block option \<Rightarrow> u64
    \<Rightarrow> state_digest \<Rightarrow> spki_hash \<Rightarrow> 'tx \<Rightarrow> 'tx unchecked_block" where
  "next_block T C lb timestamp new_digest signer_hash tx =
    (case lb of
       Some l \<Rightarrow> \<lparr> block_sequence = block_sequence (as_unchecked l) + 1, block_time = timestamp,
         previous_block_hash = block_digest T C (as_unchecked l), resulting_state = new_digest,
         block_signer = signer_hash, block_transaction = tx, block_signature = [] \<rparr>
     | None \<Rightarrow> \<lparr> block_sequence = 1, block_time = timestamp,
         previous_block_hash = block_digest_empty, resulting_state = new_digest,
         block_signer = signer_hash, block_transaction = tx, block_signature = [] \<rparr>)"

definition chain_package ::
  "('st, 'tx, 'err, 'ex, 'ierr) chain_state \<Rightarrow> crypto \<Rightarrow> u64 \<Rightarrow> ('st, 'tx) chain \<Rightarrow> 'tx \<Rightarrow> credential
    \<Rightarrow> ('tx checked_block, 'err create_block_error) result \<times> ('st, 'tx) chain" where
  "chain_package T C timestamp self tx cred =
    (let signer_hash = cert_spki (cred_certificate cred) in
     case cs_check T (chain_st self) signer_hash timestamp tx of
       Err reason \<Rightarrow> (Err (CreateInvalidTransaction reason), self)
     | Panicked \<Rightarrow> (Panicked, self)
     | Ok _ \<Rightarrow>
       (case cs_apply T (chain_st self) signer_hash timestamp tx of
          None \<Rightarrow> (Panicked, self)
        | Some applied \<Rightarrow>
           let new_digest = state_digest T C applied;
               self' = self \<lparr> chain_st := cs_revert T applied tx \<rparr>;
               block = next_block T C (last_block self') timestamp new_digest signer_hash tx;
               signature = sign C (cred_keypair cred) (block_digest T C block)
           in (Ok (CheckedBlock (block \<lparr> block_signature := signature \<rparr>)), self')))"

text \<open>The checks against the last block.\<close>

definition check_position ::
  "('st, 'tx, 'err, 'ex, 'ierr) chain_state \<Rightarrow> crypto \<Rightarrow> 'tx checked_block option
    \<Rightarrow> 'tx unchecked_block \<Rightarrow> (unit, 'err check_block_error) result" where
  "check_position T C lb block =
    (case lb of
       Some l \<Rightarrow>
         if block_sequence block \<noteq> block_sequence (as_unchecked l) + 1 then Err SequenceMismatch
         else if previous_block_hash block \<noteq> block_digest T C (as_unchecked l)
         then Err PreviousBlockHashMismatch
         else if block_time block < block_time (as_unchecked l)
         then Err (TimeToEarly (block_time block) (block_time (as_unchecked l)))
         else Ok ()
     | None \<Rightarrow>
         if block_sequence block \<noteq> 1 then Err SequenceMismatch
         else if previous_block_hash block \<noteq> block_digest_empty then Err PreviousBlockHashMismatch
         else Ok ())"

definition chain_check ::
  "('st, 'tx, 'err, 'ex, 'ierr) chain_state \<Rightarrow> crypto \<Rightarrow> u64 \<Rightarrow> ('st, 'tx) chain
    \<Rightarrow> 'tx unchecked_block \<Rightarrow> certificate
    \<Rightarrow> ('tx checked_block, 'err check_block_error) result \<times> ('st, 'tx) chain" where
  "chain_check T C now self block cert =
    (case check_position T C (last_block self) block of
       Err e \<Rightarrow> (Err e, self)
     | Panicked \<Rightarrow> (Panicked, self)
     | Ok _ \<Rightarrow>
       if block_time block > now then (Err TimeInFuture, self)
       else if block_signer block \<noteq> cert_spki cert then (Err IncorrectCertificate, self)
       else if \<not> ed25519_verify C (public_key (as_unverified cert))
           (block_digest T C block) (block_signature block)
       then (Err BlockSignatureVerificationFailed, self)
       else
         (case cs_check T (chain_st self) (block_signer block) (block_time block) (block_transaction block) of
            Err reason \<Rightarrow> (Err (InvalidTransaction reason), self)
          | Panicked \<Rightarrow> (Panicked, self)
          | Ok _ \<Rightarrow>
            (case cs_apply T (chain_st self) (block_signer block) (block_time block) (block_transaction block) of
               None \<Rightarrow> (Panicked, self)
             | Some applied \<Rightarrow>
                let new_digest = state_digest T C applied;
                    self' = self \<lparr> chain_st := cs_revert T applied (block_transaction block) \<rparr>
                in if resulting_state block \<noteq> new_digest then (Err ResultingStateMismatch, self')
                   else (Ok (CheckedBlock block), self'))))"

definition chain_apply ::
  "('st, 'tx, 'err, 'ex, 'ierr) chain_state \<Rightarrow> crypto \<Rightarrow> ('st, 'tx) chain \<Rightarrow> 'tx checked_block
    \<Rightarrow> ('st, 'tx) chain option" where
  "chain_apply T C self block =
    (let b = as_unchecked block in
     case cs_apply T (chain_st self) (block_signer b) (block_time b) (block_transaction b) of
       None \<Rightarrow> None
     | Some s \<Rightarrow>
        if resulting_state b \<noteq> state_digest T C s then None
        else Some \<lparr> last_block = Some block, chain_st = s \<rparr>)"

definition chain_digest ::
  "('st, 'tx, 'err, 'ex, 'ierr) chain_state \<Rightarrow> crypto \<Rightarrow> ('st, 'tx) chain \<Rightarrow> chain_digest" where
  "chain_digest T C self =
    (let bd = (case last_block self of None \<Rightarrow> block_digest_empty | Some b \<Rightarrow> block_digest T C (as_unchecked b))
     in sha512 C (bd @ cs_digest T (chain_st self)))"

definition chain_export ::
  "('st, 'tx, 'err, 'ex, 'ierr) chain_state \<Rightarrow> ('st, 'tx) chain \<Rightarrow> ('ex, 'tx) exported_chain" where
  "chain_export T self =
    \<lparr> exported_state = cs_export T (chain_st self),
      exported_last_block = map_option as_unchecked (last_block self) \<rparr>"

definition chain_import ::
  "('st, 'tx, 'err, 'ex, 'ierr) chain_state \<Rightarrow> crypto \<Rightarrow> ('ex, 'tx) exported_chain
    \<Rightarrow> (('st, 'tx) chain, 'ierr chain_import_error) result" where
  "chain_import T C exported =
    and_then (map_err ChainImportError (cs_import T (exported_state exported))) (\<lambda>s.
    (case exported_last_block exported of
       Some l \<Rightarrow>
         if resulting_state l \<noteq> state_digest T C s then Err IncorrectStateDigest
         else Ok \<lparr> last_block = Some (CheckedBlock l), chain_st = s \<rparr>
     | None \<Rightarrow> Ok \<lparr> last_block = None, chain_st = s \<rparr>))"

definition chain_sequence :: "('st, 'tx) chain \<Rightarrow> u64" where
  "chain_sequence self = (case last_block self of None \<Rightarrow> 0 | Some b \<Rightarrow> block_sequence (as_unchecked b))"

section \<open>Histories\<close>

text \<open>A history: blocks that were checked, each against the certificate given for it at
  some time, and then applied.\<close>

inductive chain_run ::
  "('st, 'tx, 'err, 'ex, 'ierr) chain_state \<Rightarrow> crypto \<Rightarrow> ('st, 'tx) chain
    \<Rightarrow> ('tx unchecked_block \<times> certificate) list \<Rightarrow> ('st, 'tx) chain \<Rightarrow> bool"
  for T :: "('st, 'tx, 'err, 'ex, 'ierr) chain_state" and C c0
where
  run_nil: "chain_run T C c0 [] c0"
| run_step: "chain_run T C c0 bs c \<Longrightarrow> chain_check T C now c b cert = (Ok cb, c') \<Longrightarrow>
    chain_apply T C c' cb = Some c'' \<Longrightarrow> chain_run T C c0 (bs @ [(b, cert)]) c''"

inductive_cases chain_run_nilE [elim!]: "chain_run T C c0 [] c"

text \<open>The sizes of the fixed arrays in a block.\<close>

definition block_wf :: "'tx unchecked_block \<Rightarrow> bool" where
  "block_wf b \<longleftrightarrow> length (previous_block_hash b) = 64 \<and> length (resulting_state b) = 64
    \<and> spki_hash_wf (block_signer b)"

text \<open>What block \<^verbatim>\<open>i\<close> of a log must be, given its predecessors.\<close>

definition log_entry_ok ::
  "('st, 'tx, 'err, 'ex, 'ierr) chain_state \<Rightarrow> crypto
    \<Rightarrow> ('tx unchecked_block \<times> certificate) list \<Rightarrow> nat \<Rightarrow> bool" where
  "log_entry_ok T C bs i \<longleftrightarrow>
    (let b = fst (bs ! i); cert = snd (bs ! i) in
      block_sequence b = of_nat (Suc i)
      \<and> previous_block_hash b = (if i = 0 then block_digest_empty else block_digest T C (fst (bs ! (i - 1))))
      \<and> (i = 0 \<or> block_time (fst (bs ! (i - 1))) \<le> block_time b)
      \<and> block_signer b = cert_spki cert
      \<and> ed25519_verify C (public_key (as_unverified cert)) (block_digest T C b) (block_signature b))"

text \<open>The state after applying the transactions of a list of blocks.\<close>

definition replay ::
  "('st, 'tx, 'err, 'ex, 'ierr) chain_state \<Rightarrow> 'st \<Rightarrow> 'tx unchecked_block list \<Rightarrow> 'st option" where
  "replay T s0 bs = foldl (\<lambda>acc b. Option.bind acc (\<lambda>s.
     cs_apply T s (block_signer b) (block_time b) (block_transaction b))) (Some s0) bs"

text \<open>The signed content of a block.\<close>

definition block_content ::
  "('st, 'tx, 'err, 'ex, 'ierr) chain_state \<Rightarrow> 'tx unchecked_block
    \<Rightarrow> u64 \<times> u64 \<times> bytes \<times> bytes \<times> spki_hash \<times> bytes" where
  "block_content T b = (block_sequence b, block_time b, previous_block_hash b, resulting_state b,
     block_signer b, tx_digest T (block_transaction b))"

section \<open>What the chain relies on of a state\<close>

text \<open>A well-formed transaction (as the deserializer produces them) that passed \<^verbatim>\<open>check\<close> can be
  applied without panicking, applying keeps the state's invariant, and \<^verbatim>\<open>revert\<close> undoes
  exactly this application.\<close>

locale chain_state_laws =
  fixes T :: "('st, 'tx, 'err, 'ex, 'ierr) chain_state"
    and st_inv :: "'st \<Rightarrow> bool"
    and tx_ok :: "'tx \<Rightarrow> bool"
  assumes apply_checked:
      "st_inv s \<Longrightarrow> tx_ok tx \<Longrightarrow> cs_check T s k t tx = Ok () \<Longrightarrow> \<exists>s'. cs_apply T s k t tx = Some s'"
    and apply_inv:
      "st_inv s \<Longrightarrow> tx_ok tx \<Longrightarrow> cs_check T s k t tx = Ok () \<Longrightarrow> cs_apply T s k t tx = Some s'
        \<Longrightarrow> st_inv s'"
    and revert_apply:
      "st_inv s \<Longrightarrow> tx_ok tx \<Longrightarrow> cs_check T s k t tx = Ok () \<Longrightarrow> cs_apply T s k t tx = Some s'
        \<Longrightarrow> cs_revert T s' tx = s"
begin

lemma checked_appliesE:
  assumes "st_inv s" "tx_ok tx" "cs_check T s k t tx = Ok ()"
  obtains s' where "cs_apply T s k t tx = Some s'" "st_inv s'" "cs_revert T s' tx = s"
  using apply_checked [OF assms] apply_inv [OF assms] revert_apply [OF assms] by blast

lemma chain_check_unchanged:
  assumes "st_inv (chain_st c)" "tx_ok (block_transaction b)"
  shows "snd (chain_check T C now c b cert) = c"
proof (cases "cs_check T (chain_st c) (block_signer b) (block_time b) (block_transaction b)")
  case (Ok u)
  then obtain s' where "cs_apply T (chain_st c) (block_signer b) (block_time b) (block_transaction b) = Some s'"
      "cs_revert T s' (block_transaction b) = chain_st c"
    using assms by (auto elim: checked_appliesE)
  then show ?thesis
    using Ok by (auto simp: chain_check_def Let_def split: result.splits)
qed (auto simp: chain_check_def split: result.splits)

lemma chain_check_Ok_iff:
  shows "fst (chain_check T C now c b cert) = Ok cb \<longleftrightarrow>
    cb = CheckedBlock b
    \<and> check_position T C (last_block c) b = Ok ()
    \<and> block_time b \<le> now
    \<and> block_signer b = cert_spki cert
    \<and> ed25519_verify C (public_key (as_unverified cert)) (block_digest T C b) (block_signature b)
    \<and> cs_check T (chain_st c) (block_signer b) (block_time b) (block_transaction b) = Ok ()
    \<and> (\<exists>s'. cs_apply T (chain_st c) (block_signer b) (block_time b) (block_transaction b) = Some s'
         \<and> resulting_state b = state_digest T C s')"
  by (auto simp: chain_check_def Let_def not_less split: result.splits option.splits if_splits)

lemma chain_check_no_panic:
  assumes "st_inv (chain_st c)" "tx_ok (block_transaction b)"
    and "cs_check T (chain_st c) (block_signer b) (block_time b) (block_transaction b) \<noteq> Panicked"
  shows "fst (chain_check T C now c b cert) \<noteq> Panicked"
proof -
  have pos: "check_position T C (last_block c) b \<noteq> Panicked"
    by (auto simp: check_position_def split: option.splits)
  show ?thesis
  proof (cases "cs_check T (chain_st c) (block_signer b) (block_time b) (block_transaction b)")
    case (Ok u)
    then obtain s' where "cs_apply T (chain_st c) (block_signer b) (block_time b) (block_transaction b) = Some s'"
      using assms(1,2) by (auto elim: checked_appliesE)
    then show ?thesis
      using pos Ok by (auto simp: chain_check_def Let_def split: result.splits if_splits)
  qed (use pos assms(3) in \<open>auto simp: chain_check_def split: result.splits\<close>)
qed

lemma chain_apply_checked:
  assumes "st_inv (chain_st c)" "tx_ok (block_transaction b)" "chain_check T C now c b cert = (Ok cb, c')"
  shows "\<exists>c''. chain_apply T C c' cb = Some c'' \<and> st_inv (chain_st c'')
    \<and> last_block c'' = Some (CheckedBlock b)
    \<and> resulting_state b = state_digest T C (chain_st c'')
    \<and> cs_apply T (chain_st c) (block_signer b) (block_time b) (block_transaction b) = Some (chain_st c'')"
proof -
  have c': "c' = c"
    using chain_check_unchanged [OF assms(1,2), of C now cert] assms(3) by simp
  have "fst (chain_check T C now c b cert) = Ok cb" using assms(3) by simp
  note D = this [unfolded chain_check_Ok_iff]
  from D have cb: "cb = CheckedBlock b"
    and chk: "cs_check T (chain_st c) (block_signer b) (block_time b) (block_transaction b) = Ok ()"
    and "\<exists>s'. cs_apply T (chain_st c) (block_signer b) (block_time b) (block_transaction b) = Some s'
         \<and> resulting_state b = state_digest T C s'"
    by blast+
  then show ?thesis
    using apply_inv [OF assms(1,2) chk] by (auto simp: chain_apply_def c' cb)
qed

lemma chain_package_unchanged:
  assumes "st_inv (chain_st c)" "tx_ok tx"
  shows "snd (chain_package T C now c tx cred) = c"
proof (cases "cs_check T (chain_st c) (cert_spki (cred_certificate cred)) now tx")
  case (Ok u)
  then obtain s' where "cs_apply T (chain_st c) (cert_spki (cred_certificate cred)) now tx = Some s'"
      "cs_revert T s' tx = chain_st c"
    using assms by (auto elim: checked_appliesE)
  then show ?thesis
    using Ok by (simp add: chain_package_def Let_def)
qed (auto simp: chain_package_def Let_def)

lemma chain_package_checks:
  assumes inv: "st_inv (chain_st c)" "tx_ok tx"
    and pk: "fst (chain_package T C now c tx cred) = Ok cb"
    and key: "\<And>msg. ed25519_verify C (public_key (as_unverified (cred_certificate cred))) msg
      (sign C (cred_keypair cred) msg)"
    and clock: "\<And>l. last_block c = Some l \<Longrightarrow> block_time (as_unchecked l) \<le> now"
    and later: "now \<le> now'"
  shows "chain_check T C now' c (as_unchecked cb) (cred_certificate cred) = (Ok cb, c)"
proof -
  let ?k = "cert_spki (cred_certificate cred)"
  from pk have chk: "cs_check T (chain_st c) ?k now tx = Ok ()"
    by (auto simp: chain_package_def Let_def split: result.splits option.splits)
  then obtain s' where s': "cs_apply T (chain_st c) ?k now tx = Some s'" "cs_revert T s' tx = chain_st c"
    using inv by (auto elim: checked_appliesE)
  define b where "b = next_block T C (last_block c) now (state_digest T C s') ?k tx"
  have cb: "cb = CheckedBlock (b \<lparr> block_signature := sign C (cred_keypair cred) (block_digest T C b) \<rparr>)"
    using pk chk s' by (simp add: chain_package_def Let_def b_def)
  have fields: "block_time b = now" "block_signer b = ?k" "block_transaction b = tx"
      "resulting_state b = state_digest T C s'"
    by (simp_all add: b_def next_block_def split: option.splits)
  have enc: "block_digest T C (b \<lparr> block_signature := s \<rparr>) = block_digest T C b" for s
    by (simp add: block_digest_def block_encoding_def)
  have "check_position T C (last_block c) (as_unchecked cb) = Ok ()"
    unfolding cb using clock
    by (auto simp: check_position_def b_def next_block_def not_less split: option.splits)
  then have "fst (chain_check T C now' c (as_unchecked cb) (cred_certificate cred)) = Ok cb"
    unfolding chain_check_Ok_iff using chk s' fields key later by (auto simp: cb enc)
  moreover have "tx_ok (block_transaction (as_unchecked cb))"
    using inv(2) fields(3) by (simp add: cb)
  ultimately show ?thesis
    using chain_check_unchanged [OF inv(1), of "as_unchecked cb" C now' "cred_certificate cred"]
    by (metis prod.collapse)
qed

lemma chain_run_inv:
  assumes "chain_run T C c0 bs c" "st_inv (chain_st c0)"
    and "\<forall>b \<in> set bs. tx_ok (block_transaction (fst b))"
  shows "st_inv (chain_st c)"
  using assms
proof (induction rule: chain_run.induct)
  case (run_step bs c now b cert cb c' c'')
  then show ?case using chain_apply_checked [of c b C now cert cb c'] by auto
qed

lemma chain_run_replay:
  assumes "chain_run T C c0 bs c" "st_inv (chain_st c0)"
    and "\<forall>b \<in> set bs. tx_ok (block_transaction (fst b))"
  shows "replay T (chain_st c0) (map fst bs) = Some (chain_st c)"
  using assms
proof (induction rule: chain_run.induct)
  case (run_step bs c now b cert cb c' c'')
  have "st_inv (chain_st c)"
    using chain_run_inv [OF run_step.hyps(1)] run_step.prems by simp
  then show ?case
    using run_step chain_apply_checked [of c b C now cert cb c'] by (auto simp: replay_def)
qed (simp add: replay_def)

lemma chain_run_digest:
  assumes "chain_run T C c0 bs c" "st_inv (chain_st c0)" "bs \<noteq> []"
    and "\<forall>b \<in> set bs. tx_ok (block_transaction (fst b))"
  shows "last_block c = Some (CheckedBlock (fst (last bs)))
    \<and> resulting_state (fst (last bs)) = state_digest T C (chain_st c)"
  using assms(1,3)
proof (cases rule: chain_run.cases)
  case (run_step bs' c' now b cert cb c'')
  then show ?thesis
    using chain_apply_checked [of c' b C now cert cb c''] chain_run_inv [of C c0 bs' c'] assms(2,4) by auto
qed simp

lemma chain_run_log:
  assumes "chain_run T C (chain_initialize s0) bs c" "st_inv s0" "i < length bs"
    and "\<forall>b \<in> set bs. tx_ok (block_transaction (fst b))"
  shows "log_entry_ok T C bs i"
  using assms(1,3,4)
proof (induction arbitrary: i rule: chain_run.induct)
  case (run_step bs c now b cert cb c' c'')
  let ?bs = "bs @ [(b, cert)]"
  have inv: "st_inv (chain_st c)"
    using chain_run_inv [OF run_step.hyps(1)] assms(2) run_step.prems(2)
    by (simp add: chain_initialize_def)
  have old: "log_entry_ok T C ?bs i \<longleftrightarrow> log_entry_ok T C bs i" if "i < length bs" for i
    using that by (simp add: log_entry_ok_def nth_append less_imp_diff_less)
  show ?case
  proof (cases "i < length bs")
    case True
    then show ?thesis using run_step.IH old run_step.prems(2) by simp
  next
    case False
    then have i: "i = length bs" using run_step.prems by simp
    have chk: "fst (chain_check T C now c b cert) = Ok cb" using run_step.hyps(2) by simp
    note chk = chk [unfolded chain_check_Ok_iff]
    show ?thesis
    proof (cases "bs = []")
      case True
      then have "last_block c = None"
        using run_step.hyps(1) by (auto simp: chain_initialize_def)
      then show ?thesis
        using chk True i by (auto simp: log_entry_ok_def check_position_def split: if_splits)
    next
      case False
      have last: "last_block c = Some (CheckedBlock (fst (last bs)))"
        using chain_run_digest [OF run_step.hyps(1) _ False] assms(2) run_step.prems(2)
        by (simp add: chain_initialize_def)
      have seq: "block_sequence (fst (last bs)) = of_nat (length bs)"
        using run_step.IH [of "length bs - 1"] False run_step.prems(2)
        by (cases bs rule: rev_cases) (auto simp: log_entry_ok_def nth_append Let_def)
      have prev: "?bs ! (length bs - 1) = last bs"
        using False by (simp add: nth_append last_conv_nth)
      show ?thesis
        using chk last seq i False prev
        by (auto simp: log_entry_ok_def check_position_def Let_def nth_append not_less split: if_splits)
    qed
  qed
qed simp

lemma chain_import_export:
  assumes "cs_import T (cs_export T (chain_st c)) = Ok (chain_st c)"
    and "\<And>b. last_block c = Some b \<Longrightarrow> resulting_state (as_unchecked b) = state_digest T C (chain_st c)"
  shows "chain_import T C (chain_export T c) = Ok c"
  using assms by (cases "last_block c") (auto simp: chain_import_def chain_export_def)

end

section \<open>Blocks are determined by their digest\<close>

lemma block_encoding_inj:
  assumes "block_wf a" "block_wf b"
  shows "block_encoding T a = block_encoding T b \<longleftrightarrow> block_content T a = block_content T b"
proof -
  have signer: "spki_bytes (block_signer a) = spki_bytes (block_signer b) \<longleftrightarrow> block_signer a = block_signer b"
    using spki_hash.expand by auto
  show ?thesis
    using assms
    by (simp add: block_encoding_def block_content_def block_wf_def spki_hash_wf_def
        append_eq_length_cong u64_to_le_bytes_inj signer)
qed

text \<open>The byte strings hashed for the blocks of a log.\<close>

definition hashed_blocks ::
  "('st, 'tx, 'err, 'ex, 'ierr) chain_state \<Rightarrow> ('tx unchecked_block \<times> certificate) list \<Rightarrow> bytes set" where
  "hashed_blocks T bs = (\<lambda>b. block_encoding T (fst b)) ` set bs"

lemma block_digest_eqD:
  assumes "block_digest T C a = block_digest T C b" "block_wf a" "block_wf b"
    and "inj_on (sha512 C) S" "block_encoding T a \<in> S" "block_encoding T b \<in> S"
  shows "block_content T a = block_content T b"
  using assms block_encoding_inj [of a b T] unfolding block_digest_def by (metis inj_onD)

text \<open>Two logs with equal digests at one position agree up to there, unless two of the
  hashed strings collide.\<close>

lemma log_determined:
  assumes "\<And>i. i < length bs \<Longrightarrow> log_entry_ok T C bs i" "\<And>i. i < length bs' \<Longrightarrow> log_entry_ok T C bs' i"
    and wf: "\<forall>b \<in> set bs \<union> set bs'. block_wf (fst b)"
    and inj: "inj_on (sha512 C) (hashed_blocks T bs \<union> hashed_blocks T bs')"
    and "i < length bs" "i < length bs'"
    and "block_digest T C (fst (bs ! i)) = block_digest T C (fst (bs' ! i))"
  shows "j \<le> i \<Longrightarrow> block_content T (fst (bs ! j)) = block_content T (fst (bs' ! j))"
  using assms(5-7)
proof (induction i)
  case 0
  then show ?case
    using block_digest_eqD [OF 0(4) _ _ inj] wf by (auto simp: hashed_blocks_def)
next
  case (Suc i)
  have content: "block_content T (fst (bs ! Suc i)) = block_content T (fst (bs' ! Suc i))"
    using block_digest_eqD [OF Suc.prems(4) _ _ inj] Suc.prems(2,3) wf by (auto simp: hashed_blocks_def)
  then have "previous_block_hash (fst (bs ! Suc i)) = previous_block_hash (fst (bs' ! Suc i))"
    by (simp add: block_content_def)
  then have "block_digest T C (fst (bs ! i)) = block_digest T C (fst (bs' ! i))"
    using assms(1) [OF Suc.prems(2)] assms(2) [OF Suc.prems(3)] by (simp add: log_entry_ok_def Let_def)
  then show ?case
    using Suc content by (cases "j = Suc i") auto
qed

text \<open>With fewer than \<^verbatim>\<open>2 ^ 64\<close> blocks, the sequence number in the last block is the length.\<close>

lemma log_determined_full:
  assumes log: "\<And>i. i < length bs \<Longrightarrow> log_entry_ok T C bs i" "\<And>i. i < length bs' \<Longrightarrow> log_entry_ok T C bs' i"
    and wf: "\<forall>b \<in> set bs \<union> set bs'. block_wf (fst b)"
    and inj: "inj_on (sha512 C) (hashed_blocks T bs \<union> hashed_blocks T bs')"
    and len: "length bs < 2 ^ 64" "length bs' < 2 ^ 64" "bs \<noteq> []" "bs' \<noteq> []"
    and tip: "block_digest T C (fst (last bs)) = block_digest T C (fst (last bs'))"
  shows "map (\<lambda>b. block_content T (fst b)) bs = map (\<lambda>b. block_content T (fst b)) bs'"
proof -
  have "block_content T (fst (last bs)) = block_content T (fst (last bs'))"
    using block_digest_eqD [OF tip _ _ inj] wf len(3,4) by (auto simp: hashed_blocks_def)
  then have "block_sequence (fst (last bs)) = block_sequence (fst (last bs'))"
    by (simp add: block_content_def)
  then have "(of_nat (length bs) :: u64) = of_nat (length bs')"
    using log(1) [of "length bs - 1"] log(2) [of "length bs' - 1"] len(3,4)
    by (simp add: log_entry_ok_def Let_def last_conv_nth)
  then have eq: "length bs = length bs'"
    using len by (simp add: word_of_nat_eq_iff take_bit_nat_eq_self)
  show ?thesis
  proof (rule nth_equalityI)
    fix j assume "j < length (map (\<lambda>b. block_content T (fst b)) bs)"
    then show "map (\<lambda>b. block_content T (fst b)) bs ! j = map (\<lambda>b. block_content T (fst b)) bs' ! j"
      using log_determined [OF log wf inj, of "length bs - 1" j] tip eq len(3,4)
      by (simp add: last_conv_nth)
  qed (simp add: eq)
qed

end
