(* ===== verification/CertificateChain.thy ===== *)
theory CertificateChain
  imports Certificate
begin

text \<open>
  Certificate chains (\<^verbatim>\<open>svalin_pki/src/certificate_chain.rs\<close>): the builder that collects
  issuers from a leaf upwards, the finished chain from the root downwards, and its
  verification against a root certificate. A method that takes \<^verbatim>\<open>&mut self\<close> returns its
  result with the new builder.
\<close>

section \<open>Definitions\<close>

record certificate_chain_builder =
  builder_certificates :: "unverified_certificate list"
  known_spki_hashes :: "str set"

datatype unverified_certificate_chain =
  UnverifiedCertificateChain (unverified_certificates: "unverified_certificate list")

datatype certificate_chain = CertificateChain (chain_certificates: "certificate list")

datatype add_certificate_error =
    SignatureLoop "unverified_certificate list"
  | AddSignatureVerificationError signature_verification_error
  | WrongParent str str
  | AlreadyFinished

datatype verify_chain_error =
    EmptyChain
  | WrongRoot root_certificate unverified_certificate
  | SignatureVerificationFailed signature_verification_error
  | ChainValidityError validity_error

fun last_opt :: "'a list \<Rightarrow> 'a option" where
  "last_opt [] = None"
| "last_opt (x # xs) = Some (last (x # xs))"

definition chain_leaf :: "certificate_chain \<Rightarrow> (certificate, 'e) result" where
  "chain_leaf c = expect_some (last_opt (chain_certificates c))"

definition take_leaf :: "certificate_chain \<Rightarrow> (certificate, 'e) result" where
  "take_leaf c = expect_some (last_opt (chain_certificates c))"

definition builder_new :: "unverified_certificate \<Rightarrow> certificate_chain_builder" where
  "builder_new leaf_certificate =
    \<lparr> builder_certificates = [leaf_certificate],
      known_spki_hashes = {spki_to_string (spki_hash leaf_certificate)} \<rparr>"

definition push_parent ::
  "certificate_chain_builder \<Rightarrow> unverified_certificate
    \<Rightarrow> (unit, add_certificate_error) result \<times> certificate_chain_builder" where
  "push_parent self parent =
    (case last_opt (builder_certificates self) of
       None \<Rightarrow> (Panicked, self)
     | Some last_cert \<Rightarrow>
        if certificate_type last_cert = Root then (Err AlreadyFinished, self)
        else if issuer last_cert \<noteq> spki_hash parent
        then (Err (WrongParent (spki_to_string (spki_hash last_cert))
          (spki_to_string (spki_hash parent))), self)
        else if spki_to_string (spki_hash parent) \<in> known_spki_hashes self
        then (Err (SignatureLoop (builder_certificates self @ [parent])), self)
        else (Ok (), self \<lparr>
          builder_certificates := builder_certificates self @ [parent],
          known_spki_hashes := insert (spki_to_string (spki_hash parent)) (known_spki_hashes self) \<rparr>))"

definition requested_issuer :: "certificate_chain_builder \<Rightarrow> (spki_hash option, 'e) result" where
  "requested_issuer self =
    and_then (expect_some (last_opt (builder_certificates self))) (\<lambda>last_cert.
    Ok (if certificate_type last_cert = Root then None else Some (issuer last_cert)))"

definition is_finished :: "certificate_chain_builder \<Rightarrow> (bool, 'e) result" where
  "is_finished self =
    and_then (expect_some (last_opt (builder_certificates self))) (\<lambda>last_cert.
    Ok (certificate_type last_cert = Root))"

definition finish :: "certificate_chain_builder \<Rightarrow> (unverified_certificate_chain, unit) result" where
  "finish self =
    and_then (is_finished self) (\<lambda>b.
    if b then Ok (UnverifiedCertificateChain (rev (builder_certificates self))) else Err ())"

fun verify_loop ::
  "crypto \<Rightarrow> root_certificate \<Rightarrow> u64 \<Rightarrow> certificate list \<Rightarrow> unverified_certificate list
    \<Rightarrow> (certificate list, verify_chain_error) result" where
  "verify_loop C root timestamp verified_chain [] = Ok verified_chain"
| "verify_loop C root timestamp verified_chain (current # rest) =
    (let parent = (case last_opt verified_chain of Some p \<Rightarrow> p | None \<Rightarrow> as_certificate root) in
     and_then (map_err SignatureVerificationFailed (verify_signature C current parent timestamp))
       (\<lambda>verified_cert. verify_loop C root timestamp (verified_chain @ [verified_cert]) rest))"

definition chain_verify ::
  "crypto \<Rightarrow> unverified_certificate_chain \<Rightarrow> root_certificate \<Rightarrow> u64
    \<Rightarrow> (certificate_chain, verify_chain_error) result" where
  "chain_verify C self root timestamp =
    (case unverified_certificates self of
       [] \<Rightarrow> Err EmptyChain
     | chain_root # rest \<Rightarrow>
        if \<not> cert_eq chain_root (root_as_unverified root)
        then Err (WrongRoot root chain_root)
        else if length (unverified_certificates self) = 1
        then Ok (CertificateChain [as_certificate root])
        else map_ok CertificateChain (verify_loop C root timestamp [as_certificate root] rest))"

definition unverified_leaf :: "unverified_certificate_chain \<Rightarrow> unverified_certificate option" where
  "unverified_leaf self = last_opt (unverified_certificates self)"

text \<open>What a builder keeps true: it is never empty, every certificate is followed by its
  issuer, and the set of known hashes is exactly the hashes in the list, each once.\<close>

definition builder_inv :: "certificate_chain_builder \<Rightarrow> bool" where
  "builder_inv b \<longleftrightarrow> builder_certificates b \<noteq> []
    \<and> successively (\<lambda>c p. certificate_type c \<noteq> Root \<and> issuer c = spki_hash p) (builder_certificates b)
    \<and> distinct (map spki_hash (builder_certificates b))
    \<and> known_spki_hashes b = (\<lambda>c. spki_to_string (spki_hash c)) ` set (builder_certificates b)"

section \<open>Lemmas\<close>

lemma last_opt_Some: "xs \<noteq> [] \<Longrightarrow> last_opt xs = Some (last xs)"
  by (cases xs) auto

lemma last_opt_eq_Some_iff: "last_opt xs = Some x \<longleftrightarrow> xs \<noteq> [] \<and> last xs = x"
  by (cases xs) auto

lemma last_opt_append [simp]: "last_opt (xs @ [x]) = Some x"
  by (simp add: last_opt_Some)

lemma spki_to_string_inj [simp]: "spki_to_string a = spki_to_string b \<longleftrightarrow> a = b"
  by (auto simp: spki_to_string_def fmt_02X_inj intro: spki_hash.expand)

lemma builder_new_inv [simp]: "builder_inv (builder_new c)"
  by (simp add: builder_inv_def builder_new_def)

lemma builder_inv_known_iff:
  "builder_inv b \<Longrightarrow> spki_to_string h \<in> known_spki_hashes b
    \<longleftrightarrow> h \<in> set (map spki_hash (builder_certificates b))"
  by (auto simp: builder_inv_def)

lemma push_parent_not_panicked:
  "builder_inv b \<Longrightarrow> fst (push_parent b p) \<noteq> Panicked"
  by (auto simp: builder_inv_def push_parent_def last_opt_Some)

lemma push_parent_err_unchanged:
  "push_parent b p = (r, b') \<Longrightarrow> r \<noteq> Ok () \<Longrightarrow> b' = b"
  by (auto simp: push_parent_def split: option.splits if_splits)

lemma push_parent_OkD:
  assumes "push_parent b p = (Ok (), b')"
  shows "builder_certificates b \<noteq> []"
    "certificate_type (last (builder_certificates b)) \<noteq> Root"
    "issuer (last (builder_certificates b)) = spki_hash p"
    "spki_to_string (spki_hash p) \<notin> known_spki_hashes b"
    "b' = b \<lparr> builder_certificates := builder_certificates b @ [p],
      known_spki_hashes := insert (spki_to_string (spki_hash p)) (known_spki_hashes b) \<rparr>"
  using assms by (auto simp: push_parent_def last_opt_eq_Some_iff split: option.splits if_splits)

lemma push_parent_inv:
  assumes "builder_inv b" "push_parent b p = (r, b')"
  shows "builder_inv b'"
proof (cases "r = Ok ()")
  case True
  note D = push_parent_OkD [OF assms(2) [unfolded True]]
  have "spki_hash p \<notin> set (map spki_hash (builder_certificates b))"
    using D(4) assms(1) builder_inv_known_iff by blast
  then show ?thesis
    using D assms(1) by (auto simp: builder_inv_def successively_append_iff)
next
  case False
  then show ?thesis using push_parent_err_unchanged assms by blast
qed

lemma finish_OkD:
  assumes "finish b = Ok ch"
  shows "unverified_certificates ch = rev (builder_certificates b)"
    "builder_certificates b \<noteq> []"
    "certificate_type (last (builder_certificates b)) = Root"
  using assms
  by (auto simp: finish_def is_finished_def result_simps last_opt_eq_Some_iff split: if_splits)

text \<open>The verification loop, as a relation between neighbours of the result.\<close>

definition signed_step :: "crypto \<Rightarrow> u64 \<Rightarrow> certificate \<Rightarrow> certificate \<Rightarrow> bool" where
  "signed_step C t p c \<longleftrightarrow> verify_signature C (as_unverified c) p t = Ok c"

lemma verify_signature_result: "verify_signature C u p t = Ok c \<Longrightarrow> c = Certificate u"
  by (auto elim: verify_signature_OkD)

lemma verify_loop_Ok_iff:
  assumes "acc \<noteq> []"
  shows "verify_loop C root t acc us = Ok cs \<longleftrightarrow>
    cs = acc @ map Certificate us \<and> successively (signed_step C t) (last acc # map Certificate us)"
  using assms
proof (induction us arbitrary: acc)
  case Nil
  then show ?case by auto
next
  case (Cons u us)
  show ?case
  proof (cases "verify_signature C u (last acc) t")
    case (Ok v)
    then have v: "v = Certificate u" by (rule verify_signature_result)
    have "verify_loop C root t acc (u # us) = verify_loop C root t (acc @ [v]) us"
      using Ok Cons.prems by (simp add: last_opt_Some Let_def)
    then show ?thesis
      using Cons.IH [of "acc @ [v]"] Ok v by (simp add: signed_step_def)
  next
    case (Err e)
    then show ?thesis using Cons.prems
      by (auto simp: last_opt_Some Let_def signed_step_def)
  next
    case Panicked
    then show ?thesis using Cons.prems
      by (auto simp: last_opt_Some Let_def signed_step_def)
  qed
qed

lemma chain_verify_Ok_iff:
  "chain_verify C ch root t = Ok vc \<longleftrightarrow>
    unverified_certificates ch \<noteq> []
    \<and> cert_eq (hd (unverified_certificates ch)) (root_as_unverified root)
    \<and> chain_certificates vc = as_certificate root # map Certificate (tl (unverified_certificates ch))
    \<and> successively (signed_step C t) (chain_certificates vc)"
proof (cases "unverified_certificates ch")
  case Nil
  then show ?thesis by (simp add: chain_verify_def)
next
  case (Cons u us)
  have "map_ok CertificateChain r = Ok vc \<longleftrightarrow> r = Ok (chain_certificates vc)"
    for r :: "(certificate list, verify_chain_error) result"
    by (cases r) auto
  moreover have "CertificateChain xs = vc \<longleftrightarrow> chain_certificates vc = xs" for xs
    by auto
  ultimately show ?thesis
    using Cons verify_loop_Ok_iff [of "[as_certificate root]" C root t us "chain_certificates vc"]
    by (auto simp: chain_verify_def)
qed

section \<open>Properties\<close>

text \<open>C21. Verifying a chain succeeds exactly when the chain is not empty, starts with the
  expected root certificate and every later certificate passes \<^verbatim>\<open>verify_signature\<close> under
  its predecessor at the given time; the result is the root followed by the presented
  certificates in order, and its leaf is defined.\<close>

theorem chain_verify_exact:
  "chain_verify C (UnverifiedCertificateChain us) root t = Ok (CertificateChain vs) \<longleftrightarrow>
    us \<noteq> [] \<and> der (hd us) = der (root_as_unverified root)
    \<and> vs = as_certificate root # map Certificate (tl us)
    \<and> successively (\<lambda>p c. verify_signature C (as_unverified c) p t = Ok c) vs
    \<and> take_leaf (CertificateChain vs) = (Ok (last vs) :: (certificate, unit) result)"
  unfolding chain_verify_Ok_iff
  by (auto simp: cert_eq_def signed_step_def [abs_def] take_leaf_def last_opt_Some)

text \<open>In a verified chain every certificate but the leaf is of type root or user,
  and every certificate after the first is no root certificate and valid at the
  verification time. (The validity of the root itself is not checked.)\<close>

theorem verified_chain_types:
  assumes "chain_verify C ch root t = Ok vc"
  shows "(\<forall>c \<in> set (butlast (chain_certificates vc)). is_user (cert_type c))
    \<and> (\<forall>c \<in> set (tl (chain_certificates vc)).
        cert_type c \<noteq> Root \<and> check_validity_at (as_unverified c) t = Ok ())"
proof -
  have succ: "successively (signed_step C t) cs \<Longrightarrow>
      (\<forall>c \<in> set (butlast cs). is_user (cert_type c)) \<and>
      (\<forall>c \<in> set (tl cs). cert_type c \<noteq> Root \<and> check_validity_at (as_unverified c) t = Ok ())" for cs
  proof (induction cs rule: induct_list012)
    case (3 a b cs)
    then have "signed_step C t a b" by simp
    then have "is_user (cert_type a)" "cert_type b \<noteq> Root" "check_validity_at (as_unverified b) t = Ok ()"
      unfolding signed_step_def
      by (auto elim!: verify_signature_OkD dest: may_be_parent_of_is_user may_be_parent_of_child)
    with 3 show ?case by auto
  qed auto
  from assms have "successively (signed_step C t) (chain_certificates vc)"
    unfolding chain_verify_Ok_iff by blast
  then show ?thesis by (rule succ)
qed

theorem verified_chain_types_witness:
  "is_user (cert_type (Certificate (sample_cert Root 0 7 7 100)))
   \<and> check_validity_at (sample_cert Agent 3 9 7 100) 20000000 = Ok ()"
proof -
  let ?r = "sample_cert Root 0 7 7 100" and ?a = "sample_cert Agent 3 9 7 100"
  have "chain_verify sample_crypto (UnverifiedCertificateChain [?r, ?a]) (RootCertificate (Certificate ?r)) 20000000
      = Ok (CertificateChain [Certificate ?r, Certificate ?a])"
    by code_simp
  from verified_chain_types [OF this] show ?thesis
    by (auto simp: sample_cert_def)
qed

end
