(* ===== verification/TrustStore.thy ===== *)
theory TrustStore
  imports SecureChain CertificateChain
begin

text \<open>
  The trust store (\<^verbatim>\<open>svalin_pki/src/trust_store.rs\<close>): the certificates of a system as the
  state of a secure chain. Hash maps are finite maps; where the source iterates over a
  hash map in unspecified order, the model takes ascending key order, and
  \<^verbatim>\<open>import_perm\<close> below shows that importing does not depend on it.
\<close>

section \<open>State and transactions\<close>

record trust_state =
  ts_root :: root_certificate
  ts_certificates :: "(spki_hash, certificate) fmap"

datatype ts_transaction =
    Add unverified_certificate
  | RemoveExpired unverified_certificate

datatype ts_error =
    SignerNotKnown
  | IssuerIsNotSigner
  | CertificateAlreadyExists
  | CertificateInvalid signature_verification_error
  | CertificateNotExpired
  | CertificateNotFound
  | CertificateDoesNotMatch

record exported_trust_state =
  ex_root :: unverified_certificate
  ex_certificates :: "unverified_certificate list"

datatype inner_import_error = RootError use_as_root_error | MissingIssuers "spki_hash list"

datatype complete_cert_chain_error = NotFound spki_hash | AddCertificateError add_certificate_error

definition state_initialize :: "root_certificate \<Rightarrow> trust_state" where
  "state_initialize root = \<lparr> ts_root = root,
     ts_certificates = fmupd (cert_spki (as_certificate root)) (as_certificate root) fmempty \<rparr>"

fun transaction_digest :: "ts_transaction \<Rightarrow> bytes" where
  "transaction_digest (Add certificate) = utf8 ''add'' @ der certificate"
| "transaction_digest (RemoveExpired certificate) = utf8 ''remove_expired'' @ der certificate"

definition state_check ::
  "crypto \<Rightarrow> trust_state \<Rightarrow> spki_hash \<Rightarrow> u64 \<Rightarrow> ts_transaction \<Rightarrow> (unit, ts_error) result" where
  "state_check C self signer time transaction =
    and_then (ok_or SignerNotKnown (fmlookup (ts_certificates self) signer)) (\<lambda>signer_cert.
    (case transaction of
       Add cert \<Rightarrow>
         if fmlookup (ts_certificates self) (spki_hash cert) \<noteq> None then Err CertificateAlreadyExists
         else if cert_spki signer_cert \<noteq> issuer cert then Err IssuerIsNotSigner
         else map_ok (\<lambda>_. ()) (map_err CertificateInvalid (verify_signature C cert signer_cert time))
     | RemoveExpired cert \<Rightarrow>
         (case fmlookup (ts_certificates self) (spki_hash cert) of
            None \<Rightarrow> Err CertificateNotFound
          | Some found_certificate \<Rightarrow>
             if \<not> cert_eq (as_unverified found_certificate) cert then Err CertificateDoesNotMatch
             else (case check_validity_at cert time of
                 Ok _ \<Rightarrow> Err CertificateNotExpired
               | Err _ \<Rightarrow> Ok ()
               | Panicked \<Rightarrow> Panicked))))"

definition state_apply ::
  "crypto \<Rightarrow> trust_state \<Rightarrow> spki_hash \<Rightarrow> u64 \<Rightarrow> ts_transaction \<Rightarrow> trust_state option" where
  "state_apply C self signer time transaction =
    (case transaction of
       Add unverified \<Rightarrow>
         (case fmlookup (ts_certificates self) (issuer unverified) of
            None \<Rightarrow> None
          | Some signer_cert \<Rightarrow>
             (case verify_signature C unverified signer_cert time of
                Ok cert \<Rightarrow> Some (self \<lparr> ts_certificates := fmupd (cert_spki cert) cert (ts_certificates self) \<rparr>)
              | _ \<Rightarrow> None))
     | RemoveExpired cert \<Rightarrow>
         Some (self \<lparr> ts_certificates := fmdrop (spki_hash cert) (ts_certificates self) \<rparr>))"

definition state_revert :: "trust_state \<Rightarrow> ts_transaction \<Rightarrow> trust_state" where
  "state_revert self transaction =
    (case transaction of
       Add cert \<Rightarrow> self \<lparr> ts_certificates := fmdrop (spki_hash cert) (ts_certificates self) \<rparr>
     | RemoveExpired cert \<Rightarrow>
         self \<lparr> ts_certificates := fmupd (spki_hash cert) (mark_as_trusted cert) (ts_certificates self) \<rparr>)"

definition state_digest_bytes :: "trust_state \<Rightarrow> bytes" where
  "state_digest_bytes self =
    der (root_as_unverified (ts_root self))
    @ concat (map (\<lambda>key. cert_der (the (fmlookup (ts_certificates self) key)))
        (sorted_list_of_fset (fmdom (ts_certificates self))))"

definition state_export :: "trust_state \<Rightarrow> exported_trust_state" where
  "state_export self =
    \<lparr> ex_root = root_as_unverified (ts_root self),
      ex_certificates = map (\<lambda>key. as_unverified (the (fmlookup (ts_certificates self) key)))
        (sorted_list_of_fset (fmdom (ts_certificates self))) \<rparr>"

text \<open>One round of the loop of \<^verbatim>\<open>import\<close>: \<^verbatim>\<open>insert\<close> overwrites, \<^verbatim>\<open>or_insert\<close> does not.\<close>

definition import_seen_step :: "(spki_hash, bool) fmap \<Rightarrow> unverified_certificate \<Rightarrow> (spki_hash, bool) fmap" where
  "import_seen_step seen cert =
    (let seen' = fmupd (spki_hash cert) True seen in
     if fmlookup seen' (issuer cert) = None then fmupd (issuer cert) False seen' else seen')"

definition import_collect :: "unverified_certificate list \<Rightarrow> (spki_hash, certificate) fmap" where
  "import_collect certs = foldl (\<lambda>m cert. fmupd (spki_hash cert) (mark_as_trusted cert) m) fmempty certs"

definition state_import :: "exported_trust_state \<Rightarrow> (trust_state, inner_import_error) result" where
  "state_import exported =
    and_then (map_err RootError (use_as_root (ex_root exported))) (\<lambda>root.
    let seen = foldl import_seen_step fmempty (ex_certificates exported);
        missing = filter (\<lambda>k. fmlookup seen k = Some False) (sorted_list_of_fset (fmdom seen))
    in if missing \<noteq> [] then Err (MissingIssuers missing)
       else Ok \<lparr> ts_root = root, ts_certificates = import_collect (ex_certificates exported) \<rparr>)"

text \<open>The implementation of the trait \<^verbatim>\<open>ChainState\<close>.\<close>

definition trust_state_ops ::
  "crypto \<Rightarrow> (trust_state, ts_transaction, ts_error, exported_trust_state, inner_import_error) chain_state" where
  "trust_state_ops C = \<lparr> cs_check = state_check C, cs_apply = state_apply C, cs_revert = state_revert,
     cs_digest = state_digest_bytes, cs_export = state_export, cs_import = state_import,
     tx_digest = transaction_digest \<rparr>"

section \<open>The trust store\<close>

type_synonym trust_store = "(trust_state, ts_transaction) chain"

definition trust_store_initialize :: "root_certificate \<Rightarrow> trust_store" where
  "trust_store_initialize root = chain_initialize (state_initialize root)"

definition trust_store_check ::
  "crypto \<Rightarrow> u64 \<Rightarrow> trust_store \<Rightarrow> ts_transaction unchecked_block
    \<Rightarrow> (ts_transaction checked_block, ts_error check_block_error) result \<times> trust_store" where
  "trust_store_check C now self block =
    (case fmlookup (ts_certificates (chain_st self)) (block_signer block) of
       None \<Rightarrow> (Err (InvalidTransaction SignerNotKnown), self)
     | Some cert \<Rightarrow> chain_check (trust_state_ops C) C now self block cert)"

definition trust_store_apply ::
  "crypto \<Rightarrow> trust_store \<Rightarrow> ts_transaction checked_block \<Rightarrow> trust_store option" where
  "trust_store_apply C self block = chain_apply (trust_state_ops C) C self block"

definition trust_store_add ::
  "crypto \<Rightarrow> u64 \<Rightarrow> trust_store \<Rightarrow> certificate \<Rightarrow> credential
    \<Rightarrow> (ts_transaction checked_block, ts_error create_block_error) result \<times> trust_store" where
  "trust_store_add C now self cert cred =
    chain_package (trust_state_ops C) C now self (Add (as_unverified cert)) cred"

type_synonym exported_store = "(exported_trust_state, ts_transaction) exported_chain"

definition trust_store_export ::
  "crypto \<Rightarrow> trust_store \<Rightarrow> (exported_trust_state, ts_transaction) exported_chain" where
  "trust_store_export C self = chain_export (trust_state_ops C) self"

definition trust_store_import ::
  "crypto \<Rightarrow> (exported_trust_state, ts_transaction) exported_chain
    \<Rightarrow> (trust_store, inner_import_error chain_import_error) result" where
  "trust_store_import C exported = chain_import (trust_state_ops C) C exported"

definition trust_store_get :: "trust_store \<Rightarrow> spki_hash \<Rightarrow> certificate option" where
  "trust_store_get self hash = fmlookup (ts_certificates (chain_st self)) hash"

definition trust_store_root :: "trust_store \<Rightarrow> root_certificate" where
  "trust_store_root self = ts_root (chain_st self)"

definition trust_store_sequence :: "trust_store \<Rightarrow> u64" where
  "trust_store_sequence self = chain_sequence self"

definition trust_store_digest :: "crypto \<Rightarrow> trust_store \<Rightarrow> chain_digest" where
  "trust_store_digest C self = chain_digest (trust_state_ops C) C self"

text \<open>The loop of \<^verbatim>\<open>complete_certificate_chain\<close>. It ends because every round either fails or
  adds the hash of a stored certificate to the known hashes.\<close>

function complete_loop ::
  "trust_store \<Rightarrow> certificate_chain_builder \<Rightarrow> (certificate_chain_builder, complete_cert_chain_error) result" where
  "complete_loop self cert_chain =
    (case requested_issuer cert_chain of
       Ok None \<Rightarrow> Ok cert_chain
     | Ok (Some issuer_spki) \<Rightarrow>
        (case trust_store_get self issuer_spki of
           None \<Rightarrow> Err (NotFound issuer_spki)
         | Some iss \<Rightarrow>
            (case push_parent cert_chain (as_unverified iss) of
               (Ok _, cert_chain') \<Rightarrow> complete_loop self cert_chain'
             | (Err e, cert_chain') \<Rightarrow> Err (AddCertificateError e)
             | (Panicked, cert_chain') \<Rightarrow> Panicked))
     | Err e \<Rightarrow> Err e
     | Panicked \<Rightarrow> Panicked)"
  by pat_completeness auto

termination
proof (relation "measure (\<lambda>(self, b). card {k. trust_store_get self k \<noteq> None
    \<and> spki_to_string k \<notin> known_spki_hashes b})")
  fix self :: trust_store and b b' :: certificate_chain_builder and issuer_opt issuer_spki iss r u
  assume req: "requested_issuer b = (Ok issuer_opt :: (spki_hash option, complete_cert_chain_error) result)"
      "issuer_opt = Some issuer_spki"
    and get: "trust_store_get self issuer_spki = Some iss"
    and push: "(r, b') = push_parent b (as_unverified iss)" "r = Ok u"
  let ?S = "\<lambda>b. {k. trust_store_get self k \<noteq> None \<and> spki_to_string k \<notin> known_spki_hashes b}"
  note D = push_parent_OkD [OF push(1) [unfolded push(2), symmetric, simplified]]
  have "issuer_spki = cert_spki iss"
    using req D(1-3) by (auto simp: requested_issuer_def last_opt_Some split: if_splits)
  then have "?S b' \<subset> ?S b"
    using D(4,5) get by auto
  moreover have "?S b \<subseteq> fset (fmdom (ts_certificates (chain_st self)))"
    by (auto simp: trust_store_get_def intro: fmdomI)
  then have "finite (?S b)" by (rule finite_subset) simp
  ultimately show "((self, b'), (self, b)) \<in> measure (\<lambda>(self, b). card {k.
      trust_store_get self k \<noteq> None \<and> spki_to_string k \<notin> known_spki_hashes b})"
    by (simp add: psubset_card_mono)
qed simp

declare complete_loop.simps [simp del]

definition complete_certificate_chain ::
  "trust_store \<Rightarrow> certificate_chain_builder \<Rightarrow> (unverified_certificate_chain, complete_cert_chain_error) result" where
  "complete_certificate_chain self cert_chain =
    and_then (complete_loop self cert_chain) (\<lambda>b. expect (finish b))"

section \<open>Invariants\<close>

text \<open>Every certificate is stored under its own hash and is what its encoding parses to.\<close>

definition state_inv :: "crypto \<Rightarrow> trust_state \<Rightarrow> bool" where
  "state_inv C s \<longleftrightarrow> certificate_type (root_as_unverified (ts_root s)) = Root
    \<and> (\<forall>k c. fmlookup (ts_certificates s) k = Some c \<longrightarrow> cert_spki c = k \<and> cert_wf C (as_unverified c))"

definition transaction_ok :: "crypto \<Rightarrow> ts_transaction \<Rightarrow> bool" where
  "transaction_ok C tx \<longleftrightarrow> (case tx of Add c \<Rightarrow> cert_wf C c | RemoveExpired c \<Rightarrow> cert_wf C c)"

text \<open>Every stored certificate's issuer is stored too.\<close>

definition issuers_present :: "trust_state \<Rightarrow> bool" where
  "issuers_present s \<longleftrightarrow>
    (\<forall>k c. fmlookup (ts_certificates s) k = Some c
      \<longrightarrow> fmlookup (ts_certificates s) (issuer (as_unverified c)) \<noteq> None)"

text \<open>A certificate with a line of verified signatures from the root.\<close>

inductive authorised :: "crypto \<Rightarrow> root_certificate \<Rightarrow> certificate \<Rightarrow> bool" for C r where
  auth_root: "authorised C r (as_certificate r)"
| auth_issued: "authorised C r p \<Longrightarrow> issuer c = cert_spki p \<Longrightarrow> verify_signature C c p t = Ok v
    \<Longrightarrow> authorised C r v"

text \<open>Trust stores that grow from a root certificate by checked and applied blocks, with
  the blocks applied so far and the certificates their signatures were checked against.\<close>

inductive ts_run ::
  "crypto \<Rightarrow> root_certificate \<Rightarrow> (ts_transaction unchecked_block \<times> certificate) list \<Rightarrow> trust_store \<Rightarrow> bool"
  for C r
where
  ts_init: "ts_run C r [] (trust_store_initialize r)"
| ts_step: "ts_run C r bs ts \<Longrightarrow> transaction_ok C (block_transaction b) \<Longrightarrow>
    trust_store_check C now ts b = (Ok cb, ts') \<Longrightarrow> trust_store_apply C ts' cb = Some ts'' \<Longrightarrow>
    fmlookup (ts_certificates (chain_st ts)) (block_signer b) = Some cert \<Longrightarrow>
    ts_run C r (bs @ [(b, cert)]) ts''"

definition root_ok :: "crypto \<Rightarrow> root_certificate \<Rightarrow> bool" where
  "root_ok C r \<longleftrightarrow> certificate_type (root_as_unverified r) = Root \<and> cert_wf C (root_as_unverified r)"

section \<open>The state satisfies the laws of the chain\<close>

lemma trust_state_ops_simps [simp]:
  "cs_check (trust_state_ops C) = state_check C"
  "cs_apply (trust_state_ops C) = state_apply C"
  "cs_revert (trust_state_ops C) = state_revert"
  "cs_digest (trust_state_ops C) = state_digest_bytes"
  "cs_export (trust_state_ops C) = state_export"
  "cs_import (trust_state_ops C) = state_import"
  "tx_digest (trust_state_ops C) = transaction_digest"
  by (simp_all add: trust_state_ops_def)

lemma state_check_AddD:
  assumes "state_check C s k t (Add c) = Ok ()"
  obtains p where "fmlookup (ts_certificates s) k = Some p"
    "fmlookup (ts_certificates s) (spki_hash c) = None"
    "cert_spki p = issuer c" "verify_signature C c p t = Ok (Certificate c)"
  using assms
  by (auto simp: state_check_def result_simps dest: verify_signature_result split: if_splits)

lemma state_check_RemoveD:
  assumes "state_check C s k t (RemoveExpired c) = Ok ()"
  obtains p f e where "fmlookup (ts_certificates s) k = Some p"
    "fmlookup (ts_certificates s) (spki_hash c) = Some f"
    "cert_eq (as_unverified f) c" "check_validity_at c t = Err e"
  using assms
  by (auto simp: state_check_def result_simps split: if_splits option.splits result.splits)

lemma state_apply_AddD:
  assumes "state_inv C s" "state_check C s k t (Add c) = Ok ()"
  shows "state_apply C s k t (Add c)
    = Some (s \<lparr> ts_certificates := fmupd (spki_hash c) (Certificate c) (ts_certificates s) \<rparr>)"
  using assms(2)
proof (rule state_check_AddD)
  fix p assume p: "fmlookup (ts_certificates s) k = Some p" "cert_spki p = issuer c"
    "verify_signature C c p t = Ok (Certificate c)"
  then have "fmlookup (ts_certificates s) (issuer c) = Some p"
    using assms(1) unfolding state_inv_def by metis
  then show ?thesis using p by (simp add: state_apply_def)
qed

lemma state_removed_same:
  assumes "state_inv C s" "cert_wf C c" "state_check C s k t (RemoveExpired c) = Ok ()"
  shows "fmlookup (ts_certificates s) (spki_hash c) = Some (Certificate c)"
  using assms(3)
proof (rule state_check_RemoveD)
  fix p f e assume "fmlookup (ts_certificates s) (spki_hash c) = Some f" "cert_eq (as_unverified f) c"
  moreover from this assms(1) have "cert_wf C (as_unverified f)" by (auto simp: state_inv_def)
  ultimately show ?thesis using cert_eq_wf assms(2) by (metis certificate.collapse)
qed

lemma state_apply_inv:
  assumes "state_inv C s" "transaction_ok C tx" "state_check C s k t tx = Ok ()"
    "state_apply C s k t tx = Some s'"
  shows "state_inv C s'"
proof (cases tx)
  case (Add c)
  then show ?thesis
    using assms state_apply_AddD [of C s k t c]
    by (auto simp: state_inv_def transaction_ok_def split: if_splits)
next
  case (RemoveExpired c)
  then show ?thesis
    using assms by (auto simp: state_apply_def state_inv_def split: if_splits)
qed

lemma state_revert_apply:
  assumes "state_inv C s" "transaction_ok C tx" "state_check C s k t tx = Ok ()"
    "state_apply C s k t tx = Some s'"
  shows "state_revert s' tx = s"
proof (cases tx)
  case (Add c)
  have "fmlookup (ts_certificates s) (spki_hash c) = None"
    using assms(3) Add by (auto elim: state_check_AddD)
  then show ?thesis
    using assms(1,3,4) Add state_apply_AddD [of C s k t c]
    by (auto simp: state_revert_def fmdrop_fmupd_fresh)
next
  case (RemoveExpired c)
  then have "fmlookup (ts_certificates s) (spki_hash c) = Some (Certificate c)"
    using assms state_removed_same by (simp add: transaction_ok_def)
  then show ?thesis
    using assms(4) RemoveExpired
    by (auto simp: state_apply_def state_revert_def mark_as_trusted_def fmupd_fmdrop_same)
qed

interpretation ts: chain_state_laws "trust_state_ops C" "state_inv C" "transaction_ok C" for C
proof unfold_locales
  fix s tx k t s'
  assume inv: "state_inv C s" and tx: "transaction_ok C tx"
    and chk: "cs_check (trust_state_ops C) s k t tx = Ok ()"
  show "\<exists>s'. cs_apply (trust_state_ops C) s k t tx = Some s'"
    using inv chk state_apply_AddD [of C s k t]
    by (cases tx) (auto simp: state_apply_def [of C s k t "RemoveExpired _"])
  assume app: "cs_apply (trust_state_ops C) s k t tx = Some s'"
  show "state_inv C s'"
    using state_apply_inv [OF inv tx, of k t s'] chk app by simp
  show "cs_revert (trust_state_ops C) s' tx = s"
    using state_revert_apply [OF inv tx, of k t s'] chk app by simp
qed

section \<open>Reachable trust stores\<close>

lemma state_initialize_inv: "root_ok C r \<Longrightarrow> state_inv C (state_initialize r)"
  by (simp add: root_ok_def state_inv_def state_initialize_def split: if_splits)

lemma trust_store_check_OkD:
  assumes "trust_store_check C now ts b = (Ok cb, ts')"
    "fmlookup (ts_certificates (chain_st ts)) (block_signer b) = Some cert"
  shows "chain_check (trust_state_ops C) C now ts b cert = (Ok cb, ts')"
  using assms by (simp add: trust_store_check_def)

lemma ts_run_chain_run:
  "ts_run C r bs ts \<Longrightarrow> chain_run (trust_state_ops C) C (trust_store_initialize r) bs ts
    \<and> (\<forall>b \<in> set bs. transaction_ok C (block_transaction (fst b)))"
proof (induction rule: ts_run.induct)
  case (ts_step bs ts b now cb ts' ts'' cert)
  then have "chain_check (trust_state_ops C) C now ts b cert = (Ok cb, ts')"
    using trust_store_check_OkD by blast
  then show ?case
    using ts_step chain_run.run_step by (fastforce simp: trust_store_apply_def)
qed (auto intro: chain_run.run_nil)

lemma ts_run_inv:
  assumes "root_ok C r" "ts_run C r bs ts"
  shows "state_inv C (chain_st ts)"
  using ts.chain_run_inv ts_run_chain_run [OF assms(2)] state_initialize_inv [OF assms(1)]
  by (auto simp: trust_store_initialize_def chain_initialize_def)

text \<open>One step of a run, in terms of the certificates.\<close>

lemma ts_run_stepE:
  assumes "root_ok C r" "ts_run C r bs ts" "transaction_ok C (block_transaction b)"
    "trust_store_check C now ts b = (Ok cb, ts')" "trust_store_apply C ts' cb = Some ts''"
  obtains cert where "fmlookup (ts_certificates (chain_st ts)) (block_signer b) = Some cert"
    "ts' = ts" "cb = CheckedBlock b"
    "state_check C (chain_st ts) (block_signer b) (block_time b) (block_transaction b) = Ok ()"
    "state_apply C (chain_st ts) (block_signer b) (block_time b) (block_transaction b) = Some (chain_st ts'')"
    "last_block ts'' = Some (CheckedBlock b)"
proof -
  obtain cert where cert: "fmlookup (ts_certificates (chain_st ts)) (block_signer b) = Some cert"
    using assms(4) by (auto simp: trust_store_check_def split: option.splits)
  note chk = trust_store_check_OkD [OF assms(4) cert]
  note inv = ts_run_inv [OF assms(1,2)]
  have "fst (chain_check (trust_state_ops C) C now ts b cert) = Ok cb" using chk by simp
  note D = this [unfolded ts.chain_check_Ok_iff]
  have "ts' = ts" using ts.chain_check_unchanged [OF inv assms(3)] chk by (metis snd_conv)
  moreover have "cb = CheckedBlock b" using D by blast
  moreover have "cs_check (trust_state_ops C) (chain_st ts) (block_signer b) (block_time b)
      (block_transaction b) = Ok ()"
    using D by blast
  moreover obtain c'' where "chain_apply (trust_state_ops C) C ts' cb = Some c''"
      "last_block c'' = Some (CheckedBlock b)"
      "cs_apply (trust_state_ops C) (chain_st ts) (block_signer b) (block_time b) (block_transaction b)
        = Some (chain_st c'')"
    using ts.chain_apply_checked [OF inv assms(3) chk] by blast
  ultimately show thesis
    using that [OF cert] assms(5) by (simp add: trust_store_apply_def)
qed

lemma ts_run_authorised:
  assumes "root_ok C r" "ts_run C r bs ts"
  shows "ts_root (chain_st ts) = r \<and>
    (\<forall>k c. fmlookup (ts_certificates (chain_st ts)) k = Some c \<longrightarrow> authorised C r c)"
  using assms(2)
proof (induction rule: ts_run.induct)
  case ts_init
  then show ?case
    by (auto simp: trust_store_initialize_def chain_initialize_def state_initialize_def
        intro: authorised.intros split: if_splits)
next
  case (ts_step bs ts b now cb ts' ts'' cert)
  note inv = ts_run_inv [OF assms(1) ts_step.hyps(1)]
  from ts_run_stepE [OF assms(1) ts_step.hyps(1-4)]
  have chk: "state_check C (chain_st ts) (block_signer b) (block_time b) (block_transaction b) = Ok ()"
    and app: "state_apply C (chain_st ts) (block_signer b) (block_time b) (block_transaction b)
      = Some (chain_st ts'')"
    by metis+
  show ?case
  proof (cases "block_transaction b")
    case (Add c)
    obtain p where "fmlookup (ts_certificates (chain_st ts)) (block_signer b) = Some p"
        "cert_spki p = issuer c" "verify_signature C c p (block_time b) = Ok (Certificate c)"
      using chk unfolding Add by (auto elim: state_check_AddD)
    then have "authorised C r (Certificate c)"
      using ts_step.IH authorised.auth_issued by metis
    moreover have "chain_st ts'' = (chain_st ts)
        \<lparr> ts_certificates := fmupd (spki_hash c) (Certificate c) (ts_certificates (chain_st ts)) \<rparr>"
      using state_apply_AddD [OF inv chk [unfolded Add]] app Add by simp
    ultimately show ?thesis using ts_step.IH by simp
  next
    case (RemoveExpired c)
    then have "chain_st ts'' = (chain_st ts)
        \<lparr> ts_certificates := fmdrop (spki_hash c) (ts_certificates (chain_st ts)) \<rparr>"
      using app by (simp add: state_apply_def)
    then show ?thesis using ts_step.IH by (simp split: if_splits)
  qed
qed

lemma authorised_type:
  assumes "authorised C r c" "root_ok C r"
  shows "(cert_type c = Root \<longleftrightarrow> c = as_certificate r) \<and> cert_type c \<noteq> Temporary"
  using assms
proof (induction rule: authorised.induct)
  case (auth_issued p c t v)
  from auth_issued.hyps(3) have "v = Certificate c" "may_be_parent_of (cert_type p) (certificate_type c)"
    by (auto elim: verify_signature_OkD)
  then have "cert_type v \<noteq> Root" "cert_type v \<noteq> Temporary"
    using may_be_parent_of_child by auto
  then show ?case using assms(2) by (auto simp: root_ok_def)
qed (auto simp: root_ok_def)

lemma authorised_issuer:
  assumes "authorised C r c" "root_ok C r" "c \<noteq> as_certificate r"
  obtains p t where "authorised C r p" "issuer (as_unverified c) = cert_spki p"
    "verify_signature C (as_unverified c) p t = Ok c"
  using assms(1,3)
proof (cases rule: authorised.cases)
  case (auth_issued p u t)
  then show thesis using that [of p t] verify_signature_result [of C u p t c] by simp
qed simp

section \<open>Export and import\<close>

lemma import_seen_fold:
  "fmlookup (foldl import_seen_step m cs) k =
    (if k \<in> spki_hash ` set cs then Some True
     else if k \<in> issuer ` set cs \<and> fmlookup m k = None then Some False
     else fmlookup m k)"
  by (induction cs arbitrary: m) (auto simp: import_seen_step_def Let_def)

lemma import_missing_empty_iff:
  "filter (\<lambda>k. fmlookup (foldl import_seen_step fmempty cs) k = Some False)
      (sorted_list_of_fset (fmdom (foldl import_seen_step fmempty cs))) = []
    \<longleftrightarrow> issuer ` set cs \<subseteq> spki_hash ` set cs"
proof -
  let ?m = "foldl import_seen_step fmempty cs"
  have "filter (\<lambda>k. fmlookup ?m k = Some False) (sorted_list_of_fset (fmdom ?m)) = []
      \<longleftrightarrow> (\<forall>k. fmlookup ?m k \<noteq> Some False)"
    unfolding filter_empty_conv sorted_list_of_fset_simps by (metis fmdomI)
  also have "\<dots> \<longleftrightarrow> issuer ` set cs \<subseteq> spki_hash ` set cs"
    unfolding import_seen_fold by auto
  finally show ?thesis .
qed

lemma import_collect_lookup:
  assumes "\<And>a b. a \<in> set cs \<Longrightarrow> b \<in> set cs \<Longrightarrow> spki_hash a = spki_hash b \<Longrightarrow> a = b"
  shows "fmlookup (import_collect cs) k = Some c \<longleftrightarrow>
    as_unverified c \<in> set cs \<and> spki_hash (as_unverified c) = k"
  using assms
proof (induction cs rule: rev_induct)
  case (snoc a cs)
  have step: "import_collect (cs @ [a]) = fmupd (spki_hash a) (Certificate a) (import_collect cs)"
    by (simp add: import_collect_def mark_as_trusted_def)
  have IH: "fmlookup (import_collect cs) k = Some c \<longleftrightarrow>
      as_unverified c \<in> set cs \<and> spki_hash (as_unverified c) = k"
    by (rule snoc.IH) (use snoc.prems in auto)
  show ?case
  proof (cases "k = spki_hash a")
    case True
    have "Certificate a = c \<longleftrightarrow> as_unverified c \<in> set (cs @ [a]) \<and> spki_hash (as_unverified c) = spki_hash a"
      using snoc.prems [of "as_unverified c" a] by (metis certificate.collapse certificate.sel in_set_conv_decomp)
    then show ?thesis using True step by simp
  next
    case False
    then show ?thesis using step IH by auto
  qed
qed (simp add: import_collect_def)

lemma export_certificates_set:
  "set (ex_certificates (state_export s)) = as_unverified ` fmran' (ts_certificates s)"
  by (force simp: state_export_def fmran'I fmlookup_dom_iff elim: fmran'E)

lemma state_import_export:
  assumes "state_inv C s" "issuers_present s"
  shows "state_import (state_export s) = Ok s"
proof -
  let ?cs = "ex_certificates (state_export s)"
  have ran: "a \<in> set ?cs \<longleftrightarrow> fmlookup (ts_certificates s) (spki_hash a) = Some (Certificate a)" for a
    using assms(1) unfolding export_certificates_set state_inv_def
    by (auto intro!: image_eqI [of _ _ "Certificate a"] fmran'I elim!: fmran'E)
  have "issuer ` set ?cs \<subseteq> spki_hash ` set ?cs"
  proof (rule image_subsetI)
    fix a assume "a \<in> set ?cs"
    then obtain p where "fmlookup (ts_certificates s) (issuer a) = Some p"
      using assms(2) ran by (fastforce simp: issuers_present_def)
    moreover from this have "cert_spki p = issuer a" using assms(1) by (auto simp: state_inv_def)
    ultimately show "issuer a \<in> spki_hash ` set ?cs" using ran by (metis certificate.collapse image_eqI)
  qed
  moreover have "import_collect ?cs = ts_certificates s"
  proof (rule fmap_ext)
    fix k
    have eq: "fmlookup (import_collect ?cs) k = Some c \<longleftrightarrow> fmlookup (ts_certificates s) k = Some c" for c
      using ran assms(1)
      by (subst import_collect_lookup) (auto simp: state_inv_def)
    then show "fmlookup (import_collect ?cs) k = fmlookup (ts_certificates s) k"
      by (metis option.exhaust)
  qed
  moreover have "use_as_root (ex_root (state_export s)) = Ok (ts_root s)"
    using assms(1) by (simp add: use_as_root_def state_export_def state_inv_def)
  ultimately show ?thesis
    by (simp add: state_import_def import_missing_empty_iff Let_def)
qed

text \<open>Importing does not depend on the order in which the hash map was iterated.\<close>

lemma import_perm:
  assumes "set cs = set cs'" "distinct (map spki_hash cs)" "distinct (map spki_hash cs')"
    "state_import \<lparr> ex_root = r, ex_certificates = cs \<rparr> = Ok s"
  shows "state_import \<lparr> ex_root = r, ex_certificates = cs' \<rparr> = Ok s"
proof -
  have "import_collect cs = import_collect cs'"
  proof (rule fmap_ext)
    fix k
    have "fmlookup (import_collect cs) k = Some c \<longleftrightarrow> fmlookup (import_collect cs') k = Some c" for c
      using assms(1-3) by (subst (1 2) import_collect_lookup) (auto simp: distinct_map inj_on_def)
    then show "fmlookup (import_collect cs) k = fmlookup (import_collect cs') k"
      by (metis option.exhaust)
  qed
  then show ?thesis
    using assms(1,4) by (auto simp: state_import_def import_missing_empty_iff Let_def result_simps split: if_splits)
qed

lemma state_import_missing:
  assumes "state_inv C s" "\<not> issuers_present s"
  shows "\<exists>ms. ms \<noteq> [] \<and> state_import (state_export s) = Err (MissingIssuers ms)"
proof -
  let ?cs = "ex_certificates (state_export s)"
  from assms(2) obtain k c where c: "fmlookup (ts_certificates s) k = Some c"
      "fmlookup (ts_certificates s) (issuer (as_unverified c)) = None"
    by (auto simp: issuers_present_def)
  have "as_unverified c \<in> set ?cs"
    unfolding export_certificates_set using c(1) by (auto intro: fmran'I)
  moreover have "issuer (as_unverified c) \<notin> spki_hash ` set ?cs"
    unfolding export_certificates_set using assms(1) c(2)
    by (auto simp: state_inv_def elim!: fmran'E)
  ultimately have "\<not> issuer ` set ?cs \<subseteq> spki_hash ` set ?cs" by auto
  moreover have "use_as_root (ex_root (state_export s)) = Ok (ts_root s)"
    using assms(1) by (simp add: use_as_root_def state_export_def state_inv_def)
  ultimately show ?thesis
    unfolding state_import_def Let_def by (simp add: import_missing_empty_iff)
qed

section \<open>Completing a chain\<close>

text \<open>What the loop returns from builder \<^verbatim>\<open>b\<close>: a builder that extends it by stored issuers up to
  a root certificate, or the hash that is not stored, or the loop of issuers it met.\<close>

definition complete_post ::
  "trust_store \<Rightarrow> certificate_chain_builder \<Rightarrow> (certificate_chain_builder, complete_cert_chain_error) result \<Rightarrow> bool" where
  "complete_post ts b r = (case r of
      Ok b' \<Rightarrow> builder_inv b' \<and> certificate_type (last (builder_certificates b')) = Root
        \<and> (\<exists>ps. builder_certificates b' = builder_certificates b @ map as_unverified ps
             \<and> (\<forall>p \<in> set ps. trust_store_get ts (cert_spki p) = Some p))
    | Err (NotFound k) \<Rightarrow> trust_store_get ts k = None
    | Err (AddCertificateError e) \<Rightarrow> (\<exists>cs. e = SignatureLoop cs \<and> \<not> distinct (map spki_hash cs))
    | Panicked \<Rightarrow> False)"

definition store_keys_ok :: "trust_store \<Rightarrow> bool" where
  "store_keys_ok ts \<longleftrightarrow> (\<forall>k c. trust_store_get ts k = Some c \<longrightarrow> cert_spki c = k)"

lemma complete_post_extend:
  assumes "complete_post ts b' r" "builder_certificates b' = builder_certificates b @ [as_unverified p]"
    "trust_store_get ts (cert_spki p) = Some p"
  shows "complete_post ts b r"
proof (cases r)
  case (Ok b'')
  with assms obtain ps where "builder_certificates b'' = builder_certificates b @ map as_unverified (p # ps)"
      "\<forall>q \<in> set (p # ps). trust_store_get ts (cert_spki q) = Some q"
    by (auto simp: complete_post_def)
  moreover have "builder_inv b''" "certificate_type (last (builder_certificates b'')) = Root"
    using assms(1) Ok by (simp_all add: complete_post_def)
  ultimately show ?thesis unfolding Ok complete_post_def result.case by blast
qed (use assms(1) in \<open>auto simp: complete_post_def\<close>)

lemma push_parent_stored:
  assumes "builder_inv b" "certificate_type (last (builder_certificates b)) \<noteq> Root"
    "issuer (last (builder_certificates b)) = spki_hash p"
  shows "push_parent b p = (if spki_hash p \<in> set (map spki_hash (builder_certificates b))
    then (Err (SignatureLoop (builder_certificates b @ [p])), b)
    else (Ok (), b \<lparr> builder_certificates := builder_certificates b @ [p],
      known_spki_hashes := insert (spki_to_string (spki_hash p)) (known_spki_hashes b) \<rparr>))"
  using assms builder_inv_known_iff [OF assms(1), of "spki_hash p"]
  by (simp add: push_parent_def builder_inv_def last_opt_Some)

lemma complete_loop_post:
  assumes "store_keys_ok ts" "builder_inv b"
  shows "complete_post ts b (complete_loop ts b)"
  using assms
proof (induction ts b rule: complete_loop.induct)
  case (1 ts b)
  have ne: "builder_certificates b \<noteq> []" using 1(3) by (simp add: builder_inv_def)
  let ?l = "last (builder_certificates b)"
  have req: "requested_issuer b = (Ok (if certificate_type ?l = Root then None else Some (issuer ?l))
      :: (spki_hash option, complete_cert_chain_error) result)"
    using ne by (simp add: requested_issuer_def last_opt_Some)
  show ?case
  proof (cases "certificate_type ?l = Root")
    case True
    then show ?thesis
      using 1(3) req by (subst complete_loop.simps) (simp add: complete_post_def)
  next
    case False
    show ?thesis
    proof (cases "trust_store_get ts (issuer ?l)")
      case None
      then show ?thesis
        using False req by (subst complete_loop.simps) (simp add: complete_post_def)
    next
      case (Some p)
      then have spki: "issuer ?l = cert_spki p" using 1(2) by (auto simp: store_keys_ok_def)
      note push = push_parent_stored [OF 1(3) False spki]
      show ?thesis
      proof (cases "cert_spki p \<in> set (map spki_hash (builder_certificates b))")
        case True
        then show ?thesis
          using False req Some push by (subst complete_loop.simps) (auto simp: complete_post_def)
      next
        case notin: False
        then obtain b' where b': "push_parent b (as_unverified p) = (Ok (), b')"
            "builder_certificates b' = builder_certificates b @ [as_unverified p]"
          using push by simp
        have "complete_post ts b' (complete_loop ts b')"
          by (rule 1(1) [of "Some (issuer ?l)" "issuer ?l" p "Ok ()" b' "()"])
            (use False req Some b'(1) 1(2) push_parent_inv [OF 1(3) b'(1)] in simp_all)
        moreover have "complete_loop ts b = complete_loop ts b'"
          using False req Some b'(1) by (subst complete_loop.simps) simp
        ultimately show ?thesis
          using complete_post_extend b'(2) Some spki by metis
      qed
    qed
  qed
qed

section \<open>Times of stored certificates\<close>

lemma check_validity_at_not_before:
  "check_validity_at c t = Ok () \<Longrightarrow> 0 \<le> not_before c \<and> of_int (not_before c) \<le> t"
  by (auto simp: check_validity_at_def timestamp_u64_def result_simps not_less split: if_splits)

lemma check_validity_at_expired:
  assumes "check_validity_at c t = Err e" "0 \<le> not_before c" "of_int (not_before c) \<le> t"
  shows "e = Expired"
  using assms by (auto simp: check_validity_at_def timestamp_u64_def result_simps split: if_splits)

lemma check_position_time:
  assumes "check_position T C (Some l) b = Ok ()"
  shows "block_time (as_unchecked l) \<le> block_time b"
  using assms by (auto simp: check_position_def not_less split: if_splits)

lemma ts_run_started:
  assumes "root_ok C r" "ts_run C r bs ts"
    "fmlookup (ts_certificates (chain_st ts)) k = Some c" "c \<noteq> as_certificate r"
  shows "\<exists>l. last_block ts = Some l \<and> 0 \<le> not_before (as_unverified c)
    \<and> of_int (not_before (as_unverified c)) \<le> block_time (as_unchecked l)"
  using assms(2,3)
proof (induction arbitrary: k rule: ts_run.induct)
  case ts_init
  then show ?case
    using assms(4) by (auto simp: trust_store_initialize_def chain_initialize_def state_initialize_def split: if_splits)
next
  case (ts_step bs ts b now cb ts' ts'' cert)
  from ts_run_stepE [OF assms(1) ts_step.hyps(1-4)]
  have chk: "state_check C (chain_st ts) (block_signer b) (block_time b) (block_transaction b) = Ok ()"
    and app: "state_apply C (chain_st ts) (block_signer b) (block_time b) (block_transaction b)
      = Some (chain_st ts'')"
    and last: "last_block ts'' = Some (CheckedBlock b)"
    by metis+
  have mono: "block_time (as_unchecked l) \<le> block_time b" if "last_block ts = Some l" for l
  proof -
    have "fst (chain_check (trust_state_ops C) C now ts b cert) = Ok cb"
      using trust_store_check_OkD [OF ts_step.hyps(3,5)] by simp
    then show ?thesis
      unfolding ts.chain_check_Ok_iff that by (blast intro: check_position_time)
  qed
  have old: ?case if "fmlookup (ts_certificates (chain_st ts)) k = Some c"
    using ts_step.IH [OF that] mono last by (auto intro: order_trans)
  show ?case
  proof (cases "block_transaction b")
    case (Add a)
    have "chain_st ts'' = (chain_st ts)
        \<lparr> ts_certificates := fmupd (spki_hash a) (Certificate a) (ts_certificates (chain_st ts)) \<rparr>"
      using state_apply_AddD [OF ts_run_inv [OF assms(1) ts_step.hyps(1)] chk [unfolded Add]] app Add by simp
    then have "fmlookup (ts_certificates (chain_st ts'')) k =
        (if k = spki_hash a then Some (Certificate a) else fmlookup (ts_certificates (chain_st ts)) k)"
      by simp
    with ts_step.prems consider "Certificate a = c" | "fmlookup (ts_certificates (chain_st ts)) k = Some c"
      by (cases "k = spki_hash a") simp_all
    then show ?thesis
    proof cases
      case 1
      have "check_validity_at a (block_time b) = Ok ()"
        using chk unfolding Add by (auto elim!: state_check_AddD verify_signature_OkD)
      then show ?thesis using 1 last check_validity_at_not_before [of a] by auto
    qed (rule old)
  next
    case (RemoveExpired a)
    then have "chain_st ts'' = (chain_st ts)
        \<lparr> ts_certificates := fmdrop (spki_hash a) (ts_certificates (chain_st ts)) \<rparr>"
      using app by (simp add: state_apply_def)
    then have "fmlookup (ts_certificates (chain_st ts'')) k =
        (if k = spki_hash a then None else fmlookup (ts_certificates (chain_st ts)) k)"
      by simp
    with ts_step.prems show ?thesis by (intro old) (cases "k = spki_hash a", simp_all)
  qed
qed

section \<open>Agreement of replicas\<close>

lemma cert_wf_der_inj: "cert_wf C x \<Longrightarrow> cert_wf C y \<Longrightarrow> der x = der y \<Longrightarrow> x = y"
  using cert_eq_wf [of C x y] by (simp add: cert_eq_def)

lemma transaction_digest_inj:
  assumes "transaction_digest a = transaction_digest b" "transaction_ok C a" "transaction_ok C b"
  shows "a = b"
proof (cases a)
  case a: (Add x)
  show ?thesis
  proof (cases b)
    case (Add y)
    then show ?thesis using assms a cert_wf_der_inj [of C x y] by (simp add: transaction_ok_def)
  qed (use assms(1) a in \<open>simp add: utf8_def\<close>)
next
  case a: (RemoveExpired x)
  show ?thesis
  proof (cases b)
    case (RemoveExpired y)
    then show ?thesis using assms a cert_wf_der_inj [of C x y] by (simp add: transaction_ok_def)
  qed (use assms(1) a in \<open>simp add: utf8_def\<close>)
qed

lemma replay_cong:
  assumes "map (\<lambda>b. (block_signer b, block_time b, block_transaction b)) bs
    = map (\<lambda>b. (block_signer b, block_time b, block_transaction b)) bs'"
  shows "replay T s bs = replay T s bs'"
proof -
  have eq: "replay T s bs = foldl (\<lambda>acc (k, t, tx). Option.bind acc (\<lambda>s. cs_apply T s k t tx)) (Some s)
      (map (\<lambda>b. (block_signer b, block_time b, block_transaction b)) bs)" for bs
    unfolding replay_def foldl_map by simp
  show ?thesis by (simp only: eq assms)
qed

lemma ts_run_replay:
  assumes "root_ok C r" "ts_run C r bs ts"
  shows "replay (trust_state_ops C) (state_initialize r) (map fst bs) = Some (chain_st ts)"
  using ts.chain_run_replay ts_run_chain_run [OF assms(2)] state_initialize_inv [OF assms(1)]
  by (fastforce simp: trust_store_initialize_def chain_initialize_def)

lemma ts_run_log:
  assumes "root_ok C r" "ts_run C r bs ts" "i < length bs"
  shows "log_entry_ok (trust_state_ops C) C bs i"
  using ts.chain_run_log ts_run_chain_run [OF assms(2)] state_initialize_inv [OF assms(1)] assms(3)
  unfolding trust_store_initialize_def by blast

lemma ts_run_last:
  assumes "root_ok C r" "ts_run C r bs ts"
  shows "last_block ts = (if bs = [] then None else Some (CheckedBlock (fst (last bs))))"
proof (cases "bs = []")
  case True
  then show ?thesis
    using ts_run_chain_run [OF assms(2)] by (auto simp: trust_store_initialize_def chain_initialize_def)
next
  case False
  then show ?thesis
    using ts.chain_run_digest ts_run_chain_run [OF assms(2)] state_initialize_inv [OF assms(1)]
    by (fastforce simp: trust_store_initialize_def chain_initialize_def)
qed

lemma ts_run_resulting_state:
  assumes "root_ok C r" "ts_run C r bs ts" "last_block ts = Some l"
  shows "resulting_state (as_unchecked l) = state_digest (trust_state_ops C) C (chain_st ts)"
proof -
  have "bs \<noteq> []" "as_unchecked l = fst (last bs)"
    using ts_run_last [OF assms(1,2)] assms(3) by (auto split: if_splits)
  then show ?thesis
    using ts.chain_run_digest ts_run_chain_run [OF assms(2)] state_initialize_inv [OF assms(1)]
    by (fastforce simp: trust_store_initialize_def chain_initialize_def)
qed

lemma ts_run_block_wf:
  assumes "root_ok C r" "ts_run C r bs ts" "\<forall>x. length (sha512 C x) = 64" "b \<in> set bs"
  shows "block_wf (fst b)"
  using assms(2,4)
proof (induction rule: ts_run.induct)
  case (ts_step bs ts b' now cb ts' ts'' cert)
  have run: "ts_run C r (bs @ [(b', cert)]) ts''" using ts_run.ts_step [OF ts_step.hyps] .
  have last: "last_block ts'' = Some (CheckedBlock b')" using ts_run_last [OF assms(1) run] by simp
  have "length (resulting_state b') = 64"
    using ts_run_resulting_state [OF assms(1) run last] assms(3) by (simp add: state_digest_def)
  moreover have "length (previous_block_hash b') = 64"
    using ts_run_log [OF assms(1) run, of "length bs"] assms(3)
    by (simp add: log_entry_ok_def Let_def block_digest_def block_digest_empty_def split: if_splits)
  moreover have "spki_hash_wf (block_signer b')"
  proof -
    have "cert_spki cert = block_signer b'" "cert_wf C (as_unverified cert)"
      using ts_run_inv [OF assms(1) ts_step.hyps(1)] ts_step.hyps(5) by (auto simp: state_inv_def)
    then show ?thesis unfolding cert_wf_def by (metis from_der_OkD)
  qed
  ultimately show ?case using ts_step.IH ts_step.prems by (auto simp: block_wf_def)
qed simp

lemma trust_store_sequence_run:
  assumes "root_ok C r" "ts_run C r bs ts"
  shows "trust_store_sequence ts = of_nat (length bs)"
proof (cases "bs = []")
  case True
  then show ?thesis
    using ts_run_last [OF assms] by (simp add: trust_store_sequence_def chain_sequence_def)
next
  case False
  then show ?thesis
    using ts_run_last [OF assms] ts_run_log [OF assms, of "length bs - 1"]
    by (simp add: trust_store_sequence_def chain_sequence_def last_conv_nth Let_def log_entry_ok_def)
qed

text \<open>The bytes hashed for the digest of a store, and all bytes hashed along a run.\<close>

definition chain_digest_input :: "crypto \<Rightarrow> trust_store \<Rightarrow> bytes" where
  "chain_digest_input C ts =
    (case last_block ts of None \<Rightarrow> block_digest_empty | Some b \<Rightarrow> block_digest (trust_state_ops C) C (as_unchecked b))
    @ state_digest_bytes (chain_st ts)"

definition hashed_strings ::
  "crypto \<Rightarrow> (ts_transaction unchecked_block \<times> certificate) list \<Rightarrow> trust_store \<Rightarrow> bytes set" where
  "hashed_strings C bs ts = insert (chain_digest_input C ts) (hashed_blocks (trust_state_ops C) bs)"

lemma trust_store_digest_input: "trust_store_digest C ts = sha512 C (chain_digest_input C ts)"
  by (simp add: trust_store_digest_def chain_digest_def chain_digest_input_def Let_def)

lemma contents_replay:
  assumes "map (\<lambda>b. block_content (trust_state_ops C) (fst b)) bs
      = map (\<lambda>b. block_content (trust_state_ops C) (fst b)) bs'"
    and "\<forall>b \<in> set bs. transaction_ok C (block_transaction (fst b))"
    and "\<forall>b \<in> set bs'. transaction_ok C (block_transaction (fst b))"
  shows "replay (trust_state_ops C) s (map fst bs) = replay (trust_state_ops C) s (map fst bs')"
proof (rule replay_cong, rule nth_equalityI)
  have len: "length bs = length bs'" using assms(1) by (metis length_map)
  then show "length (map (\<lambda>b. (block_signer b, block_time b, block_transaction b)) (map fst bs))
      = length (map (\<lambda>b. (block_signer b, block_time b, block_transaction b)) (map fst bs'))" by simp
  fix i assume "i < length (map (\<lambda>b. (block_signer b, block_time b, block_transaction b)) (map fst bs))"
  then have i: "i < length bs" "i < length bs'" using len by simp_all
  have "block_content (trust_state_ops C) (fst (bs ! i)) = block_content (trust_state_ops C) (fst (bs' ! i))"
    using arg_cong [OF assms(1), of "\<lambda>xs. xs ! i"] i by simp
  then show "map (\<lambda>b. (block_signer b, block_time b, block_transaction b)) (map fst bs) ! i
      = map (\<lambda>b. (block_signer b, block_time b, block_transaction b)) (map fst bs') ! i"
    using i transaction_digest_inj [of _ _ C] assms(2,3) by (simp add: block_content_def)
qed

section \<open>Packaging a transaction extends a run\<close>

text \<open>The key pair of a credential belongs to its certificate.\<close>

definition signs_for :: "crypto \<Rightarrow> credential \<Rightarrow> bool" where
  "signs_for C cred \<longleftrightarrow> (\<forall>msg. ed25519_verify C (public_key (as_unverified (cred_certificate cred))) msg
     (sign C (cred_keypair cred) msg))"

lemma chain_package_OkI:
  assumes "state_inv C (chain_st c)" "transaction_ok C tx"
    "state_check C (chain_st c) (cert_spki (cred_certificate cred)) now tx = Ok ()"
  shows "\<exists>cb. chain_package (trust_state_ops C) C now c tx cred = (Ok cb, c)
    \<and> block_transaction (as_unchecked cb) = tx \<and> block_time (as_unchecked cb) = now
    \<and> block_signer (as_unchecked cb) = cert_spki (cred_certificate cred)"
proof -
  let ?T = "trust_state_ops C" and ?k = "cert_spki (cred_certificate cred)"
  obtain s' where "cs_apply ?T (chain_st c) ?k now tx = Some s'" "cs_revert ?T s' tx = chain_st c"
    using ts.checked_appliesE [OF assms(1,2), of ?k now] assms(3) by auto
  then show ?thesis
    using assms(3) by (simp add: chain_package_def Let_def next_block_def split: option.splits)
qed

lemma ts_run_package:
  assumes "root_ok C r" "ts_run C r bs ts" "transaction_ok C tx" "signs_for C cred"
    and "fmlookup (ts_certificates (chain_st ts)) (cert_spki (cred_certificate cred)) = Some (cred_certificate cred)"
    and "state_check C (chain_st ts) (cert_spki (cred_certificate cred)) now tx = Ok ()"
    and "\<And>l. last_block ts = Some l \<Longrightarrow> block_time (as_unchecked l) \<le> now"
  shows "\<exists>b ts'. ts_run C r (bs @ [(b, cred_certificate cred)]) ts'
    \<and> state_apply C (chain_st ts) (cert_spki (cred_certificate cred)) now tx = Some (chain_st ts')
    \<and> last_block ts' = Some (CheckedBlock b) \<and> block_time b = now"
proof -
  let ?T = "trust_state_ops C"
  note inv = ts_run_inv [OF assms(1,2)]
  obtain cb where cb: "chain_package ?T C now ts tx cred = (Ok cb, ts)"
      "block_transaction (as_unchecked cb) = tx" "block_time (as_unchecked cb) = now"
      "block_signer (as_unchecked cb) = cert_spki (cred_certificate cred)"
    using chain_package_OkI [OF inv assms(3,6)] by blast
  have chk: "chain_check ?T C now ts (as_unchecked cb) (cred_certificate cred) = (Ok cb, ts)"
    using ts.chain_package_checks [OF inv assms(3), of C now cred cb now] cb(1) assms(4,7)
    by (simp add: signs_for_def)
  then have tchk: "trust_store_check C now ts (as_unchecked cb) = (Ok cb, ts)"
    using assms(5) cb(4) by (simp add: trust_store_check_def)
  obtain ts' where ts': "chain_apply ?T C ts cb = Some ts'" "last_block ts' = Some cb"
      "state_apply C (chain_st ts) (cert_spki (cred_certificate cred)) now tx = Some (chain_st ts')"
    using ts.chain_apply_checked [OF inv _ chk] assms(3) cb(2-4) by auto
  have "ts_run C r (bs @ [(as_unchecked cb, cred_certificate cred)]) ts'"
    by (rule ts_step [OF assms(2) _ tchk]) (use assms(3,5) cb ts' in \<open>simp_all add: trust_store_apply_def\<close>)
  then show ?thesis
    using ts' cb(3) by (intro exI [of _ "as_unchecked cb"] exI [of _ ts']) simp
qed

section \<open>A sample run\<close>

text \<open>A root, a user issued by it and an agent issued by the user after the user's
  certificate expired; then the user's certificate is removed.\<close>

definition sample_root :: root_certificate where
  "sample_root = RootCertificate (Certificate (sample_cert Root 0 7 7 0))"

definition sample_user :: unverified_certificate where
  "sample_user = sample_cert User 1 8 7 0"

definition sample_agent :: unverified_certificate where
  "sample_agent = sample_cert Agent 3 9 8 200"

definition sample_user_credential :: credential where
  "sample_user_credential = \<lparr> cred_keypair = \<lparr> kp_serialized_der = [8], kp_public_der = [8] \<rparr>,
     cred_certificate = Certificate sample_user \<rparr>"

definition sample_state1 :: trust_state where
  "sample_state1 = (state_initialize sample_root) \<lparr> ts_certificates :=
     fmupd (spki_hash sample_user) (Certificate sample_user) (ts_certificates (state_initialize sample_root)) \<rparr>"

definition sample_state2 :: trust_state where
  "sample_state2 = sample_state1 \<lparr> ts_certificates :=
     fmupd (spki_hash sample_agent) (Certificate sample_agent) (ts_certificates sample_state1) \<rparr>"

definition sample_state3 :: trust_state where
  "sample_state3 = sample_state2 \<lparr> ts_certificates :=
     fmdrop (spki_hash sample_user) (ts_certificates sample_state2) \<rparr>"

lemma sample_root_ok [simp]: "root_ok sample_crypto sample_root"
  by code_simp

lemma sample_signs [simp]:
  "signs_for sample_crypto sample_root_credential" "signs_for sample_crypto sample_user_credential"
  by (simp_all add: signs_for_def sample_crypto_def sign_def sample_root_credential_def
      sample_user_credential_def sample_keypair_def sample_cert_def sample_user_def)

lemma sample_checks:
  "state_check sample_crypto (state_initialize sample_root)
    (cert_spki (cred_certificate sample_root_credential)) 10 (Add sample_user) = Ok ()"
  "state_check sample_crypto sample_state1
    (cert_spki (cred_certificate sample_user_credential)) 34560000 (Add sample_agent) = Ok ()"
  "state_check sample_crypto sample_state2
    (cert_spki (cred_certificate sample_root_credential)) 34560001 (RemoveExpired sample_user) = Ok ()"
  by code_simp+

lemma sample_signers:
  "fmlookup (ts_certificates (state_initialize sample_root)) (cert_spki (cred_certificate sample_root_credential))
    = Some (cred_certificate sample_root_credential)"
  "fmlookup (ts_certificates sample_state1) (cert_spki (cred_certificate sample_user_credential))
    = Some (cred_certificate sample_user_credential)"
  "fmlookup (ts_certificates sample_state2) (cert_spki (cred_certificate sample_root_credential))
    = Some (cred_certificate sample_root_credential)"
  by code_simp+

lemma sample_transactions:
  "transaction_ok sample_crypto (Add sample_user)" "transaction_ok sample_crypto (Add sample_agent)"
  "transaction_ok sample_crypto (RemoveExpired sample_user)"
  by code_simp+

lemma sample_run1:
  "\<exists>bs ts. ts_run sample_crypto sample_root bs ts \<and> chain_st ts = sample_state1
    \<and> (\<exists>b. last_block ts = Some (CheckedBlock b) \<and> block_time b = 10)"
proof -
  let ?ts = "trust_store_initialize sample_root"
  have st: "chain_st ?ts = state_initialize sample_root" "last_block ?ts = None"
    by (simp_all add: trust_store_initialize_def chain_initialize_def)
  have "state_apply sample_crypto (state_initialize sample_root)
      (cert_spki (cred_certificate sample_root_credential)) 10 (Add sample_user) = Some sample_state1"
    using state_apply_AddD [OF state_initialize_inv [OF sample_root_ok] sample_checks(1)]
    by (simp add: sample_state1_def)
  then show ?thesis
    using ts_run_package [OF sample_root_ok ts_init sample_transactions(1) sample_signs(1), of 10]
      sample_checks(1) sample_signers(1) st by fastforce
qed

lemma sample_run2:
  "\<exists>bs ts. ts_run sample_crypto sample_root bs ts \<and> chain_st ts = sample_state2
    \<and> (\<exists>b. last_block ts = Some (CheckedBlock b) \<and> block_time b = 34560000)"
proof -
  obtain bs ts b where run: "ts_run sample_crypto sample_root bs ts" and st: "chain_st ts = sample_state1"
      "last_block ts = Some (CheckedBlock b)" "block_time b = 10"
    using sample_run1 by blast
  have "state_apply sample_crypto sample_state1
      (cert_spki (cred_certificate sample_user_credential)) 34560000 (Add sample_agent) = Some sample_state2"
    using state_apply_AddD [OF ts_run_inv [OF sample_root_ok run, unfolded st] sample_checks(2)]
    by (simp add: sample_state2_def)
  then show ?thesis
    using ts_run_package [OF sample_root_ok run sample_transactions(2) sample_signs(2), of 34560000]
      sample_checks(2) sample_signers(2) st by fastforce
qed

lemma sample_run3:
  "\<exists>bs ts. ts_run sample_crypto sample_root bs ts \<and> chain_st ts = sample_state3"
proof -
  obtain bs ts b where run: "ts_run sample_crypto sample_root bs ts" and st: "chain_st ts = sample_state2"
      "last_block ts = Some (CheckedBlock b)" "block_time b = 34560000"
    using sample_run2 by blast
  have "state_apply sample_crypto sample_state2
      (cert_spki (cred_certificate sample_root_credential)) 34560001 (RemoveExpired sample_user) = Some sample_state3"
    by (simp add: state_apply_def sample_state3_def)
  then show ?thesis
    using ts_run_package [OF sample_root_ok run sample_transactions(3) sample_signs(1), of 34560001]
      sample_checks(3) sample_signers(3) st by fastforce
qed

lemma sample_hashes:
  "spki_hash sample_agent \<noteq> spki_hash sample_user" "issuer sample_agent = spki_hash sample_user"
  by (simp_all add: sample_agent_def sample_user_def sample_cert_def sample_pad_def)

lemma sample_state3_not_closed: "\<not> issuers_present sample_state3"
proof -
  have "fmlookup (ts_certificates sample_state3) (spki_hash sample_agent) = Some (Certificate sample_agent)"
    "fmlookup (ts_certificates sample_state3) (issuer sample_agent) = None"
    using sample_hashes by (simp_all add: sample_state3_def sample_state2_def)
  then show ?thesis unfolding issuers_present_def by (metis certificate.sel)
qed

section \<open>Properties\<close>

text \<open>C1. Every certificate in a trust store that grew from a root certificate by checked and
  applied blocks is authorised: a line of issuers, each of type root or user and each
  with a signature that verified, leads from the root to it. The only certificate of
  type root is the root itself, and no temporary certificate is ever stored.\<close>

theorem trust_store_authorised:
  assumes "root_ok C r" "ts_run C r bs ts" "trust_store_get ts k = Some c"
  shows "authorised C r c \<and> cert_spki c = k \<and> trust_store_root ts = r
    \<and> (cert_type c = Root \<longleftrightarrow> c = as_certificate r) \<and> cert_type c \<noteq> Temporary"
  using ts_run_authorised [OF assms(1,2)] ts_run_inv [OF assms(1,2)] assms(3)
    authorised_type [OF _ assms(1)]
  by (auto simp: trust_store_get_def trust_store_root_def state_inv_def)

theorem trust_store_authorised_witness:
  "authorised sample_crypto sample_root (Certificate sample_agent)"
proof -
  obtain bs ts where run: "ts_run sample_crypto sample_root bs ts" "chain_st ts = sample_state3"
    using sample_run3 by blast
  then have "trust_store_get ts (spki_hash sample_agent) = Some (Certificate sample_agent)"
    using sample_hashes by (simp add: trust_store_get_def sample_state3_def sample_state2_def)
  from trust_store_authorised [OF sample_root_ok run(1) this] show ?thesis by blast
qed

text \<open>C4. Checking a block never changes a reachable trust store, although it applies and
  reverts the transaction on the way; a block that passes the check can be applied, and
  applying it neither panics nor leaves the reachable stores; the new last block is the
  one applied and its recorded digest is that of the new state.\<close>

theorem check_then_apply:
  assumes "root_ok C r" "ts_run C r bs ts" "transaction_ok C (block_transaction b)"
  shows "snd (trust_store_check C now ts b) = ts
    \<and> (\<forall>cb. fst (trust_store_check C now ts b) = Ok cb \<longrightarrow>
        (\<exists>ts' cert. trust_store_apply C ts cb = Some ts' \<and> ts_run C r (bs @ [(b, cert)]) ts'
          \<and> last_block ts' = Some (CheckedBlock b)
          \<and> resulting_state b = sha512 C (state_digest_bytes (chain_st ts'))))"
proof -
  note inv = ts_run_inv [OF assms(1,2)]
  have unchanged: "snd (trust_store_check C now ts b) = ts"
    using ts.chain_check_unchanged [OF inv assms(3)]
    by (auto simp: trust_store_check_def split: option.splits)
  have "\<exists>ts' cert. trust_store_apply C ts cb = Some ts' \<and> ts_run C r (bs @ [(b, cert)]) ts'
          \<and> last_block ts' = Some (CheckedBlock b)
          \<and> resulting_state b = sha512 C (state_digest_bytes (chain_st ts'))"
    if ok: "fst (trust_store_check C now ts b) = Ok cb" for cb
  proof -
    have chk: "trust_store_check C now ts b = (Ok cb, ts)" using ok unchanged by (metis prod.collapse)
    obtain cert where cert: "fmlookup (ts_certificates (chain_st ts)) (block_signer b) = Some cert"
      using ok by (auto simp: trust_store_check_def split: option.splits)
    note cc = trust_store_check_OkD [OF chk cert]
    obtain ts' where ts': "chain_apply (trust_state_ops C) C ts cb = Some ts'"
        "last_block ts' = Some (CheckedBlock b)"
        "resulting_state b = state_digest (trust_state_ops C) C (chain_st ts')"
      using ts.chain_apply_checked [OF inv assms(3) cc] by blast
    then have "ts_run C r (bs @ [(b, cert)]) ts'"
      using ts_step [OF assms(2,3) chk _ cert] by (simp add: trust_store_apply_def)
    then show ?thesis using ts' by (auto simp: trust_store_apply_def state_digest_def)
  qed
  with unchanged show ?thesis by blast
qed

theorem check_then_apply_witness:
  "snd (trust_store_check sample_crypto 5 (trust_store_initialize sample_root)
     \<lparr> block_sequence = 9, block_time = 1, previous_block_hash = [], resulting_state = [],
       block_signer = SpkiHash [], block_transaction = Add sample_user, block_signature = [] \<rparr>)
   = trust_store_initialize sample_root"
  using check_then_apply [OF sample_root_ok ts_init, of "\<lparr> block_sequence = 9, block_time = 1,
      previous_block_hash = [], resulting_state = [], block_signer = SpkiHash [],
      block_transaction = Add sample_user, block_signature = [] \<rparr>" 5] sample_transactions(1)
  by simp

text \<open>A block made by \<^verbatim>\<open>add\<close> is accepted by every replica in the same state whose clock is
  not behind, provided the signer's certificate is the stored one, its key signs for it,
  and the packaging clock is not behind the last block's time (which \<^verbatim>\<open>package\<close> does not
  check itself); and adding succeeds exactly when the state accepts the transaction.\<close>

theorem add_then_check:
  assumes "root_ok C r" "ts_run C r bs ts" "cert_wf C (as_unverified cert)" "signs_for C cred"
    and "trust_store_get ts (cert_spki (cred_certificate cred)) = Some (cred_certificate cred)"
    and "\<forall>l. last_block ts = Some l \<longrightarrow> block_time (as_unchecked l) \<le> now" "now \<le> now'"
  shows "(is_ok (fst (trust_store_add C now ts cert cred)) \<longleftrightarrow>
        state_check C (chain_st ts) (cert_spki (cred_certificate cred)) now (Add (as_unverified cert)) = Ok ())
    \<and> (\<forall>cb. fst (trust_store_add C now ts cert cred) = Ok cb \<longrightarrow>
        trust_store_check C now' ts (as_unchecked cb) = (Ok cb, ts))"
proof -
  let ?tx = "Add (as_unverified cert)" and ?T = "trust_state_ops C"
  note inv = ts_run_inv [OF assms(1,2)]
  have tx: "transaction_ok C ?tx" using assms(3) by (simp add: transaction_ok_def)
  have ok_iff: "is_ok (fst (trust_store_add C now ts cert cred)) \<longleftrightarrow>
      state_check C (chain_st ts) (cert_spki (cred_certificate cred)) now ?tx = Ok ()"
  proof (cases "state_check C (chain_st ts) (cert_spki (cred_certificate cred)) now ?tx")
    case (Ok u)
    then show ?thesis using chain_package_OkI [OF inv tx, of cred now] by (auto simp: trust_store_add_def)
  qed (auto simp: trust_store_add_def chain_package_def Let_def)
  moreover have "trust_store_check C now' ts (as_unchecked cb) = (Ok cb, ts)"
    if ok: "fst (trust_store_add C now ts cert cred) = Ok cb" for cb
  proof -
    have "state_check C (chain_st ts) (cert_spki (cred_certificate cred)) now ?tx = Ok ()"
      using ok_iff ok by simp
    from chain_package_OkI [OF inv tx this] ok
    have "block_signer (as_unchecked cb) = cert_spki (cred_certificate cred)"
      by (auto simp: trust_store_add_def)
    moreover have "chain_check ?T C now' ts (as_unchecked cb) (cred_certificate cred) = (Ok cb, ts)"
      by (rule ts.chain_package_checks [OF inv tx])
        (use ok assms(4,6,7) in \<open>simp_all add: trust_store_add_def signs_for_def\<close>)
    ultimately show ?thesis
      using assms(5) by (simp add: trust_store_check_def trust_store_get_def)
  qed
  ultimately show ?thesis by blast
qed

theorem add_then_check_witness:
  "is_ok (fst (trust_store_add sample_crypto 10 (trust_store_initialize sample_root)
     (Certificate sample_user) sample_root_credential))"
proof -
  have st: "chain_st (trust_store_initialize sample_root) = state_initialize sample_root"
      "last_block (trust_store_initialize sample_root) = None"
    by (simp_all add: trust_store_initialize_def chain_initialize_def)
  have wf: "cert_wf sample_crypto sample_user"
    using sample_transactions(1) by (simp add: transaction_ok_def)
  show ?thesis
    using add_then_check [OF sample_root_ok ts_init, of "Certificate sample_user" sample_root_credential 10 11]
      st wf sample_checks(1) sample_signers(1) by (simp add: trust_store_get_def)
qed

text \<open>The history of a trust store is a numbered, linked and signed log: block \<^verbatim>\<open>i\<close> carries
  sequence number \<^verbatim>\<open>i + 1\<close> (in 64 bits), the digest of block \<^verbatim>\<open>i - 1\<close> (zeros for the first),
  a time not before its predecessor's, and a signature that verifies under the key of the
  certificate named as signer; the store's sequence number is the number of blocks.\<close>

theorem trust_store_log:
  assumes "root_ok C r" "ts_run C r bs ts"
  shows "trust_store_sequence ts = of_nat (length bs)
    \<and> (\<forall>i < length bs. let b = fst (bs ! i); cert = snd (bs ! i) in
        block_sequence b = of_nat (Suc i)
        \<and> previous_block_hash b =
           (if i = 0 then replicate 64 0 else block_digest (trust_state_ops C) C (fst (bs ! (i - 1))))
        \<and> (i = 0 \<or> block_time (fst (bs ! (i - 1))) \<le> block_time b)
        \<and> block_signer b = cert_spki cert
        \<and> ed25519_verify C (public_key (as_unverified cert))
           (block_digest (trust_state_ops C) C b) (block_signature b))"
proof -
  have "log_entry_ok (trust_state_ops C) C bs i" if "i < length bs" for i
    using ts_run_log [OF assms that] .
  note entry = this [unfolded log_entry_ok_def block_digest_empty_def]
  then show ?thesis using trust_store_sequence_run [OF assms] by simp
qed

theorem trust_store_log_witness:
  "trust_store_sequence (trust_store_initialize sample_root) = 0"
  using trust_store_log [OF sample_root_ok ts_init] by simp



text \<open>Exporting a reachable trust store and importing the result restores it exactly when
  every stored certificate's issuer is stored too; otherwise the import fails and names
  missing issuers.\<close>

theorem export_import:
  assumes "root_ok C r" "ts_run C r bs ts"
  shows "(trust_store_import C (trust_store_export C ts) = Ok ts \<longleftrightarrow> issuers_present (chain_st ts))
    \<and> (\<not> issuers_present (chain_st ts) \<longrightarrow>
        (\<exists>ms. ms \<noteq> [] \<and> trust_store_import C (trust_store_export C ts)
          = Err (ChainImportError (MissingIssuers ms))))"
proof -
  note inv = ts_run_inv [OF assms]
  have "trust_store_import C (trust_store_export C ts) = Ok ts" if "issuers_present (chain_st ts)"
    unfolding trust_store_import_def trust_store_export_def
    by (rule ts.chain_import_export)
      (use state_import_export [OF inv that] ts_run_resulting_state [OF assms] in simp_all)
  moreover have "\<exists>ms. ms \<noteq> [] \<and> trust_store_import C (trust_store_export C ts)
      = Err (ChainImportError (MissingIssuers ms))" if "\<not> issuers_present (chain_st ts)"
    using state_import_missing [OF inv that]
    by (auto simp: trust_store_import_def trust_store_export_def chain_import_def chain_export_def)
  ultimately show ?thesis by fastforce
qed

theorem export_import_witness:
  "trust_store_import sample_crypto (trust_store_export sample_crypto (trust_store_initialize sample_root))
    = Ok (trust_store_initialize sample_root)"
proof -
  have "issuers_present (chain_st (trust_store_initialize sample_root))"
    by (simp add: issuers_present_def trust_store_initialize_def chain_initialize_def
        state_initialize_def sample_root_def sample_cert_def)
  then show ?thesis using export_import [OF sample_root_ok ts_init] by simp
qed

text \<open>A finding about \<^verbatim>\<open>RemoveExpired\<close> and about signers: there is a reachable trust store in
  which an agent certificate was added by a user whose own certificate had already expired
  at the time of the block, the user's certificate was then removed, and from then on the
  exported store can no longer be imported.\<close>

theorem expired_signer_and_broken_export:
  "\<exists>bs ts. ts_run sample_crypto sample_root bs ts
    \<and> check_validity_at sample_user 34560000 = Err Expired
    \<and> state_check sample_crypto sample_state1 (spki_hash sample_user) 34560000 (Add sample_agent) = Ok ()
    \<and> trust_store_get ts (spki_hash sample_agent) = Some (Certificate sample_agent)
    \<and> (\<exists>ms. trust_store_import sample_crypto (trust_store_export sample_crypto ts)
        = Err (ChainImportError (MissingIssuers ms)))"
proof -
  obtain bs ts where run: "ts_run sample_crypto sample_root bs ts" "chain_st ts = sample_state3"
    using sample_run3 by blast
  have get: "trust_store_get ts (spki_hash sample_agent) = Some (Certificate sample_agent)"
    using run(2) sample_hashes by (simp add: trust_store_get_def sample_state3_def sample_state2_def)
  have "\<exists>ms. ms \<noteq> [] \<and> state_import (state_export (chain_st ts)) = Err (MissingIssuers ms)"
    using state_import_missing [OF ts_run_inv [OF sample_root_ok run(1)]] run(2) sample_state3_not_closed by simp
  then have "\<exists>ms. trust_store_import sample_crypto (trust_store_export sample_crypto ts)
      = Err (ChainImportError (MissingIssuers ms))"
    by (auto simp: trust_store_import_def trust_store_export_def chain_import_def chain_export_def)
  moreover have "check_validity_at sample_user 34560000 = Err Expired"
    by code_simp
  moreover have "state_check sample_crypto sample_state1 (spki_hash sample_user) 34560000 (Add sample_agent) = Ok ()"
    using sample_checks(2) by (simp add: sample_user_credential_def)
  ultimately show ?thesis using run(1) get by blast
qed

text \<open>What an accepted block may do to a reachable store: an \<^verbatim>\<open>Add\<close> is signed by the issuer of
  the added certificate, which is stored and of type root or user, and the certificate is
  new and valid at the block's time; a \<^verbatim>\<open>RemoveExpired\<close> of a certificate other than the root
  removes exactly that certificate and only after it expired.\<close>

theorem accepted_transactions:
  assumes "root_ok C r" "ts_run C r bs ts" "transaction_ok C (block_transaction b)"
    "fst (trust_store_check C now ts b) = Ok cb"
  shows "(case block_transaction b of
      Add c \<Rightarrow> trust_store_get ts (spki_hash c) = None \<and> check_validity_at c (block_time b) = Ok ()
        \<and> issuer c = block_signer b
        \<and> (\<exists>p. trust_store_get ts (issuer c) = Some p \<and> is_user (cert_type p)
             \<and> verify_signature C c p (block_time b) = Ok (Certificate c))
    | RemoveExpired c \<Rightarrow> trust_store_get ts (spki_hash c) = Some (Certificate c)
        \<and> (Certificate c = as_certificate r \<or> check_validity_at c (block_time b) = Err Expired))"
proof -
  note inv = ts_run_inv [OF assms(1,2)]
  obtain cert where cert: "fmlookup (ts_certificates (chain_st ts)) (block_signer b) = Some cert"
    and chk: "fst (chain_check (trust_state_ops C) C now ts b cert) = Ok cb"
    using assms(4) by (auto simp: trust_store_check_def split: option.splits)
  have sc: "state_check C (chain_st ts) (block_signer b) (block_time b) (block_transaction b) = Ok ()"
    and pos: "check_position (trust_state_ops C) C (last_block ts) b = Ok ()"
    using chk unfolding ts.chain_check_Ok_iff trust_state_ops_simps by blast+
  have key: "cert_spki cert = block_signer b" using inv cert by (auto simp: state_inv_def)
  show ?thesis
  proof (cases "block_transaction b")
    case (Add c)
    from sc [unfolded Add] show ?thesis
    proof (rule state_check_AddD)
      fix p assume p: "fmlookup (ts_certificates (chain_st ts)) (block_signer b) = Some p"
        "fmlookup (ts_certificates (chain_st ts)) (spki_hash c) = None"
        "cert_spki p = issuer c" "verify_signature C c p (block_time b) = Ok (Certificate c)"
      have "is_user (cert_type p)" "check_validity_at c (block_time b) = Ok ()"
        using p(4) by (auto elim!: verify_signature_OkD dest: may_be_parent_of_is_user)
      then show ?thesis using Add p cert key by (auto simp: trust_store_get_def)
    qed
  next
    case (RemoveExpired c)
    have same: "fmlookup (ts_certificates (chain_st ts)) (spki_hash c) = Some (Certificate c)"
      using state_removed_same [OF inv _ sc [unfolded RemoveExpired]] assms(3) RemoveExpired
      by (simp add: transaction_ok_def)
    obtain e where e: "check_validity_at c (block_time b) = Err e"
      using sc unfolding RemoveExpired by (auto elim: state_check_RemoveD)
    have "e = Expired" if not_root: "Certificate c \<noteq> as_certificate r"
    proof -
      obtain l where l: "last_block ts = Some l" "0 \<le> not_before c"
          "of_int (not_before c) \<le> block_time (as_unchecked l)"
        using ts_run_started [OF assms(1,2) same not_root] by auto
      then have "of_int (not_before c) \<le> block_time b"
        using check_position_time [of _ _ l b] pos by (metis order_trans)
      then show ?thesis using check_validity_at_expired [OF e l(2)] by simp
    qed
    then show ?thesis using RemoveExpired same e by (auto simp: trust_store_get_def)
  qed
qed

theorem accepted_transactions_witness:
  "check_validity_at sample_user 10 = Ok ()"
proof -
  let ?ts = "trust_store_initialize sample_root"
  have st: "chain_st ?ts = state_initialize sample_root" "last_block ?ts = None"
    by (simp_all add: trust_store_initialize_def chain_initialize_def)
  obtain cb where cb: "chain_package (trust_state_ops sample_crypto) sample_crypto 10 ?ts (Add sample_user)
      sample_root_credential = (Ok cb, ?ts)"
      "block_transaction (as_unchecked cb) = Add sample_user" "block_time (as_unchecked cb) = 10"
      "block_signer (as_unchecked cb) = cert_spki (cred_certificate sample_root_credential)"
    using chain_package_OkI [of sample_crypto ?ts "Add sample_user" sample_root_credential 10]
      st state_initialize_inv [OF sample_root_ok] sample_checks(1) sample_transactions(1) by auto
  have "chain_check (trust_state_ops sample_crypto) sample_crypto 10 ?ts (as_unchecked cb)
      (cred_certificate sample_root_credential) = (Ok cb, ?ts)"
    using ts.chain_package_checks [of sample_crypto ?ts "Add sample_user" sample_crypto 10
        sample_root_credential cb 10] st state_initialize_inv [OF sample_root_ok] sample_transactions(1)
      cb(1) sample_signs(1) by (simp add: signs_for_def)
  then have "fst (trust_store_check sample_crypto 10 ?ts (as_unchecked cb)) = Ok cb"
    using st cb(4) sample_signers(1) by (simp add: trust_store_check_def)
  from accepted_transactions [OF sample_root_ok ts_init _ this] cb(2,3) sample_transactions(1)
  show ?thesis by simp
qed

text \<open>C13. Completing a certificate chain from a reachable store always ends without a panic.
  On success the chain starts with a certificate of type root, ends with the given leaf,
  every certificate names its predecessor as issuer, no hash occurs twice, and all
  certificates but the leaf are stored ones; on failure either an issuer is not stored or
  the issuers form a loop.\<close>

theorem complete_certificate_chain_correct:
  assumes "root_ok C r" "ts_run C r bs ts"
  shows "(case complete_certificate_chain ts (builder_new leaf) of
      Ok ch \<Rightarrow> (let us = unverified_certificates ch in
          us \<noteq> [] \<and> last us = leaf \<and> certificate_type (hd us) = Root
          \<and> successively (\<lambda>p c. issuer c = spki_hash p) us \<and> distinct (map spki_hash us)
          \<and> (\<forall>u \<in> set (butlast us). trust_store_get ts (spki_hash u) = Some (Certificate u)))
    | Err (NotFound k) \<Rightarrow> trust_store_get ts k = None
    | Err (AddCertificateError e) \<Rightarrow> (\<exists>cs. e = SignatureLoop cs \<and> \<not> distinct (map spki_hash cs))
    | Panicked \<Rightarrow> False)"
proof -
  have keys: "store_keys_ok ts"
    using ts_run_inv [OF assms] by (auto simp: store_keys_ok_def trust_store_get_def state_inv_def)
  note post = complete_loop_post [OF keys builder_new_inv, of leaf]
  show ?thesis
  proof (cases "complete_loop ts (builder_new leaf)")
    case (Ok b)
    then obtain ps where b: "builder_inv b" "certificate_type (last (builder_certificates b)) = Root"
        "builder_certificates b = leaf # map as_unverified ps"
        "\<forall>p \<in> set ps. trust_store_get ts (cert_spki p) = Some p"
      using post by (auto simp: complete_post_def builder_new_def)
    then have fin: "finish b = Ok (UnverifiedCertificateChain (rev (builder_certificates b)))"
      by (simp add: finish_def is_finished_def last_opt_Some)
    have "successively (\<lambda>p c. issuer c = spki_hash p) (rev (builder_certificates b))"
      using b(1) unfolding builder_inv_def successively_rev by (auto elim: successively_mono)
    moreover have "distinct (map spki_hash (rev (builder_certificates b)))"
      using b(1) by (simp add: builder_inv_def rev_map [symmetric])
    moreover have "hd (rev (builder_certificates b)) = last (builder_certificates b)"
      using b(3) by (simp add: hd_rev del: rev.simps)
    moreover have "butlast (rev (builder_certificates b)) = rev (map as_unverified ps)"
      using b(3) by simp
    ultimately show ?thesis
      using b fin Ok by (simp add: complete_certificate_chain_def Let_def)
  qed (use post in \<open>auto simp: complete_certificate_chain_def complete_post_def
      split: complete_cert_chain_error.splits\<close>)
qed

theorem complete_certificate_chain_correct_witness:
  "complete_certificate_chain (trust_store_initialize sample_root) (builder_new sample_agent) \<noteq> Panicked"
  using complete_certificate_chain_correct [OF sample_root_ok ts_init, of sample_agent]
  by (cases "complete_certificate_chain (trust_store_initialize sample_root) (builder_new sample_agent)") auto

end
