(* ===== verification/SessionStore.thy ===== *)
theory SessionStore
  imports TrustStore
begin

text \<open>
  The server's session table (\<^verbatim>\<open>svalin_store/src/server_store/session_store.rs\<close>, schema
  \<^verbatim>\<open>svalin_store/migrations/20250903230512_sessions.sql\<close>) and the chain loader that combines
  it with the trust store (\<^verbatim>\<open>svalin/src/server/chain_loader.rs\<close>). A table is the list of its
  rows in insertion order; a violated primary key is an error value. Failures of the
  database itself (disk, locking) are not modelled.
\<close>

section \<open>The session table\<close>

text \<open>The errors of SQLite statements that depend on the data.\<close>

datatype sqlx_error = UniqueViolation | RowNotFound

record session_row =
  session_spki_hash :: bytes
  session_issuer :: bytes
  session_certificate :: bytes

type_synonym session_store = "session_row list"

datatype add_session_error =
    AddSessionSqlx sqlx_error
  | AddSessionInvalidType certificate_type

definition add_session ::
  "session_store \<Rightarrow> certificate \<Rightarrow> (unit, add_session_error) result \<times> session_store" where
  "add_session self cert =
    (if cert_type cert \<noteq> UserSession then (Err (AddSessionInvalidType (cert_type cert)), self)
     else
       let hash = spki_bytes (cert_spki cert) in
       if hash \<in> session_spki_hash ` set self then (Err (AddSessionSqlx UniqueViolation), self)
       else (Ok (), self @ [\<lparr> session_spki_hash = hash,
          session_issuer = spki_bytes (issuer (as_unverified cert)),
          session_certificate = cert_der cert \<rparr>]))"

definition get_session ::
  "crypto \<Rightarrow> session_store \<Rightarrow> spki_hash \<Rightarrow> (unverified_certificate option, certificate_parse_error) result" where
  "get_session C self hash =
    (case find (\<lambda>row. session_spki_hash row = spki_bytes hash) self of
       Some row \<Rightarrow> map_ok Some (from_der C (session_certificate row))
     | None \<Rightarrow> Ok None)"

definition list_user_sessions ::
  "crypto \<Rightarrow> session_store \<Rightarrow> spki_hash \<Rightarrow> (unverified_certificate list, certificate_parse_error) result" where
  "list_user_sessions C self user =
    collect_results (map (\<lambda>row. from_der C (session_certificate row))
      (filter (\<lambda>row. session_issuer row = spki_bytes user) self))"

section \<open>The chain loader\<close>

datatype chain_loader_error =
    LoadSessionError certificate_parse_error
  | LoadChainError complete_cert_chain_error

record chain_loader =
  loader_trust_store :: trust_store
  loader_session_store :: session_store

definition load_certificate_chain ::
  "crypto \<Rightarrow> chain_loader \<Rightarrow> spki_hash \<Rightarrow> (unverified_certificate_chain option, chain_loader_error) result" where
  "load_certificate_chain C self request =
    and_then (map_err LoadSessionError (get_session C (loader_session_store self) request)) (\<lambda>session.
    let cert = (case session of
        Some s \<Rightarrow> Some s
      | None \<Rightarrow> map_option as_unverified (trust_store_get (loader_trust_store self) request)) in
    case cert of
      None \<Rightarrow> Ok None
    | Some c \<Rightarrow>
        map_ok Some (map_err LoadChainError
          (complete_certificate_chain (loader_trust_store self) (builder_new c))))"

section \<open>Invariant\<close>

text \<open>The rows are what \<^verbatim>\<open>add_session\<close> writes for well-formed session certificates, under
  distinct keys.\<close>

definition session_row_of :: "unverified_certificate \<Rightarrow> session_row" where
  "session_row_of c = \<lparr> session_spki_hash = spki_bytes (spki_hash c),
     session_issuer = spki_bytes (issuer c), session_certificate = der c \<rparr>"

definition session_store_inv :: "crypto \<Rightarrow> session_store \<Rightarrow> bool" where
  "session_store_inv C s \<longleftrightarrow> distinct (map session_spki_hash s)
    \<and> (\<forall>row \<in> set s. \<exists>c. row = session_row_of c \<and> certificate_type c = UserSession \<and> cert_wf C c)"

lemma spki_bytes_eq_iff [simp]: "spki_bytes a = spki_bytes b \<longleftrightarrow> a = b"
  by (cases a; cases b) simp

lemma session_row_of_sel [simp]:
  "session_spki_hash (session_row_of c) = spki_bytes (spki_hash c)"
  "session_issuer (session_row_of c) = spki_bytes (issuer c)"
  "session_certificate (session_row_of c) = der c"
  by (simp_all add: session_row_of_def)

lemma add_session_inv:
  assumes "session_store_inv C s" "cert_wf C (as_unverified c)"
  shows "session_store_inv C (snd (add_session s c))"
proof (cases "cert_type c = UserSession \<and> spki_bytes (cert_spki c) \<notin> session_spki_hash ` set s")
  case True
  then have "snd (add_session s c) = s @ [session_row_of (as_unverified c)]"
    by (simp add: add_session_def session_row_of_def)
  with True assms show ?thesis by (auto simp: session_store_inv_def)
qed (use assms in \<open>auto simp: add_session_def\<close>)

lemma add_session_appends:
  "add_session s c = (Ok (), s') \<longleftrightarrow>
    cert_type c = UserSession \<and> spki_bytes (cert_spki c) \<notin> session_spki_hash ` set s
    \<and> s' = s @ [session_row_of (as_unverified c)]"
  by (auto simp: add_session_def session_row_of_def Let_def split: if_splits)

text \<open>Looking up a session in a store that satisfies the invariant never fails.\<close>

lemma get_session_inv:
  assumes "session_store_inv C s"
  shows "\<exists>res. get_session C s h = Ok res
    \<and> (\<forall>c. res = Some c \<longleftrightarrow> session_row_of c \<in> set s \<and> cert_wf C c \<and> spki_hash c = h)"
proof (cases "find (\<lambda>row. session_spki_hash row = spki_bytes h) s")
  case None
  then have "get_session C s h = Ok None" by (simp add: get_session_def)
  moreover have "session_row_of c \<in> set s \<Longrightarrow> spki_hash c \<noteq> h" for c
    using None unfolding find_None_iff by (metis session_row_of_sel(1))
  ultimately show ?thesis by blast
next
  case (Some row)
  then have row: "row \<in> set s" "session_spki_hash row = spki_bytes h"
    by (auto simp: find_Some_iff)
  with assms obtain c where c: "row = session_row_of c" "cert_wf C c"
    unfolding session_store_inv_def by blast
  have "c' = c" if "session_row_of c' \<in> set s" "cert_wf C c'" "spki_hash c' = h" for c'
  proof -
    have eq: "session_row_of c' = row"
    proof (rule inj_onD [of session_spki_hash "set s"])
      show "inj_on session_spki_hash (set s)"
        using assms by (simp add: session_store_inv_def distinct_map)
    qed (use that(1,3) row in simp_all)
    have "session_certificate (session_row_of c') = session_certificate (session_row_of c)"
      unfolding eq c(1) ..
    then have "der c' = der c" by simp
    with that(2) c(2) show ?thesis by (rule cert_wf_der_inj)
  qed
  moreover have "get_session C s h = Ok (Some c)"
    using Some c by (simp add: get_session_def cert_wf_def)
  moreover have "spki_hash c = h" using row(2) c(1) by simp
  ultimately show ?thesis using row(1) c by blast
qed

lemma find_eq_None_image: "find (\<lambda>r. f r = k) xs = None \<longleftrightarrow> k \<notin> f ` set xs"
  by (induction xs) auto

lemma find_append: "find P (xs @ ys) = (case find P xs of None \<Rightarrow> find P ys | Some x \<Rightarrow> Some x)"
  by (induction xs) auto

lemma collect_results_map:
  "\<forall>x \<in> set xs. f x = Ok (g x) \<Longrightarrow> collect_results (map f xs) = Ok (map g xs)"
  by (induction xs) auto

lemma load_certificate_chain_leaf:
  assumes "session_store_inv C (loader_session_store l)" "store_keys_ok (loader_trust_store l)"
    "load_certificate_chain C l h = Ok (Some ch)"
  shows "\<exists>c. unverified_leaf ch = Some c \<and> spki_hash c = h
    \<and> (session_row_of c \<in> set (loader_session_store l)
       \<or> trust_store_get (loader_trust_store l) h = Some (Certificate c))"
proof -
  from get_session_inv [OF assms(1), of h] obtain res where
    res: "get_session C (loader_session_store l) h = Ok res"
      "\<And>c. res = Some c \<longleftrightarrow> session_row_of c \<in> set (loader_session_store l) \<and> cert_wf C c \<and> spki_hash c = h"
    by blast
  from assms(3) res(1) obtain c where
    c: "res = Some c \<or> map_option as_unverified (trust_store_get (loader_trust_store l) h) = Some c"
      "complete_certificate_chain (loader_trust_store l) (builder_new c) = Ok ch"
    by (auto simp: load_certificate_chain_def result_simps Let_def split: option.splits)
  from c(2) obtain b where b: "complete_loop (loader_trust_store l) (builder_new c) = Ok b" "finish b = Ok ch"
    by (auto simp: complete_certificate_chain_def result_simps)
  obtain ps where "builder_certificates b = c # ps"
    using complete_loop_post [OF assms(2) builder_new_inv, of c] b(1)
    by (auto simp: complete_post_def builder_new_def)
  moreover have "unverified_certificates ch = rev (builder_certificates b)"
    using b(2) by (auto simp: finish_def result_simps split: if_splits)
  ultimately have "unverified_leaf ch = Some c"
    by (simp add: unverified_leaf_def)
  moreover have "spki_hash c = h" "session_row_of c \<in> set (loader_session_store l)
      \<or> trust_store_get (loader_trust_store l) h = Some (Certificate c)"
    using c(1) res(2) assms(2) by (auto simp: store_keys_ok_def)
  ultimately show ?thesis by blast
qed

section \<open>Properties\<close>

text \<open>Storing a session: only a session certificate whose hash is not stored yet is
  accepted, every other call leaves the table as it is. Afterwards the lookup under its
  hash returns exactly this certificate, all other lookups and the sessions of other
  users are as before, and the issuing user's sessions grow by it.\<close>

theorem add_session_correct:
  assumes "session_store_inv C s" "cert_wf C (as_unverified c)"
  shows "(fst (add_session s c) = Ok () \<longleftrightarrow>
      cert_type c = UserSession \<and> get_session C s (cert_spki c) = Ok None)
    \<and> (fst (add_session s c) \<noteq> Ok () \<longrightarrow> snd (add_session s c) = s)
    \<and> (fst (add_session s c) = Ok () \<longrightarrow>
        get_session C (snd (add_session s c)) (cert_spki c) = Ok (Some (as_unverified c))
        \<and> (\<forall>h. h \<noteq> cert_spki c \<longrightarrow> get_session C (snd (add_session s c)) h = get_session C s h)
        \<and> (\<forall>u. list_user_sessions C (snd (add_session s c)) u =
             (if u = issuer (as_unverified c)
              then map_ok (\<lambda>l. l @ [as_unverified c]) (list_user_sessions C s u)
              else list_user_sessions C s u)))"
proof -
  let ?s' = "snd (add_session s c)" and ?r = "session_row_of (as_unverified c)"
  have free: "get_session C s (cert_spki c) = Ok None \<longleftrightarrow> spki_bytes (cert_spki c) \<notin> session_spki_hash ` set s"
    unfolding find_eq_None_image [symmetric] by (auto simp: get_session_def result_simps split: option.splits)
  then have ok: "fst (add_session s c) = Ok () \<longleftrightarrow>
      cert_type c = UserSession \<and> get_session C s (cert_spki c) = Ok None"
    by (auto simp: add_session_def Let_def)
  have "?s' = s" if "fst (add_session s c) \<noteq> Ok ()"
    using that by (auto simp: add_session_def Let_def)
  moreover have "get_session C ?s' (cert_spki c) = Ok (Some (as_unverified c))
      \<and> (\<forall>h. h \<noteq> cert_spki c \<longrightarrow> get_session C ?s' h = get_session C s h)
      \<and> (\<forall>u. list_user_sessions C ?s' u = (if u = issuer (as_unverified c)
          then map_ok (\<lambda>l. l @ [as_unverified c]) (list_user_sessions C s u)
          else list_user_sessions C s u))"
    if "fst (add_session s c) = Ok ()"
  proof -
    have s': "?s' = s @ [?r]"
      using that add_session_appends [of s c ?s'] by (cases "add_session s c") auto
    have der: "from_der C (cert_der c) = Ok (as_unverified c)"
      using assms(2) by (simp add: cert_wf_def)
    have "find (\<lambda>row. session_spki_hash row = spki_bytes (cert_spki c)) s = None"
      using that ok free unfolding find_eq_None_image by blast
    then have "get_session C ?s' (cert_spki c) = Ok (Some (as_unverified c))"
      by (simp add: get_session_def s' find_append der)
    moreover have "get_session C ?s' h = get_session C s h" if "h \<noteq> cert_spki c" for h
      using that by (auto simp: get_session_def s' find_append split: option.splits)
    moreover have "list_user_sessions C ?s' u = (if u = issuer (as_unverified c)
        then map_ok (\<lambda>l. l @ [as_unverified c]) (list_user_sessions C s u)
        else list_user_sessions C s u)" for u
      by (simp add: list_user_sessions_def s' der collect_results_snoc)
    ultimately show ?thesis by blast
  qed
  ultimately show ?thesis using ok by blast
qed

theorem add_session_correct_witness:
  "let c = Certificate (sample_cert UserSession 2 9 8 100) in
   get_session sample_crypto (snd (add_session [] c)) (cert_spki c) = Ok (Some (as_unverified c))"
proof -
  let ?c = "Certificate (sample_cert UserSession 2 9 8 100)"
  have "session_store_inv sample_crypto []" by (simp add: session_store_inv_def)
  moreover have "cert_wf sample_crypto (as_unverified ?c)" unfolding cert_wf_def by code_simp
  moreover have "fst (add_session [] ?c) = Ok ()" by code_simp
  ultimately show ?thesis
    using add_session_correct [of sample_crypto "[]" ?c] by (simp add: Let_def)
qed

end
