(* ===== verification/Verifier.thy ===== *)
theory Verifier
  imports SessionStore
begin

text \<open>
  Certificate verifiers (\<^verbatim>\<open>svalin_pki/src/verifier.rs\<close> and \<^verbatim>\<open>svalin_pki/src/verifier/\<close>): the
  trait with its default method, the exact, one-of, trust-store and type-limited
  verifiers, the server's chain verifier (\<^verbatim>\<open>svalin/src/verifier/local_verifier.rs\<close>), and the
  adapter through which rustls calls them during a handshake. The trait is the record
  \<^verbatim>\<open>verifier\<close>, its contract the locale \<^verbatim>\<open>verifier_contract\<close>; each implementation is an
  interpretation.
\<close>

section \<open>The trait\<close>

text \<open>The \<^verbatim>\<open>anyhow::Error\<close> values that reach \<^verbatim>\<open>VerifyError::InternalError\<close>.\<close>

datatype internal_error = LoaderFailed chain_loader_error | WrongCertificateFromLoader

datatype verify_error =
    ChainError verify_chain_error
  | NotYetImplemented
  | CertificateRevoked
  | CertificateInvalid
  | UnknownCertificate
  | CertificateMismatch
  | TimerangeError validity_error
  | ChainTimerangeError validity_error spki_hash
  | SignatureError signature_verification_error
  | SpkiHashCollission spki_hash unverified_certificate certificate
  | IncorrectCertificateType
  | InternalError internal_error

record verifier =
  verify_spki_hash :: "spki_hash \<Rightarrow> u64 \<Rightarrow> (certificate, verify_error) result"
  verify_known_certificate :: "unverified_certificate \<Rightarrow> u64 \<Rightarrow> (certificate, verify_error) result"

text \<open>The trait's default \<^verbatim>\<open>verify_known_certificate\<close>, on top of \<^verbatim>\<open>verify_spki_hash\<close>.\<close>

definition default_verify_known_certificate ::
  "(spki_hash \<Rightarrow> u64 \<Rightarrow> (certificate, verify_error) result)
    \<Rightarrow> unverified_certificate \<Rightarrow> u64 \<Rightarrow> (certificate, verify_error) result" where
  "default_verify_known_certificate by_hash cert time =
    (let fingerprint = spki_hash cert in
     and_then (by_hash fingerprint time) (\<lambda>loaded_cert.
     if \<not> cert_eq cert (as_unverified loaded_cert)
     then Err (SpkiHashCollission fingerprint cert loaded_cert)
     else Ok loaded_cert))"

definition default_verifier ::
  "(spki_hash \<Rightarrow> u64 \<Rightarrow> (certificate, verify_error) result) \<Rightarrow> verifier" where
  "default_verifier by_hash =
    \<lparr> verify_spki_hash = by_hash,
      verify_known_certificate = default_verify_known_certificate by_hash \<rparr>"

section \<open>Implementations\<close>

definition exact_verifier :: "certificate \<Rightarrow> verifier" where
  "exact_verifier expected = default_verifier (\<lambda>hash time.
    if hash = cert_spki expected then
      and_then (map_err TimerangeError (check_validity_at (as_unverified expected) time)) (\<lambda>_. Ok expected)
    else Err CertificateMismatch)"

text \<open>Collecting into a \<^verbatim>\<open>HashMap\<close>: a later certificate replaces an earlier one with the
  same hash.\<close>

definition one_of_new :: "certificate list \<Rightarrow> (spki_hash, certificate) fmap" where
  "one_of_new expected = fold (\<lambda>c m. fmupd (cert_spki c) c m) expected fmempty"

definition one_of_verifier :: "(spki_hash, certificate) fmap \<Rightarrow> verifier" where
  "one_of_verifier expected = default_verifier (\<lambda>hash time.
    case fmlookup expected hash of
      Some cert \<Rightarrow>
        and_then (map_err TimerangeError (check_validity_at (as_unverified cert) time)) (\<lambda>_. Ok cert)
    | None \<Rightarrow> Err CertificateMismatch)"

definition trust_store_verify_spki_hash ::
  "trust_store \<Rightarrow> spki_hash \<Rightarrow> u64 \<Rightarrow> (certificate, verify_error) result" where
  "trust_store_verify_spki_hash ts hash time =
    (case trust_store_get ts hash of
       None \<Rightarrow> Err UnknownCertificate
     | Some cert \<Rightarrow>
         and_then (map_err TimerangeError (check_validity_at (as_unverified cert) time)) (\<lambda>_. Ok cert))"

definition trust_store_verify_known ::
  "crypto \<Rightarrow> trust_store \<Rightarrow> unverified_certificate \<Rightarrow> u64 \<Rightarrow> (certificate, verify_error) result" where
  "trust_store_verify_known C ts cert time =
    (case certificate_type cert of
       Temporary \<Rightarrow> Err IncorrectCertificateType
     | UserSession \<Rightarrow>
         and_then (trust_store_verify_spki_hash ts (issuer cert) time) (\<lambda>iss.
         map_err SignatureError (verify_signature C cert iss time))
     | _ \<Rightarrow>
         and_then (trust_store_verify_spki_hash ts (spki_hash cert) time) (\<lambda>correct_cert.
         if cert_eq (as_unverified correct_cert) cert then Ok correct_cert
         else Err IncorrectCertificateType))"

definition trust_store_verifier :: "crypto \<Rightarrow> trust_store \<Rightarrow> verifier" where
  "trust_store_verifier C ts =
    \<lparr> verify_spki_hash = trust_store_verify_spki_hash ts,
      verify_known_certificate = trust_store_verify_known C ts \<rparr>"

text \<open>The type-limited verifier implements only \<^verbatim>\<open>verify_spki_hash\<close>, so known certificates go
  through the default method.\<close>

definition type_limited :: "(certificate_type \<Rightarrow> bool) \<Rightarrow> verifier \<Rightarrow> verifier" where
  "type_limited chk inner = default_verifier (\<lambda>hash time.
    and_then (verify_spki_hash inner hash time) (\<lambda>cert.
    if chk (cert_type cert) then Ok cert else Err IncorrectCertificateType))"

definition server_only :: "verifier \<Rightarrow> verifier" where
  "server_only = type_limited (\<lambda>t. case t of Server \<Rightarrow> True | _ \<Rightarrow> False)"

definition local_verifier :: "crypto \<Rightarrow> root_certificate \<Rightarrow> chain_loader \<Rightarrow> verifier" where
  "local_verifier C root loader = default_verifier (\<lambda>hash time.
    and_then (map_err (\<lambda>e. InternalError (LoaderFailed e)) (load_certificate_chain C loader hash)) (\<lambda>loaded.
    case loaded of
      None \<Rightarrow> Err UnknownCertificate
    | Some cert_chain \<Rightarrow>
        and_then (map_err ChainError (chain_verify C cert_chain root time)) (\<lambda>verified.
        and_then (take_leaf verified) (\<lambda>cert.
        if cert_spki cert \<noteq> hash then Err (InternalError WrongCertificateFromLoader)
        else Ok cert))))"

section \<open>The adapter for rustls\<close>

text \<open>\<^verbatim>\<open>RecvError\<close>: the verifying task was dropped by a panic before it could answer.\<close>

datatype other_error = VerifyFailed verify_error | RecvError

datatype tls_certificate_error = BadEncoding | Revoked | Other other_error

datatype tls_error = InvalidCertificate tls_certificate_error

definition verify_cert :: "crypto \<Rightarrow> verifier \<Rightarrow> bytes \<Rightarrow> u64 \<Rightarrow> (unit, tls_error) result" where
  "verify_cert C self end_entity now =
    and_then (map_err (\<lambda>_. InvalidCertificate BadEncoding) (from_der C end_entity)) (\<lambda>cert.
    map_err InvalidCertificate
      (case verify_known_certificate self cert now of
         Ok _ \<Rightarrow> Ok ()
       | Err CertificateInvalid \<Rightarrow> Err BadEncoding
       | Err CertificateRevoked \<Rightarrow> Err Revoked
       | Err err \<Rightarrow> Err (Other (VerifyFailed err))
       | Panicked \<Rightarrow> Err (Other RecvError)))"

text \<open>The server accepts clients without a certificate; a presented one is verified.\<close>

definition tls_optional_verify ::
  "crypto \<Rightarrow> verifier \<Rightarrow> bytes option \<Rightarrow> u64 \<Rightarrow> (unit, tls_error) result" where
  "tls_optional_verify C inner presented now =
    (case presented of None \<Rightarrow> Ok () | Some end_entity \<Rightarrow> verify_cert C inner end_entity now)"

section \<open>Lemmas\<close>

lemma default_verifier_sel [simp]:
  "verify_spki_hash (default_verifier f) = f"
  "verify_known_certificate (default_verifier f) = default_verify_known_certificate f"
  by (simp_all add: default_verifier_def)

lemma default_verify_known_Ok_iff [result_simps]:
  "default_verify_known_certificate f u t = Ok c \<longleftrightarrow> f (spki_hash u) t = Ok c \<and> cert_der c = der u"
  by (cases "f (spki_hash u) t")
    (auto simp: default_verify_known_certificate_def Let_def cert_eq_def)

lemma type_limited_hash_Ok_iff [result_simps]:
  "verify_spki_hash (type_limited chk V) h t = Ok c \<longleftrightarrow> verify_spki_hash V h t = Ok c \<and> chk (cert_type c)"
  by (auto simp: type_limited_def result_simps split: if_splits)

lemma type_limited_known_Ok_iff [result_simps]:
  "verify_known_certificate (type_limited chk V) u t = Ok c \<longleftrightarrow>
    verify_spki_hash V (spki_hash u) t = Ok c \<and> chk (cert_type c) \<and> cert_der c = der u"
  using type_limited_hash_Ok_iff [of chk V "spki_hash u" t c]
  by (auto simp: type_limited_def default_verify_known_Ok_iff)

lemma server_only_type: "(case t of Server \<Rightarrow> True | _ \<Rightarrow> False) \<longleftrightarrow> t = Server"
  by (cases t) simp_all

lemma trust_store_hash_Ok_iff [result_simps]:
  "trust_store_verify_spki_hash ts h t = Ok c \<longleftrightarrow>
    trust_store_get ts h = Some c \<and> check_validity_at (as_unverified c) t = Ok ()"
  by (auto simp: trust_store_verify_spki_hash_def result_simps split: option.splits)

lemma trust_store_known_Ok_iff:
  "trust_store_verify_known C ts u t = Ok c \<longleftrightarrow>
    certificate_type u \<noteq> Temporary \<and>
    (if certificate_type u = UserSession
     then \<exists>p. trust_store_get ts (issuer u) = Some p \<and> check_validity_at (as_unverified p) t = Ok ()
       \<and> verify_signature C u p t = Ok c
     else trust_store_get ts (spki_hash u) = Some c \<and> check_validity_at (as_unverified c) t = Ok ()
       \<and> cert_der c = der u)"
  by (cases "certificate_type u")
    (auto simp: trust_store_verify_known_def result_simps cert_eq_def split: if_splits)

lemma verify_cert_Ok_iff:
  "verify_cert C V d now = Ok () \<longleftrightarrow>
    (\<exists>u c. from_der C d = Ok u \<and> verify_known_certificate V u now = Ok c)"
proof (cases "from_der C d")
  case (Ok u)
  show ?thesis
  proof (cases "verify_known_certificate V u now")
    case (Err e)
    with Ok show ?thesis by (cases e) (simp_all add: verify_cert_def)
  qed (simp_all add: verify_cert_def Ok)
qed (simp_all add: verify_cert_def)

section \<open>The contract of a verifier\<close>

text \<open>A family of verifiers over a state that satisfies an invariant. A lookup by hash
  returns a certificate with that hash, a known certificate is returned as it was
  presented, and everything returned satisfies the predicate \<^verbatim>\<open>trusted\<close>.\<close>

locale verifier_contract =
  fixes V :: "'s \<Rightarrow> verifier"
    and v_inv :: "'s \<Rightarrow> bool"
    and trusted :: "'s \<Rightarrow> certificate \<Rightarrow> bool"
  assumes by_hash: "v_inv s \<Longrightarrow> verify_spki_hash (V s) h t = Ok c \<Longrightarrow> cert_spki c = h \<and> trusted s c"
    and by_cert: "v_inv s \<Longrightarrow> verify_known_certificate (V s) u t = Ok c \<Longrightarrow>
      cert_der c = der u \<and> trusted s c"
begin

text \<open>What a completed handshake means.\<close>

lemma tls_accepted:
  assumes "v_inv s" "verify_cert C (V s) d now = Ok ()"
  shows "\<exists>u c. from_der C d = Ok u \<and> verify_known_certificate (V s) u now = Ok c
    \<and> cert_der c = d \<and> trusted s c"
  using assms(2) by_cert [OF assms(1)] from_der_der unfolding verify_cert_Ok_iff by metis

text \<open>The contract of the type-limited verifier, for every limit.\<close>

lemma limited:
  "verifier_contract (\<lambda>s. type_limited chk (V s)) v_inv (\<lambda>s c. trusted s c \<and> chk (cert_type c))"
  by unfold_locales (use by_hash in \<open>auto simp: result_simps\<close>)

end

text \<open>Verifiers that also check the validity of what they return.\<close>

locale timed_verifier = verifier_contract +
  assumes by_hash_valid: "v_inv s \<Longrightarrow> verify_spki_hash (V s) h t = Ok c \<Longrightarrow>
      check_validity_at (as_unverified c) t = Ok ()"
    and by_cert_valid: "v_inv s \<Longrightarrow> verify_known_certificate (V s) u t = Ok c \<Longrightarrow>
      check_validity_at (as_unverified c) t = Ok ()"
begin

lemma tls_accepted_valid:
  assumes "v_inv s" "verify_cert C (V s) d now = Ok ()"
  shows "\<exists>u c. from_der C d = Ok u \<and> verify_known_certificate (V s) u now = Ok c
    \<and> cert_der c = d \<and> trusted s c \<and> check_validity_at (as_unverified c) now = Ok ()"
  using tls_accepted [OF assms] by_cert_valid [OF assms(1)] by blast

lemma limited_timed:
  "timed_verifier (\<lambda>s. type_limited chk (V s)) v_inv (\<lambda>s c. trusted s c \<and> chk (cert_type c))"
  unfolding timed_verifier_def timed_verifier_axioms_def
  using limited [of chk] by_hash_valid by (auto simp: result_simps)

end

section \<open>The implementations satisfy it\<close>

interpretation exact: timed_verifier exact_verifier "\<lambda>_. True" "\<lambda>expected c. c = expected"
  by unfold_locales (auto simp: exact_verifier_def result_simps split: if_splits)

definition one_of_inv :: "(spki_hash, certificate) fmap \<Rightarrow> bool" where
  "one_of_inv m \<longleftrightarrow> (\<forall>k c. fmlookup m k = Some c \<longrightarrow> cert_spki c = k)"

lemma one_of_new_inv: "one_of_inv (one_of_new cs)"
proof -
  have "one_of_inv m \<Longrightarrow> one_of_inv (fold (\<lambda>c. fmupd (cert_spki c) c) cs m)" for m
  proof (induction cs arbitrary: m)
    case (Cons c cs)
    have "one_of_inv (fmupd (cert_spki c) c m)"
      using Cons.prems unfolding one_of_inv_def by (metis fmupd_lookup option.inject)
    then show ?case using Cons.IH by simp
  qed simp
  moreover have "one_of_inv fmempty" by (simp add: one_of_inv_def)
  ultimately show ?thesis by (simp add: one_of_new_def)
qed

lemma one_of_hash_Ok_iff:
  "verify_spki_hash (one_of_verifier m) h t = Ok c \<longleftrightarrow>
    fmlookup m h = Some c \<and> check_validity_at (as_unverified c) t = Ok ()"
  by (cases "fmlookup m h") (auto simp: one_of_verifier_def result_simps)

lemma one_of_known_Ok_iff:
  "verify_known_certificate (one_of_verifier m) u t = Ok c \<longleftrightarrow>
    fmlookup m (spki_hash u) = Some c \<and> check_validity_at (as_unverified c) t = Ok () \<and> cert_der c = der u"
  using one_of_hash_Ok_iff [of m "spki_hash u" t c]
  by (simp add: one_of_verifier_def default_verify_known_Ok_iff)

interpretation one_of: timed_verifier one_of_verifier one_of_inv "\<lambda>m c. fmlookup m (cert_spki c) = Some c"
  unfolding one_of_inv_def by unfold_locales (metis one_of_hash_Ok_iff one_of_known_Ok_iff)+

text \<open>The trust store that a run of checked blocks reaches from the root.\<close>

definition reached_from :: "crypto \<Rightarrow> root_certificate \<Rightarrow> trust_store \<Rightarrow> bool" where
  "reached_from C r ts \<longleftrightarrow> root_ok C r \<and> (\<exists>bs. ts_run C r bs ts)"

lemma reached_from_get:
  assumes "reached_from C r ts" "trust_store_get ts h = Some c"
  shows "cert_spki c = h" "cert_wf C (as_unverified c)" "authorised C r c"
  using assms ts_run_inv ts_run_authorised
  unfolding reached_from_def state_inv_def trust_store_get_def by blast+

lemma reached_from_keys: "reached_from C r ts \<Longrightarrow> store_keys_ok ts"
  using reached_from_get by (auto simp: store_keys_ok_def)

interpretation tsv: timed_verifier "trust_store_verifier C" "reached_from C r" "\<lambda>_. authorised C r" for C r
proof unfold_locales
  fix ts u t c
  assume ts: "reached_from C r ts" and ok: "verify_known_certificate (trust_store_verifier C ts) u t = Ok c"
  then have D: "trust_store_verify_known C ts u t = Ok c" by (simp add: trust_store_verifier_def)
  show "cert_der c = der u \<and> authorised C r c"
  proof (cases "certificate_type u = UserSession")
    case True
    with D obtain p where "trust_store_get ts (issuer u) = Some p" "verify_signature C u p t = Ok c"
      unfolding trust_store_known_Ok_iff by auto
    moreover from this(2) have "c = Certificate u" by (rule verify_signature_result)
    ultimately show ?thesis
      using reached_from_get [OF ts] authorised.auth_issued [of C r p u t c] by simp
  qed (use D ts reached_from_get in \<open>auto simp: trust_store_known_Ok_iff\<close>)
  show "check_validity_at (as_unverified c) t = Ok ()"
    using D unfolding trust_store_known_Ok_iff
    by (auto split: if_splits elim!: verify_signature_OkD)
qed (auto simp: trust_store_verifier_def result_simps reached_from_get)

text \<open>The verifier of a client that connects to its server.\<close>

interpretation tss: timed_verifier "\<lambda>ts. server_only (trust_store_verifier C ts)" "reached_from C r"
    "\<lambda>_ c. authorised C r c \<and> (case cert_type c of Server \<Rightarrow> True | _ \<Rightarrow> False)" for C r
  unfolding server_only_def by (rule tsv.limited_timed)

text \<open>The chain verifier over the loader.\<close>

definition loader_inv :: "crypto \<Rightarrow> root_certificate \<Rightarrow> chain_loader \<Rightarrow> bool" where
  "loader_inv C r l \<longleftrightarrow> reached_from C r (loader_trust_store l) \<and> session_store_inv C (loader_session_store l)"

lemma loaded_chain:
  assumes "loader_inv C r l" "load_certificate_chain C l h = Ok (Some ch)"
  shows "unverified_certificates ch \<noteq> [] \<and> spki_hash (last (unverified_certificates ch)) = h
    \<and> successively (\<lambda>p c. issuer c = spki_hash p) (unverified_certificates ch)
    \<and> (\<forall>u \<in> set (unverified_certificates ch). cert_wf C u)"
proof -
  let ?ts = "loader_trust_store l"
  have ts: "reached_from C r ?ts" using assms(1) by (simp add: loader_inv_def)
  note keys = reached_from_keys [OF ts]
  from get_session_inv [of C "loader_session_store l" h] assms(1) obtain res where
    res: "get_session C (loader_session_store l) h = Ok res"
      "\<And>c. res = Some c \<Longrightarrow> cert_wf C c \<and> spki_hash c = h"
    unfolding loader_inv_def by metis
  from assms(2) res(1) obtain c where
    c: "res = Some c \<or> map_option as_unverified (trust_store_get ?ts h) = Some c"
      "complete_certificate_chain ?ts (builder_new c) = Ok ch"
    by (auto simp: load_certificate_chain_def result_simps Let_def split: option.splits)
  have leaf: "cert_wf C c" "spki_hash c = h"
    using c(1) res(2) reached_from_get [OF ts] by auto
  from c(2) obtain b where b: "complete_loop ?ts (builder_new c) = Ok b" "finish b = Ok ch"
    by (auto simp: complete_certificate_chain_def result_simps)
  obtain ps where ps: "builder_inv b" "builder_certificates b = c # map as_unverified ps"
      "\<forall>p \<in> set ps. trust_store_get ?ts (cert_spki p) = Some p"
    using complete_loop_post [OF keys builder_new_inv, of c] b(1)
    by (auto simp: complete_post_def builder_new_def)
  have us: "unverified_certificates ch = rev (builder_certificates b)"
    using b(2) by (auto simp: finish_def result_simps split: if_splits)
  have "successively (\<lambda>p c. issuer c = spki_hash p) (unverified_certificates ch)"
    using ps(1) unfolding builder_inv_def us successively_rev by (auto elim: successively_mono)
  moreover have "\<forall>u \<in> set (unverified_certificates ch). cert_wf C u"
    using leaf(1) ps(2,3) reached_from_get(2) [OF ts] us by auto
  ultimately show ?thesis using us ps(2) leaf(2) by simp
qed

lemma authorised_chain:
  assumes "authorised C r (Certificate u)"
    "successively (\<lambda>p c. issuer c = spki_hash p) (u # us)"
    "successively (signed_step C t) (map Certificate (u # us))"
  shows "authorised C r (Certificate (last (u # us)))"
  using assms
proof (induction us arbitrary: u)
  case (Cons v us)
  have "verify_signature C v (Certificate u) t = Ok (Certificate v)"
    using Cons.prems(3) by (simp add: signed_step_def)
  then have "authorised C r (Certificate v)"
    using Cons.prems authorised.auth_issued [of C r "Certificate u" v t "Certificate v"] by simp
  then show ?case using Cons.IH [of v] Cons.prems by simp
qed simp

lemma signed_chain_valid:
  "successively (signed_step C t) (p # cs) \<Longrightarrow> cs \<noteq> [] \<Longrightarrow> check_validity_at (as_unverified (last cs)) t = Ok ()"
proof (induction cs arbitrary: p)
  case (Cons c cs)
  show ?case
  proof (cases "cs = []")
    case True
    then show ?thesis using Cons.prems by (auto simp: signed_step_def elim: verify_signature_OkD)
  next
    case False
    then show ?thesis using Cons.IH [of c] Cons.prems by (simp add: successively_Cons)
  qed
qed simp

lemma local_verifier_OkD:
  assumes "loader_inv C r l" "verify_spki_hash (local_verifier C r l) h t = Ok c"
  shows "cert_spki c = h \<and> authorised C r c
    \<and> (c \<noteq> as_certificate r \<longrightarrow> check_validity_at (as_unverified c) t = Ok ())"
proof -
  from assms(2) obtain ch vc where
    ch: "load_certificate_chain C l h = Ok (Some ch)" "chain_verify C ch r t = Ok vc"
      "(take_leaf vc :: (certificate, verify_error) result) = Ok c" "cert_spki c = h"
    by (auto simp: local_verifier_def result_simps split: option.splits if_splits)
  note L = loaded_chain [OF assms(1) ch(1)]
  let ?us = "unverified_certificates ch"
  have V: "cert_eq (hd ?us) (root_as_unverified r)" "successively (signed_step C t) (chain_certificates vc)"
      "chain_certificates vc = as_certificate r # map Certificate (tl ?us)"
    using ch(2) unfolding chain_verify_Ok_iff by blast+
  have "cert_wf C (root_as_unverified r)"
    using assms(1) by (simp add: loader_inv_def reached_from_def root_ok_def)
  then have hd: "hd ?us = root_as_unverified r"
    using V(1) L cert_eq_wf [of C "hd ?us" "root_as_unverified r"] by simp
  have us: "?us = root_as_unverified r # tl ?us" using L hd by (metis list.collapse)
  have vs: "chain_certificates vc = map Certificate (root_as_unverified r # tl ?us)"
    unfolding V(3) by simp
  have "authorised C r (Certificate (last (root_as_unverified r # tl ?us)))"
  proof (rule authorised_chain)
    show "authorised C r (Certificate (root_as_unverified r))" by (simp add: authorised.auth_root)
    show "successively (\<lambda>p c. issuer c = spki_hash p) (root_as_unverified r # tl ?us)"
      using L us by simp
    show "successively (signed_step C t) (map Certificate (root_as_unverified r # tl ?us))"
      using V(2) vs by simp
  qed
  moreover have "c = Certificate (last (root_as_unverified r # tl ?us))"
    using ch(3) vs by (simp add: take_leaf_def last_map split: if_splits)
  moreover have "check_validity_at (as_unverified c) t = Ok ()" if "c \<noteq> as_certificate r"
  proof -
    have "c = last (chain_certificates vc)"
      using ch(3) vs by (simp add: take_leaf_def)
    then show ?thesis
      using that V(2) signed_chain_valid [of C t "as_certificate r" "map Certificate (tl ?us)"]
      unfolding V(3) by (auto split: if_splits)
  qed
  ultimately show ?thesis using ch(4) by simp
qed

interpretation lv: verifier_contract "local_verifier C r" "loader_inv C r" "\<lambda>_. authorised C r" for C r
proof unfold_locales
  fix l u t c
  assume "loader_inv C r l" "verify_known_certificate (local_verifier C r l) u t = Ok c"
  then show "cert_der c = der u \<and> authorised C r c"
    using local_verifier_OkD [of C r l "spki_hash u" t c]
    by (simp add: local_verifier_def default_verify_known_Ok_iff)
qed (use local_verifier_OkD in blast)

section \<open>A sample run with a server certificate\<close>

definition sample_server :: unverified_certificate where
  "sample_server = sample_cert Server 4 9 7 0"

lemma sample_run_server:
  "\<exists>bs ts. ts_run sample_crypto sample_root bs ts
    \<and> trust_store_get ts (spki_hash sample_server) = Some (Certificate sample_server)"
proof -
  let ?ts = "trust_store_initialize sample_root" and ?s = "state_initialize sample_root"
  let ?h = "cert_spki (cred_certificate sample_root_credential)"
  have st: "chain_st ?ts = ?s" "last_block ?ts = None"
    by (simp_all add: trust_store_initialize_def chain_initialize_def)
  have chk: "state_check sample_crypto ?s ?h 10 (Add sample_server) = Ok ()"
    and tx: "transaction_ok sample_crypto (Add sample_server)"
    by code_simp+
  note app = state_apply_AddD [OF state_initialize_inv [OF sample_root_ok] chk]
  obtain bs ts where "ts_run sample_crypto sample_root bs ts"
      "Some (chain_st ts) = state_apply sample_crypto ?s ?h 10 (Add sample_server)"
    using ts_run_package [OF sample_root_ok ts_init tx sample_signs(1), of 10]
      chk sample_signers(1) st app by fastforce
  moreover from this(2) have "trust_store_get ts (spki_hash sample_server) = Some (Certificate sample_server)"
    by (simp add: app trust_store_get_def)
  ultimately show ?thesis by blast
qed

section \<open>Properties\<close>



text \<open>A client connects only to a server whose certificate is stored in its trust store,
  has the type server, is valid now and was signed directly by the root.\<close>

theorem tls_server_only:
  assumes "root_ok C r" "ts_run C r bs ts"
    "verify_cert C (server_only (trust_store_verifier C ts)) d now = Ok ()"
  shows "\<exists>c t. cert_der c = d \<and> cert_type c = Server \<and> trust_store_get ts (cert_spki c) = Some c
    \<and> check_validity_at (as_unverified c) now = Ok ()
    \<and> verify_signature C (as_unverified c) (as_certificate r) t = Ok c"
proof -
  have ts: "reached_from C r ts" using assms by (auto simp: reached_from_def)
  obtain u c where c: "from_der C d = Ok u" "cert_der c = d" "authorised C r c" "cert_type c = Server"
      "check_validity_at (as_unverified c) now = Ok ()"
      "verify_known_certificate (server_only (trust_store_verifier C ts)) u now = Ok c"
    using tss.tls_accepted_valid [OF ts assms(3)] unfolding server_only_type by blast
  have "trust_store_get ts (cert_spki c) = Some c"
    using c(6) reached_from_get(1) [OF ts]
    by (auto simp: server_only_def result_simps trust_store_verifier_def)
  moreover obtain t where "verify_signature C (as_unverified c) (as_certificate r) t = Ok c"
  proof -
    from c(3,4) assms(1) have "c \<noteq> as_certificate r" using authorised_type [OF c(3) assms(1)] by auto
    then obtain p t where p: "authorised C r p" "verify_signature C (as_unverified c) p t = Ok c"
      using authorised_issuer [OF c(3) assms(1)] by blast
    from p(2) have "may_be_parent_of (cert_type p) Server" using c(4) by (auto elim: verify_signature_OkD)
    then have "cert_type p = Root" by (cases "cert_type p") auto
    then show thesis using p that authorised_type [OF p(1) assms(1)] by auto
  qed
  ultimately show ?thesis using c by blast
qed

theorem tls_server_only_witness:
  "\<exists>c t. cert_der c = der sample_server \<and> cert_type c = Server
    \<and> verify_signature sample_crypto (as_unverified c) (as_certificate sample_root) t = Ok c"
proof -
  obtain bs ts where run: "ts_run sample_crypto sample_root bs ts"
    and get: "trust_store_get ts (spki_hash sample_server) = Some (Certificate sample_server)"
    using sample_run_server by blast
  have "from_der sample_crypto (der sample_server) = Ok sample_server"
      "check_validity_at sample_server 20 = Ok ()" "certificate_type sample_server = Server"
    by code_simp+
  then have "verify_cert sample_crypto (server_only (trust_store_verifier sample_crypto ts))
      (der sample_server) 20 = Ok ()"
    using get by (simp add: verify_cert_Ok_iff server_only_def result_simps trust_store_verifier_def)
  from tls_server_only [OF sample_root_ok run this] show ?thesis by blast
qed

text \<open>The chain verifier of the server returns only certificates that descend from the
  root, under the hash that was asked for. It does not look at the validity of the root
  itself: asked for the root's hash it returns the root at any time.\<close>

theorem local_verifier_sound:
  assumes "root_ok C r"
  shows "(loader_inv C r l \<and> verify_spki_hash (local_verifier C r l) h t = Ok c \<longrightarrow>
      cert_spki c = h \<and> authorised C r c
      \<and> (c \<noteq> as_certificate r \<longrightarrow> check_validity_at (as_unverified c) t = Ok ()))
    \<and> verify_spki_hash (local_verifier C r
        \<lparr> loader_trust_store = trust_store_initialize r, loader_session_store = [] \<rparr>)
        (spki_hash (root_as_unverified r)) t = Ok (as_certificate r)"
proof (intro conjI impI; (elim conjE)?)
  let ?u = "root_as_unverified r"
  let ?ts = "trust_store_initialize r"
  have get: "trust_store_get ?ts (spki_hash ?u) = Some (as_certificate r)"
    by (simp add: trust_store_get_def trust_store_initialize_def chain_initialize_def state_initialize_def)
  have ty: "certificate_type ?u = Root" using assms by (simp add: root_ok_def)
  then have "complete_certificate_chain ?ts (builder_new ?u) = Ok (UnverifiedCertificateChain [?u])"
    by (simp add: complete_certificate_chain_def complete_loop.simps [of ?ts] builder_new_def
        requested_issuer_def finish_def is_finished_def)
  moreover have "chain_verify C (UnverifiedCertificateChain [?u]) r t = Ok (CertificateChain [as_certificate r])"
    by (simp add: chain_verify_def cert_eq_def)
  ultimately show "verify_spki_hash (local_verifier C r
        \<lparr> loader_trust_store = ?ts, loader_session_store = [] \<rparr>) (spki_hash ?u) t = Ok (as_certificate r)"
    by (simp add: local_verifier_def load_certificate_chain_def get_session_def get take_leaf_def)
qed (use local_verifier_OkD in blast)+

theorem local_verifier_sound_witness:
  "verify_spki_hash (local_verifier sample_crypto sample_root
     \<lparr> loader_trust_store = trust_store_initialize sample_root, loader_session_store = [] \<rparr>)
     (spki_hash (root_as_unverified sample_root)) 400000000 = Ok (as_certificate sample_root)
   \<and> check_validity_at (root_as_unverified sample_root) 400000000 = Err Expired"
proof -
  have "check_validity_at (root_as_unverified sample_root) 400000000 = Err Expired" by code_simp
  then show ?thesis using local_verifier_sound [OF sample_root_ok] by blast
qed

end
