(* ===== verification/Transport.thy ===== *)
theory Transport
  imports Prelude
begin

text \<open>
  The transports of \<^verbatim>\<open>svalin_rpc/src/transport/\<close>: chunks with a length prefix on a byte
  stream (\<^verbatim>\<open>chunked_transport.rs\<close>) and serialized objects in chunks
  (\<^verbatim>\<open>object_transport.rs\<close>). The underlying bidirectional stream is the record \<^verbatim>\<open>transport\<close>:
  what can still be read before the end of the stream, what was written, whether the
  write side is broken and whether it was shut down. The serializer is postcard, a
  third-party crate: a \<^verbatim>\<open>codec\<close> parameter.
\<close>

section \<open>The byte stream\<close>

datatype io_error = UnexpectedEof | BrokenPipe

record transport =
  incoming :: bytes
  outgoing :: bytes
  broken :: bool
  shut_down :: bool

definition write_all :: "bytes \<Rightarrow> transport \<Rightarrow> (unit, io_error) result \<times> transport" where
  "write_all bs t =
    (if broken t then (Err BrokenPipe, t) else (Ok (), t \<lparr> outgoing := outgoing t @ bs \<rparr>))"

text \<open>\<^verbatim>\<open>read_exact\<close> at the end of the stream consumes what is left.\<close>

definition read_exact :: "nat \<Rightarrow> transport \<Rightarrow> (bytes, io_error) result \<times> transport" where
  "read_exact n t =
    (if n \<le> length (incoming t)
     then (Ok (take n (incoming t)), t \<lparr> incoming := drop n (incoming t) \<rparr>)
     else (Err UnexpectedEof, t \<lparr> incoming := [] \<rparr>))"

definition read_u8 :: "transport \<Rightarrow> (u8, io_error) result \<times> transport" where
  "read_u8 t = (case read_exact 1 t of (r, t') \<Rightarrow> (map_ok hd r, t'))"

definition shutdown :: "transport \<Rightarrow> transport" where
  "shutdown t = t \<lparr> shut_down := True \<rparr>"

section \<open>Chunks\<close>

datatype chunk_reader_error =
    LengthReadError io_error
  | ExtendedLengthReadError io_error
  | BodyReadError io_error

datatype chunk_writer_error =
    ChunkTooBig
  | LengthWriteError io_error
  | ExtendedLengthWriteError io_error
  | BodyWriteError io_error

datatype chunk_length = Byte u8 | U32 bytes

fun chunk_length_as_bytes :: "chunk_length \<Rightarrow> bytes" where
  "chunk_length_as_bytes (Byte b) = [b]"
| "chunk_length_as_bytes (U32 b) = b"

definition chunk_length_from_usize :: "nat \<Rightarrow> (chunk_length, 'e) result" where
  "chunk_length_from_usize len =
    (if len > 2 ^ 31 then Panicked
     else
       let len32 = of_nat len :: u32 in
       if len32 < 0x80 then Ok (Byte (u32_to_be_bytes len32 ! 3))
       else Ok (U32 (u32_to_be_bytes (len32 OR push_bit 31 1))))"

definition chunk_length_try_from_byte :: "u8 \<Rightarrow> chunk_length option" where
  "chunk_length_try_from_byte byte = (if byte < 0x80 then Some (Byte byte) else None)"

definition chunk_length_from_4bytes :: "bytes \<Rightarrow> chunk_length" where
  "chunk_length_from_4bytes bs = U32 bs"

fun chunk_length_to_usize :: "chunk_length \<Rightarrow> nat" where
  "chunk_length_to_usize (Byte b) = unat b"
| "chunk_length_to_usize (U32 b) = unat (u32_from_be_bytes (b[0 := b ! 0 AND 0x7F]))"

definition write_chunk :: "bytes \<Rightarrow> transport \<Rightarrow> (unit, chunk_writer_error) result \<times> transport" where
  "write_chunk chunk t =
    bind_st (chunk_length_from_usize (length chunk), t) (\<lambda>len t.
    bind_st (map_err_st ExtendedLengthWriteError (write_all (chunk_length_as_bytes len) t)) (\<lambda>_ t.
    map_err_st BodyWriteError (write_all chunk t)))"

definition read_chunk :: "transport \<Rightarrow> (bytes, chunk_reader_error) result \<times> transport" where
  "read_chunk t =
    bind_st (map_err_st LengthReadError (read_u8 t)) (\<lambda>short_len t.
    bind_st
      (case chunk_length_try_from_byte short_len of
         Some len \<Rightarrow> (Ok len, t)
       | None \<Rightarrow>
           bind_st (map_err_st LengthReadError (read_exact 3 t)) (\<lambda>size t.
           (Ok (chunk_length_from_4bytes (short_len # size)), t))) (\<lambda>len t.
    map_err_st BodyReadError (read_exact (chunk_length_to_usize len) t)))"

section \<open>Objects\<close>

text \<open>Errors of postcard, by their message.\<close>

type_synonym postcard_error = string

datatype object_reader_error =
    ChunkReadError chunk_reader_error
  | DeserializeError postcard_error

datatype object_writer_error =
    ChunkWriteError chunk_writer_error
  | SerializeError postcard_error

definition write_object ::
  "'t codec \<Rightarrow> 't \<Rightarrow> transport \<Rightarrow> (unit, object_writer_error) result \<times> transport" where
  "write_object K object t =
    bind_st (map_err SerializeError (encode K object), t) (\<lambda>encoded t.
    map_err_st ChunkWriteError (write_chunk encoded t))"

definition read_object ::
  "'t codec \<Rightarrow> transport \<Rightarrow> ('t, object_reader_error) result \<times> transport" where
  "read_object K t =
    bind_st (map_err_st ChunkReadError (read_chunk t)) (\<lambda>chunk t.
    (map_err DeserializeError (decode K chunk), t))"

section \<open>Lemmas\<close>

text \<open>The bytes that a chunk occupies on the stream.\<close>

definition chunk_header :: "nat \<Rightarrow> bytes" where
  "chunk_header len =
    (if len < 0x80 then [of_nat len]
     else u32_to_be_bytes ((of_nat len :: u32) OR push_bit 31 1))"

definition chunk_frame :: "bytes \<Rightarrow> bytes" where
  "chunk_frame chunk = chunk_header (length chunk) @ chunk"

lemma of_nat_u32_less_128:
  assumes "len \<le> 2 ^ 31"
  shows "(of_nat len :: u32) < 0x80 \<longleftrightarrow> len < 0x80"
  using assms by (simp add: word_less_nat_alt unat_of_nat)

lemma u32_last_byte: "u32_to_be_bytes (of_nat len) ! 3 = of_nat len"
proof -
  have "(ucast (of_nat len :: u32) :: u8) = of_nat len"
    by (rule bit_word_eqI) (simp add: bit_ucast_iff bit_of_nat_iff)
  then show ?thesis by (simp add: u32_to_be_bytes_def)
qed

lemma chunk_length_from_usize_eq:
  assumes "len \<le> 2 ^ 31"
  shows "\<exists>cl. chunk_length_from_usize len = (Ok cl :: (chunk_length, 'e) result)
    \<and> chunk_length_as_bytes cl = chunk_header len"
  using assms by (simp add: chunk_length_from_usize_def chunk_header_def of_nat_u32_less_128
      u32_last_byte Let_def)

lemma bit_u8_ge_128: "bit (b :: u8) 7 \<Longrightarrow> \<not> b < 0x80"
proof
  assume "bit b 7" "b < 0x80"
  then have "bit (unat b) 7" "unat b < 128"
    by (simp_all add: word_less_nat_alt bit_unsigned_iff)
  then show False by (simp add: bit_iff_odd)
qed

lemma bit_or_top: "bit ((w :: u32) OR push_bit 31 1) n \<longleftrightarrow> bit w n \<or> n = 31"
  by (simp only: bit_or_iff bit_push_bit_iff bit_1_iff) (auto simp: bit_push_bit_iff)

lemma u32_extended_length:
  assumes "len < 2 ^ 31"
  defines "bs \<equiv> u32_to_be_bytes ((of_nat len :: u32) OR push_bit 31 1)"
  shows "bit (bs ! 0) 7" "bs[0 := bs ! 0 AND 0x7F] = u32_to_be_bytes (of_nat len)"
proof -
  let ?w = "of_nat len :: u32"
  define v where "v = ?w OR push_bit 31 1"
  have bit_v: "bit v n \<longleftrightarrow> bit ?w n \<or> n = 31" for n
    unfolding v_def by (rule bit_or_top)
  have bs: "bs = u32_to_be_bytes v" by (simp add: bs_def v_def)
  show "bit (bs ! 0) 7"
    by (simp add: bs u32_to_be_bytes_def bit_ucast_iff bit_drop_bit_eq bit_v)
  have top: "\<not> bit ?w 31"
    using assms(1) by (simp add: bit_of_nat_iff bit_iff_odd [of len])
  have low: "bit (0x7F :: u8) n \<longleftrightarrow> n < 7" for n
  proof -
    have "(0x7F :: u8) = mask 7" by (simp add: mask_eq_exp_minus_1)
    then show ?thesis by (simp only: bit_mask_iff) auto
  qed
  have "bs ! 0 AND 0x7F = ucast (drop_bit 24 ?w)"
  proof (rule bit_word_eqI)
    fix n assume "n < LENGTH(8)"
    then have "n = 7 \<or> n < 7" by auto
    then show "bit (bs ! 0 AND 0x7F) n \<longleftrightarrow> bit (ucast (drop_bit 24 ?w) :: u8) n"
      using top low [of n] by (auto simp: bs u32_to_be_bytes_def bit_ucast_iff bit_drop_bit_eq bit_and_iff bit_v)
  qed
  moreover have "(ucast (drop_bit (8 * i) v) :: u8) = ucast (drop_bit (8 * i) ?w)" if "i < 3" for i
    using that by (intro bit_word_eqI) (auto simp: bit_ucast_iff bit_drop_bit_eq bit_v)
  from this [of 0] this [of 1] this [of 2] have
    "(ucast v :: u8) = ucast ?w" "(ucast (drop_bit 8 v) :: u8) = ucast (drop_bit 8 ?w)"
    "(ucast (drop_bit 16 v) :: u8) = ucast (drop_bit 16 ?w)"
    by simp_all
  ultimately show "bs[0 := bs ! 0 AND 0x7F] = u32_to_be_bytes ?w"
    by (simp add: bs u32_to_be_bytes_def)
qed

lemma length_chunk_header: "length (chunk_header len) = (if len < 0x80 then 1 else 4)"
  by (simp add: chunk_header_def)

lemma write_all_intact: "\<not> broken t \<Longrightarrow> write_all bs t = (Ok (), t \<lparr> outgoing := outgoing t @ bs \<rparr>)"
  by (simp add: write_all_def)

lemma write_chunk_intact:
  assumes "length chunk \<le> 2 ^ 31" "\<not> broken t"
  shows "write_chunk chunk t = (Ok (), t \<lparr> outgoing := outgoing t @ chunk_frame chunk \<rparr>)"
proof -
  obtain cl where "chunk_length_from_usize (length chunk) = (Ok cl :: (chunk_length, chunk_writer_error) result)"
      "chunk_length_as_bytes cl = chunk_header (length chunk)"
    using chunk_length_from_usize_eq [OF assms(1)] by blast
  then show ?thesis
    using assms(2) by (simp add: write_chunk_def write_all_intact map_err_st_def chunk_frame_def)
qed

text \<open>What the reader does after it has decoded a length.\<close>

definition read_body :: "nat \<Rightarrow> transport \<Rightarrow> (bytes, chunk_reader_error) result \<times> transport" where
  "read_body n t = map_err_st BodyReadError (read_exact n t)"

lemma read_chunk_header:
  assumes "len < 2 ^ 31" "incoming t = chunk_header len @ rest"
  shows "read_chunk t = read_body len (t \<lparr> incoming := rest \<rparr>)"
proof (cases "len < 0x80")
  case True
  then have "(of_nat len :: u8) < 0x80" "unat (of_nat len :: u8) = len"
    by (simp_all add: word_less_nat_alt unsigned_of_nat take_bit_nat_eq_self)
  then show ?thesis
    using True assms(2)
    by (simp add: read_chunk_def read_u8_def read_exact_def map_err_st_def chunk_header_def
        chunk_length_try_from_byte_def read_body_def)
next
  case False
  define bs where "bs = u32_to_be_bytes ((of_nat len :: u32) OR push_bit 31 1)"
  note ext = u32_extended_length [OF assms(1), folded bs_def]
  obtain b0 b1 b2 b3 where bs: "bs = [b0, b1, b2, b3]"
    by (simp add: bs_def u32_to_be_bytes_def)
  then have "\<not> b0 < 0x80" using bit_u8_ge_128 ext(1) by simp
  moreover have "chunk_length_to_usize (U32 bs) = len"
    using assms(1) unfolding chunk_length_to_usize.simps ext(2) u32_be_round_trip
    by (simp add: unsigned_of_nat take_bit_nat_eq_self)
  moreover have "incoming t = b0 # b1 # b2 # b3 # rest"
    using assms(2) False bs bs_def by (simp add: chunk_header_def)
  ultimately show ?thesis
    by (simp add: read_chunk_def read_u8_def read_exact_def map_err_st_def bs
        chunk_length_try_from_byte_def chunk_length_from_4bytes_def read_body_def numeral_3_eq_3)
qed

lemma read_chunk_frame:
  assumes "length chunk < 2 ^ 31" "incoming t = chunk_frame chunk @ rest"
  shows "read_chunk t = (Ok chunk, t \<lparr> incoming := rest \<rparr>)"
  using read_chunk_header [OF assms(1), of t "chunk @ rest"] assms(2)
  by (simp add: chunk_frame_def read_body_def read_exact_def map_err_st_def)

lemma chunk_header_top: "chunk_header (2 ^ 31) = [0x80, 0, 0, 0]"
proof -
  have "u32_to_be_bytes (0x80000000 OR push_bit 31 1) = [0x80, 0, 0, 0]" by code_simp
  then show ?thesis by (simp add: chunk_header_def)
qed

lemma read_chunk_top:
  assumes "incoming t = [0x80, 0, 0, 0] @ rest"
  shows "read_chunk t = (Ok [], t \<lparr> incoming := rest \<rparr>)"
proof -
  have "chunk_length_to_usize (U32 [0x80, 0, 0, 0]) = 0" by code_simp
  then show ?thesis
    using assms by (simp add: read_chunk_def read_u8_def read_exact_def map_err_st_def
        chunk_length_try_from_byte_def chunk_length_from_4bytes_def)
qed

lemma write_object_intact:
  assumes "encode K x = Ok e" "length e \<le> 2 ^ 31" "\<not> broken t"
  shows "write_object K x t = (Ok (), t \<lparr> outgoing := outgoing t @ chunk_frame e \<rparr>)"
  using assms by (simp add: write_object_def write_chunk_intact map_err_st_def)

lemma read_object_frame:
  assumes "codec_ok K" "encode K x = Ok e" "length e < 2 ^ 31" "incoming t = chunk_frame e @ rest"
  shows "read_object K t = (Ok x, t \<lparr> incoming := rest \<rparr>)"
  using assms by (simp add: read_object_def read_chunk_frame map_err_st_def codec_ok_def)

text \<open>Writing a list of chunks, and reading a number of them.\<close>

fun write_chunks :: "bytes list \<Rightarrow> transport \<Rightarrow> (unit, chunk_writer_error) result \<times> transport" where
  "write_chunks [] t = (Ok (), t)"
| "write_chunks (c # cs) t = bind_st (write_chunk c t) (\<lambda>_. write_chunks cs)"

fun read_chunks :: "nat \<Rightarrow> transport \<Rightarrow> (bytes list, chunk_reader_error) result \<times> transport" where
  "read_chunks 0 t = (Ok [], t)"
| "read_chunks (Suc n) t =
    bind_st (read_chunk t) (\<lambda>c t. bind_st (read_chunks n t) (\<lambda>cs t. (Ok (c # cs), t)))"

lemma write_chunks_intact:
  assumes "\<forall>c \<in> set cs. length c \<le> 2 ^ 31" "\<not> broken t"
  shows "write_chunks cs t = (Ok (), t \<lparr> outgoing := outgoing t @ concat (map chunk_frame cs) \<rparr>)"
  using assms by (induction cs arbitrary: t) (simp_all add: write_chunk_intact)

lemma read_chunks_frames:
  assumes "\<forall>c \<in> set cs. length c < 2 ^ 31" "incoming t = concat (map chunk_frame cs) @ rest"
  shows "read_chunks (length cs) t = (Ok cs, t \<lparr> incoming := rest \<rparr>)"
  using assms
proof (induction cs arbitrary: t)
  case (Cons c cs)
  then have "read_chunk t = (Ok c, t \<lparr> incoming := concat (map chunk_frame cs) @ rest \<rparr>)"
    by (intro read_chunk_frame) simp_all
  then show ?case using Cons by simp
qed simp

lemma chunk_header_truncated:
  assumes "length p < length (chunk_header len)" "chunk_header len = p @ q" "incoming t = p" "len < 2 ^ 31"
  shows "fst (read_chunk t) = Err (LengthReadError UnexpectedEof)"
proof (cases "len < 0x80 \<or> p = []")
  case True
  then have "p = []" using assms(1) by (auto simp: length_chunk_header)
  then show ?thesis
    using assms(3) by (simp add: read_chunk_def read_u8_def read_exact_def map_err_st_def)
next
  case False
  then obtain b p' where p: "p = b # p'" by (cases p) auto
  have hd: "chunk_header len = u32_to_be_bytes ((of_nat len :: u32) OR push_bit 31 1)"
    using False by (simp add: chunk_header_def)
  have "bit b 7" using u32_extended_length(1) [OF assms(4), folded hd] assms(2) p by simp
  moreover have "length p' < 3" using assms(1) False p by (simp add: length_chunk_header)
  ultimately show ?thesis
    using assms(3) p bit_u8_ge_128
    by (simp add: read_chunk_def read_u8_def read_exact_def map_err_st_def chunk_length_try_from_byte_def)
qed

section \<open>Properties\<close>

text \<open>C27. Chunks travel unchanged: whatever sequence of chunks below \<^verbatim>\<open>2^31\<close> bytes is written
  to an intact stream, a reader of the resulting bytes gets back exactly these chunks in
  order, and is left at the first byte after them.\<close>

theorem chunk_stream_round_trip:
  assumes "\<forall>c \<in> set cs. length c < 2 ^ 31" "\<not> broken w"
    "incoming r = outgoing (snd (write_chunks cs (w \<lparr> outgoing := [] \<rparr>))) @ rest"
  shows "fst (write_chunks cs (w \<lparr> outgoing := [] \<rparr>)) = Ok ()
    \<and> read_chunks (length cs) r = (Ok cs, r \<lparr> incoming := rest \<rparr>)"
proof -
  have "write_chunks cs (w \<lparr> outgoing := [] \<rparr>)
      = (Ok (), w \<lparr> outgoing := concat (map chunk_frame cs) \<rparr>)"
    using write_chunks_intact [of cs "w \<lparr> outgoing := [] \<rparr>"] assms(1,2) by (simp add: less_imp_le)
  then show ?thesis using read_chunks_frames [OF assms(1)] assms(3) by simp
qed

definition sample_transport :: "bytes \<Rightarrow> transport" where
  "sample_transport bs = \<lparr> incoming = bs, outgoing = [], broken = False, shut_down = False \<rparr>"

theorem chunk_stream_round_trip_witness:
  "fst (read_chunks 2 (sample_transport ([3, 1, 2, 3] @ [0x80, 0, 0, 200] @ replicate 200 7 @ [9])))
    = Ok [[1, 2, 3], replicate 200 7]"
proof -
  let ?w = "sample_transport []" and ?cs = "[[1, 2, 3], replicate 200 7]"
  let ?r = "sample_transport ([3, 1, 2, 3] @ [0x80, 0, 0, 200] @ replicate 200 7 @ [9])"
  have h: "chunk_header (Suc (Suc (Suc 0))) = [3]" "chunk_header 200 = [0x80, 0, 0, 200]" by code_simp+
  have "outgoing (snd (write_chunks ?cs (?w \<lparr> outgoing := [] \<rparr>))) = concat (map chunk_frame ?cs)"
    by (subst write_chunks_intact) (simp_all add: sample_transport_def del: write_chunks.simps)
  then have "incoming ?r = outgoing (snd (write_chunks ?cs (?w \<lparr> outgoing := [] \<rparr>))) @ [9]"
    by (simp add: chunk_frame_def h sample_transport_def del: write_chunks.simps replicate.simps)
  moreover have "\<forall>c \<in> set ?cs. length c < 2 ^ 31" "\<not> broken ?w" "length ?cs = 2"
    by (simp_all add: sample_transport_def)
  ultimately show ?thesis
    using chunk_stream_round_trip [of ?cs ?w ?r "[9]"] by (metis fst_conv)
qed

text \<open>A stream that ends inside a chunk is never mistaken for a shorter chunk: reading any
  proper prefix of an encoded chunk reports the end of the stream.\<close>

theorem truncated_chunk_detected:
  assumes "length chunk < 2 ^ 31" "chunk_frame chunk = p @ q" "q \<noteq> []" "incoming t = p"
  shows "fst (read_chunk t) \<in> {Err (LengthReadError UnexpectedEof), Err (BodyReadError UnexpectedEof)}"
proof (cases "length p < length (chunk_header (length chunk))")
  case True
  then have "take (length p) (chunk_header (length chunk)) = p"
    using assms(2) by (simp add: chunk_frame_def append_eq_append_conv_if split: if_splits)
  then have "chunk_header (length chunk) = p @ drop (length p) (chunk_header (length chunk))"
    by (metis append_take_drop_id)
  from chunk_header_truncated [OF True this assms(4,1)] show ?thesis by simp
next
  case False
  then obtain p' where p': "p = chunk_header (length chunk) @ p'" "chunk = p' @ q"
    using assms(2) by (auto simp: chunk_frame_def append_eq_append_conv2 append_eq_append_conv_if
        split: if_splits)
  then have "length p' < length chunk" using assms(3) by simp
  then show ?thesis
    using read_chunk_header [OF assms(1), of t p'] assms(4) p'(1)
    by (simp add: read_body_def read_exact_def map_err_st_def)
qed

theorem truncated_chunk_detected_witness:
  "fst (read_chunk (sample_transport [3, 1, 2]))
    \<in> {Err (LengthReadError UnexpectedEof), Err (BodyReadError UnexpectedEof)}"
proof -
  have "chunk_header (Suc (Suc (Suc 0))) = [3]" by code_simp
  then have "chunk_frame [1, 2, 3] = [3, 1, 2] @ [3]" by (simp add: chunk_frame_def)
  from truncated_chunk_detected [OF _ this, of "sample_transport [3, 1, 2]"] show ?thesis
    by (simp add: sample_transport_def)
qed

text \<open>The upper end of the length range. A chunk of exactly \<^verbatim>\<open>2^31\<close> bytes passes the
  writer's size guard, but its length field is the one of an empty chunk: the reader
  returns an empty chunk and takes the body for the next chunks. A longer chunk panics in
  the writer before anything is written.\<close>

theorem chunk_length_limit:
  assumes "\<not> broken w"
  shows "(length chunk = 2 ^ 31 \<and> incoming r = outgoing (snd (write_chunk chunk (w \<lparr> outgoing := [] \<rparr>)))
      \<longrightarrow> fst (write_chunk chunk (w \<lparr> outgoing := [] \<rparr>)) = Ok ()
        \<and> read_chunk r = (Ok [], r \<lparr> incoming := chunk \<rparr>))
    \<and> (length chunk > 2 ^ 31 \<longrightarrow> write_chunk chunk w = (Panicked, w))"
proof (intro conjI impI; (elim conjE)?)
  assume len: "length chunk = 2 ^ 31"
    and r: "incoming r = outgoing (snd (write_chunk chunk (w \<lparr> outgoing := [] \<rparr>)))"
  have w: "write_chunk chunk (w \<lparr> outgoing := [] \<rparr>)
      = (Ok (), w \<lparr> outgoing := [0x80, 0, 0, 0] @ chunk \<rparr>)"
    using write_chunk_intact [of chunk "w \<lparr> outgoing := [] \<rparr>"] assms
    by (simp add: len chunk_frame_def chunk_header_top [simplified])
  then show "fst (write_chunk chunk (w \<lparr> outgoing := [] \<rparr>)) = Ok ()" by simp
  show "read_chunk r = (Ok [], r \<lparr> incoming := chunk \<rparr>)"
    by (rule read_chunk_top) (simp add: r w)
next
  assume "length chunk > 2 ^ 31"
  then show "write_chunk chunk w = (Panicked, w)"
    by (simp add: write_chunk_def chunk_length_from_usize_def)
qed

theorem chunk_length_limit_witness:
  "write_chunk (replicate (2 ^ 31 + 1) 0) (sample_transport []) = (Panicked, sample_transport [])"
proof -
  have "\<not> broken (sample_transport [])" by (simp add: sample_transport_def)
  moreover have "length (replicate (2 ^ 31 + 1) (0 :: u8)) > 2 ^ 31" by simp
  ultimately show ?thesis
    using chunk_length_limit [of "sample_transport []" "replicate (2 ^ 31 + 1) 0"] by blast
qed

text \<open>An object written to an intact stream is read back unchanged, for every serializer
  whose decoder inverts its encoder, as long as its encoding is shorter than \<^verbatim>\<open>2^31\<close> bytes.\<close>

theorem object_round_trip:
  assumes "codec_ok K" "encode K x = Ok e" "length e < 2 ^ 31" "\<not> broken w"
    "incoming r = outgoing (snd (write_object K x (w \<lparr> outgoing := [] \<rparr>))) @ rest"
  shows "fst (write_object K x (w \<lparr> outgoing := [] \<rparr>)) = Ok ()
    \<and> read_object K r = (Ok x, r \<lparr> incoming := rest \<rparr>)"
proof -
  have "write_object K x (w \<lparr> outgoing := [] \<rparr>) = (Ok (), w \<lparr> outgoing := chunk_frame e \<rparr>)"
    using write_object_intact [OF assms(2), of "w \<lparr> outgoing := [] \<rparr>"] assms(3,4) by simp
  then show ?thesis using read_object_frame [OF assms(1-3)] assms(5) by simp
qed

definition byte_codec :: "bytes codec" where
  "byte_codec = \<lparr> encode = Ok, decode = Ok \<rparr>"

theorem object_round_trip_witness:
  "read_object byte_codec (sample_transport [2, 5, 6, 1]) = (Ok [5, 6], sample_transport [1])"
proof -
  let ?w = "sample_transport []"
  have h: "chunk_header (Suc (Suc 0)) = [2]" by code_simp
  have c: "codec_ok byte_codec" "encode byte_codec [5, 6] = Ok [5, 6]"
    by (simp_all add: codec_ok_def byte_codec_def)
  have "incoming (sample_transport [2, 5, 6, 1])
      = outgoing (snd (write_object byte_codec [5, 6] (?w \<lparr> outgoing := [] \<rparr>))) @ [1]"
    by (subst write_object_intact [OF c(2)]) (simp_all add: sample_transport_def chunk_frame_def h)
  from object_round_trip [OF c _ _ this] show ?thesis by (simp add: sample_transport_def)
qed

end
