(* ===== verification/Rpc.thy ===== *)
theory Rpc
  imports Verifier Transport
begin

text \<open>
  Sessions, commands and permissions: \<^verbatim>\<open>svalin_rpc/src/rpc/\<close> (\<^verbatim>\<open>peer.rs\<close>, \<^verbatim>\<open>session.rs\<close>,
  \<^verbatim>\<open>command/handler.rs\<close>, \<^verbatim>\<open>connection/direct_connection.rs\<close>), \<^verbatim>\<open>svalin_rpc/src/permissions/\<close>, the
  commands that wrap other collections of commands (\<^verbatim>\<open>commands/deauthenticate.rs\<close>,
  \<^verbatim>\<open>commands/e2e.rs\<close>) and \<^verbatim>\<open>ping\<close>. A command body works on a world of any type \<^verbatim>\<open>'w\<close>; what a
  session leaves behind is its outcome: the result, the new world and the transport.
\<close>

section \<open>Peers and sessions\<close>

datatype peer = Anonymous | PeerCertificate certificate

datatype wrong_peer_type_error = ExpectedCertificate

definition peer_certificate :: "peer \<Rightarrow> (certificate, wrong_peer_type_error) result" where
  "peer_certificate p =
    (case p of Anonymous \<Rightarrow> Err ExpectedCertificate | PeerCertificate cert \<Rightarrow> Ok cert)"

record session =
  s_transport :: transport
  s_peer :: peer

definition session_new :: "transport \<Rightarrow> peer \<Rightarrow> session" where
  "session_new t p = \<lparr> s_transport = t, s_peer = p \<rparr>"

record session_request_header =
  command_key :: str

datatype session_response_header = Accept | Decline (decline_code: u32) (decline_message: str)

text \<open>The codecs of the two headers.\<close>

record rpc_codecs =
  request_header_codec :: "session_request_header codec"
  response_header_codec :: "session_response_header codec"

datatype permission_check_error = PermissionDenied str | HandlerError str

type_synonym 'p permission_handler = "peer \<Rightarrow> 'p \<Rightarrow> (unit, permission_check_error) result"

text \<open>The \<^verbatim>\<open>anyhow\<close> errors of a session, with the context that \<^verbatim>\<open>handle\<close> adds.\<close>

datatype rpc_error =
    ReadHeaderError object_reader_error
  | SessionReadError object_reader_error
  | SessionWriteError object_writer_error
  | NotPermitted permission_check_error
  | CommandNotFound
  | MissingSession
  | HandlingError str rpc_error
  | CommandError str

type_synonym 'w outcome = "(unit, rpc_error) result \<times> 'w \<times> transport"

section \<open>Handlers\<close>

text \<open>A \<^verbatim>\<open>TakeableCommandHandler\<close> with the conversion of its precursor into a permission. The
  last component of what \<^verbatim>\<open>cmd_handle\<close> returns says whether it took the session.\<close>

record ('w, 'p, 'r) command_handler =
  cmd_key :: str
  request_codec :: "'r codec"
  permission_for :: "'r \<Rightarrow> 'p"
  cmd_handle :: "'w \<Rightarrow> session \<Rightarrow> 'r \<Rightarrow> 'w outcome \<times> bool"

definition handle_with_permission ::
  "rpc_codecs \<Rightarrow> ('w, 'p, 'r) command_handler \<Rightarrow> 'p permission_handler \<Rightarrow> 'w \<Rightarrow> session \<Rightarrow> 'w outcome" where
  "handle_with_permission K self may w session =
    (case read_object (request_codec self) (s_transport session) of
       (Err e, t) \<Rightarrow> (Err (SessionReadError e), w, t)
     | (Panicked, t) \<Rightarrow> (Panicked, w, t)
     | (Ok request, t) \<Rightarrow>
        (case may (s_peer session) (permission_for self request) of
           Err err \<Rightarrow>
             (case write_object (response_header_codec K)
                 (Decline 403 (utf8 ''Permission denied'')) t of
                (Ok _, t') \<Rightarrow> (Err (NotPermitted err), w, t')
              | (Err e, t') \<Rightarrow> (Err (SessionWriteError e), w, t')
              | (Panicked, t') \<Rightarrow> (Panicked, w, t'))
         | Panicked \<Rightarrow> (Panicked, w, t)
         | Ok _ \<Rightarrow>
             (case write_object (response_header_codec K) Accept t of
                (Err e, t') \<Rightarrow> (Err (SessionWriteError e), w, t')
              | (Panicked, t') \<Rightarrow> (Panicked, w, t')
              | (Ok _, t') \<Rightarrow>
                  (case cmd_handle self w (session \<lparr> s_transport := t' \<rparr>) request of
                     ((handle_error, w', t''), taken) \<Rightarrow>
                       (handle_error, w', if taken then t'' else shutdown t'')))))"

text \<open>A registered handler is a trait object: what is left of it is its wrapper method.\<close>

type_synonym ('w, 'p) wrapped_handler = "'p permission_handler \<Rightarrow> 'w \<Rightarrow> session \<Rightarrow> 'w outcome"

record ('w, 'p) handler_collection =
  commands :: "(str, ('w, 'p) wrapped_handler) fmap"
  permission_handler :: "'p permission_handler"

definition handler_collection_new :: "'p permission_handler \<Rightarrow> ('w, 'p) handler_collection" where
  "handler_collection_new ph = \<lparr> commands = fmempty, permission_handler = ph \<rparr>"

definition add_command ::
  "rpc_codecs \<Rightarrow> ('w, 'p, 'r) command_handler \<Rightarrow> ('w, 'p) handler_collection \<Rightarrow> ('w, 'p) handler_collection" where
  "add_command K h self =
    self \<lparr> commands := fmupd (cmd_key h) (handle_with_permission K h) (commands self) \<rparr>"

definition handle_session ::
  "rpc_codecs \<Rightarrow> ('w, 'p) handler_collection \<Rightarrow> 'w \<Rightarrow> session \<Rightarrow> session_request_header \<Rightarrow> 'w outcome" where
  "handle_session K self w session request_header =
    (case fmlookup (commands self) (command_key request_header) of
       Some handler \<Rightarrow> handler (permission_handler self) w session
     | None \<Rightarrow>
         (case write_object (response_header_codec K)
             (Decline 404 (utf8 ''command not found'')) (s_transport session) of
            (Ok _, t) \<Rightarrow> (Err CommandNotFound, w, t)
          | (Err e, t) \<Rightarrow> (Err (SessionWriteError e), w, t)
          | (Panicked, t) \<Rightarrow> (Panicked, w, t)))"

definition session_handle ::
  "rpc_codecs \<Rightarrow> ('w, 'p) handler_collection \<Rightarrow> 'w \<Rightarrow> session \<Rightarrow> 'w outcome" where
  "session_handle K cmds w self =
    (case read_object (request_header_codec K) (s_transport self) of
       (Err e, t) \<Rightarrow> (Err (ReadHeaderError e), w, t)
     | (Panicked, t) \<Rightarrow> (Panicked, w, t)
     | (Ok header, t) \<Rightarrow>
         (case handle_session K cmds w (self \<lparr> s_transport := t \<rparr>) header of
            (r, w', t') \<Rightarrow> (map_err (HandlingError (command_key header)) r, w', t')))"

section \<open>Dispatching\<close>

datatype 'e dispatcher_error = NoneSession | DispatcherOther 'e

datatype 'e session_dispatch_error =
    WriteHeaderError object_writer_error
  | WriteRequestError object_writer_error
  | ReadResponseError object_reader_error
  | SessionDeclined u32 str
  | DispatcherFailed "'e dispatcher_error"

text \<open>The part of \<^verbatim>\<open>Session::dispatch\<close> before the dispatcher runs is split at the point where
  it waits for the peer: what it sends, and what it makes of the answer.\<close>

definition dispatch_send ::
  "rpc_codecs \<Rightarrow> str \<Rightarrow> 'r codec \<Rightarrow> 'r \<Rightarrow> transport
    \<Rightarrow> (unit, 'e session_dispatch_error) result \<times> transport" where
  "dispatch_send K key R request t =
    bind_st (map_err_st WriteHeaderError
      (write_object (request_header_codec K) \<lparr> command_key = key \<rparr> t)) (\<lambda>_ t.
    map_err_st WriteRequestError (write_object R request t))"

definition dispatch_response ::
  "rpc_codecs \<Rightarrow> transport \<Rightarrow> (unit, 'e session_dispatch_error) result \<times> transport" where
  "dispatch_response K t =
    bind_st (map_err_st ReadResponseError (read_object (response_header_codec K) t)) (\<lambda>response t.
    (case response of
       Decline code message \<Rightarrow> (Err (SessionDeclined code message), t)
     | Accept \<Rightarrow> (Ok (), t)))"

definition session_dispatch ::
  "rpc_codecs \<Rightarrow> str \<Rightarrow> 'r codec \<Rightarrow> 'r
    \<Rightarrow> (session \<Rightarrow> (('o, 'e dispatcher_error) result \<times> transport) \<times> bool) \<Rightarrow> session
    \<Rightarrow> ('o, 'e session_dispatch_error) result \<times> transport" where
  "session_dispatch K key R request dispatcher self =
    bind_st (dispatch_send K key R request (s_transport self)) (\<lambda>_ t.
    bind_st (dispatch_response K t) (\<lambda>_ t.
    (case dispatcher (self \<lparr> s_transport := t \<rparr>) of
       ((result, t'), taken) \<Rightarrow>
         (map_err DispatcherFailed result, if taken then t' else shutdown t'))))"

section \<open>Permission handlers of the library\<close>

definition anonymous_may :: "'p permission_handler" where
  "anonymous_may p permission =
    (case p of
       Anonymous \<Rightarrow> Ok ()
     | PeerCertificate _ \<Rightarrow>
         Err (PermissionDenied (utf8 ''Only anonymous peers are allowed to do that'')))"

definition whitelist_new :: "certificate list \<Rightarrow> (spki_hash, certificate) fmap" where
  "whitelist_new cs = fold (\<lambda>c m. fmupd (cert_spki c) c m) cs fmempty"

definition whitelist_may :: "(spki_hash, certificate) fmap \<Rightarrow> 'p permission_handler" where
  "whitelist_may wl p permission =
    (case p of
       PeerCertificate cert \<Rightarrow>
         (case fmlookup wl (cert_spki cert) of
            Some known_cert \<Rightarrow>
              if cert_eq (as_unverified known_cert) (as_unverified cert) then Ok ()
              else Err (HandlerError (utf8 ''Certificate fingerprint collision''))
          | None \<Rightarrow> Err (PermissionDenied (utf8 ''certificate is not whitelisted'')))
     | Anonymous \<Rightarrow> Err (PermissionDenied (utf8 ''Anonymous peer is not allowed to do that'')))"

section \<open>Connections\<close>

text \<open>\<^verbatim>\<open>DirectConnection::new\<close>: the peer of an established connection, from the certificates
  that the TLS layer has verified.\<close>

datatype direct_connection_error = EmptyCertificateList | PeerParseError certificate_parse_error

definition direct_connection_peer ::
  "crypto \<Rightarrow> bytes list option \<Rightarrow> (peer, direct_connection_error) result" where
  "direct_connection_peer C peer_identity =
    (case peer_identity of
       None \<Rightarrow> Ok Anonymous
     | Some der_list \<Rightarrow>
         (case der_list of
            [] \<Rightarrow> Err EmptyCertificateList
          | d # _ \<Rightarrow>
              map_ok PeerCertificate (map_err PeerParseError (dangerous_from_already_verified_der C d))))"

section \<open>Wrapping commands\<close>

text \<open>\<^verbatim>\<open>ping\<close>: the number that the peer sends is returned to it.\<close>

definition ping_handler :: "unit codec \<Rightarrow> (128 word) codec \<Rightarrow> 'p \<Rightarrow> ('w, 'p, unit) command_handler" where
  "ping_handler U N permission = \<lparr>
     cmd_key = utf8 ''ping'',
     request_codec = U,
     permission_for = (\<lambda>_. permission),
     cmd_handle = (\<lambda>w session _.
       (case read_object N (s_transport session) of
          (Err e, t) \<Rightarrow> ((Err (SessionReadError e), w, t), False)
        | (Panicked, t) \<Rightarrow> ((Panicked, w, t), False)
        | (Ok ping, t) \<Rightarrow>
            (case write_object N ping t of
               (Err e, t') \<Rightarrow> ((Err (SessionWriteError e), w, t'), False)
             | (Panicked, t') \<Rightarrow> ((Panicked, w, t'), False)
             | (Ok _, t') \<Rightarrow> ((Ok (), w, t'), False)))) \<rparr>"

text \<open>\<^verbatim>\<open>deauthenticate\<close>: the rest of the session is served by another collection, for an
  anonymous peer.\<close>

definition deauthenticate_handler ::
  "rpc_codecs \<Rightarrow> unit codec \<Rightarrow> 'p \<Rightarrow> ('w, 'q) handler_collection \<Rightarrow> ('w, 'p, unit) command_handler" where
  "deauthenticate_handler K U permission nested = \<lparr>
     cmd_key = utf8 ''deauthenticate'',
     request_codec = U,
     permission_for = (\<lambda>_. permission),
     cmd_handle = (\<lambda>w session _.
       (session_handle K nested w (session_new (s_transport session) Anonymous), True)) \<rparr>"

text \<open>A TLS handshake as the server side, by rustls: it gets the callback that verifies the
  client's certificate and the credential, and on success returns the certificates the
  client presented and the encrypted transport.\<close>

type_synonym tls_server_lib =
  "(bytes \<Rightarrow> (unit, tls_error) result) \<Rightarrow> credential \<Rightarrow> transport
    \<Rightarrow> (bytes list option \<times> transport, string) result"

datatype tls_server_error =
    AcceptConnectionError string
  | MissingCertificateError
  | TlsPeerParseError certificate_parse_error

definition tls_transport_server ::
  "crypto \<Rightarrow> tls_server_lib \<Rightarrow> verifier \<Rightarrow> u64 \<Rightarrow> credential \<Rightarrow> transport
    \<Rightarrow> (peer \<times> transport, tls_server_error) result" where
  "tls_transport_server C tls V now cred base_transport =
    and_then (map_err AcceptConnectionError (tls (\<lambda>d. verify_cert C V d now) cred base_transport))
      (\<lambda>(peer_certificates, tls_stream).
    case peer_certificates of
      None \<Rightarrow> Err MissingCertificateError
    | Some [] \<Rightarrow> Err MissingCertificateError
    | Some (d # _) \<Rightarrow>
        and_then (map_err TlsPeerParseError (dangerous_from_already_verified_der C d)) (\<lambda>cert.
        Ok (PeerCertificate cert, tls_stream)))"

text \<open>\<^verbatim>\<open>e2e\<close>: the rest of the session is served inside a TLS stream, for the peer of that stream.\<close>

definition e2e_handler ::
  "rpc_codecs \<Rightarrow> crypto \<Rightarrow> tls_server_lib \<Rightarrow> u64 \<Rightarrow> unit codec \<Rightarrow> 'p \<Rightarrow> credential \<Rightarrow> verifier
    \<Rightarrow> ('w, 'q) handler_collection \<Rightarrow> ('w, 'p, unit) command_handler" where
  "e2e_handler K C tls now U permission cred V nested = \<lparr>
     cmd_key = utf8 ''e2e'',
     request_codec = U,
     permission_for = (\<lambda>_. permission),
     cmd_handle = (\<lambda>w session _.
       (case tls_transport_server C tls V now cred (s_transport session) of
          Err e \<Rightarrow> ((Err (CommandError (utf8 ''tls'')), w, s_transport session), True)
        | Panicked \<Rightarrow> ((Panicked, w, s_transport session), True)
        | Ok (p, tls_transport) \<Rightarrow>
            (session_handle K nested w (session_new tls_transport p), True))) \<rparr>"

section \<open>Lemmas\<close>

abbreviation outcome_world :: "'w outcome \<Rightarrow> 'w" where
  "outcome_world oc \<equiv> fst (snd oc)"

abbreviation denied_403 :: session_response_header where
  "denied_403 \<equiv> Decline 403 (utf8 ''Permission denied'')"

abbreviation not_found_404 :: session_response_header where
  "not_found_404 \<equiv> Decline 404 (utf8 ''command not found'')"

text \<open>What the protocol needs of the serializer: decoders invert encoders, and the three
  responses have encodings of less than \<^verbatim>\<open>2^31\<close> bytes.\<close>

definition rpc_codecs_ok :: "rpc_codecs \<Rightarrow> bool" where
  "rpc_codecs_ok K \<longleftrightarrow> codec_ok (request_header_codec K) \<and> codec_ok (response_header_codec K)
    \<and> (\<forall>r \<in> {Accept, denied_403, not_found_404}.
         \<exists>e. encode (response_header_codec K) r = Ok e \<and> length e < 2 ^ 31)"

definition response_frame :: "rpc_codecs \<Rightarrow> session_response_header \<Rightarrow> bytes" where
  "response_frame K r = chunk_frame (the_ok (encode (response_header_codec K) r))"

lemma write_response:
  assumes "rpc_codecs_ok K" "r \<in> {Accept, denied_403, not_found_404}" "\<not> broken t"
  shows "write_object (response_header_codec K) r t
    = (Ok (), t \<lparr> outgoing := outgoing t @ response_frame K r \<rparr>)"
proof -
  obtain e where "encode (response_header_codec K) r = Ok e" "length e < 2 ^ 31"
    using assms(1,2) unfolding rpc_codecs_ok_def by blast
  then show ?thesis
    using write_object_intact [of "response_header_codec K" r e t] assms(3)
    by (simp add: response_frame_def)
qed

lemma read_response:
  assumes "rpc_codecs_ok K" "r \<in> {Accept, denied_403, not_found_404}"
    "incoming t = response_frame K r @ rest"
  shows "read_object (response_header_codec K) t = (Ok r, t \<lparr> incoming := rest \<rparr>)"
proof -
  obtain e where "encode (response_header_codec K) r = Ok e" "length e < 2 ^ 31"
    using assms(1,2) unfolding rpc_codecs_ok_def by blast
  moreover have "codec_ok (response_header_codec K)" using assms(1) by (simp add: rpc_codecs_ok_def)
  ultimately show ?thesis
    using read_object_frame [of "response_header_codec K" r e t rest] assms(3)
    by (simp add: response_frame_def)
qed

text \<open>A request on the wire: the header with the command's key, then the request.\<close>

definition request_on_wire ::
  "rpc_codecs \<Rightarrow> str \<Rightarrow> 'r codec \<Rightarrow> 'r \<Rightarrow> bytes \<Rightarrow> bool" where
  "request_on_wire K key R request bs \<longleftrightarrow> (\<exists>eh er.
    encode (request_header_codec K) \<lparr> command_key = key \<rparr> = Ok eh \<and> length eh < 2 ^ 31
    \<and> encode R request = Ok er \<and> length er < 2 ^ 31 \<and> bs = chunk_frame eh @ chunk_frame er)"

lemma session_handle_header:
  assumes "rpc_codecs_ok K" "request_on_wire K key R request bs" "incoming (s_transport s) = bs @ rest"
  obtains er where "encode R request = Ok er" "length er < 2 ^ 31"
    "session_handle K cmds w s =
      (case handle_session K cmds w
          (s \<lparr> s_transport := (s_transport s) \<lparr> incoming := chunk_frame er @ rest \<rparr> \<rparr>) \<lparr> command_key = key \<rparr> of
         (r, w', t') \<Rightarrow> (map_err (HandlingError key) r, w', t'))"
proof -
  from assms(2) obtain eh er where e: "encode (request_header_codec K) \<lparr> command_key = key \<rparr> = Ok eh"
      "length eh < 2 ^ 31" "encode R request = Ok er" "length er < 2 ^ 31"
      "bs = chunk_frame eh @ chunk_frame er"
    unfolding request_on_wire_def by blast
  have "codec_ok (request_header_codec K)" using assms(1) by (simp add: rpc_codecs_ok_def)
  from read_object_frame [OF this e(1,2), of "s_transport s" "chunk_frame er @ rest"] assms(3) e(5)
  show thesis using that [OF e(3,4)] by (simp add: session_handle_def)
qed

lemma handle_with_permission_read:
  assumes "rpc_codecs_ok K" "codec_ok (request_codec h)" "encode (request_codec h) request = Ok er"
    "length er < 2 ^ 31" "incoming (s_transport s) = chunk_frame er @ rest" "\<not> broken (s_transport s)"
  shows "handle_with_permission K h may w s =
    (let t = (s_transport s) \<lparr> incoming := rest \<rparr> in
     case may (s_peer s) (permission_for h request) of
       Err e \<Rightarrow> (Err (NotPermitted e), w, t \<lparr> outgoing := outgoing t @ response_frame K denied_403 \<rparr>)
     | Panicked \<Rightarrow> (Panicked, w, t)
     | Ok _ \<Rightarrow>
         (case cmd_handle h w (s \<lparr> s_transport :=
             t \<lparr> outgoing := outgoing t @ response_frame K Accept \<rparr> \<rparr>) request of
            ((r, w', t'), taken) \<Rightarrow> (r, w', if taken then t' else shutdown t')))"
proof -
  have rd: "read_object (request_codec h) (s_transport s) = (Ok request, (s_transport s) \<lparr> incoming := rest \<rparr>)"
    by (rule read_object_frame) (use assms in auto)
  have "write_object (response_header_codec K) r ((s_transport s) \<lparr> incoming := rest \<rparr>)
      = (Ok (), (s_transport s) \<lparr> incoming := rest, outgoing := outgoing (s_transport s) @ response_frame K r \<rparr>)"
    if "r \<in> {Accept, denied_403}" for r
    using write_response [OF assms(1), of r "(s_transport s) \<lparr> incoming := rest \<rparr>"] that assms(6) by auto
  then show ?thesis
    by (simp add: handle_with_permission_def rd Let_def split: result.splits)
qed

text \<open>A session changes the world only through a registered command.\<close>

lemma session_handle_world:
  assumes "outcome_world (session_handle K cmds w s) \<noteq> w"
  obtains key h t where "fmlookup (commands cmds) key = Some h"
    "outcome_world (h (permission_handler cmds) w (s \<lparr> s_transport := t \<rparr>)) \<noteq> w"
    "outcome_world (session_handle K cmds w s) = outcome_world (h (permission_handler cmds) w (s \<lparr> s_transport := t \<rparr>))"
proof -
  obtain r t where rd: "read_object (request_header_codec K) (s_transport s) = (r, t)" by fastforce
  with assms obtain header where r: "r = Ok header"
    by (cases r) (auto simp: session_handle_def)
  let ?s = "s \<lparr> s_transport := t \<rparr>"
  have eq: "outcome_world (session_handle K cmds w s) = outcome_world (handle_session K cmds w ?s header)"
    by (simp add: session_handle_def rd r split: prod.splits)
  show thesis
  proof (cases "fmlookup (commands cmds) (command_key header)")
    case None
    then have "outcome_world (handle_session K cmds w ?s header) = w"
      by (simp add: handle_session_def split: prod.splits result.splits)
    then show thesis using assms eq by simp
  next
    case (Some h)
    then show thesis using that [OF Some, of t] eq assms by (simp add: handle_session_def)
  qed
qed

text \<open>A command changes the world only for a peer who has the permission.\<close>

lemma handle_with_permission_world:
  assumes "outcome_world (handle_with_permission K h may w s) \<noteq> w"
  obtains request t where "may (s_peer s) (permission_for h request) = Ok ()"
    "outcome_world (handle_with_permission K h may w s)
      = outcome_world (fst (cmd_handle h w (s \<lparr> s_transport := t \<rparr>) request))"
proof -
  obtain r t where rd: "read_object (request_codec h) (s_transport s) = (r, t)" by fastforce
  with assms obtain request where r: "r = Ok request"
    by (cases r) (auto simp: handle_with_permission_def)
  note D = handle_with_permission_def [of K h may w s, unfolded rd r, simplified]
  obtain wr t' where wo: "write_object (response_header_codec K) Accept t = (wr, t')" by fastforce
  have ok: "may (s_peer s) (permission_for h request) = Ok ()"
    using assms unfolding D by (auto split: result.splits prod.splits)
  with assms D wo have "wr = Ok ()" by (cases wr) auto
  with ok D wo have "outcome_world (handle_with_permission K h may w s)
      = outcome_world (fst (cmd_handle h w (s \<lparr> s_transport := t' \<rparr>) request))"
    by (simp split: prod.splits)
  with ok show thesis by (rule that)
qed

text \<open>What the dispatching side sends is the request on the wire, and how it reads the answer.\<close>

lemma dispatch_send_wire:
  assumes "request_on_wire K key R request bs" "\<not> broken t"
  shows "(dispatch_send K key R request t :: (unit, 'e session_dispatch_error) result \<times> transport)
    = (Ok (), t \<lparr> outgoing := outgoing t @ bs \<rparr>)"
proof -
  from assms(1) obtain eh er where e: "encode (request_header_codec K) \<lparr> command_key = key \<rparr> = Ok eh"
      "length eh < 2 ^ 31" "encode R request = Ok er" "length er < 2 ^ 31"
      "bs = chunk_frame eh @ chunk_frame er"
    unfolding request_on_wire_def by blast
  have "write_object (request_header_codec K) \<lparr> command_key = key \<rparr> t
      = (Ok (), t \<lparr> outgoing := outgoing t @ chunk_frame eh \<rparr>)"
    by (rule write_object_intact [OF e(1)]) (use e(2) assms(2) in auto)
  moreover have "write_object R request (t \<lparr> outgoing := outgoing t @ chunk_frame eh \<rparr>)
      = (Ok (), t \<lparr> outgoing := outgoing t @ chunk_frame eh @ chunk_frame er \<rparr>)"
    using write_object_intact [OF e(3), of "t \<lparr> outgoing := outgoing t @ chunk_frame eh \<rparr>"] e(4) assms(2)
    by simp
  ultimately show ?thesis by (simp add: dispatch_send_def map_err_st_def e(5))
qed

lemma dispatch_response_read:
  assumes "rpc_codecs_ok K" "r \<in> {Accept, denied_403, not_found_404}"
    "incoming t = response_frame K r @ rest"
  shows "fst (dispatch_response K t :: (unit, 'e session_dispatch_error) result \<times> transport) = (case r of
      Decline code message \<Rightarrow> Err (SessionDeclined code message) | Accept \<Rightarrow> Ok ())"
  using read_response [OF assms] by (simp add: dispatch_response_def map_err_st_def split: session_response_header.splits)

lemma handle_with_permission_answer:
  assumes "rpc_codecs_ok K" "codec_ok (request_codec h)" "encode (request_codec h) request = Ok er"
    "length er < 2 ^ 31" "incoming (s_transport s) = chunk_frame er @ rest" "\<not> broken (s_transport s)"
    "\<And>w s q. \<exists>out. outgoing (snd (snd (fst (cmd_handle h w s q)))) = outgoing (s_transport s) @ out"
    "may (s_peer s) (permission_for h request) \<noteq> Panicked"
  shows "\<exists>out. outgoing (snd (snd (handle_with_permission K h may w s))) = outgoing (s_transport s)
    @ response_frame K (if is_ok (may (s_peer s) (permission_for h request)) then Accept else denied_403) @ out"
proof (cases "may (s_peer s) (permission_for h request)")
  case (Ok u)
  let ?s = "s \<lparr> s_transport := (s_transport s) \<lparr> incoming := rest,
      outgoing := outgoing (s_transport s) @ response_frame K Accept \<rparr> \<rparr>"
  obtain r w' t' taken where c: "cmd_handle h w ?s request = ((r, w', t'), taken)"
    by (metis prod.exhaust)
  then obtain out where "outgoing t' = outgoing (s_transport s) @ response_frame K Accept @ out"
    using assms(7) [of w ?s request] by auto
  then show ?thesis
    using handle_with_permission_read [OF assms(1-6), of may w] Ok c by (simp add: Let_def shutdown_def)
next
  case (Err e)
  then show ?thesis using handle_with_permission_read [OF assms(1-6), of may w] by (simp add: Let_def)
qed (use assms(8) in simp)

text \<open>An accepted command, as far as the world is concerned.\<close>

lemma session_handle_accepted:
  assumes "rpc_codecs_ok K" "codec_ok (request_codec h)"
    "fmlookup (commands cmds) key = Some (handle_with_permission K h)"
    "request_on_wire K key (request_codec h) request bs" "incoming t = bs @ rest" "\<not> broken t"
    "permission_handler cmds p (permission_for h request) = Ok ()"
  shows "outcome_world (session_handle K cmds w (session_new t p)) = outcome_world (fst (cmd_handle h w
    (session_new (t \<lparr> incoming := rest, outgoing := outgoing t @ response_frame K Accept \<rparr>) p) request))"
proof -
  let ?s = "session_new t p"
  have inc: "incoming (s_transport ?s) = bs @ rest" using assms(5) by (simp add: session_new_def)
  obtain er where er: "encode (request_codec h) request = Ok er" "length er < 2 ^ 31"
      "session_handle K cmds w ?s =
      (case handle_session K cmds w
          (?s \<lparr> s_transport := (s_transport ?s) \<lparr> incoming := chunk_frame er @ rest \<rparr> \<rparr>) \<lparr> command_key = key \<rparr> of
         (r, w', t') \<Rightarrow> (map_err (HandlingError key) r, w', t'))"
    by (rule session_handle_header [OF assms(1,4) inc])
  let ?s' = "session_new (t \<lparr> incoming := chunk_frame er @ rest \<rparr>) p"
  have "outcome_world (session_handle K cmds w ?s)
      = outcome_world (handle_with_permission K h (permission_handler cmds) w ?s')"
    unfolding er(3) by (simp add: handle_session_def assms(3) session_new_def split: prod.splits)
  then show ?thesis
    using handle_with_permission_read [OF assms(1,2) er(1,2), of ?s' rest "permission_handler cmds" w] assms(6,7)
    by (simp add: session_new_def Let_def split: prod.splits)
qed

section \<open>Sample codecs\<close>

definition sample_codecs :: rpc_codecs where
  "sample_codecs = \<lparr>
     request_header_codec = \<lparr> encode = (\<lambda>h. Ok (command_key h)), decode = (\<lambda>b. Ok \<lparr> command_key = b \<rparr>) \<rparr>,
     response_header_codec = \<lparr>
       encode = (\<lambda>r. case r of Accept \<Rightarrow> Ok [] | Decline c m \<Rightarrow> Ok (u32_to_be_bytes c @ m)),
       decode = (\<lambda>b. if b = [] then Ok Accept
         else Ok (Decline (u32_from_be_bytes (take 4 b)) (drop 4 b))) \<rparr> \<rparr>"

definition unit_codec :: "unit codec" where
  "unit_codec = \<lparr> encode = (\<lambda>_. Ok []), decode = (\<lambda>_. Ok ()) \<rparr>"

lemma unit_codec_ok [simp]: "codec_ok unit_codec" "encode unit_codec () = Ok []"
  by (simp_all add: codec_ok_def unit_codec_def)

lemma sample_codecs_ok [simp]: "rpc_codecs_ok sample_codecs"
proof -
  have "u32_to_be_bytes c \<noteq> []" for c
    by (simp add: u32_to_be_bytes_def)
  then show ?thesis
    by (auto simp: rpc_codecs_ok_def sample_codecs_def codec_ok_def utf8_def
        split: session_response_header.splits)
qed

lemma sample_request_on_wire:
  "length key < 2 ^ 31 \<Longrightarrow>
    request_on_wire sample_codecs key unit_codec () (chunk_frame key @ chunk_frame [])"
  by (simp add: request_on_wire_def sample_codecs_def)

text \<open>A command that only counts its calls.\<close>

definition counting_handler :: "(nat, unit, unit) command_handler" where
  "counting_handler = \<lparr> cmd_key = utf8 ''count'', request_codec = unit_codec, permission_for = id,
     cmd_handle = (\<lambda>w s _. ((Ok (), Suc w, s_transport s), False)) \<rparr>"

section \<open>Properties\<close>

text \<open>C19. The gate in front of every command. For a well-formed request: an unregistered key
  is answered with code 404 and nothing happens; a registered command whose permission
  the peer lacks is answered with code 403 and nothing happens; otherwise the peer is
  sent the acceptance and the body runs, once, on the rest of the stream, and the session
  is shut down unless the body took it.\<close>

theorem command_gate:
  assumes "rpc_codecs_ok K" "codec_ok (request_codec h)"
    "request_on_wire K key (request_codec h) request bs"
    "incoming t = bs @ rest" "\<not> broken t"
  shows "(fmlookup (commands cmds) key = None \<longrightarrow>
      (\<exists>t'. session_handle K cmds w (session_new t p) = (Err (HandlingError key CommandNotFound), w, t')
        \<and> outgoing t' = outgoing t @ response_frame K not_found_404))
    \<and> (key = cmd_key h \<longrightarrow>
        session_handle K (add_command K h cmds) w (session_new t p) =
          (let t1 = t \<lparr> incoming := rest \<rparr> in
           case permission_handler cmds p (permission_for h request) of
             Err e \<Rightarrow> (Err (HandlingError key (NotPermitted e)), w,
                 t1 \<lparr> outgoing := outgoing t @ response_frame K denied_403 \<rparr>)
           | Panicked \<Rightarrow> (Panicked, w, t1)
           | Ok _ \<Rightarrow>
               (case cmd_handle h w (session_new
                   (t1 \<lparr> outgoing := outgoing t @ response_frame K Accept \<rparr>) p) request of
                  ((r, w', t'), taken) \<Rightarrow>
                    (map_err (HandlingError key) r, w', if taken then t' else shutdown t'))))"
proof (intro conjI impI)
  let ?s = "session_new t p"
  have inc: "incoming (s_transport ?s) = bs @ rest" using assms(4) by (simp add: session_new_def)
  {
    assume none: "fmlookup (commands cmds) key = None"
    obtain er where "session_handle K cmds w ?s =
      (case handle_session K cmds w
          (?s \<lparr> s_transport := (s_transport ?s) \<lparr> incoming := chunk_frame er @ rest \<rparr> \<rparr>) \<lparr> command_key = key \<rparr> of
         (r, w', t') \<Rightarrow> (map_err (HandlingError key) r, w', t'))"
      by (rule session_handle_header [OF assms(1,3) inc])
    moreover have "write_object (response_header_codec K) not_found_404 (t \<lparr> incoming := chunk_frame er @ rest \<rparr>)
        = (Ok (), t \<lparr> incoming := chunk_frame er @ rest, outgoing := outgoing t @ response_frame K not_found_404 \<rparr>)"
      using write_response [OF assms(1), of not_found_404 "t \<lparr> incoming := chunk_frame er @ rest \<rparr>"] assms(5)
      by simp
    ultimately show "\<exists>t'. session_handle K cmds w ?s = (Err (HandlingError key CommandNotFound), w, t')
        \<and> outgoing t' = outgoing t @ response_frame K not_found_404"
      using none by (simp add: handle_session_def session_new_def)
  next
    let ?cmds = "add_command K h cmds"
    assume key: "key = cmd_key h"
    obtain er where er: "encode (request_codec h) request = Ok er" "length er < 2 ^ 31"
      "session_handle K ?cmds w ?s =
      (case handle_session K ?cmds w
          (?s \<lparr> s_transport := (s_transport ?s) \<lparr> incoming := chunk_frame er @ rest \<rparr> \<rparr>) \<lparr> command_key = key \<rparr> of
         (r, w', t') \<Rightarrow> (map_err (HandlingError key) r, w', t'))"
      by (rule session_handle_header [OF assms(1,3) inc])
    have "handle_session K ?cmds w
          (?s \<lparr> s_transport := (s_transport ?s) \<lparr> incoming := chunk_frame er @ rest \<rparr> \<rparr>) \<lparr> command_key = key \<rparr>
        = handle_with_permission K h (permission_handler cmds) w
          (session_new (t \<lparr> incoming := chunk_frame er @ rest \<rparr>) p)"
      by (simp add: handle_session_def add_command_def key session_new_def)
    note eq = er(3) [unfolded this]
    note hp = handle_with_permission_read [OF assms(1,2) er(1,2), of
        "session_new (t \<lparr> incoming := chunk_frame er @ rest \<rparr>) p" rest "permission_handler cmds" w]
    show "session_handle K (add_command K h cmds) w (session_new t p) =
          (let t1 = t \<lparr> incoming := rest \<rparr> in
           case permission_handler cmds p (permission_for h request) of
             Err e \<Rightarrow> (Err (HandlingError key (NotPermitted e)), w,
                 t1 \<lparr> outgoing := outgoing t @ response_frame K denied_403 \<rparr>)
           | Panicked \<Rightarrow> (Panicked, w, t1)
           | Ok _ \<Rightarrow>
               (case cmd_handle h w (session_new
                   (t1 \<lparr> outgoing := outgoing t @ response_frame K Accept \<rparr>) p) request of
                  ((r, w', t'), taken) \<Rightarrow>
                    (map_err (HandlingError key) r, w', if taken then t' else shutdown t')))"
      using eq hp assms(5) by (simp add: session_new_def Let_def split: result.splits prod.splits)
  }
qed

theorem command_gate_witness:
  "session_handle sample_codecs
     (add_command sample_codecs counting_handler (handler_collection_new anonymous_may)) 0
     (session_new (sample_transport (chunk_frame (utf8 ''count'') @ chunk_frame [])) Anonymous)
   = (Ok (), 1, shutdown (sample_transport [] \<lparr> outgoing := response_frame sample_codecs Accept \<rparr>))"
proof -
  let ?bs = "chunk_frame (utf8 ''count'') @ chunk_frame []"
  have "request_on_wire sample_codecs (utf8 ''count'') (request_codec counting_handler) () ?bs"
    using sample_request_on_wire [of "utf8 ''count''"] by (simp add: counting_handler_def utf8_def)
  from command_gate [OF sample_codecs_ok _ this, of "sample_transport ?bs" "[]"
      "handler_collection_new anonymous_may" 0 Anonymous]
  show ?thesis
    by (simp add: counting_handler_def sample_transport_def handler_collection_new_def anonymous_may_def
        Let_def session_new_def)
qed

text \<open>Both sides of a command agree. When the dispatching side's bytes reach the handling
  side and the answer comes back, the dispatcher goes on exactly if the command is
  registered and the peer has the permission; otherwise it reports that the session was
  declined, with code 404 or 403.\<close>

theorem dispatch_answer:
  assumes "rpc_codecs_ok K" "codec_ok (request_codec h)"
    "request_on_wire K (cmd_key h) (request_codec h) request bs"
    "\<not> broken client" "outgoing client = []" "\<not> broken server" "outgoing server = []"
    "incoming server = outgoing (snd (dispatch_send K (cmd_key h) (request_codec h) request client
        :: (unit, 'e session_dispatch_error) result \<times> transport)) @ rest"
    "\<And>w s q. \<exists>out. outgoing (snd (snd (fst (cmd_handle h w s q)))) = outgoing (s_transport s) @ out"
    "permission_handler cmds p (permission_for h request) \<noteq> Panicked"
    "incoming answered = outgoing (snd (snd (session_handle K
        (if registered then add_command K h cmds else cmds) w (session_new server p))))"
    "\<not> registered \<longrightarrow> fmlookup (commands cmds) (cmd_key h) = None"
  shows "fst (dispatch_response K answered :: (unit, 'e session_dispatch_error) result \<times> transport) =
    (if \<not> registered then Err (SessionDeclined 404 (utf8 ''command not found''))
     else if is_ok (permission_handler cmds p (permission_for h request)) then Ok ()
     else Err (SessionDeclined 403 (utf8 ''Permission denied'')))"
proof -
  let ?s = "session_new server p"
  have inc: "incoming (s_transport ?s) = bs @ rest"
    using assms(5,8) dispatch_send_wire [OF assms(3,4), where 'e = 'e] by (simp add: session_new_def)
  show ?thesis
  proof (cases registered)
    case True
    let ?cmds = "add_command K h cmds"
    obtain er where er: "encode (request_codec h) request = Ok er" "length er < 2 ^ 31"
      "session_handle K ?cmds w ?s =
      (case handle_session K ?cmds w
          (?s \<lparr> s_transport := (s_transport ?s) \<lparr> incoming := chunk_frame er @ rest \<rparr> \<rparr>) \<lparr> command_key = cmd_key h \<rparr> of
         (r, w', t') \<Rightarrow> (map_err (HandlingError (cmd_key h)) r, w', t'))"
      by (rule session_handle_header [OF assms(1,3) inc])
    let ?s' = "session_new (server \<lparr> incoming := chunk_frame er @ rest \<rparr>) p"
    let ?ok = "is_ok (permission_handler cmds p (permission_for h request))"
    have "snd (snd (session_handle K ?cmds w ?s))
        = snd (snd (handle_with_permission K h (permission_handler cmds) w ?s'))"
      unfolding er(3) by (simp add: handle_session_def add_command_def session_new_def split: prod.splits)
    moreover obtain out where "outgoing (snd (snd (handle_with_permission K h (permission_handler cmds) w ?s')))
        = response_frame K (if ?ok then Accept else denied_403) @ out"
      using handle_with_permission_answer [OF assms(1,2) er(1,2), of ?s' rest "permission_handler cmds" w]
        assms(6,7,9,10) by (auto simp: session_new_def)
    ultimately have "incoming answered = response_frame K (if ?ok then Accept else denied_403) @ out"
      using assms(11) True by simp
    from dispatch_response_read [OF assms(1) _ this, where 'e = 'e] True show ?thesis by auto
  next
    case False
    obtain er where "session_handle K cmds w ?s =
      (case handle_session K cmds w
          (?s \<lparr> s_transport := (s_transport ?s) \<lparr> incoming := chunk_frame er @ rest \<rparr> \<rparr>) \<lparr> command_key = cmd_key h \<rparr> of
         (r, w', t') \<Rightarrow> (map_err (HandlingError (cmd_key h)) r, w', t'))"
      by (rule session_handle_header [OF assms(1,3) inc])
    moreover have "write_object (response_header_codec K) not_found_404 (server \<lparr> incoming := chunk_frame er @ rest \<rparr>)
        = (Ok (), server \<lparr> incoming := chunk_frame er @ rest, outgoing := response_frame K not_found_404 \<rparr>)"
      using write_response [OF assms(1), of not_found_404 "server \<lparr> incoming := chunk_frame er @ rest \<rparr>"] assms(6,7)
      by simp
    ultimately have "incoming answered = response_frame K not_found_404 @ []"
      using assms(11,12) False by (simp add: handle_session_def session_new_def)
    from dispatch_response_read [OF assms(1) _ this, where 'e = 'e] False show ?thesis by simp
  qed
qed

theorem dispatch_answer_witness:
  "fst (dispatch_response sample_codecs (sample_transport (outgoing (snd (snd (session_handle sample_codecs
      (add_command sample_codecs counting_handler (handler_collection_new (whitelist_may fmempty))) 0
      (session_new (sample_transport (chunk_frame (utf8 ''count'') @ chunk_frame [])) Anonymous))))))
      :: (unit, unit session_dispatch_error) result \<times> transport)
    = Err (SessionDeclined 403 (utf8 ''Permission denied''))"
proof -
  let ?bs = "chunk_frame (utf8 ''count'') @ chunk_frame []" and ?cl = "sample_transport []"
  let ?cmds = "handler_collection_new (whitelist_may fmempty) :: (nat, unit) handler_collection"
  have wire: "request_on_wire sample_codecs (cmd_key counting_handler) (request_codec counting_handler) () ?bs"
    using sample_request_on_wire [of "utf8 ''count''"] by (simp add: counting_handler_def utf8_def)
  have "\<not> broken ?cl" by (simp add: sample_transport_def)
  from dispatch_send_wire [OF wire this, where 'e = unit]
  have "incoming (sample_transport ?bs) = outgoing (snd (dispatch_send sample_codecs (cmd_key counting_handler)
      (request_codec counting_handler) () ?cl :: (unit, unit session_dispatch_error) result \<times> transport)) @ []"
    by (simp add: sample_transport_def)
  from dispatch_answer [OF sample_codecs_ok _ wire _ _ _ _ this, of ?cmds Anonymous
      "sample_transport (outgoing (snd (snd (session_handle sample_codecs
        (add_command sample_codecs counting_handler ?cmds) 0 (session_new (sample_transport ?bs) Anonymous)))))" True 0]
  show ?thesis
    by (simp add: counting_handler_def sample_transport_def handler_collection_new_def whitelist_may_def)
qed

end
