(* ===== verification/Permissions.thy ===== *)
theory Permissions
  imports Rpc
begin

text \<open>
  The permissions of the application (\<^verbatim>\<open>svalin/src/permissions.rs\<close> and
  \<^verbatim>\<open>svalin/src/permissions/default_permission_handler.rs\<close>), and the command collections that
  an agent serves to its upstream server (\<^verbatim>\<open>svalin/src/agent.rs\<close>): the server may only
  deauthenticate a session, an anonymous session may only start end-to-end encryption,
  and everything else is served inside the encrypted session.
\<close>

section \<open>Permissions\<close>

datatype permission =
    RootOnlyPlaceholder
  | AgentOnlyPlaceholder
  | UserOrSession
  | ViewPublicInformation
  | AuthenticatedOnly
  | AnonymousOnly
  | SessionOnly

text \<open>The commands of the application, and the permission that each precursor becomes.\<close>

datatype command =
    Ping | PublicStatus | Forward | LoadCertificateChain | E2E | Deauthenticate | GetKeyPackages
  | UpdateUserMls | AgentMessageHandler | AgentMessageSender | ClientMessageHandler
  | ClientMessageSender | GetUserCredential | RequestSystemReport | UpdateAgent | UpdateTrustStore
  | JoinRequest | JoinAccept | Login | RealtimeStatus | RemoteTerminal | TcpForward

fun permission_of :: "command \<Rightarrow> permission" where
  "permission_of Ping = ViewPublicInformation"
| "permission_of PublicStatus = ViewPublicInformation"
| "permission_of Forward = RootOnlyPlaceholder"
| "permission_of LoadCertificateChain = AuthenticatedOnly"
| "permission_of E2E = AnonymousOnly"
| "permission_of Deauthenticate = AuthenticatedOnly"
| "permission_of GetKeyPackages = AuthenticatedOnly"
| "permission_of UpdateUserMls = UserOrSession"
| "permission_of AgentMessageHandler = AgentOnlyPlaceholder"
| "permission_of AgentMessageSender = AgentOnlyPlaceholder"
| "permission_of ClientMessageHandler = UserOrSession"
| "permission_of ClientMessageSender = UserOrSession"
| "permission_of GetUserCredential = SessionOnly"
| "permission_of RequestSystemReport = SessionOnly"
| "permission_of UpdateAgent = SessionOnly"
| "permission_of UpdateTrustStore = AuthenticatedOnly"
| "permission_of JoinRequest = AnonymousOnly"
| "permission_of JoinAccept = RootOnlyPlaceholder"
| "permission_of Login = AnonymousOnly"
| "permission_of RealtimeStatus = RootOnlyPlaceholder"
| "permission_of RemoteTerminal = RootOnlyPlaceholder"
| "permission_of TcpForward = RootOnlyPlaceholder"

text \<open>Which certificate holds which permission.\<close>

definition certificate_allowed :: "root_certificate \<Rightarrow> certificate \<Rightarrow> permission \<Rightarrow> bool" where
  "certificate_allowed root cert permission =
    (case cert_type cert of
       Root \<Rightarrow> False
     | User \<Rightarrow> (case permission of UserOrSession \<Rightarrow> True | _ \<Rightarrow> False)
     | UserSession \<Rightarrow> (case permission of
           RootOnlyPlaceholder \<Rightarrow> issuer (as_unverified cert) = spki_hash (root_as_unverified root)
         | AuthenticatedOnly \<Rightarrow> True
         | ViewPublicInformation \<Rightarrow> True
         | UserOrSession \<Rightarrow> True
         | SessionOnly \<Rightarrow> True
         | _ \<Rightarrow> False)
     | Agent \<Rightarrow> (case permission of
           AuthenticatedOnly \<Rightarrow> True
         | ViewPublicInformation \<Rightarrow> True
         | AgentOnlyPlaceholder \<Rightarrow> True
         | _ \<Rightarrow> False)
     | Server \<Rightarrow> (case permission of AuthenticatedOnly \<Rightarrow> True | _ \<Rightarrow> False)
     | Temporary \<Rightarrow> False)"

fun certificate_denial :: "permission \<Rightarrow> string" where
  "certificate_denial RootOnlyPlaceholder = ''only the root user is allowed to do that''"
| "certificate_denial UserOrSession = ''only the user or session is allowed to do that''"
| "certificate_denial AgentOnlyPlaceholder = ''only the agents are allowed to do that''"
| "certificate_denial ViewPublicInformation = ''everyone should be allowed to do this, probably a bug''"
| "certificate_denial AuthenticatedOnly = ''peer must be authenticated for this action''"
| "certificate_denial AnonymousOnly = ''peer must be unauthenticated for this action! This could be a security critical bug, please report it!''"
| "certificate_denial SessionOnly = ''peer must be a session for this action''"

definition default_may :: "root_certificate \<Rightarrow> permission permission_handler" where
  "default_may root p permission =
    (case p of
       PeerCertificate cert \<Rightarrow>
         if certificate_allowed root cert permission then Ok ()
         else Err (PermissionDenied (utf8 (certificate_denial permission)))
     | Anonymous \<Rightarrow>
         (case permission of
            ViewPublicInformation \<Rightarrow> Ok ()
          | AnonymousOnly \<Rightarrow> Ok ()
          | AuthenticatedOnly \<Rightarrow>
              Err (PermissionDenied (utf8 ''peer must be authenticated for this action!''))
          | SessionOnly \<Rightarrow> Err (PermissionDenied (utf8 ''peer must be a session for this action''))
          | _ \<Rightarrow> Err (PermissionDenied (utf8 ''anonymous peers are not allowed to do that''))))"

section \<open>The commands of an agent\<close>

text \<open>Every \<^verbatim>\<open>CommandHandler\<close> is a \<^verbatim>\<open>TakeableCommandHandler\<close> that leaves the session in place.\<close>

definition plain_handler ::
  "string \<Rightarrow> command \<Rightarrow> 'r codec \<Rightarrow> ('w \<Rightarrow> session \<Rightarrow> 'r \<Rightarrow> 'w outcome) \<Rightarrow> ('w, permission, 'r) command_handler" where
  "plain_handler key cmd R body = \<lparr>
     cmd_key = utf8 key, request_codec = R, permission_for = (\<lambda>_. permission_of cmd),
     cmd_handle = (\<lambda>w session request. (body w session request, False)) \<rparr>"

text \<open>The bodies of the agent's commands act on the operating system (processes, sockets,
  files); they are parameters.\<close>

record 'w agent_bodies =
  realtime_status_body :: "'w \<Rightarrow> session \<Rightarrow> unit \<Rightarrow> 'w outcome"
  remote_terminal_body :: "'w \<Rightarrow> session \<Rightarrow> unit \<Rightarrow> 'w outcome"
  tcp_forward_body :: "'w \<Rightarrow> session \<Rightarrow> str \<Rightarrow> 'w outcome"
  update_agent_body :: "'w \<Rightarrow> session \<Rightarrow> str \<Rightarrow> 'w outcome"
  system_report_body :: "'w \<Rightarrow> session \<Rightarrow> unit \<Rightarrow> 'w outcome"

record app_codecs =
  unit_c :: "unit codec"
  string_c :: "str codec"
  u128_c :: "(128 word) codec"

definition agent_e2e_commands ::
  "rpc_codecs \<Rightarrow> app_codecs \<Rightarrow> root_certificate \<Rightarrow> 'w agent_bodies \<Rightarrow> ('w, permission) handler_collection" where
  "agent_e2e_commands K A root B =
    (add_command K (plain_handler ''request-system-report'' RequestSystemReport (unit_c A) (system_report_body B))
    (add_command K (plain_handler ''update-agent'' UpdateAgent (string_c A) (update_agent_body B))
    (add_command K (plain_handler ''tcp_forward'' TcpForward (string_c A) (tcp_forward_body B))
    (add_command K (plain_handler ''remote-terminal'' RemoteTerminal (unit_c A) (remote_terminal_body B))
    (add_command K (plain_handler ''realtime-status'' RealtimeStatus (unit_c A) (realtime_status_body B))
    (add_command K (ping_handler (unit_c A) (u128_c A) (permission_of Ping))
    (handler_collection_new (default_may root))))))))"

definition agent_public_commands ::
  "rpc_codecs \<Rightarrow> app_codecs \<Rightarrow> crypto \<Rightarrow> tls_server_lib \<Rightarrow> u64 \<Rightarrow> credential \<Rightarrow> verifier \<Rightarrow> root_certificate
    \<Rightarrow> 'w agent_bodies \<Rightarrow> ('w, permission) handler_collection" where
  "agent_public_commands K A C tls now cred V root B =
    add_command K (e2e_handler K C tls now (unit_c A) (permission_of E2E) cred V (agent_e2e_commands K A root B))
      (handler_collection_new (default_may root))"

definition agent_server_commands ::
  "rpc_codecs \<Rightarrow> app_codecs \<Rightarrow> crypto \<Rightarrow> tls_server_lib \<Rightarrow> u64 \<Rightarrow> credential \<Rightarrow> verifier \<Rightarrow> root_certificate
    \<Rightarrow> 'w agent_bodies \<Rightarrow> ('w, permission) handler_collection" where
  "agent_server_commands K A C tls now cred V root B =
    add_command K (deauthenticate_handler K (unit_c A) (permission_of Deauthenticate)
        (agent_public_commands K A C tls now cred V root B))
      (handler_collection_new (default_may root))"

section \<open>Guarded command collections\<close>

text \<open>The interface that a collection offers to the collections that wrap it: a registered
  command changes the world only for peers that satisfy the guard.\<close>

locale guarded_commands =
  fixes cmds :: "('w, 'p) handler_collection"
    and G :: "peer \<Rightarrow> bool"
  assumes guarded: "fmlookup (commands cmds) key = Some f \<Longrightarrow>
    outcome_world (f (permission_handler cmds) w s) \<noteq> w \<Longrightarrow> G (s_peer s)"
begin

lemma session_guarded: "outcome_world (session_handle K cmds w s) \<noteq> w \<Longrightarrow> G (s_peer s)"
  by (erule session_handle_world) (use guarded in fastforce)

lemma extended:
  assumes "\<And>p w s q. outcome_world (fst (cmd_handle h w s q)) \<noteq> w \<Longrightarrow>
      permission_handler cmds p (permission_for h q) = Ok () \<Longrightarrow> G p"
  shows "guarded_commands (add_command K h cmds) G"
proof
  fix key f w s
  assume f: "fmlookup (commands (add_command K h cmds)) key = Some f"
    "outcome_world (f (permission_handler (add_command K h cmds)) w s) \<noteq> w"
  show "G (s_peer s)"
  proof (cases "key = cmd_key h")
    case True
    then have "outcome_world (handle_with_permission K h (permission_handler cmds) w s) \<noteq> w"
      using f by (simp add: add_command_def)
    then obtain q t where "permission_handler cmds (s_peer s) (permission_for h q) = Ok ()"
        "outcome_world (fst (cmd_handle h w (s \<lparr> s_transport := t \<rparr>) q)) \<noteq> w"
      by (metis handle_with_permission_world)
    then show ?thesis using assms by blast
  qed (use f guarded in \<open>auto simp: add_command_def\<close>)
qed

text \<open>The two commands that wrap this collection, in a collection of their own.\<close>

lemma deauthenticated:
  "guarded_commands (add_command K (deauthenticate_handler K U perm cmds) (handler_collection_new may))
    (\<lambda>p. may p perm = Ok () \<and> G Anonymous)"
proof
  fix key f w s
  let ?h = "deauthenticate_handler K U perm cmds"
  assume "fmlookup (commands (add_command K ?h (handler_collection_new may))) key = Some f"
    "outcome_world (f (permission_handler (add_command K ?h (handler_collection_new may))) w s) \<noteq> w"
  then have "outcome_world (handle_with_permission K ?h may w s) \<noteq> w"
    by (simp add: add_command_def handler_collection_new_def split: if_splits)
  then obtain q t where "may (s_peer s) (permission_for ?h q) = Ok ()"
      "outcome_world (fst (cmd_handle ?h w (s \<lparr> s_transport := t \<rparr>) q)) \<noteq> w"
    by (metis handle_with_permission_world)
  then show "may (s_peer s) perm = Ok () \<and> G Anonymous"
    using session_guarded [of K w "session_new t Anonymous"]
    by (simp add: deauthenticate_handler_def session_new_def)
qed

lemma encrypted:
  "guarded_commands (add_command K (e2e_handler K C tls now U perm cred V cmds) (handler_collection_new may))
    (\<lambda>p. may p perm = Ok () \<and> (\<exists>q t t'. tls_transport_server C tls V now cred t = Ok (q, t') \<and> G q))"
proof
  fix key f w s
  let ?h = "e2e_handler K C tls now U perm cred V cmds"
  assume "fmlookup (commands (add_command K ?h (handler_collection_new may))) key = Some f"
    "outcome_world (f (permission_handler (add_command K ?h (handler_collection_new may))) w s) \<noteq> w"
  then have "outcome_world (handle_with_permission K ?h may w s) \<noteq> w"
    by (simp add: add_command_def handler_collection_new_def split: if_splits)
  then obtain r t where D: "may (s_peer s) (permission_for ?h r) = Ok ()"
      "outcome_world (fst (cmd_handle ?h w (s \<lparr> s_transport := t \<rparr>) r)) \<noteq> w"
    by (metis handle_with_permission_world)
  then obtain q t' where tls: "tls_transport_server C tls V now cred t = Ok (q, t')"
    by (cases "tls_transport_server C tls V now cred t") (auto simp: e2e_handler_def)
  then have "G q"
    using D session_guarded [of K w "session_new t' q"] by (simp add: e2e_handler_def session_new_def)
  then show "may (s_peer s) perm = Ok ()
      \<and> (\<exists>q t t'. tls_transport_server C tls V now cred t = Ok (q, t') \<and> G q)"
    using D(1) tls by (auto simp: e2e_handler_def)
qed

end

lemma guarded_new: "guarded_commands (handler_collection_new may) G"
  by unfold_locales (simp add: handler_collection_new_def)

text \<open>The agent's commands are for session certificates; and as far as only the commands
  with the root permission act on the world, for sessions of the root user.\<close>

definition is_session :: "peer \<Rightarrow> bool" where
  "is_session p \<longleftrightarrow> (\<exists>c. p = PeerCertificate c \<and> cert_type c = UserSession)"

definition is_root_session :: "root_certificate \<Rightarrow> peer \<Rightarrow> bool" where
  "is_root_session root p \<longleftrightarrow> (\<exists>c. p = PeerCertificate c \<and> cert_type c = UserSession
    \<and> issuer (as_unverified c) = spki_hash (root_as_unverified root))"

definition keeps_world :: "('w \<Rightarrow> session \<Rightarrow> 'r \<Rightarrow> 'w outcome) \<Rightarrow> bool" where
  "keeps_world body \<longleftrightarrow> (\<forall>w s q. outcome_world (body w s q) = w)"

lemma default_may_Ok_iff:
  "default_may root p perm = Ok () \<longleftrightarrow>
    (case p of
       Anonymous \<Rightarrow> perm \<in> {ViewPublicInformation, AnonymousOnly}
     | PeerCertificate c \<Rightarrow> certificate_allowed root c perm)"
  by (cases p; cases perm) (simp_all add: default_may_def)

lemma may_session:
  "default_may root p SessionOnly = Ok () \<Longrightarrow> is_session p"
  "default_may root p RootOnlyPlaceholder = Ok () \<Longrightarrow> is_root_session root p"
  by (auto simp: default_may_Ok_iff is_session_def is_root_session_def certificate_allowed_def
      split: peer.splits certificate_type.splits)

lemma root_session_is_session: "is_root_session root p \<Longrightarrow> is_session p"
  by (auto simp: is_root_session_def is_session_def)

lemma permission_handler_add [simp]: "permission_handler (add_command K h cmds) = permission_handler cmds"
  by (simp add: add_command_def)

lemma plain_handler_sel [simp]:
  "permission_for (plain_handler key cmd R body) q = permission_of cmd"
  "cmd_handle (plain_handler key cmd R body) w s q = (body w s q, False)"
  by (simp_all add: plain_handler_def)

lemma ping_keeps_world: "outcome_world (fst (cmd_handle (ping_handler U N perm) w s q)) = w"
  by (simp add: ping_handler_def split: prod.splits result.splits)

interpretation agent_e2e: guarded_commands "agent_e2e_commands K A root B" is_session for K A root B
  unfolding agent_e2e_commands_def
  by (intro guarded_commands.extended guarded_new)
    (auto simp: ping_keeps_world handler_collection_new_def
      intro: may_session root_session_is_session [OF may_session(2)])

interpretation agent_public: guarded_commands "agent_public_commands K A C tls now cred V root B"
    "\<lambda>p. default_may root p AnonymousOnly = Ok ()
      \<and> (\<exists>q t t'. tls_transport_server C tls V now cred t = Ok (q, t') \<and> is_session q)"
    for K A C tls now cred V root B
  unfolding agent_public_commands_def permission_of.simps by (rule agent_e2e.encrypted)

interpretation agent_server: guarded_commands "agent_server_commands K A C tls now cred V root B"
    "\<lambda>p. default_may root p AuthenticatedOnly = Ok ()
      \<and> default_may root Anonymous AnonymousOnly = Ok ()
      \<and> (\<exists>q t t'. tls_transport_server C tls V now cred t = Ok (q, t') \<and> is_session q)"
    for K A C tls now cred V root B
  unfolding agent_server_commands_def permission_of.simps by (rule agent_public.deauthenticated)

lemma agent_e2e_root_guarded:
  assumes "keeps_world (update_agent_body B)" "keeps_world (system_report_body B)"
  shows "guarded_commands (agent_e2e_commands K A root B) (is_root_session root)"
  unfolding agent_e2e_commands_def
  by (intro guarded_commands.extended guarded_new)
    (use assms in \<open>auto simp: ping_keeps_world handler_collection_new_def keeps_world_def intro: may_session\<close>)

lemma agent_server_root_guarded:
  assumes "keeps_world (update_agent_body B)" "keeps_world (system_report_body B)"
  shows "guarded_commands (agent_server_commands K A C tls now cred V root B)
    (\<lambda>p. default_may root p AuthenticatedOnly = Ok ()
      \<and> default_may root Anonymous AnonymousOnly = Ok ()
      \<and> (\<exists>q t t'. tls_transport_server C tls V now cred t = Ok (q, t') \<and> is_root_session root q))"
  unfolding agent_server_commands_def agent_public_commands_def permission_of.simps
  by (intro guarded_commands.deauthenticated guarded_commands.encrypted agent_e2e_root_guarded assms)

text \<open>What rustls guarantees about a server-side handshake with client authentication: when
  it completes with a list of certificates, the callback has accepted the first one.\<close>

definition tls_server_ok :: "tls_server_lib \<Rightarrow> bool" where
  "tls_server_ok tls \<longleftrightarrow> (\<forall>verify cred t d ds t'.
    tls verify cred t = Ok (Some (d # ds), t') \<longrightarrow> verify d = Ok ())"

lemma tls_transport_server_OkD:
  assumes "tls_server_ok tls" "tls_transport_server C tls V now cred t = Ok (q, t')"
  obtains d u where "verify_cert C V d now = Ok ()" "from_der C d = Ok u" "q = PeerCertificate (Certificate u)"
proof -
  from assms(2) obtain pcs t2 where p: "tls (\<lambda>d. verify_cert C V d now) cred t = Ok (pcs, t2)"
    by (auto simp: tls_transport_server_def result_simps)
  with assms(2) obtain d ds where d: "tls (\<lambda>d. verify_cert C V d now) cred t = Ok (Some (d # ds), t2)"
    by (cases pcs; cases "the pcs") (auto simp: tls_transport_server_def)
  moreover from assms(2) d obtain u where "from_der C d = Ok u" "q = PeerCertificate (Certificate u)"
    by (auto simp: tls_transport_server_def dangerous_from_already_verified_der_def mark_as_trusted_def
        result_simps)
  moreover have "verify_cert C V d now = Ok ()"
    using assms(1) d unfolding tls_server_ok_def by blast
  ultimately show thesis using that by blast
qed

text \<open>A session certificate that a reachable trust store lets through.\<close>

lemma trust_store_session_peer:
  assumes "reached_from C r ts" "verify_cert C (trust_store_verifier C ts) d now = Ok ()"
    "from_der C d = Ok u" "certificate_type u = UserSession"
  shows "authorised C r (Certificate u) \<and> check_validity_at u now = Ok ()
    \<and> (\<exists>p. trust_store_get ts (issuer u) = Some p \<and> check_validity_at (as_unverified p) now = Ok ()
         \<and> verify_signature C u p now = Ok (Certificate u))"
proof -
  obtain v c where v: "from_der C d = Ok v" "trust_store_verify_known C ts v now = Ok c" "authorised C r c"
      "check_validity_at (as_unverified c) now = Ok ()"
    using tsv.tls_accepted_valid [OF assms(1,2)] by (auto simp: trust_store_verifier_def)
  then have "v = u" using assms(3) by simp
  with v(2) assms(4) obtain p where p: "trust_store_get ts (issuer u) = Some p"
      "check_validity_at (as_unverified p) now = Ok ()" "verify_signature C u p now = Ok c"
    by (auto simp: trust_store_known_Ok_iff)
  then have "c = Certificate u" by (auto intro: verify_signature_result)
  with v p show ?thesis by auto
qed

definition sample_app_codecs :: app_codecs where
  "sample_app_codecs = \<lparr> unit_c = unit_codec, string_c = byte_codec,
     u128_c = \<lparr> encode = (\<lambda>_. Err ''unused''), decode = (\<lambda>_. Err ''unused'') \<rparr> \<rparr>"

definition sample_bodies :: "nat agent_bodies" where
  "sample_bodies = (let quiet = (\<lambda>w s q. (Ok (), w, s_transport s)) in \<lparr>
     realtime_status_body = quiet,
     remote_terminal_body = (\<lambda>w s _. (Ok (), Suc w, s_transport s)),
     tcp_forward_body = (\<lambda>w s _. (Ok (), w, s_transport s)),
     update_agent_body = (\<lambda>w s _. (Ok (), w, s_transport s)),
     system_report_body = quiet \<rparr>)"

text \<open>A handshake in which the client presents the session certificate \<^verbatim>\<open>[2, 9, 7, 0]\<close>, issued by
  the sample root, on an unencrypted stream.\<close>

definition sample_tls :: tls_server_lib where
  "sample_tls verify cred t =
    (case verify [2, 9, 7, 0] of Ok _ \<Rightarrow> Ok (Some [[2, 9, 7, 0]], t) | _ \<Rightarrow> Err ''handshake'')"

definition sample_request :: "string \<Rightarrow> bytes" where
  "sample_request key = chunk_frame (utf8 key) @ chunk_frame []"

definition sample_terminal_stream :: bytes where
  "sample_terminal_stream =
    sample_request ''deauthenticate'' @ sample_request ''e2e'' @ sample_request ''remote-terminal''"

lemma sample_tls_ok: "tls_server_ok sample_tls"
  by (auto simp: tls_server_ok_def sample_tls_def split: result.splits)

definition sample_stream :: "bytes \<Rightarrow> bytes \<Rightarrow> transport" where
  "sample_stream inc out = (sample_transport inc) \<lparr> outgoing := out \<rparr>"

lemma sample_accepted:
  assumes "fmlookup (commands cmds) (utf8 key) = Some (handle_with_permission sample_codecs h)"
    "request_codec h = unit_codec" "length key < 2 ^ 31"
    "permission_handler cmds p (permission_for h ()) = Ok ()"
  shows "outcome_world (session_handle sample_codecs cmds w (session_new (sample_stream (sample_request key @ rest) out) p))
    = outcome_world (fst (cmd_handle h w
        (session_new (sample_stream rest (out @ response_frame sample_codecs Accept)) p) ()))"
proof -
  have "request_on_wire sample_codecs (utf8 key) (request_codec h) () (sample_request key)"
    using sample_request_on_wire [of "utf8 key"] assms(2,3) by (simp add: sample_request_def utf8_def)
  from session_handle_accepted [OF sample_codecs_ok _ assms(1) this,
      of "sample_stream (sample_request key @ rest) out" rest p w] assms(2,4)
  show ?thesis by (simp add: sample_stream_def sample_transport_def)
qed

lemma sample_session_peer:
  "tls_transport_server sample_crypto sample_tls
     (trust_store_verifier sample_crypto (trust_store_initialize sample_root)) 10 sample_root_credential t
   = Ok (PeerCertificate (Certificate (sample_cert UserSession 2 9 7 0)), t)"
proof -
  have "verify_cert sample_crypto (trust_store_verifier sample_crypto (trust_store_initialize sample_root))
      [2, 9, 7, 0] 10 = Ok ()"
    "from_der sample_crypto [2, 9, 7, 0] = Ok (sample_cert UserSession 2 9 7 0)"
    by code_simp+
  then show ?thesis
    by (simp add: tls_transport_server_def sample_tls_def dangerous_from_already_verified_der_def
        mark_as_trusted_def)
qed

lemma sample_may:
  "default_may sample_root (PeerCertificate (Certificate (sample_cert UserSession 2 9 7 0))) RootOnlyPlaceholder = Ok ()"
  "default_may sample_root (PeerCertificate (Certificate sample_server)) AuthenticatedOnly = Ok ()"
  "default_may sample_root Anonymous AnonymousOnly = Ok ()"
  by code_simp+

lemma sample_terminal_runs:
  "outcome_world (session_handle sample_codecs (agent_server_commands sample_codecs sample_app_codecs
     sample_crypto sample_tls 10 sample_root_credential
     (trust_store_verifier sample_crypto (trust_store_initialize sample_root)) sample_root sample_bodies) 0
     (session_new (sample_stream sample_terminal_stream []) (PeerCertificate (Certificate sample_server)))) = 1"
proof -
  note collections = agent_e2e_commands_def agent_public_commands_def agent_server_commands_def
    add_command_def handler_collection_new_def
  note handlers = plain_handler_def deauthenticate_handler_def e2e_handler_def sample_app_codecs_def
  let ?e2e = "agent_e2e_commands sample_codecs sample_app_codecs sample_root sample_bodies"
  let ?pub = "agent_public_commands sample_codecs sample_app_codecs sample_crypto sample_tls 10
      sample_root_credential (trust_store_verifier sample_crypto (trust_store_initialize sample_root))
      sample_root sample_bodies"
  let ?frame = "response_frame sample_codecs Accept"
  have "outcome_world (session_handle sample_codecs ?e2e 0
      (session_new (sample_stream (sample_request ''remote-terminal'' @ []) out)
        (PeerCertificate (Certificate (sample_cert UserSession 2 9 7 0))))) = 1" for out
  proof (subst sample_accepted)
    show "fmlookup (commands ?e2e) (utf8 ''remote-terminal'') = Some (handle_with_permission sample_codecs
        (plain_handler ''remote-terminal'' RemoteTerminal unit_codec (remote_terminal_body sample_bodies)))"
      by (simp add: collections handlers utf8_def)
  qed (use sample_may in \<open>simp_all add: plain_handler_def collections sample_bodies_def Let_def\<close>)
  then have "outcome_world (session_handle sample_codecs ?pub 0
      (session_new (sample_stream (sample_request ''e2e'' @ sample_request ''remote-terminal'') out) Anonymous)) = 1" for out
  proof (subst sample_accepted)
    show "fmlookup (commands ?pub) (utf8 ''e2e'') = Some (handle_with_permission sample_codecs
        (e2e_handler sample_codecs sample_crypto sample_tls 10 unit_codec (permission_of E2E) sample_root_credential
          (trust_store_verifier sample_crypto (trust_store_initialize sample_root)) ?e2e))"
      by (simp add: agent_public_commands_def add_command_def handler_collection_new_def e2e_handler_def
          sample_app_codecs_def)
  qed (use sample_may in \<open>simp_all add: e2e_handler_def agent_public_commands_def add_command_def
      handler_collection_new_def sample_session_peer session_new_def\<close>)
  then show ?thesis
    unfolding sample_terminal_stream_def
  proof (subst sample_accepted)
    show "fmlookup (commands (agent_server_commands sample_codecs sample_app_codecs sample_crypto sample_tls 10
        sample_root_credential (trust_store_verifier sample_crypto (trust_store_initialize sample_root))
        sample_root sample_bodies)) (utf8 ''deauthenticate'') = Some (handle_with_permission sample_codecs
        (deauthenticate_handler sample_codecs unit_codec (permission_of Deauthenticate) ?pub))"
      by (simp add: agent_server_commands_def add_command_def handler_collection_new_def
          deauthenticate_handler_def sample_app_codecs_def)
  qed (use sample_may in \<open>simp_all add: deauthenticate_handler_def agent_server_commands_def add_command_def
      handler_collection_new_def session_new_def\<close>)
qed

section \<open>Properties\<close>



text \<open>The table of permissions. Anonymous peers hold the public and the anonymous
  permission only; a user certificate only the user permission; a server certificate only
  the authenticated one; an agent certificate the authenticated, public and agent ones; a
  session all but the agent and anonymous ones, the root permission only if the root
  issued it. Root and temporary certificates hold none. In particular the permission that
  everyone should hold is refused to root, user, server and temporary certificates.\<close>

theorem permission_table:
  "(default_may r Anonymous p = Ok () \<longleftrightarrow> p \<in> {ViewPublicInformation, AnonymousOnly})
   \<and> (default_may r (PeerCertificate c) p = Ok () \<longleftrightarrow> p \<in>
    (case cert_type c of
       User \<Rightarrow> {UserOrSession}
     | UserSession \<Rightarrow> {AuthenticatedOnly, ViewPublicInformation, UserOrSession, SessionOnly}
         \<union> (if issuer (as_unverified c) = spki_hash (root_as_unverified r) then {RootOnlyPlaceholder} else {})
     | Agent \<Rightarrow> {AuthenticatedOnly, ViewPublicInformation, AgentOnlyPlaceholder}
     | Server \<Rightarrow> {AuthenticatedOnly}
     | _ \<Rightarrow> {}))"
  by (cases p; cases "cert_type c"; simp add: default_may_Ok_iff certificate_allowed_def)

end
