(* ===== verification/TransactionStore.thy ===== *)
theory TransactionStore
  imports SessionStore
begin

text \<open>
  The tables that keep the blocks of the trust store: on the server
  (\<^verbatim>\<open>svalin_store/src/server_store/trust_store_transaction_store.rs\<close>), with a broadcast to the
  connected replicas, and on agents and clients
  (\<^verbatim>\<open>svalin_store/src/trust_store_transaction_store.rs\<close>). The schema is
  \<^verbatim>\<open>20260816003600_trust_store_transactions.sql\<close>: the sequence number is the primary key. Blocks
  are stored in the encoding of postcard, a codec parameter. A broadcast receiver is the
  queue of the blocks it has not taken yet; the channel's limit on lagging receivers is
  not modelled.
\<close>

section \<open>The table\<close>

type_synonym ts_block = "ts_transaction unchecked_block"

text \<open>The key is an \<^verbatim>\<open>i64\<close>; \<^verbatim>\<open>as i64\<close> and \<^verbatim>\<open>as u64\<close> reinterpret the bits.\<close>

record tx_row =
  tx_sequence :: int
  tx_data :: bytes

definition as_i64 :: "u64 \<Rightarrow> int" where
  "as_i64 w = sint w"

definition select_max_sequence :: "tx_row list \<Rightarrow> int option" where
  "select_max_sequence rows = (if rows = [] then None else Some (Max (tx_sequence ` set rows)))"

text \<open>\<^verbatim>\<open>SELECT data .. WHERE sequence > ? ORDER BY sequence ASC\<close>\<close>

definition select_after :: "tx_row list \<Rightarrow> u64 \<Rightarrow> bytes list" where
  "select_after rows after =
    map tx_data (sort_key tx_sequence (filter (\<lambda>row. tx_sequence row > as_i64 after) rows))"

definition insert_row :: "tx_row \<Rightarrow> tx_row list \<Rightarrow> (tx_row list, sqlx_error) result" where
  "insert_row row rows =
    (if tx_sequence row \<in> tx_sequence ` set rows then Err UniqueViolation else Ok (rows @ [row]))"

section \<open>The server's store\<close>

record server_tx_store =
  server_rows :: "tx_row list"
  server_current :: u64
  receivers :: "ts_block list list"

datatype transaction_store_error =
    TxSqlx sqlx_error
  | TxSequenceMismatch u64 u64
  | TxPostcard string
  | BroadcastError

definition server_open :: "tx_row list \<Rightarrow> server_tx_store" where
  "server_open rows = \<lparr> server_rows = rows,
     server_current = (case select_max_sequence rows of None \<Rightarrow> 1 | Some m \<Rightarrow> of_int m),
     receivers = [] \<rparr>"

definition add_and_broadcast ::
  "ts_block codec \<Rightarrow> server_tx_store \<Rightarrow> ts_transaction checked_block
    \<Rightarrow> (unit, transaction_store_error) result \<times> server_tx_store" where
  "add_and_broadcast P self transaction =
    (let b = as_unchecked transaction in
     if block_sequence b \<noteq> server_current self + 1
     then (Err (TxSequenceMismatch (server_current self + 1) (block_sequence b)), self)
     else
       (case encode P b of
          Err e \<Rightarrow> (Err (TxPostcard e), self)
        | Panicked \<Rightarrow> (Panicked, self)
        | Ok data \<Rightarrow>
           (case insert_row \<lparr> tx_sequence = as_i64 (block_sequence b), tx_data = data \<rparr> (server_rows self) of
              Err e \<Rightarrow> (Err (TxSqlx e), self)
            | Panicked \<Rightarrow> (Panicked, self)
            | Ok rows \<Rightarrow>
               let self' = self \<lparr> server_rows := rows, server_current := block_sequence b \<rparr> in
               if receivers self = [] then (Err BroadcastError, self')
               else (Ok (), self' \<lparr> receivers := map (\<lambda>q. q @ [b]) (receivers self) \<rparr>))))"

text \<open>\<^verbatim>\<open>load_all_after\<close> in its three steps, between which other tasks may add blocks: subscribe,
  read the table, skip what the receiver already got through the table. The new receiver
  is the last one.\<close>

definition server_subscribe :: "server_tx_store \<Rightarrow> server_tx_store" where
  "server_subscribe self = self \<lparr> receivers := receivers self @ [[]] \<rparr>"

definition load_rows_after ::
  "ts_block codec \<Rightarrow> tx_row list \<Rightarrow> u64 \<Rightarrow> (ts_block list, string) result" where
  "load_rows_after P rows after = collect_results (map (decode P) (select_after rows after))"

text \<open>The drain loop: \<^verbatim>\<open>try_recv\<close> until the queue is empty or a block is newer than the last one
  loaded; that one is appended.\<close>

fun drain_receiver :: "u64 \<Rightarrow> ts_block list \<Rightarrow> ts_block list \<Rightarrow> ts_block list \<times> ts_block list" where
  "drain_receiver after transactions [] = (transactions, [])"
| "drain_receiver after transactions (block # queue) =
    (if block_sequence block >
        (case last_opt transactions of Some b \<Rightarrow> block_sequence b | None \<Rightarrow> after)
     then (transactions @ [block], queue)
     else drain_receiver after transactions queue)"

section \<open>The replica's store\<close>

record client_tx_store =
  client_rows :: "tx_row list"
  client_current :: u64

datatype client_store_error = CtxSqlx sqlx_error | CtxSequenceMismatch | CtxPostcard string

definition client_open :: "tx_row list \<Rightarrow> client_tx_store" where
  "client_open rows = \<lparr> client_rows = rows,
     client_current = (case select_max_sequence rows of None \<Rightarrow> 1 | Some m \<Rightarrow> of_int m) \<rparr>"

definition client_insert ::
  "ts_block codec \<Rightarrow> client_tx_store \<Rightarrow> ts_block \<Rightarrow> (unit, client_store_error) result \<times> client_tx_store" where
  "client_insert P self b =
    (case encode P b of
       Err e \<Rightarrow> (Err (CtxPostcard e), self)
     | Panicked \<Rightarrow> (Panicked, self)
     | Ok data \<Rightarrow>
        (case insert_row \<lparr> tx_sequence = as_i64 (block_sequence b), tx_data = data \<rparr> (client_rows self) of
           Err e \<Rightarrow> (Err (CtxSqlx e), self)
         | Panicked \<Rightarrow> (Panicked, self)
         | Ok rows \<Rightarrow> (Ok (), self \<lparr> client_rows := rows, client_current := block_sequence b \<rparr>)))"

definition client_add ::
  "crypto \<Rightarrow> ts_block codec \<Rightarrow> client_tx_store \<Rightarrow> ts_transaction checked_block
    \<Rightarrow> (unit, client_store_error) result \<times> client_tx_store" where
  "client_add C P self transaction =
    (let b = as_unchecked transaction in
     if block_sequence b > client_current self + 1 then (Err CtxSequenceMismatch, self)
     else if block_sequence b \<le> client_current self then
       (case find (\<lambda>row. tx_sequence row = as_i64 (block_sequence b)) (client_rows self) of
          None \<Rightarrow> (Err (CtxSqlx RowNotFound), self)
        | Some row \<Rightarrow>
           (case decode P (tx_data row) of
              Err e \<Rightarrow> (Err (CtxPostcard e), self)
            | Panicked \<Rightarrow> (Panicked, self)
            | Ok block \<Rightarrow>
               if block_eq (trust_state_ops C) C block b then (Ok (), self) else client_insert P self b))
     else client_insert P self b)"

definition client_load_all_after ::
  "ts_block codec \<Rightarrow> client_tx_store \<Rightarrow> u64 \<Rightarrow> (ts_block list, string) result" where
  "client_load_all_after P self after = load_rows_after P (client_rows self) after"

section \<open>Invariant\<close>

text \<open>A table that holds consecutively numbered blocks, in order, from \<^verbatim>\<open>base + 1\<close> on; sequence
  numbers stay below \<^verbatim>\<open>2^63\<close>, where the signed key has the same order.\<close>

definition stored_as :: "ts_block codec \<Rightarrow> ts_block \<Rightarrow> tx_row \<Rightarrow> bool" where
  "stored_as P b row \<longleftrightarrow> tx_sequence row = as_i64 (block_sequence b) \<and> encode P b = Ok (tx_data row)"

definition numbered_from :: "nat \<Rightarrow> ts_block list \<Rightarrow> bool" where
  "numbered_from base log \<longleftrightarrow> base + length log < 2 ^ 63
    \<and> (\<forall>i < length log. block_sequence (log ! i) = of_nat (base + Suc i))"

definition table_of :: "ts_block codec \<Rightarrow> nat \<Rightarrow> ts_block list \<Rightarrow> tx_row list \<Rightarrow> bool" where
  "table_of P base log rows \<longleftrightarrow> numbered_from base log \<and> list_all2 (stored_as P) log rows"

definition server_store_inv :: "ts_block codec \<Rightarrow> nat \<Rightarrow> ts_block list \<Rightarrow> server_tx_store \<Rightarrow> bool" where
  "server_store_inv P base log s \<longleftrightarrow> table_of P base log (server_rows s)
    \<and> server_current s = of_nat (base + length log)"

definition client_store_inv :: "ts_block codec \<Rightarrow> nat \<Rightarrow> ts_block list \<Rightarrow> client_tx_store \<Rightarrow> bool" where
  "client_store_inv P base log s \<longleftrightarrow> table_of P base log (client_rows s)
    \<and> client_current s = of_nat (base + length log)"

section \<open>Lemmas\<close>

lemma as_i64_of_nat: "n < 2 ^ 63 \<Longrightarrow> as_i64 (of_nat n) = int n"
  by (simp add: as_i64_def signed_of_nat signed_take_bit_int_eq_self)

lemma of_nat_u64_less: "m < 2 ^ 64 \<Longrightarrow> n < 2 ^ 64 \<Longrightarrow> (of_nat m :: u64) < of_nat n \<longleftrightarrow> m < n"
  by (simp add: word_less_nat_alt unsigned_of_nat take_bit_nat_eq_self)

lemma of_nat_u64_le: "m < 2 ^ 64 \<Longrightarrow> n < 2 ^ 64 \<Longrightarrow> (of_nat m :: u64) \<le> of_nat n \<longleftrightarrow> m \<le> n"
  by (simp add: word_le_nat_alt unsigned_of_nat take_bit_nat_eq_self)

lemma numbered_snoc:
  "numbered_from base (log @ [b]) \<longleftrightarrow> numbered_from base log \<and> base + Suc (length log) < 2 ^ 63
    \<and> block_sequence b = of_nat (base + Suc (length log))"
  by (auto simp: numbered_from_def nth_append less_Suc_eq)

lemma numbered_Cons:
  "numbered_from base (b # log) \<longleftrightarrow> block_sequence b = of_nat (Suc base) \<and> base + Suc (length log) < 2 ^ 63
    \<and> numbered_from (Suc base) log"
  by (auto simp: numbered_from_def All_less_Suc2 nth_Cons split: nat.splits)

lemma table_sequences:
  assumes "table_of P base log rows"
  shows "map tx_sequence rows = map int [Suc base ..< Suc (base + length log)]"
proof (rule nth_equalityI)
  have len: "length rows = length log" using assms by (auto simp: table_of_def dest: list_all2_lengthD)
  then show "length (map tx_sequence rows) = length (map int [Suc base ..< Suc (base + length log)])"
    by (simp del: upt_Suc)
  fix i assume "i < length (map tx_sequence rows)"
  then have i: "i < length log" using len by simp
  with assms have "tx_sequence (rows ! i) = as_i64 (of_nat (base + Suc i))" "base + Suc i < 2 ^ 63"
    by (auto simp: table_of_def numbered_from_def stored_as_def dest: list_all2_nthD)
  then show "map tx_sequence rows ! i = map int [Suc base ..< Suc (base + length log)] ! i"
    using i len as_i64_of_nat [of "base + Suc i"] by (simp add: nth_upt del: upt_Suc)
qed

lemma table_fresh:
  assumes "table_of P base log rows" "base + Suc (length log) < 2 ^ 63"
  shows "as_i64 (of_nat (base + Suc (length log))) \<notin> tx_sequence ` set rows"
proof -
  have "tx_sequence ` set rows = set (map int [Suc base ..< Suc (base + length log)])"
    using table_sequences [OF assms(1)] by (metis set_map)
  then show ?thesis using as_i64_of_nat [OF assms(2)] by auto
qed

lemma table_snoc:
  assumes "table_of P base log rows" "block_sequence b = of_nat (base + Suc (length log))"
    "base + Suc (length log) < 2 ^ 63" "encode P b = Ok data"
  shows "table_of P base (log @ [b]) (rows @ [\<lparr> tx_sequence = as_i64 (block_sequence b), tx_data = data \<rparr>])"
    "insert_row \<lparr> tx_sequence = as_i64 (block_sequence b), tx_data = data \<rparr> rows
      = Ok (rows @ [\<lparr> tx_sequence = as_i64 (block_sequence b), tx_data = data \<rparr>])"
  using assms table_fresh [OF assms(1,3)]
  by (simp_all add: table_of_def numbered_snoc stored_as_def list_all2_appendI insert_row_def)

lemma table_filter_after:
  assumes "table_of P base log rows" "a < 2 ^ 63"
  shows "filter (\<lambda>row. tx_sequence row > as_i64 (of_nat a)) rows = drop (a - base) rows"
  using assms
proof (induction log arbitrary: base rows)
  case Nil
  then show ?case by (simp add: table_of_def)
next
  case (Cons b log)
  then obtain row rows' where rows: "rows = row # rows'" "stored_as P b row" "table_of P (Suc base) log rows'"
    by (auto simp: table_of_def numbered_Cons list_all2_Cons1)
  have "tx_sequence row = int (Suc base)"
    using Cons.prems(1) rows(1,2) as_i64_of_nat [of "Suc base"]
    by (auto simp: table_of_def numbered_Cons stored_as_def)
  then have gt: "as_i64 (of_nat a) < tx_sequence row \<longleftrightarrow> a \<le> base"
    using as_i64_of_nat [OF Cons.prems(2)] by auto
  note IH = Cons.IH [OF rows(3) Cons.prems(2)]
  show ?case
  proof (cases "a \<le> base")
    case False
    then have "a - base = Suc (a - Suc base)" by simp
    then show ?thesis using IH gt False rows(1) by simp
  qed (use IH gt rows(1) in simp)
qed

lemma load_rows_after_table:
  assumes "table_of P base log rows" "codec_ok P" "a < 2 ^ 63"
  shows "load_rows_after P rows (of_nat a) = Ok (drop (a - base) log)"
proof -
  have "sorted (map tx_sequence rows)"
    unfolding table_sequences [OF assms(1)] by (simp add: sorted_map del: upt_Suc)
  then have "sort_key tx_sequence (drop (a - base) rows) = drop (a - base) rows"
    by (intro sort_key_id_if_sorted) (metis drop_map sorted_wrt_drop)
  then have sel: "select_after rows (of_nat a) = map tx_data (drop (a - base) rows)"
    unfolding select_after_def table_filter_after [OF assms(1,3)] by simp
  have "list_all2 (\<lambda>b row. decode P (tx_data row) = Ok b) log rows"
    using assms(1,2) by (auto simp: table_of_def stored_as_def codec_ok_def elim: list_all2_mono)
  then have "list_all2 (\<lambda>b row. decode P (tx_data row) = Ok b) (drop (a - base) log) (drop (a - base) rows)"
    by (rule list_all2_dropI)
  then have "map (decode P \<circ> tx_data) (drop (a - base) rows) = map Ok (drop (a - base) log)"
    by (induction rule: list_all2_induct) auto
  then show ?thesis
    using collect_results_map [of "drop (a - base) log" Ok id] by (simp add: load_rows_after_def sel)
qed

lemma drain_receiver_numbered:
  assumes "numbered_from m queue" "t < 2 ^ 64"
    "(case last_opt tr of Some b \<Rightarrow> block_sequence b | None \<Rightarrow> after) = of_nat t"
  shows "drain_receiver after tr queue = (tr @ take 1 (drop (t - m) queue), drop (Suc (t - m)) queue)"
  using assms
proof (induction queue arbitrary: m)
  case (Cons b queue)
  have b: "block_sequence b = of_nat (Suc m)" "Suc m < 2 ^ 64" "numbered_from (Suc m) queue"
    using Cons.prems(1) by (auto simp: numbered_Cons)
  then have gt: "block_sequence b > of_nat t \<longleftrightarrow> t \<le> m"
    using Cons.prems(2) of_nat_u64_less [of t "Suc m"] by auto
  show ?case
  proof (cases "t \<le> m")
    case False
    then have "t - m = Suc (t - Suc m)" by simp
    then show ?thesis using Cons.IH [OF b(3) Cons.prems(2,3)] gt False Cons.prems(3) by simp
  qed (use gt Cons.prems(3) in simp)
qed simp

lemma numbered_append:
  "numbered_from base (xs @ ys) \<longleftrightarrow>
    (numbered_from base xs \<and> base + length xs + length ys < 2 ^ 63) \<and> numbered_from (base + length xs) ys"
  by (induction xs arbitrary: base) (auto simp: numbered_Cons, auto simp: numbered_from_def)

lemma drain_completes:
  assumes "numbered_from base (pre @ q)" "j \<le> length pre" "a < 2 ^ 63"
  shows "let (tr, rest) = drain_receiver (of_nat a) (drop (a - base) pre) (drop j pre @ q)
    in tr @ rest = drop (a - base) (pre @ q)"
proof -
  let ?tr = "drop (a - base) pre" and ?queue = "drop j pre @ q"
  have "take j pre @ ?queue = pre @ q" by (metis append.assoc append_take_drop_id)
  then have queue: "numbered_from (base + j) ?queue"
    using assms(1,2) numbered_append [of base "take j pre" ?queue] by (metis add.commute length_take min.absorb2)
  have pre: "numbered_from base pre" "base + length pre < 2 ^ 63"
    using assms(1) by (auto simp: numbered_append)
  have append: "tr @ take 1 (drop k zs) @ drop (Suc k) zs = tr @ drop k zs" for tr k and zs :: "ts_block list"
    by (cases "drop k zs") (simp_all add: drop_Suc tl_drop [symmetric])
  show ?thesis
  proof (cases "a - base < length pre")
    case True
    then have "last_opt ?tr = Some (pre ! (length pre - 1))"
      by (simp add: last_opt_Some last_drop last_conv_nth)
    moreover have "block_sequence (pre ! (length pre - 1)) = of_nat (base + length pre)"
      using pre(1) True unfolding numbered_from_def
      by (metis (no_types, lifting) Suc_diff_1 diff_less less_nat_zero_code less_numeral_extra(1) linorder_neqE_nat)
    ultimately have "drain_receiver (of_nat a) ?tr ?queue
        = (?tr @ take 1 (drop (length pre - j) ?queue), drop (Suc (length pre - j)) ?queue)"
      using drain_receiver_numbered [OF queue, of "base + length pre" "of_nat a" ?tr] pre(2) assms(2) by simp
    then show ?thesis using append [of ?tr "length pre - j" ?queue] True assms(2) by simp
  next
    case False
    then have tr: "?tr = []" by simp
    then have "drain_receiver (of_nat a) ?tr ?queue
        = (take 1 (drop (a - (base + j)) ?queue), drop (Suc (a - (base + j))) ?queue)"
      using drain_receiver_numbered [OF queue, of a "of_nat a" "[]"] assms(3) by simp
    moreover have "drop (a - (base + j)) ?queue = drop (a - base) (pre @ q)"
      using False assms(2) by (cases "a \<le> base") auto
    ultimately show ?thesis
      using append [of "[]" "a - (base + j)" ?queue] by (simp only: Let_def prod.case append_Nil)
  qed
qed

text \<open>Adding blocks to the server's store.\<close>

lemma add_and_broadcast_next:
  assumes "server_store_inv P base log s" "block_sequence b = of_nat (base + Suc (length log))"
    "base + Suc (length log) < 2 ^ 63" "encode P b = Ok data"
  obtains s' where "add_and_broadcast P s (CheckedBlock b) =
      (if receivers s = [] then Err BroadcastError else Ok (), s')"
    "server_store_inv P base (log @ [b]) s'" "receivers s' = map (\<lambda>q. q @ [b]) (receivers s)"
proof -
  let ?row = "\<lparr> tx_sequence = as_i64 (block_sequence b), tx_data = data \<rparr>"
  let ?s = "s \<lparr> server_rows := server_rows s @ [?row], server_current := block_sequence b,
      receivers := map (\<lambda>q. q @ [b]) (receivers s) \<rparr>"
  have t: "table_of P base log (server_rows s)" "server_current s + 1 = of_nat (base + Suc (length log))"
    using assms(1) by (simp_all add: server_store_inv_def)
  note tab = table_snoc [OF t(1) assms(2-4)]
  have "add_and_broadcast P s (CheckedBlock b) = (if receivers s = [] then Err BroadcastError else Ok (), ?s)"
    using t(2) assms(2,4) tab(2) by (simp add: add_and_broadcast_def Let_def)
  moreover have "server_store_inv P base (log @ [b]) ?s"
    using tab(1) assms(2) by (simp add: server_store_inv_def)
  ultimately show thesis by (rule that) simp
qed

lemma add_and_broadcast_other:
  assumes "server_store_inv P base log s" "block_sequence b \<noteq> of_nat (base + Suc (length log))"
  shows "\<exists>e. add_and_broadcast P s (CheckedBlock b) = (Err e, s)"
  using assms by (auto simp: add_and_broadcast_def server_store_inv_def Let_def)

text \<open>A run of adds, each of which stores the next block.\<close>

inductive adds :: "ts_block codec \<Rightarrow> server_tx_store \<Rightarrow> ts_block list \<Rightarrow> server_tx_store \<Rightarrow> bool" for P where
  adds_nil: "adds P s [] s"
| adds_snoc: "adds P s bs s' \<Longrightarrow> add_and_broadcast P s' (CheckedBlock b) = (r, s'') \<Longrightarrow>
    block_sequence b = server_current s' + 1 \<Longrightarrow> encode P b = Ok data \<Longrightarrow> adds P s (bs @ [b]) s''"

lemma adds_inv:
  assumes "adds P s bs s'" "server_store_inv P base log s" "base + length log + length bs < 2 ^ 63"
  shows "server_store_inv P base (log @ bs) s' \<and> receivers s' = map (\<lambda>q. q @ bs) (receivers s)"
  using assms
proof (induction rule: adds.induct)
  case (adds_snoc s bs s' b r s'' data)
  then have IH: "server_store_inv P base (log @ bs) s'" "receivers s' = map (\<lambda>q. q @ bs) (receivers s)"
    by auto
  then have "block_sequence b = of_nat (base + Suc (length (log @ bs)))"
    using adds_snoc.hyps(3) by (simp add: server_store_inv_def)
  from add_and_broadcast_next [OF IH(1) this _ adds_snoc.hyps(4)] adds_snoc.prems(2) obtain s3 where
    "s'' = s3" "server_store_inv P base ((log @ bs) @ [b]) s3" "receivers s3 = map (\<lambda>q. q @ [b]) (receivers s')"
    using adds_snoc.hyps(2) by (auto split: if_splits)
  then show ?case using IH(2) by simp
qed simp

section \<open>Properties\<close>

text \<open>No block is lost or delivered twice when a replica subscribes. Whatever blocks other
  tasks add between the subscription and the query and between the query and the drain
  loop, the blocks returned followed by the blocks left in the receiver are exactly the
  blocks of the store after the requested number, in order.\<close>

theorem load_all_after_complete:
  assumes "server_store_inv P base log s" "codec_ok P" "a < 2 ^ 63"
    "adds P (server_subscribe s) bs1 s1" "adds P s1 bs2 s2"
    "base + length log + length bs1 + length bs2 < 2 ^ 63"
  shows "\<exists>loaded. load_rows_after P (server_rows s1) (of_nat a) = Ok loaded
    \<and> (let (transactions, rest) = drain_receiver (of_nat a) loaded (last (receivers s2))
       in transactions @ rest = drop (a - base) (log @ bs1 @ bs2))"
proof -
  have s0: "server_store_inv P base log (server_subscribe s)"
    using assms(1) by (simp add: server_store_inv_def server_subscribe_def)
  have s1: "server_store_inv P base (log @ bs1) s1" "receivers s1 = map (\<lambda>q. q @ bs1) (receivers (server_subscribe s))"
    using adds_inv [OF assms(4) s0] assms(6) by auto
  have s2: "server_store_inv P base ((log @ bs1) @ bs2) s2" "receivers s2 = map (\<lambda>q. q @ bs2) (receivers s1)"
    using adds_inv [OF assms(5) s1(1)] assms(6) by auto
  have "last (receivers s2) = bs1 @ bs2"
    using s1(2) s2(2) by (simp add: server_subscribe_def)
  moreover have "load_rows_after P (server_rows s1) (of_nat a) = Ok (drop (a - base) (log @ bs1))"
    by (rule load_rows_after_table [OF _ assms(2,3)]) (use s1(1) in \<open>simp add: server_store_inv_def\<close>)
  moreover have "numbered_from base ((log @ bs1) @ bs2)"
    using s2(1) by (simp add: server_store_inv_def table_of_def)
  ultimately show ?thesis
    using drain_completes [of base "log @ bs1" bs2 "length log" a] assms(3) by simp
qed

text \<open>Two sample blocks and a codec for them.\<close>

definition sample_tx_block :: "u64 \<Rightarrow> ts_block" where
  "sample_tx_block n = \<lparr> block_sequence = n, block_time = 0, previous_block_hash = [], resulting_state = [],
     block_signer = SpkiHash [], block_transaction = Add sample_user, block_signature = [] \<rparr>"

definition sample_block_codec :: "ts_block codec" where
  "sample_block_codec = \<lparr>
     encode = (\<lambda>b. if b = sample_tx_block 2 then Ok [2] else if b = sample_tx_block 3 then Ok [3] else Err ''unknown''),
     decode = (\<lambda>d. if d = [2] then Ok (sample_tx_block 2) else if d = [3] then Ok (sample_tx_block 3)
       else Err ''unknown'') \<rparr>"

lemma sample_block_codec_ok: "codec_ok sample_block_codec"
  by (auto simp: codec_ok_def sample_block_codec_def split: if_splits)

lemma sample_tx_block_inj [simp]: "sample_tx_block m = sample_tx_block n \<longleftrightarrow> m = n"
  by (auto simp: sample_tx_block_def)

lemma adds_one:
  assumes "server_store_inv P base log s" "block_sequence b = of_nat (base + Suc (length log))"
    "base + Suc (length log) < 2 ^ 63" "encode P b = Ok data"
  obtains s' where "adds P s [b] s'" "server_store_inv P base (log @ [b]) s'"
proof -
  obtain s' r where "add_and_broadcast P s (CheckedBlock b) = (r, s')" "server_store_inv P base (log @ [b]) s'"
    using add_and_broadcast_next [OF assms] by metis
  moreover have "block_sequence b = server_current s + 1"
    using assms(1,2) by (simp add: server_store_inv_def)
  ultimately show thesis using that adds_snoc [OF adds_nil] assms(4) by fastforce
qed

theorem load_all_after_complete_witness:
  "\<exists>(s1 :: server_tx_store) (s2 :: server_tx_store) loaded. load_rows_after sample_block_codec (server_rows s1) 1 = Ok loaded
    \<and> (let (transactions, rest) = drain_receiver 1 loaded (last (receivers s2))
       in transactions @ rest = [sample_tx_block 2, sample_tx_block 3])"
proof -
  let ?P = sample_block_codec and ?s = "server_open []"
  have inv: "server_store_inv ?P 1 [] (server_subscribe ?s)" "server_store_inv ?P 1 [] ?s"
    by (simp_all add: server_store_inv_def server_open_def server_subscribe_def table_of_def numbered_from_def
        select_max_sequence_def)
  have e: "encode ?P (sample_tx_block 2) = Ok [2]" "encode ?P (sample_tx_block 3) = Ok [3]"
    by (simp_all add: sample_block_codec_def)
  obtain s1 where s1: "adds ?P (server_subscribe ?s) [sample_tx_block 2] s1"
      "server_store_inv ?P 1 ([] @ [sample_tx_block 2]) s1"
    by (rule adds_one [OF inv(1) _ _ e(1)]) (simp_all add: sample_tx_block_def)
  obtain s2 where s2: "adds ?P s1 [sample_tx_block 3] s2"
    by (rule adds_one [OF s1(2) _ _ e(2)]) (simp_all add: sample_tx_block_def)
  from load_all_after_complete [OF inv(2) sample_block_codec_ok, of 1, OF _ s1(1) s2]
  have "\<exists>loaded. load_rows_after ?P (server_rows s1) 1 = Ok loaded
    \<and> (let (transactions, rest) = drain_receiver 1 loaded (last (receivers s2))
       in transactions @ rest = [sample_tx_block 2, sample_tx_block 3])"
    by simp
  then show ?thesis by blast
qed

end
