(* ===== verification/MlsStorage.thy ===== *)
theory MlsStorage
  imports Credential TransactionStore Transport
begin

text \<open>
  Where OpenMLS keeps the groups of a member or of the server: the SQLite storage provider
  (\<^verbatim>\<open>sqlx_storage/src/storage_provider.rs\<close>, \<^verbatim>\<open>group_data.rs\<close>; the schema is in
  \<^verbatim>\<open>sqlx_storage/migrations\<close>). A table with a primary key is a map from encoded keys to
  encoded values; the table of proposals is a list of rows. Keys and entities are encoded
  by codecs, which are parameters; database failures other than violated constraints are
  not modelled. The operations of the feature \<^verbatim>\<open>extensions-draft-08\<close> are not compiled in and
  left out.
\<close>

section \<open>Kinds of group data\<close>

datatype group_data_type =
    JoinGroupConfig
  | TreeData
  | InterimTranscriptHash
  | ContextData
  | ConfirmationTag
  | GroupStateData
  | MessageSecrets
  | ResumptionPskStore
  | OwnLeafIndex
  | UseRatchetTreeExtension
  | GroupEpochSecrets

fun data_type_to_str :: "group_data_type \<Rightarrow> string" where
  "data_type_to_str JoinGroupConfig = ''join_group_config''"
| "data_type_to_str TreeData = ''tree''"
| "data_type_to_str InterimTranscriptHash = ''interim_transcript_hash''"
| "data_type_to_str ContextData = ''context''"
| "data_type_to_str ConfirmationTag = ''confirmation_tag''"
| "data_type_to_str GroupStateData = ''group_state''"
| "data_type_to_str MessageSecrets = ''message_secrets''"
| "data_type_to_str ResumptionPskStore = ''resumption_psk_store''"
| "data_type_to_str OwnLeafIndex = ''own_leaf_index''"
| "data_type_to_str UseRatchetTreeExtension = ''use_ratchet_tree_extension''"
| "data_type_to_str GroupEpochSecrets = ''group_epoch_secrets''"

definition data_type_from_str :: "string \<Rightarrow> group_data_type option" where
  "data_type_from_str s =
    (if s = ''join_group_config'' then Some JoinGroupConfig
     else if s = ''tree'' then Some TreeData
     else if s = ''interim_transcript_hash'' then Some InterimTranscriptHash
     else if s = ''context'' then Some ContextData
     else if s = ''confirmation_tag'' then Some ConfirmationTag
     else if s = ''group_state'' then Some GroupStateData
     else if s = ''message_secrets'' then Some MessageSecrets
     else if s = ''resumption_psk_store'' then Some ResumptionPskStore
     else if s = ''own_leaf_index'' then Some OwnLeafIndex
     else if s = ''use_ratchet_tree_extension'' then Some UseRatchetTreeExtension
     else if s = ''group_epoch_secrets'' then Some GroupEpochSecrets
     else None)"

text \<open>The values that the \<^verbatim>\<open>CHECK\<close> constraint of the table admits, in the latest migration.\<close>

definition checked_data_types :: "string list" where
  "checked_data_types = [''join_group_config'', ''tree'', ''interim_transcript_hash'', ''context'',
     ''confirmation_tag'', ''group_state'', ''message_secrets'', ''resumption_psk_store'', ''own_leaf_index'',
     ''use_ratchet_tree_extension'', ''group_epoch_secrets'', ''application_export_tree'']"

section \<open>The tables\<close>

record proposal_row =
  pr_group :: bytes
  pr_ref :: bytes
  pr_proposal :: bytes

record mls_tables =
  openmls_group_data :: "bytes \<times> string \<rightharpoonup> bytes"
  openmls_proposal :: "proposal_row list"
  openmls_own_leaf_node :: "bytes \<rightharpoonup> bytes"
  openmls_signature_key :: "bytes \<rightharpoonup> bytes"
  openmls_encryption_key :: "bytes \<rightharpoonup> bytes"
  openmls_epoch_key_pairs :: "bytes \<times> bytes \<times> 32 word \<rightharpoonup> bytes"
  openmls_key_package :: "bytes \<rightharpoonup> bytes"
  openmls_psk :: "bytes \<rightharpoonup> bytes"

datatype storage_error = StEncode string | StDecode string | StUnique | StCheck

text \<open>Encoding of a key or an entity; reading of an entity that may be absent.\<close>

definition to_vec :: "'t codec \<Rightarrow> 't \<Rightarrow> (bytes, storage_error) result" where
  "to_vec C x = map_err StEncode (encode C x)"

definition from_bytes :: "'t codec \<Rightarrow> bytes \<Rightarrow> ('t, storage_error) result" where
  "from_bytes C b = map_err StDecode (decode C b)"

definition load_optional :: "'t codec \<Rightarrow> bytes option \<Rightarrow> ('t option, storage_error) result" where
  "load_optional C stored = (case stored of None \<Rightarrow> Ok None | Some b \<Rightarrow> map_ok Some (from_bytes C b))"

text \<open>\<^verbatim>\<open>INSERT\<close> into a table with a primary key.\<close>

definition insert_unique :: "'k \<Rightarrow> bytes \<Rightarrow> ('k \<rightharpoonup> bytes) \<Rightarrow> ('k \<rightharpoonup> bytes, storage_error) result" where
  "insert_unique k v t = (if t k = None then Ok (t(k \<mapsto> v)) else Err StUnique)"

section \<open>Group data\<close>

definition store_group_data ::
  "'g codec \<Rightarrow> 'd codec \<Rightarrow> group_data_type \<Rightarrow> 'g \<Rightarrow> 'd \<Rightarrow> mls_tables \<Rightarrow> (mls_tables, storage_error) result" where
  "store_group_data K C data_type group_id x tb =
    and_then (to_vec K group_id) (\<lambda>key.
    and_then (to_vec C x) (\<lambda>v.
    if data_type_to_str data_type \<notin> set checked_data_types then Err StCheck
    else Ok (tb \<lparr> openmls_group_data := (openmls_group_data tb)((key, data_type_to_str data_type) \<mapsto> v) \<rparr>)))"

definition load_group_data ::
  "'g codec \<Rightarrow> 'd codec \<Rightarrow> group_data_type \<Rightarrow> 'g \<Rightarrow> mls_tables \<Rightarrow> ('d option, storage_error) result" where
  "load_group_data K C data_type group_id tb =
    and_then (to_vec K group_id) (\<lambda>key.
    load_optional C (openmls_group_data tb (key, data_type_to_str data_type)))"

definition delete_group_data ::
  "'g codec \<Rightarrow> group_data_type \<Rightarrow> 'g \<Rightarrow> mls_tables \<Rightarrow> (mls_tables, storage_error) result" where
  "delete_group_data K data_type group_id tb =
    and_then (to_vec K group_id) (\<lambda>key.
    Ok (tb \<lparr> openmls_group_data := (openmls_group_data tb)((key, data_type_to_str data_type) := None) \<rparr>))"

text \<open>The operations of the storage provider on group data are these three for one kind each.\<close>

definition write_mls_join_config ::
  "'g codec \<Rightarrow> 'd codec \<Rightarrow> 'g \<Rightarrow> 'd \<Rightarrow> mls_tables \<Rightarrow> (mls_tables, storage_error) result" where
  "write_mls_join_config K C = store_group_data K C JoinGroupConfig"

definition mls_group_join_config ::
  "'g codec \<Rightarrow> 'd codec \<Rightarrow> 'g \<Rightarrow> mls_tables \<Rightarrow> ('d option, storage_error) result" where
  "mls_group_join_config K C = load_group_data K C JoinGroupConfig"

definition delete_group_config :: "'g codec \<Rightarrow> 'g \<Rightarrow> mls_tables \<Rightarrow> (mls_tables, storage_error) result" where
  "delete_group_config K = delete_group_data K JoinGroupConfig"

definition write_tree ::
  "'g codec \<Rightarrow> 'd codec \<Rightarrow> 'g \<Rightarrow> 'd \<Rightarrow> mls_tables \<Rightarrow> (mls_tables, storage_error) result" where
  "write_tree K C = store_group_data K C TreeData"

definition stored_tree ::
  "'g codec \<Rightarrow> 'd codec \<Rightarrow> 'g \<Rightarrow> mls_tables \<Rightarrow> ('d option, storage_error) result" where
  "stored_tree K C = load_group_data K C TreeData"

definition delete_tree :: "'g codec \<Rightarrow> 'g \<Rightarrow> mls_tables \<Rightarrow> (mls_tables, storage_error) result" where
  "delete_tree K = delete_group_data K TreeData"

definition write_interim_transcript_hash ::
  "'g codec \<Rightarrow> 'd codec \<Rightarrow> 'g \<Rightarrow> 'd \<Rightarrow> mls_tables \<Rightarrow> (mls_tables, storage_error) result" where
  "write_interim_transcript_hash K C = store_group_data K C InterimTranscriptHash"

definition interim_transcript_hash ::
  "'g codec \<Rightarrow> 'd codec \<Rightarrow> 'g \<Rightarrow> mls_tables \<Rightarrow> ('d option, storage_error) result" where
  "interim_transcript_hash K C = load_group_data K C InterimTranscriptHash"

definition delete_interim_transcript_hash :: "'g codec \<Rightarrow> 'g \<Rightarrow> mls_tables \<Rightarrow> (mls_tables, storage_error) result" where
  "delete_interim_transcript_hash K = delete_group_data K InterimTranscriptHash"

definition write_context ::
  "'g codec \<Rightarrow> 'd codec \<Rightarrow> 'g \<Rightarrow> 'd \<Rightarrow> mls_tables \<Rightarrow> (mls_tables, storage_error) result" where
  "write_context K C = store_group_data K C ContextData"

definition group_context ::
  "'g codec \<Rightarrow> 'd codec \<Rightarrow> 'g \<Rightarrow> mls_tables \<Rightarrow> ('d option, storage_error) result" where
  "group_context K C = load_group_data K C ContextData"

definition delete_context :: "'g codec \<Rightarrow> 'g \<Rightarrow> mls_tables \<Rightarrow> (mls_tables, storage_error) result" where
  "delete_context K = delete_group_data K ContextData"

definition write_confirmation_tag ::
  "'g codec \<Rightarrow> 'd codec \<Rightarrow> 'g \<Rightarrow> 'd \<Rightarrow> mls_tables \<Rightarrow> (mls_tables, storage_error) result" where
  "write_confirmation_tag K C = store_group_data K C ConfirmationTag"

definition confirmation_tag ::
  "'g codec \<Rightarrow> 'd codec \<Rightarrow> 'g \<Rightarrow> mls_tables \<Rightarrow> ('d option, storage_error) result" where
  "confirmation_tag K C = load_group_data K C ConfirmationTag"

definition delete_confirmation_tag :: "'g codec \<Rightarrow> 'g \<Rightarrow> mls_tables \<Rightarrow> (mls_tables, storage_error) result" where
  "delete_confirmation_tag K = delete_group_data K ConfirmationTag"

definition write_group_state ::
  "'g codec \<Rightarrow> 'd codec \<Rightarrow> 'g \<Rightarrow> 'd \<Rightarrow> mls_tables \<Rightarrow> (mls_tables, storage_error) result" where
  "write_group_state K C = store_group_data K C GroupStateData"

definition group_state ::
  "'g codec \<Rightarrow> 'd codec \<Rightarrow> 'g \<Rightarrow> mls_tables \<Rightarrow> ('d option, storage_error) result" where
  "group_state K C = load_group_data K C GroupStateData"

definition delete_group_state :: "'g codec \<Rightarrow> 'g \<Rightarrow> mls_tables \<Rightarrow> (mls_tables, storage_error) result" where
  "delete_group_state K = delete_group_data K GroupStateData"

definition write_message_secrets ::
  "'g codec \<Rightarrow> 'd codec \<Rightarrow> 'g \<Rightarrow> 'd \<Rightarrow> mls_tables \<Rightarrow> (mls_tables, storage_error) result" where
  "write_message_secrets K C = store_group_data K C MessageSecrets"

definition message_secrets ::
  "'g codec \<Rightarrow> 'd codec \<Rightarrow> 'g \<Rightarrow> mls_tables \<Rightarrow> ('d option, storage_error) result" where
  "message_secrets K C = load_group_data K C MessageSecrets"

definition delete_message_secrets :: "'g codec \<Rightarrow> 'g \<Rightarrow> mls_tables \<Rightarrow> (mls_tables, storage_error) result" where
  "delete_message_secrets K = delete_group_data K MessageSecrets"

definition write_resumption_psk_store ::
  "'g codec \<Rightarrow> 'd codec \<Rightarrow> 'g \<Rightarrow> 'd \<Rightarrow> mls_tables \<Rightarrow> (mls_tables, storage_error) result" where
  "write_resumption_psk_store K C = store_group_data K C ResumptionPskStore"

definition resumption_psk_store ::
  "'g codec \<Rightarrow> 'd codec \<Rightarrow> 'g \<Rightarrow> mls_tables \<Rightarrow> ('d option, storage_error) result" where
  "resumption_psk_store K C = load_group_data K C ResumptionPskStore"

definition delete_all_resumption_psk_secrets :: "'g codec \<Rightarrow> 'g \<Rightarrow> mls_tables \<Rightarrow> (mls_tables, storage_error) result" where
  "delete_all_resumption_psk_secrets K = delete_group_data K ResumptionPskStore"

definition write_own_leaf_index ::
  "'g codec \<Rightarrow> 'd codec \<Rightarrow> 'g \<Rightarrow> 'd \<Rightarrow> mls_tables \<Rightarrow> (mls_tables, storage_error) result" where
  "write_own_leaf_index K C = store_group_data K C OwnLeafIndex"

definition own_leaf_index ::
  "'g codec \<Rightarrow> 'd codec \<Rightarrow> 'g \<Rightarrow> mls_tables \<Rightarrow> ('d option, storage_error) result" where
  "own_leaf_index K C = load_group_data K C OwnLeafIndex"

definition delete_own_leaf_index :: "'g codec \<Rightarrow> 'g \<Rightarrow> mls_tables \<Rightarrow> (mls_tables, storage_error) result" where
  "delete_own_leaf_index K = delete_group_data K OwnLeafIndex"

definition write_group_epoch_secrets ::
  "'g codec \<Rightarrow> 'd codec \<Rightarrow> 'g \<Rightarrow> 'd \<Rightarrow> mls_tables \<Rightarrow> (mls_tables, storage_error) result" where
  "write_group_epoch_secrets K C = store_group_data K C GroupEpochSecrets"

definition group_epoch_secrets ::
  "'g codec \<Rightarrow> 'd codec \<Rightarrow> 'g \<Rightarrow> mls_tables \<Rightarrow> ('d option, storage_error) result" where
  "group_epoch_secrets K C = load_group_data K C GroupEpochSecrets"

definition delete_group_epoch_secrets :: "'g codec \<Rightarrow> 'g \<Rightarrow> mls_tables \<Rightarrow> (mls_tables, storage_error) result" where
  "delete_group_epoch_secrets K = delete_group_data K GroupEpochSecrets"

lemmas group_data_ops = write_mls_join_config_def mls_group_join_config_def delete_group_config_def
  write_tree_def stored_tree_def delete_tree_def
  write_interim_transcript_hash_def interim_transcript_hash_def delete_interim_transcript_hash_def
  write_context_def group_context_def delete_context_def
  write_confirmation_tag_def confirmation_tag_def delete_confirmation_tag_def
  write_group_state_def group_state_def delete_group_state_def
  write_message_secrets_def message_secrets_def delete_message_secrets_def
  write_resumption_psk_store_def resumption_psk_store_def delete_all_resumption_psk_secrets_def
  write_own_leaf_index_def own_leaf_index_def delete_own_leaf_index_def
  write_group_epoch_secrets_def group_epoch_secrets_def delete_group_epoch_secrets_def

section \<open>Keys, packages and leaf nodes\<close>

definition write_signature_key_pair ::
  "'k codec \<Rightarrow> 'd codec \<Rightarrow> 'k \<Rightarrow> 'd \<Rightarrow> mls_tables \<Rightarrow> (mls_tables, storage_error) result" where
  "write_signature_key_pair K C k x tb =
    and_then (to_vec K k) (\<lambda>key. and_then (to_vec C x) (\<lambda>v.
    map_ok (\<lambda>t. tb \<lparr> openmls_signature_key := t \<rparr>) (insert_unique key v (openmls_signature_key tb))))"

definition signature_key_pair ::
  "'k codec \<Rightarrow> 'd codec \<Rightarrow> 'k \<Rightarrow> mls_tables \<Rightarrow> ('d option, storage_error) result" where
  "signature_key_pair K C k tb = and_then (to_vec K k) (\<lambda>key. load_optional C (openmls_signature_key tb key))"

definition delete_signature_key_pair :: "'k codec \<Rightarrow> 'k \<Rightarrow> mls_tables \<Rightarrow> (mls_tables, storage_error) result" where
  "delete_signature_key_pair K k tb =
    and_then (to_vec K k) (\<lambda>key. Ok (tb \<lparr> openmls_signature_key := (openmls_signature_key tb)(key := None) \<rparr>))"

definition write_encryption_key_pair ::
  "'k codec \<Rightarrow> 'd codec \<Rightarrow> 'k \<Rightarrow> 'd \<Rightarrow> mls_tables \<Rightarrow> (mls_tables, storage_error) result" where
  "write_encryption_key_pair K C k x tb =
    and_then (to_vec K k) (\<lambda>key. and_then (to_vec C x) (\<lambda>v.
    map_ok (\<lambda>t. tb \<lparr> openmls_encryption_key := t \<rparr>) (insert_unique key v (openmls_encryption_key tb))))"

definition encryption_key_pair ::
  "'k codec \<Rightarrow> 'd codec \<Rightarrow> 'k \<Rightarrow> mls_tables \<Rightarrow> ('d option, storage_error) result" where
  "encryption_key_pair K C k tb = and_then (to_vec K k) (\<lambda>key. load_optional C (openmls_encryption_key tb key))"

definition delete_encryption_key_pair :: "'k codec \<Rightarrow> 'k \<Rightarrow> mls_tables \<Rightarrow> (mls_tables, storage_error) result" where
  "delete_encryption_key_pair K k tb =
    and_then (to_vec K k) (\<lambda>key. Ok (tb \<lparr> openmls_encryption_key := (openmls_encryption_key tb)(key := None) \<rparr>))"

definition write_key_package ::
  "'k codec \<Rightarrow> 'd codec \<Rightarrow> 'k \<Rightarrow> 'd \<Rightarrow> mls_tables \<Rightarrow> (mls_tables, storage_error) result" where
  "write_key_package K C k x tb =
    and_then (to_vec K k) (\<lambda>key. and_then (to_vec C x) (\<lambda>v.
    map_ok (\<lambda>t. tb \<lparr> openmls_key_package := t \<rparr>) (insert_unique key v (openmls_key_package tb))))"

definition stored_key_package ::
  "'k codec \<Rightarrow> 'd codec \<Rightarrow> 'k \<Rightarrow> mls_tables \<Rightarrow> ('d option, storage_error) result" where
  "stored_key_package K C k tb = and_then (to_vec K k) (\<lambda>key. load_optional C (openmls_key_package tb key))"

definition delete_key_package :: "'k codec \<Rightarrow> 'k \<Rightarrow> mls_tables \<Rightarrow> (mls_tables, storage_error) result" where
  "delete_key_package K k tb =
    and_then (to_vec K k) (\<lambda>key. Ok (tb \<lparr> openmls_key_package := (openmls_key_package tb)(key := None) \<rparr>))"

definition write_psk ::
  "'k codec \<Rightarrow> 'd codec \<Rightarrow> 'k \<Rightarrow> 'd \<Rightarrow> mls_tables \<Rightarrow> (mls_tables, storage_error) result" where
  "write_psk K C k x tb =
    and_then (to_vec K k) (\<lambda>key. and_then (to_vec C x) (\<lambda>v.
    map_ok (\<lambda>t. tb \<lparr> openmls_psk := t \<rparr>) (insert_unique key v (openmls_psk tb))))"

definition stored_psk ::
  "'k codec \<Rightarrow> 'd codec \<Rightarrow> 'k \<Rightarrow> mls_tables \<Rightarrow> ('d option, storage_error) result" where
  "stored_psk K C k tb = and_then (to_vec K k) (\<lambda>key. load_optional C (openmls_psk tb key))"

definition delete_psk :: "'k codec \<Rightarrow> 'k \<Rightarrow> mls_tables \<Rightarrow> (mls_tables, storage_error) result" where
  "delete_psk K k tb =
    and_then (to_vec K k) (\<lambda>key. Ok (tb \<lparr> openmls_psk := (openmls_psk tb)(key := None) \<rparr>))"

definition append_own_leaf_node ::
  "'g codec \<Rightarrow> 'd codec \<Rightarrow> 'g \<Rightarrow> 'd \<Rightarrow> mls_tables \<Rightarrow> (mls_tables, storage_error) result" where
  "append_own_leaf_node K C group_id leaf_node tb =
    and_then (to_vec K group_id) (\<lambda>key. and_then (to_vec C leaf_node) (\<lambda>v.
    map_ok (\<lambda>t. tb \<lparr> openmls_own_leaf_node := t \<rparr>) (insert_unique key v (openmls_own_leaf_node tb))))"

text \<open>All rows of the group; the primary key leaves at most one.\<close>

definition own_leaf_nodes ::
  "'g codec \<Rightarrow> 'd codec \<Rightarrow> 'g \<Rightarrow> mls_tables \<Rightarrow> ('d list, storage_error) result" where
  "own_leaf_nodes K C group_id tb =
    and_then (to_vec K group_id) (\<lambda>key.
    collect_results (map (from_bytes C) (case openmls_own_leaf_node tb key of None \<Rightarrow> [] | Some v \<Rightarrow> [v])))"

definition delete_own_leaf_nodes :: "'g codec \<Rightarrow> 'g \<Rightarrow> mls_tables \<Rightarrow> (mls_tables, storage_error) result" where
  "delete_own_leaf_nodes K group_id tb =
    and_then (to_vec K group_id) (\<lambda>key.
    Ok (tb \<lparr> openmls_own_leaf_node := (openmls_own_leaf_node tb)(key := None) \<rparr>))"

definition write_encryption_epoch_key_pairs ::
  "'g codec \<Rightarrow> 'e codec \<Rightarrow> 'd list codec \<Rightarrow> 'g \<Rightarrow> 'e \<Rightarrow> 32 word \<Rightarrow> 'd list \<Rightarrow> mls_tables
    \<Rightarrow> (mls_tables, storage_error) result" where
  "write_encryption_epoch_key_pairs K Ke C group_id epoch leaf_index key_pairs tb =
    and_then (to_vec K group_id) (\<lambda>g. and_then (to_vec Ke epoch) (\<lambda>e. and_then (to_vec C key_pairs) (\<lambda>v.
    map_ok (\<lambda>t. tb \<lparr> openmls_epoch_key_pairs := t \<rparr>)
      (insert_unique (g, e, leaf_index) v (openmls_epoch_key_pairs tb)))))"

definition encryption_epoch_key_pairs ::
  "'g codec \<Rightarrow> 'e codec \<Rightarrow> 'd list codec \<Rightarrow> 'g \<Rightarrow> 'e \<Rightarrow> 32 word \<Rightarrow> mls_tables \<Rightarrow> ('d list, storage_error) result" where
  "encryption_epoch_key_pairs K Ke C group_id epoch leaf_index tb =
    and_then (to_vec K group_id) (\<lambda>g. and_then (to_vec Ke epoch) (\<lambda>e.
    map_ok (\<lambda>opt. case opt of None \<Rightarrow> [] | Some xs \<Rightarrow> xs)
      (load_optional C (openmls_epoch_key_pairs tb (g, e, leaf_index)))))"

definition delete_encryption_epoch_key_pairs ::
  "'g codec \<Rightarrow> 'e codec \<Rightarrow> 'g \<Rightarrow> 'e \<Rightarrow> 32 word \<Rightarrow> mls_tables \<Rightarrow> (mls_tables, storage_error) result" where
  "delete_encryption_epoch_key_pairs K Ke group_id epoch leaf_index tb =
    and_then (to_vec K group_id) (\<lambda>g. and_then (to_vec Ke epoch) (\<lambda>e.
    Ok (tb \<lparr> openmls_epoch_key_pairs := (openmls_epoch_key_pairs tb)((g, e, leaf_index) := None) \<rparr>)))"

section \<open>Proposals\<close>

text \<open>A query without an order returns the selected rows in some order, the parameter \<^verbatim>\<open>scan\<close>.\<close>

definition scan_ok :: "(proposal_row list \<Rightarrow> proposal_row list) \<Rightarrow> bool" where
  "scan_ok scan \<longleftrightarrow> (\<forall>rows. mset (scan rows) = mset rows)"

definition queue_proposal ::
  "'g codec \<Rightarrow> 'r codec \<Rightarrow> 'd codec \<Rightarrow> 'g \<Rightarrow> 'r \<Rightarrow> 'd \<Rightarrow> mls_tables \<Rightarrow> (mls_tables, storage_error) result" where
  "queue_proposal K R C group_id proposal_ref proposal tb =
    and_then (to_vec K group_id) (\<lambda>g. and_then (to_vec R proposal_ref) (\<lambda>r. and_then (to_vec C proposal) (\<lambda>v.
    if (g, r) \<in> (\<lambda>row. (pr_group row, pr_ref row)) ` set (openmls_proposal tb) then Err StUnique
    else Ok (tb \<lparr> openmls_proposal := openmls_proposal tb @ [\<lparr> pr_group = g, pr_ref = r, pr_proposal = v \<rparr>] \<rparr>))))"

definition queued_proposals ::
  "(proposal_row list \<Rightarrow> proposal_row list) \<Rightarrow> 'g codec \<Rightarrow> 'r codec \<Rightarrow> 'd codec \<Rightarrow> 'g \<Rightarrow> mls_tables
    \<Rightarrow> (('r \<times> 'd) list, storage_error) result" where
  "queued_proposals scan K R C group_id tb =
    and_then (to_vec K group_id) (\<lambda>g.
    collect_results (map (\<lambda>row.
        and_then (from_bytes R (pr_ref row)) (\<lambda>r. and_then (from_bytes C (pr_proposal row)) (\<lambda>p. Ok (r, p))))
      (scan (filter (\<lambda>row. pr_group row = g) (openmls_proposal tb)))))"

definition queued_proposal_refs ::
  "(proposal_row list \<Rightarrow> proposal_row list) \<Rightarrow> 'g codec \<Rightarrow> 'r codec \<Rightarrow> 'g \<Rightarrow> mls_tables \<Rightarrow> ('r list, storage_error) result" where
  "queued_proposal_refs scan K R group_id tb =
    and_then (to_vec K group_id) (\<lambda>g.
    collect_results (map (\<lambda>row. from_bytes R (pr_ref row))
      (scan (filter (\<lambda>row. pr_group row = g) (openmls_proposal tb)))))"

definition remove_proposal ::
  "'g codec \<Rightarrow> 'r codec \<Rightarrow> 'g \<Rightarrow> 'r \<Rightarrow> mls_tables \<Rightarrow> (mls_tables, storage_error) result" where
  "remove_proposal K R group_id proposal_ref tb =
    and_then (to_vec K group_id) (\<lambda>g. and_then (to_vec R proposal_ref) (\<lambda>r.
    Ok (tb \<lparr> openmls_proposal := filter (\<lambda>row. \<not> (pr_group row = g \<and> pr_ref row = r)) (openmls_proposal tb) \<rparr>)))"

definition clear_proposal_queue :: "'g codec \<Rightarrow> 'g \<Rightarrow> mls_tables \<Rightarrow> (mls_tables, storage_error) result" where
  "clear_proposal_queue K group_id tb =
    and_then (to_vec K group_id) (\<lambda>g.
    Ok (tb \<lparr> openmls_proposal := filter (\<lambda>row. pr_group row \<noteq> g) (openmls_proposal tb) \<rparr>))"

section \<open>What OpenMLS relies on\<close>

text \<open>A store of values under keys. Operations may fail; if they succeed, reading gives what was
  written last.\<close>

datatype ('k, 'v) store_op = Write 'k 'v | Remove 'k

locale keyed_store =
  fixes put :: "'k \<Rightarrow> 'v \<Rightarrow> 's \<Rightarrow> ('s, 'e) result"
    and get :: "'k \<Rightarrow> 's \<Rightarrow> ('v option, 'e) result"
    and remove :: "'k \<Rightarrow> 's \<Rightarrow> ('s, 'e) result"
  assumes read_write: "put k v s = Ok s' \<Longrightarrow> get k s' = Ok (Some v)"
    and read_write_other: "put k v s = Ok s' \<Longrightarrow> k' \<noteq> k \<Longrightarrow> get k' s' = get k' s"
    and read_remove: "remove k s = Ok s' \<Longrightarrow> get k s' = Ok None"
    and read_remove_other: "remove k s = Ok s' \<Longrightarrow> k' \<noteq> k \<Longrightarrow> get k' s' = get k' s"

text \<open>A sequence of operations that all succeed, and what it leaves under a key.\<close>

fun run_store ::
  "('k \<Rightarrow> 'v \<Rightarrow> 's \<Rightarrow> ('s, 'e) result) \<Rightarrow> ('k \<Rightarrow> 's \<Rightarrow> ('s, 'e) result) \<Rightarrow> ('k, 'v) store_op list \<Rightarrow> 's \<Rightarrow> ('s, 'e) result" where
  "run_store put remove [] s = Ok s"
| "run_store put remove (Write k v # ops) s = and_then (put k v s) (run_store put remove ops)"
| "run_store put remove (Remove k # ops) s = and_then (remove k s) (run_store put remove ops)"

fun last_written :: "'k \<Rightarrow> ('k, 'v) store_op list \<Rightarrow> 'v option option" where
  "last_written k [] = None"
| "last_written k (Write k' v # ops) =
    (case last_written k ops of None \<Rightarrow> if k' = k then Some (Some v) else None | Some r \<Rightarrow> Some r)"
| "last_written k (Remove k' # ops) =
    (case last_written k ops of None \<Rightarrow> if k' = k then Some None else None | Some r \<Rightarrow> Some r)"

context keyed_store
begin

lemma run_store_read:
  "run_store put remove ops s = Ok s' \<Longrightarrow>
    get k s' = (case last_written k ops of None \<Rightarrow> get k s | Some r \<Rightarrow> Ok r)"
proof (induction ops arbitrary: s)
  case (Cons x ops)
  show ?case
  proof (cases x)
    case (Write k' v)
    then obtain s1 where w: "put k' v s = Ok s1" "run_store put remove ops s1 = Ok s'"
      using Cons.prems by (auto simp: result_simps)
    then show ?thesis
      using Cons.IH [OF w(2)] read_write [OF w(1)] read_write_other [OF w(1), of k] Write by (auto split: option.splits)
  next
    case (Remove k')
    then obtain s1 where w: "remove k' s = Ok s1" "run_store put remove ops s1 = Ok s'"
      using Cons.prems by (auto simp: result_simps)
    then show ?thesis
      using Cons.IH [OF w(2)] read_remove [OF w(1)] read_remove_other [OF w(1), of k] Remove by (auto split: option.splits)
  qed
qed simp

end

text \<open>A store that refuses to overwrite.\<close>

locale insert_only_store = keyed_store put get remove
  for put :: "'k \<Rightarrow> 'v \<Rightarrow> 's \<Rightarrow> ('s, 'e) result" and get remove +
  fixes duplicate :: 'e and encodable :: "'v \<Rightarrow> bool"
  assumes put_refused: "get k s = Ok (Some v) \<Longrightarrow> encodable v' \<Longrightarrow> put k v' s = Err duplicate"
begin

lemma first_stays:
  assumes "put k v s = Ok s'"
  shows "get k s' = Ok (Some v) \<and> (\<forall>v'. encodable v' \<longrightarrow> put k v' s' = Err duplicate)"
  using read_write [OF assms] put_refused by blast

end

lemma to_vec_inj:
  assumes "codec_ok K" "to_vec K a = Ok x" "to_vec K b = Ok x"
  shows "a = b"
proof -
  have "encode K a = Ok x" "encode K b = Ok x" using assms(2,3) by (auto simp: to_vec_def result_simps)
  then have "decode K x = Ok a" "decode K x = Ok b" using assms(1) unfolding codec_ok_def by blast+
  then show ?thesis by simp
qed

lemma load_encoded: "codec_ok C \<Longrightarrow> to_vec C v = Ok b \<Longrightarrow> load_optional C (Some b) = Ok (Some v)"
  by (auto simp: load_optional_def to_vec_def from_bytes_def codec_ok_def result_simps)

lemma data_type_to_str_inj: "data_type_to_str a = data_type_to_str b \<longleftrightarrow> a = b"
  by (cases a; cases b) simp_all

lemma data_type_round_trip:
  "data_type_from_str (data_type_to_str t) = Some t" "data_type_to_str t \<in> set checked_data_types"
  by (cases t; simp add: data_type_from_str_def checked_data_types_def)+

text \<open>Every table with a primary key is such a store: \<^verbatim>\<open>key\<close> encodes the key, \<^verbatim>\<open>sel\<close> selects the table.\<close>

lemma map_store:
  assumes key: "\<And>k k' b. key k = Ok b \<Longrightarrow> key k' = Ok b \<Longrightarrow> k = k'" and "codec_ok C"
    and ins: "\<And>b d tb tb'. ins b d tb = Ok tb' \<Longrightarrow> sel tb' = (sel tb)(b \<mapsto> d)"
    and del: "\<And>b tb. sel (del b tb) = (sel tb)(b := None)"
  shows "keyed_store (\<lambda>k v tb. and_then (key k) (\<lambda>b. and_then (to_vec C v) (\<lambda>d. ins b d tb)))
    (\<lambda>k tb. and_then (key k) (\<lambda>b. load_optional C (sel tb b)))
    (\<lambda>k tb. and_then (key k) (\<lambda>b. Ok (del b tb)))"
proof unfold_locales
  fix k k' v tb tb'
  assume w: "and_then (key k) (\<lambda>b. and_then (to_vec C v) (\<lambda>d. ins b d tb)) = Ok tb'"
  then obtain b d where e: "key k = Ok b" "to_vec C v = Ok d" "ins b d tb = Ok tb'" by (auto simp: result_simps)
  show "and_then (key k) (\<lambda>b. load_optional C (sel tb' b)) = Ok (Some v)"
    using e ins [OF e(3)] load_encoded [OF assms(2) e(2)] by simp
  assume "k' \<noteq> k"
  then have "key k' \<noteq> Ok b" using key [OF e(1)] by blast
  then show "and_then (key k') (\<lambda>b. load_optional C (sel tb' b)) = and_then (key k') (\<lambda>b. load_optional C (sel tb b))"
    using ins [OF e(3)] by (cases "key k'") auto
next
  fix k k' tb tb'
  assume "and_then (key k) (\<lambda>b. Ok (del b tb)) = Ok tb'"
  then obtain b where e: "key k = Ok b" "tb' = del b tb" by (auto simp: result_simps)
  show "and_then (key k) (\<lambda>b. load_optional C (sel tb' b)) = Ok None"
    using e del by (simp add: load_optional_def)
  assume "k' \<noteq> k"
  then have "key k' \<noteq> Ok b" using key [OF e(1)] by blast
  then show "and_then (key k') (\<lambda>b. load_optional C (sel tb' b)) = and_then (key k') (\<lambda>b. load_optional C (sel tb b))"
    using e(2) del by (cases "key k'") auto
qed

lemma insert_unique_Ok_iff: "insert_unique k v t = Ok t' \<longleftrightarrow> t k = None \<and> t' = t(k \<mapsto> v)"
  by (auto simp: insert_unique_def)

definition group_key :: "'g codec \<Rightarrow> group_data_type \<times> 'g \<Rightarrow> (bytes \<times> string, storage_error) result" where
  "group_key K k = map_ok (\<lambda>b. (b, data_type_to_str (fst k))) (to_vec K (snd k))"

lemma group_key_inj: "codec_ok K \<Longrightarrow> group_key K k = Ok b \<Longrightarrow> group_key K k' = Ok b \<Longrightarrow> k = k'"
  by (auto simp: group_key_def result_simps data_type_to_str_inj prod_eq_iff dest: to_vec_inj)

lemma group_data_forms:
  "store_group_data K C t g x tb = and_then (group_key K (t, g)) (\<lambda>b. and_then (to_vec C x) (\<lambda>d.
    Ok (tb \<lparr> openmls_group_data := (openmls_group_data tb)(b \<mapsto> d) \<rparr>)))"
  "load_group_data K C t g tb = and_then (group_key K (t, g)) (\<lambda>b. load_optional C (openmls_group_data tb b))"
  "delete_group_data K t g tb = and_then (group_key K (t, g)) (\<lambda>b.
    Ok (tb \<lparr> openmls_group_data := (openmls_group_data tb)(b := None) \<rparr>))"
  by (cases "to_vec K g"; simp add: store_group_data_def load_group_data_def delete_group_data_def group_key_def
      data_type_round_trip(2))+

lemma group_data_store:
  assumes "codec_ok K" "codec_ok C"
  shows "keyed_store (\<lambda>k. store_group_data K C (fst k) (snd k)) (\<lambda>k. load_group_data K C (fst k) (snd k))
    (\<lambda>k. delete_group_data K (fst k) (snd k))"
  unfolding group_data_forms prod.collapse
  by (rule map_store [where key = "group_key K" and sel = openmls_group_data]) (auto simp: assms dest: group_key_inj [OF assms(1)])

lemma insert_store:
  assumes key: "\<And>k k' b. key k = Ok b \<Longrightarrow> key k' = Ok b \<Longrightarrow> k = k'" and "codec_ok C"
    and sel: "\<And>t tb. sel (upd t tb) = t"
  shows "insert_only_store
    (\<lambda>k v tb. and_then (key k) (\<lambda>b. and_then (to_vec C v) (\<lambda>d. map_ok (\<lambda>t. upd t tb) (insert_unique b d (sel tb)))))
    (\<lambda>k tb. and_then (key k) (\<lambda>b. load_optional C (sel tb b)))
    (\<lambda>k tb. and_then (key k) (\<lambda>b. Ok (upd ((sel tb)(b := None)) tb)))
    StUnique (\<lambda>v. is_ok (to_vec C v))"
proof (intro insert_only_store.intro insert_only_store_axioms.intro)
  show "keyed_store
    (\<lambda>k v tb. and_then (key k) (\<lambda>b. and_then (to_vec C v) (\<lambda>d. map_ok (\<lambda>t. upd t tb) (insert_unique b d (sel tb)))))
    (\<lambda>k tb. and_then (key k) (\<lambda>b. load_optional C (sel tb b)))
    (\<lambda>k tb. and_then (key k) (\<lambda>b. Ok (upd ((sel tb)(b := None)) tb)))"
    by (rule map_store [OF key assms(2)]) (auto simp: sel result_simps insert_unique_Ok_iff)
  fix k v v' tb
  assume "and_then (key k) (\<lambda>b. load_optional C (sel tb b)) = Ok (Some v)" "is_ok (to_vec C v')"
  then obtain b d where "key k = Ok b" "sel tb b \<noteq> None" "to_vec C v' = Ok d"
    by (auto simp: result_simps load_optional_def split: option.splits)
  then show "and_then (key k) (\<lambda>b. and_then (to_vec C v') (\<lambda>d. map_ok (\<lambda>t. upd t tb) (insert_unique b d (sel tb))))
      = Err StUnique"
    by (simp add: insert_unique_def)
qed

lemma key_stores:
  assumes "codec_ok K" "codec_ok C"
  shows "insert_only_store (write_signature_key_pair K C) (signature_key_pair K C) (delete_signature_key_pair K)
      StUnique (\<lambda>v. is_ok (to_vec C v))"
    "insert_only_store (write_encryption_key_pair K C) (encryption_key_pair K C) (delete_encryption_key_pair K)
      StUnique (\<lambda>v. is_ok (to_vec C v))"
    "insert_only_store (write_key_package K C) (stored_key_package K C) (delete_key_package K)
      StUnique (\<lambda>v. is_ok (to_vec C v))"
    "insert_only_store (write_psk K C) (stored_psk K C) (delete_psk K) StUnique (\<lambda>v. is_ok (to_vec C v))"
proof -
  note inj = to_vec_inj [OF assms(1)]
  show "insert_only_store (write_signature_key_pair K C) (signature_key_pair K C) (delete_signature_key_pair K)
      StUnique (\<lambda>v. is_ok (to_vec C v))"
    unfolding write_signature_key_pair_def [abs_def] signature_key_pair_def [abs_def] delete_signature_key_pair_def [abs_def]
    by (rule insert_store [where upd = "\<lambda>t. openmls_signature_key_update (\<lambda>_. t)"]) (auto simp: assms dest: inj)
  show "insert_only_store (write_encryption_key_pair K C) (encryption_key_pair K C) (delete_encryption_key_pair K)
      StUnique (\<lambda>v. is_ok (to_vec C v))"
    unfolding write_encryption_key_pair_def [abs_def] encryption_key_pair_def [abs_def] delete_encryption_key_pair_def [abs_def]
    by (rule insert_store [where upd = "\<lambda>t. openmls_encryption_key_update (\<lambda>_. t)"]) (auto simp: assms dest: inj)
  show "insert_only_store (write_key_package K C) (stored_key_package K C) (delete_key_package K)
      StUnique (\<lambda>v. is_ok (to_vec C v))"
    unfolding write_key_package_def [abs_def] stored_key_package_def [abs_def] delete_key_package_def [abs_def]
    by (rule insert_store [where upd = "\<lambda>t. openmls_key_package_update (\<lambda>_. t)"]) (auto simp: assms dest: inj)
  show "insert_only_store (write_psk K C) (stored_psk K C) (delete_psk K) StUnique (\<lambda>v. is_ok (to_vec C v))"
    unfolding write_psk_def [abs_def] stored_psk_def [abs_def] delete_psk_def [abs_def]
    by (rule insert_store [where upd = "\<lambda>t. openmls_psk_update (\<lambda>_. t)"]) (auto simp: assms dest: inj)
qed

lemma byte_codec_ok: "codec_ok byte_codec" by (simp add: codec_ok_def byte_codec_def)

text \<open>The stores of encoded values.\<close>

interpretation gd: keyed_store "\<lambda>k. store_group_data byte_codec byte_codec (fst k) (snd k)"
    "\<lambda>k. load_group_data byte_codec byte_codec (fst k) (snd k)" "\<lambda>k. delete_group_data byte_codec (fst k) (snd k)"
  by (rule group_data_store [OF byte_codec_ok byte_codec_ok])

interpretation sig: insert_only_store "write_signature_key_pair byte_codec byte_codec"
    "signature_key_pair byte_codec byte_codec" "delete_signature_key_pair byte_codec" StUnique
    "\<lambda>v. is_ok (to_vec byte_codec v)"
  by (rule key_stores(1) [OF byte_codec_ok byte_codec_ok])

lemma run_store_total:
  assumes "\<forall>x \<in> set ops. case x of Write k v \<Rightarrow> is_ok (to_vec K (snd k)) \<and> is_ok (to_vec C v)
    | Remove k \<Rightarrow> is_ok (to_vec K (snd k))"
  shows "\<exists>tb'. run_store (\<lambda>k. store_group_data K C (fst k) (snd k)) (\<lambda>k. delete_group_data K (fst k) (snd k)) ops tb = Ok tb'"
  using assms
proof (induction ops arbitrary: tb)
  case (Cons x ops)
  then show ?case
    by (cases x) (auto simp: store_group_data_def delete_group_data_def is_ok_iff data_type_round_trip(2))
qed simp

text \<open>The queue of a group: what is queued and neither removed nor cleared.\<close>

definition queue_rows :: "mls_tables \<Rightarrow> bytes \<Rightarrow> proposal_row list" where
  "queue_rows tb g = filter (\<lambda>row. pr_group row = g) (openmls_proposal tb)"

lemma queue_proposal_rows:
  assumes "queue_proposal K R C group_id proposal_ref proposal tb = Ok tb'" "to_vec K group_id = Ok g"
  shows "\<exists>r v. to_vec R proposal_ref = Ok r \<and> to_vec C proposal = Ok v
    \<and> queue_rows tb' g' = queue_rows tb g' @ (if g' = g then [\<lparr> pr_group = g, pr_ref = r, pr_proposal = v \<rparr>] else [])"
  using assms by (auto simp: queue_proposal_def queue_rows_def result_simps split: if_splits)

lemma remove_proposal_rows:
  assumes "remove_proposal K R group_id proposal_ref tb = Ok tb'" "to_vec K group_id = Ok g" "to_vec R proposal_ref = Ok r"
  shows "queue_rows tb' g' = (if g' = g then filter (\<lambda>row. pr_ref row \<noteq> r) (queue_rows tb g') else queue_rows tb g')"
proof -
  have "tb' = tb \<lparr> openmls_proposal := filter (\<lambda>row. \<not> (pr_group row = g \<and> pr_ref row = r)) (openmls_proposal tb) \<rparr>"
    using assms by (simp add: remove_proposal_def)
  then show ?thesis by (auto simp: queue_rows_def simp del: de_Morgan_conj intro!: filter_cong)
qed

lemma clear_proposal_queue_rows:
  assumes "clear_proposal_queue K group_id tb = Ok tb'" "to_vec K group_id = Ok g"
  shows "queue_rows tb' g' = (if g' = g then [] else queue_rows tb g')"
proof -
  have "tb' = tb \<lparr> openmls_proposal := filter (\<lambda>row. pr_group row \<noteq> g) (openmls_proposal tb) \<rparr>"
    using assms by (simp add: clear_proposal_queue_def)
  then show ?thesis by (auto simp: queue_rows_def intro: filter_cong)
qed

section \<open>Properties\<close>

text \<open>Group data behaves as a map from kind and group to value: whatever writes and deletions of
  encodable keys and values come in whatever order, all of them succeed, and each kind of
  data of each group reads as it was last written or deleted.\<close>

theorem group_data_last_write:
  assumes "codec_ok K" "codec_ok C"
    "\<forall>x \<in> set ops. case x of Write k v \<Rightarrow> is_ok (to_vec K (snd k)) \<and> is_ok (to_vec C v)
      | Remove k \<Rightarrow> is_ok (to_vec K (snd k))"
  shows "\<exists>tb'. run_store (\<lambda>k. store_group_data K C (fst k) (snd k)) (\<lambda>k. delete_group_data K (fst k) (snd k)) ops tb = Ok tb'
    \<and> (\<forall>t g. load_group_data K C t g tb' =
        (case last_written (t, g) ops of None \<Rightarrow> load_group_data K C t g tb | Some r \<Rightarrow> Ok r))"
proof -
  obtain tb' where r: "run_store (\<lambda>k. store_group_data K C (fst k) (snd k)) (\<lambda>k. delete_group_data K (fst k) (snd k)) ops tb
      = Ok tb'"
    using run_store_total [OF assms(3)] by blast
  have "load_group_data K C t g tb' = (case last_written (t, g) ops of
      None \<Rightarrow> load_group_data K C t g tb | Some r \<Rightarrow> Ok r)" for t g
    using keyed_store.run_store_read [OF group_data_store [OF assms(1,2)] r, of "(t, g)"]
    unfolding fst_conv snd_conv .
  then show ?thesis using r by blast
qed

theorem group_data_last_write_witness:
  "\<exists>tb'. load_group_data byte_codec byte_codec TreeData [1] tb' = Ok (Some [3])
    \<and> load_group_data byte_codec byte_codec ContextData [1] tb' = Ok None"
proof -
  let ?tb = "\<lparr> openmls_group_data = Map.empty, openmls_proposal = [], openmls_own_leaf_node = Map.empty,
    openmls_signature_key = Map.empty, openmls_encryption_key = Map.empty, openmls_epoch_key_pairs = Map.empty,
    openmls_key_package = Map.empty, openmls_psk = Map.empty \<rparr>"
  let ?ops = "[Write (TreeData, [1]) [2], Write (ContextData, [1]) [4], Write (TreeData, [1]) [3], Remove (ContextData, [1])]
    :: (group_data_type \<times> bytes, bytes) store_op list"
  have "\<forall>x \<in> set ?ops. case x of Write k v \<Rightarrow> is_ok (to_vec byte_codec (snd k)) \<and> is_ok (to_vec byte_codec v)
      | Remove k \<Rightarrow> is_ok (to_vec byte_codec (snd k))"
    by (simp add: to_vec_def byte_codec_def)
  from group_data_last_write [OF byte_codec_ok byte_codec_ok this, of ?tb]
  obtain tb' where "\<forall>t g. load_group_data byte_codec byte_codec t g tb' =
      (case last_written (t, g) ?ops of None \<Rightarrow> load_group_data byte_codec byte_codec t g ?tb | Some r \<Rightarrow> Ok r)"
    by blast
  then have "load_group_data byte_codec byte_codec TreeData [1] tb' = Ok (Some [3])"
    "load_group_data byte_codec byte_codec ContextData [1] tb' = Ok None"
    by simp_all
  then show ?thesis by blast
qed

text \<open>The tables of keys, packages and own leaf nodes never overwrite: a second write under the
  same key is refused and the first value stays, so a group has at most one own leaf node
  although the operation is to append one.\<close>

theorem second_write_refused:
  assumes "codec_ok K" "codec_ok C" "is_ok (to_vec C y)"
  shows "(append_own_leaf_node K C g x tb = Ok tb' \<longrightarrow>
      own_leaf_nodes K C g tb' = Ok [x] \<and> append_own_leaf_node K C g y tb' = Err StUnique)
    \<and> (write_signature_key_pair K C g x tb = Ok tb' \<longrightarrow>
      signature_key_pair K C g tb' = Ok (Some x) \<and> write_signature_key_pair K C g y tb' = Err StUnique)
    \<and> (write_encryption_key_pair K C g x tb = Ok tb' \<longrightarrow>
      encryption_key_pair K C g tb' = Ok (Some x) \<and> write_encryption_key_pair K C g y tb' = Err StUnique)
    \<and> (write_key_package K C g x tb = Ok tb' \<longrightarrow>
      stored_key_package K C g tb' = Ok (Some x) \<and> write_key_package K C g y tb' = Err StUnique)
    \<and> (write_psk K C g x tb = Ok tb' \<longrightarrow> stored_psk K C g tb' = Ok (Some x) \<and> write_psk K C g y tb' = Err StUnique)"
proof (intro conjI impI)
  assume a: "append_own_leaf_node K C g x tb = Ok tb'"
  then obtain b d where e: "to_vec K g = Ok b" "to_vec C x = Ok d" "openmls_own_leaf_node tb' = (openmls_own_leaf_node tb)(b \<mapsto> d)"
    by (auto simp: append_own_leaf_node_def result_simps insert_unique_Ok_iff)
  have "from_bytes C d = Ok x" using assms(2) e(2) by (auto simp: from_bytes_def to_vec_def codec_ok_def result_simps)
  then show "own_leaf_nodes K C g tb' = Ok [x]" using e by (simp add: own_leaf_nodes_def)
  show "append_own_leaf_node K C g y tb' = Err StUnique"
    using e assms(3) by (auto simp: append_own_leaf_node_def insert_unique_def is_ok_iff)
qed (use insert_only_store.first_stays [OF key_stores(1) [OF assms(1,2)]] insert_only_store.first_stays [OF key_stores(2) [OF assms(1,2)]]
    insert_only_store.first_stays [OF key_stores(3) [OF assms(1,2)]] insert_only_store.first_stays [OF key_stores(4) [OF assms(1,2)]]
    assms(3) in blast)+

theorem second_write_refused_witness:
  "\<exists>tb'. own_leaf_nodes byte_codec byte_codec [1] tb' = Ok [[2]]
    \<and> append_own_leaf_node byte_codec byte_codec [1] [3] tb' = Err StUnique"
proof -
  let ?tb = "\<lparr> openmls_group_data = Map.empty, openmls_proposal = [], openmls_own_leaf_node = Map.empty,
    openmls_signature_key = Map.empty, openmls_encryption_key = Map.empty, openmls_epoch_key_pairs = Map.empty,
    openmls_key_package = Map.empty, openmls_psk = Map.empty \<rparr>"
  have "is_ok (to_vec byte_codec [3])" by (simp add: to_vec_def byte_codec_def)
  moreover have "append_own_leaf_node byte_codec byte_codec [1] [2] ?tb
      = Ok (?tb \<lparr> openmls_own_leaf_node := [[1] \<mapsto> [2]] \<rparr>)"
    by (simp add: append_own_leaf_node_def to_vec_def byte_codec_def insert_unique_def)
  ultimately show ?thesis using second_write_refused [OF byte_codec_ok byte_codec_ok] by blast
qed

end
