(* ===== verification/MemoryStore.thy ===== *)
theory MemoryStore
  imports Encrypt
begin

text \<open>
  The storage in memory that OpenMLS has (\<^verbatim>\<open>MemoryStorage\<close>), a map from bytes to bytes, and its
  encrypted export as one object (\<^verbatim>\<open>svalin_pki/src/mls/provider.rs\<close>). A storage and its handle for
  exports share the values; both are the values here.
\<close>

type_synonym memory_storage = "bytes \<rightharpoonup> bytes"

definition storage_new_memory :: memory_storage where
  "storage_new_memory = Map.empty"

definition storage_export ::
  "aead \<Rightarrow> memory_storage codec \<Rightarrow> bytes \<Rightarrow> memory_storage \<Rightarrow> encryption_key
    \<Rightarrow> (memory_storage encrypted_object, encrypt_error) result" where
  "storage_export A P random_mask memory key = encrypt_object A P random_mask memory key"

definition storage_import ::
  "aead \<Rightarrow> memory_storage codec \<Rightarrow> memory_storage encrypted_object \<Rightarrow> encryption_key
    \<Rightarrow> (memory_storage, decrypt_error) result" where
  "storage_import A P data key = decrypt_object A P data key"

lemma storage_round_trip:
  assumes "aead_ok A" "codec_ok P" "storage_export A P random_mask memory key = Ok e"
  shows "storage_import A P e key = Ok memory"
  using encrypted_object_opens [OF assms(1,2)] assms(3) by (simp add: storage_export_def storage_import_def)

lemma sample_encrypts:
  assumes "encode K x = Ok b"
  shows "\<exists>e. encrypt_object sample_aead K (replicate 12 9) x key = Ok e"
proof -
  have "is_ok (fst (advance (nonce_counter_new (replicate 12 9))))" by code_simp
  then show ?thesis using assms by (auto simp: is_ok_iff encrypt_object_def encrypt_bytes_def encrypt_with_alg_def sample_aead_def)
qed

end
