(* ===== verification/Provider.thy ===== *)
theory Provider
  imports MlsStorage MemoryStore
begin

text \<open>
  The storage that a member gives to OpenMLS (\<^verbatim>\<open>svalin_pki/src/mls/provider.rs\<close>): \<^verbatim>\<open>SvalinStorage\<close> is
  the SQLite storage provider of MlsStorage, or the storage in memory that is exported and imported
  as one encrypted object. The storage in memory belongs to OpenMLS: each of its operations is an
  argument of the operation that delegates to it, and what OpenMLS promises of them is the locale
  \<^verbatim>\<open>keyed_store\<close>.
\<close>

section \<open>The storage\<close>

datatype svalin_storage = SqliteStorage mls_tables | MemoryStorage memory_storage

datatype 'err svalin_storage_error = SqliteError storage_error | MemoryError 'err

type_synonym 'err memory_write = "memory_storage \<Rightarrow> (memory_storage, 'err) result"
type_synonym ('a, 'err) memory_read = "memory_storage \<Rightarrow> ('a, 'err) result"
type_synonym 'err storage_write = "svalin_storage \<Rightarrow> (svalin_storage, 'err svalin_storage_error) result"
type_synonym ('a, 'err) storage_read = "svalin_storage \<Rightarrow> ('a, 'err svalin_storage_error) result"

definition write_storage ::
  "'err memory_write \<Rightarrow> (mls_tables \<Rightarrow> (mls_tables, storage_error) result) \<Rightarrow> 'err storage_write" where
  "write_storage on_memory on_sqlite self =
    (case self of
       SqliteStorage sqlite \<Rightarrow> map_ok SqliteStorage (map_err SqliteError (on_sqlite sqlite))
     | MemoryStorage memory \<Rightarrow> map_ok MemoryStorage (map_err MemoryError (on_memory memory)))"

definition read_storage ::
  "('a, 'err) memory_read \<Rightarrow> (mls_tables \<Rightarrow> ('a, storage_error) result) \<Rightarrow> ('a, 'err) storage_read" where
  "read_storage on_memory on_sqlite self =
    (case self of
       SqliteStorage sqlite \<Rightarrow> map_err SqliteError (on_sqlite sqlite)
     | MemoryStorage memory \<Rightarrow> map_err MemoryError (on_memory memory))"

section \<open>The operations\<close>

definition sv_write_mls_join_config ::
  "('g \<Rightarrow> 'd \<Rightarrow> 'err memory_write) \<Rightarrow> 'g codec \<Rightarrow> 'd codec \<Rightarrow> 'g \<Rightarrow> 'd \<Rightarrow> 'err storage_write" where
  "sv_write_mls_join_config memory K C group_id config =
    write_storage (memory group_id config) (write_mls_join_config K C group_id config)"

definition sv_append_own_leaf_node ::
  "('g \<Rightarrow> 'd \<Rightarrow> 'err memory_write) \<Rightarrow> 'g codec \<Rightarrow> 'd codec \<Rightarrow> 'g \<Rightarrow> 'd \<Rightarrow> 'err storage_write" where
  "sv_append_own_leaf_node memory K C group_id leaf_node =
    write_storage (memory group_id leaf_node) (append_own_leaf_node K C group_id leaf_node)"

definition sv_queue_proposal ::
  "('g \<Rightarrow> 'r \<Rightarrow> 'd \<Rightarrow> 'err memory_write) \<Rightarrow> 'g codec \<Rightarrow> 'r codec \<Rightarrow> 'd codec \<Rightarrow> 'g \<Rightarrow> 'r \<Rightarrow> 'd \<Rightarrow> 'err storage_write" where
  "sv_queue_proposal memory K R C group_id proposal_ref proposal =
    write_storage (memory group_id proposal_ref proposal) (queue_proposal K R C group_id proposal_ref proposal)"

definition sv_write_tree ::
  "('g \<Rightarrow> 'd \<Rightarrow> 'err memory_write) \<Rightarrow> 'g codec \<Rightarrow> 'd codec \<Rightarrow> 'g \<Rightarrow> 'd \<Rightarrow> 'err storage_write" where
  "sv_write_tree memory K C group_id tree =
    write_storage (memory group_id tree) (write_tree K C group_id tree)"

definition sv_write_interim_transcript_hash ::
  "('g \<Rightarrow> 'd \<Rightarrow> 'err memory_write) \<Rightarrow> 'g codec \<Rightarrow> 'd codec \<Rightarrow> 'g \<Rightarrow> 'd \<Rightarrow> 'err storage_write" where
  "sv_write_interim_transcript_hash memory K C group_id x =
    write_storage (memory group_id x) (write_interim_transcript_hash K C group_id x)"

definition sv_write_context ::
  "('g \<Rightarrow> 'd \<Rightarrow> 'err memory_write) \<Rightarrow> 'g codec \<Rightarrow> 'd codec \<Rightarrow> 'g \<Rightarrow> 'd \<Rightarrow> 'err storage_write" where
  "sv_write_context memory K C group_id x =
    write_storage (memory group_id x) (write_context K C group_id x)"

definition sv_write_confirmation_tag ::
  "('g \<Rightarrow> 'd \<Rightarrow> 'err memory_write) \<Rightarrow> 'g codec \<Rightarrow> 'd codec \<Rightarrow> 'g \<Rightarrow> 'd \<Rightarrow> 'err storage_write" where
  "sv_write_confirmation_tag memory K C group_id x =
    write_storage (memory group_id x) (write_confirmation_tag K C group_id x)"

definition sv_write_group_state ::
  "('g \<Rightarrow> 'd \<Rightarrow> 'err memory_write) \<Rightarrow> 'g codec \<Rightarrow> 'd codec \<Rightarrow> 'g \<Rightarrow> 'd \<Rightarrow> 'err storage_write" where
  "sv_write_group_state memory K C group_id x =
    write_storage (memory group_id x) (write_group_state K C group_id x)"

definition sv_write_message_secrets ::
  "('g \<Rightarrow> 'd \<Rightarrow> 'err memory_write) \<Rightarrow> 'g codec \<Rightarrow> 'd codec \<Rightarrow> 'g \<Rightarrow> 'd \<Rightarrow> 'err storage_write" where
  "sv_write_message_secrets memory K C group_id x =
    write_storage (memory group_id x) (write_message_secrets K C group_id x)"

definition sv_write_resumption_psk_store ::
  "('g \<Rightarrow> 'd \<Rightarrow> 'err memory_write) \<Rightarrow> 'g codec \<Rightarrow> 'd codec \<Rightarrow> 'g \<Rightarrow> 'd \<Rightarrow> 'err storage_write" where
  "sv_write_resumption_psk_store memory K C group_id x =
    write_storage (memory group_id x) (write_resumption_psk_store K C group_id x)"

definition sv_write_own_leaf_index ::
  "('g \<Rightarrow> 'd \<Rightarrow> 'err memory_write) \<Rightarrow> 'g codec \<Rightarrow> 'd codec \<Rightarrow> 'g \<Rightarrow> 'd \<Rightarrow> 'err storage_write" where
  "sv_write_own_leaf_index memory K C group_id x =
    write_storage (memory group_id x) (write_own_leaf_index K C group_id x)"

definition sv_write_group_epoch_secrets ::
  "('g \<Rightarrow> 'd \<Rightarrow> 'err memory_write) \<Rightarrow> 'g codec \<Rightarrow> 'd codec \<Rightarrow> 'g \<Rightarrow> 'd \<Rightarrow> 'err storage_write" where
  "sv_write_group_epoch_secrets memory K C group_id x =
    write_storage (memory group_id x) (write_group_epoch_secrets K C group_id x)"

definition sv_write_signature_key_pair ::
  "('g \<Rightarrow> 'd \<Rightarrow> 'err memory_write) \<Rightarrow> 'g codec \<Rightarrow> 'd codec \<Rightarrow> 'g \<Rightarrow> 'd \<Rightarrow> 'err storage_write" where
  "sv_write_signature_key_pair memory K C key x =
    write_storage (memory key x) (write_signature_key_pair K C key x)"

definition sv_write_encryption_key_pair ::
  "('g \<Rightarrow> 'd \<Rightarrow> 'err memory_write) \<Rightarrow> 'g codec \<Rightarrow> 'd codec \<Rightarrow> 'g \<Rightarrow> 'd \<Rightarrow> 'err storage_write" where
  "sv_write_encryption_key_pair memory K C key key_pair =
    write_storage (memory key key_pair) (write_encryption_key_pair K C key key_pair)"

definition sv_write_encryption_epoch_key_pairs ::
  "('g \<Rightarrow> 'e \<Rightarrow> 32 word \<Rightarrow> 'd list \<Rightarrow> 'err memory_write) \<Rightarrow> 'g codec \<Rightarrow> 'e codec \<Rightarrow> 'd list codec \<Rightarrow> 'g \<Rightarrow> 'e \<Rightarrow> 32 word \<Rightarrow> 'd list \<Rightarrow> 'err storage_write" where
  "sv_write_encryption_epoch_key_pairs memory K Ke C group_id epoch leaf_index key_pairs =
    write_storage (memory group_id epoch leaf_index key_pairs) (write_encryption_epoch_key_pairs K Ke C group_id epoch leaf_index key_pairs)"

definition sv_write_key_package ::
  "('g \<Rightarrow> 'd \<Rightarrow> 'err memory_write) \<Rightarrow> 'g codec \<Rightarrow> 'd codec \<Rightarrow> 'g \<Rightarrow> 'd \<Rightarrow> 'err storage_write" where
  "sv_write_key_package memory K C hash_ref key_package =
    write_storage (memory hash_ref key_package) (write_key_package K C hash_ref key_package)"

definition sv_write_psk ::
  "('g \<Rightarrow> 'd \<Rightarrow> 'err memory_write) \<Rightarrow> 'g codec \<Rightarrow> 'd codec \<Rightarrow> 'g \<Rightarrow> 'd \<Rightarrow> 'err storage_write" where
  "sv_write_psk memory K C psk_id psk =
    write_storage (memory psk_id psk) (write_psk K C psk_id psk)"

definition sv_mls_group_join_config ::
  "('g \<Rightarrow> ('d option, 'err) memory_read) \<Rightarrow> 'g codec \<Rightarrow> 'd codec \<Rightarrow> 'g
    \<Rightarrow> ('d option, 'err) storage_read" where
  "sv_mls_group_join_config memory K C group_id =
    read_storage (memory group_id) (mls_group_join_config K C group_id)"

definition sv_own_leaf_nodes ::
  "('g \<Rightarrow> ('d list, 'err) memory_read) \<Rightarrow> 'g codec \<Rightarrow> 'd codec \<Rightarrow> 'g
    \<Rightarrow> ('d list, 'err) storage_read" where
  "sv_own_leaf_nodes memory K C group_id =
    read_storage (memory group_id) (own_leaf_nodes K C group_id)"

definition sv_queued_proposal_refs ::
  "('g \<Rightarrow> ('r list, 'err) memory_read) \<Rightarrow> (proposal_row list \<Rightarrow> proposal_row list) \<Rightarrow> 'g codec \<Rightarrow> 'r codec \<Rightarrow> 'g
    \<Rightarrow> ('r list, 'err) storage_read" where
  "sv_queued_proposal_refs memory scan K R group_id =
    read_storage (memory group_id) (queued_proposal_refs scan K R group_id)"

definition sv_queued_proposals ::
  "('g \<Rightarrow> (('r \<times> 'd) list, 'err) memory_read) \<Rightarrow> (proposal_row list \<Rightarrow> proposal_row list) \<Rightarrow> 'g codec \<Rightarrow> 'r codec \<Rightarrow> 'd codec \<Rightarrow> 'g
    \<Rightarrow> (('r \<times> 'd) list, 'err) storage_read" where
  "sv_queued_proposals memory scan K R C group_id =
    read_storage (memory group_id) (queued_proposals scan K R C group_id)"

definition sv_tree ::
  "('g \<Rightarrow> ('d option, 'err) memory_read) \<Rightarrow> 'g codec \<Rightarrow> 'd codec \<Rightarrow> 'g
    \<Rightarrow> ('d option, 'err) storage_read" where
  "sv_tree memory K C group_id =
    read_storage (memory group_id) (stored_tree K C group_id)"

definition sv_group_context ::
  "('g \<Rightarrow> ('d option, 'err) memory_read) \<Rightarrow> 'g codec \<Rightarrow> 'd codec \<Rightarrow> 'g
    \<Rightarrow> ('d option, 'err) storage_read" where
  "sv_group_context memory K C group_id =
    read_storage (memory group_id) (group_context K C group_id)"

definition sv_interim_transcript_hash ::
  "('g \<Rightarrow> ('d option, 'err) memory_read) \<Rightarrow> 'g codec \<Rightarrow> 'd codec \<Rightarrow> 'g
    \<Rightarrow> ('d option, 'err) storage_read" where
  "sv_interim_transcript_hash memory K C group_id =
    read_storage (memory group_id) (interim_transcript_hash K C group_id)"

definition sv_confirmation_tag ::
  "('g \<Rightarrow> ('d option, 'err) memory_read) \<Rightarrow> 'g codec \<Rightarrow> 'd codec \<Rightarrow> 'g
    \<Rightarrow> ('d option, 'err) storage_read" where
  "sv_confirmation_tag memory K C group_id =
    read_storage (memory group_id) (confirmation_tag K C group_id)"

definition sv_group_state ::
  "('g \<Rightarrow> ('d option, 'err) memory_read) \<Rightarrow> 'g codec \<Rightarrow> 'd codec \<Rightarrow> 'g
    \<Rightarrow> ('d option, 'err) storage_read" where
  "sv_group_state memory K C group_id =
    read_storage (memory group_id) (group_state K C group_id)"

definition sv_message_secrets ::
  "('g \<Rightarrow> ('d option, 'err) memory_read) \<Rightarrow> 'g codec \<Rightarrow> 'd codec \<Rightarrow> 'g
    \<Rightarrow> ('d option, 'err) storage_read" where
  "sv_message_secrets memory K C group_id =
    read_storage (memory group_id) (message_secrets K C group_id)"

definition sv_resumption_psk_store ::
  "('g \<Rightarrow> ('d option, 'err) memory_read) \<Rightarrow> 'g codec \<Rightarrow> 'd codec \<Rightarrow> 'g
    \<Rightarrow> ('d option, 'err) storage_read" where
  "sv_resumption_psk_store memory K C group_id =
    read_storage (memory group_id) (resumption_psk_store K C group_id)"

definition sv_own_leaf_index ::
  "('g \<Rightarrow> ('d option, 'err) memory_read) \<Rightarrow> 'g codec \<Rightarrow> 'd codec \<Rightarrow> 'g
    \<Rightarrow> ('d option, 'err) storage_read" where
  "sv_own_leaf_index memory K C group_id =
    read_storage (memory group_id) (own_leaf_index K C group_id)"

definition sv_group_epoch_secrets ::
  "('g \<Rightarrow> ('d option, 'err) memory_read) \<Rightarrow> 'g codec \<Rightarrow> 'd codec \<Rightarrow> 'g
    \<Rightarrow> ('d option, 'err) storage_read" where
  "sv_group_epoch_secrets memory K C group_id =
    read_storage (memory group_id) (group_epoch_secrets K C group_id)"

definition sv_signature_key_pair ::
  "('g \<Rightarrow> ('d option, 'err) memory_read) \<Rightarrow> 'g codec \<Rightarrow> 'd codec \<Rightarrow> 'g
    \<Rightarrow> ('d option, 'err) storage_read" where
  "sv_signature_key_pair memory K C key =
    read_storage (memory key) (signature_key_pair K C key)"

definition sv_encryption_key_pair ::
  "('g \<Rightarrow> ('d option, 'err) memory_read) \<Rightarrow> 'g codec \<Rightarrow> 'd codec \<Rightarrow> 'g
    \<Rightarrow> ('d option, 'err) storage_read" where
  "sv_encryption_key_pair memory K C key =
    read_storage (memory key) (encryption_key_pair K C key)"

definition sv_encryption_epoch_key_pairs ::
  "('g \<Rightarrow> 'e \<Rightarrow> 32 word \<Rightarrow> ('d list, 'err) memory_read) \<Rightarrow> 'g codec \<Rightarrow> 'e codec \<Rightarrow> 'd list codec \<Rightarrow> 'g \<Rightarrow> 'e \<Rightarrow> 32 word
    \<Rightarrow> ('d list, 'err) storage_read" where
  "sv_encryption_epoch_key_pairs memory K Ke C group_id epoch leaf_index =
    read_storage (memory group_id epoch leaf_index) (encryption_epoch_key_pairs K Ke C group_id epoch leaf_index)"

definition sv_key_package ::
  "('g \<Rightarrow> ('d option, 'err) memory_read) \<Rightarrow> 'g codec \<Rightarrow> 'd codec \<Rightarrow> 'g
    \<Rightarrow> ('d option, 'err) storage_read" where
  "sv_key_package memory K C hash_ref =
    read_storage (memory hash_ref) (stored_key_package K C hash_ref)"

definition sv_psk ::
  "('g \<Rightarrow> ('d option, 'err) memory_read) \<Rightarrow> 'g codec \<Rightarrow> 'd codec \<Rightarrow> 'g
    \<Rightarrow> ('d option, 'err) storage_read" where
  "sv_psk memory K C psk_id =
    read_storage (memory psk_id) (stored_psk K C psk_id)"

definition sv_remove_proposal ::
  "('g \<Rightarrow> 'r \<Rightarrow> 'err memory_write) \<Rightarrow> 'g codec \<Rightarrow> 'r codec \<Rightarrow> 'g \<Rightarrow> 'r \<Rightarrow> 'err storage_write" where
  "sv_remove_proposal memory K R group_id proposal_ref =
    write_storage (memory group_id proposal_ref) (remove_proposal K R group_id proposal_ref)"

definition sv_delete_own_leaf_nodes ::
  "('g \<Rightarrow> 'err memory_write) \<Rightarrow> 'g codec \<Rightarrow> 'g \<Rightarrow> 'err storage_write" where
  "sv_delete_own_leaf_nodes memory K group_id =
    write_storage (memory group_id) (delete_own_leaf_nodes K group_id)"

definition sv_delete_group_config ::
  "('g \<Rightarrow> 'err memory_write) \<Rightarrow> 'g codec \<Rightarrow> 'g \<Rightarrow> 'err storage_write" where
  "sv_delete_group_config memory K group_id =
    write_storage (memory group_id) (delete_group_config K group_id)"

definition sv_delete_tree ::
  "('g \<Rightarrow> 'err memory_write) \<Rightarrow> 'g codec \<Rightarrow> 'g \<Rightarrow> 'err storage_write" where
  "sv_delete_tree memory K group_id =
    write_storage (memory group_id) (delete_tree K group_id)"

definition sv_delete_confirmation_tag ::
  "('g \<Rightarrow> 'err memory_write) \<Rightarrow> 'g codec \<Rightarrow> 'g \<Rightarrow> 'err storage_write" where
  "sv_delete_confirmation_tag memory K group_id =
    write_storage (memory group_id) (delete_confirmation_tag K group_id)"

definition sv_delete_group_state ::
  "('g \<Rightarrow> 'err memory_write) \<Rightarrow> 'g codec \<Rightarrow> 'g \<Rightarrow> 'err storage_write" where
  "sv_delete_group_state memory K group_id =
    write_storage (memory group_id) (delete_group_state K group_id)"

definition sv_delete_context ::
  "('g \<Rightarrow> 'err memory_write) \<Rightarrow> 'g codec \<Rightarrow> 'g \<Rightarrow> 'err storage_write" where
  "sv_delete_context memory K group_id =
    write_storage (memory group_id) (delete_context K group_id)"

definition sv_delete_interim_transcript_hash ::
  "('g \<Rightarrow> 'err memory_write) \<Rightarrow> 'g codec \<Rightarrow> 'g \<Rightarrow> 'err storage_write" where
  "sv_delete_interim_transcript_hash memory K group_id =
    write_storage (memory group_id) (delete_interim_transcript_hash K group_id)"

definition sv_delete_message_secrets ::
  "('g \<Rightarrow> 'err memory_write) \<Rightarrow> 'g codec \<Rightarrow> 'g \<Rightarrow> 'err storage_write" where
  "sv_delete_message_secrets memory K group_id =
    write_storage (memory group_id) (delete_message_secrets K group_id)"

definition sv_delete_all_resumption_psk_secrets ::
  "('g \<Rightarrow> 'err memory_write) \<Rightarrow> 'g codec \<Rightarrow> 'g \<Rightarrow> 'err storage_write" where
  "sv_delete_all_resumption_psk_secrets memory K group_id =
    write_storage (memory group_id) (delete_all_resumption_psk_secrets K group_id)"

definition sv_delete_own_leaf_index ::
  "('g \<Rightarrow> 'err memory_write) \<Rightarrow> 'g codec \<Rightarrow> 'g \<Rightarrow> 'err storage_write" where
  "sv_delete_own_leaf_index memory K group_id =
    write_storage (memory group_id) (delete_own_leaf_index K group_id)"

definition sv_delete_group_epoch_secrets ::
  "('g \<Rightarrow> 'err memory_write) \<Rightarrow> 'g codec \<Rightarrow> 'g \<Rightarrow> 'err storage_write" where
  "sv_delete_group_epoch_secrets memory K group_id =
    write_storage (memory group_id) (delete_group_epoch_secrets K group_id)"

definition sv_clear_proposal_queue ::
  "('g \<Rightarrow> 'err memory_write) \<Rightarrow> 'g codec \<Rightarrow> 'g \<Rightarrow> 'err storage_write" where
  "sv_clear_proposal_queue memory K group_id =
    write_storage (memory group_id) (clear_proposal_queue K group_id)"

definition sv_delete_signature_key_pair ::
  "('g \<Rightarrow> 'err memory_write) \<Rightarrow> 'g codec \<Rightarrow> 'g \<Rightarrow> 'err storage_write" where
  "sv_delete_signature_key_pair memory K key =
    write_storage (memory key) (delete_signature_key_pair K key)"

definition sv_delete_encryption_key_pair ::
  "('g \<Rightarrow> 'err memory_write) \<Rightarrow> 'g codec \<Rightarrow> 'g \<Rightarrow> 'err storage_write" where
  "sv_delete_encryption_key_pair memory K key =
    write_storage (memory key) (delete_encryption_key_pair K key)"

definition sv_delete_encryption_epoch_key_pairs ::
  "('g \<Rightarrow> 'e \<Rightarrow> 32 word \<Rightarrow> 'err memory_write) \<Rightarrow> 'g codec \<Rightarrow> 'e codec \<Rightarrow> 'g \<Rightarrow> 'e \<Rightarrow> 32 word \<Rightarrow> 'err storage_write" where
  "sv_delete_encryption_epoch_key_pairs memory K Ke group_id epoch leaf_index =
    write_storage (memory group_id epoch leaf_index) (delete_encryption_epoch_key_pairs K Ke group_id epoch leaf_index)"

definition sv_delete_key_package ::
  "('g \<Rightarrow> 'err memory_write) \<Rightarrow> 'g codec \<Rightarrow> 'g \<Rightarrow> 'err storage_write" where
  "sv_delete_key_package memory K hash_ref =
    write_storage (memory hash_ref) (delete_key_package K hash_ref)"

definition sv_delete_psk ::
  "('g \<Rightarrow> 'err memory_write) \<Rightarrow> 'g codec \<Rightarrow> 'g \<Rightarrow> 'err storage_write" where
  "sv_delete_psk memory K psk_id =
    write_storage (memory psk_id) (delete_psk K psk_id)"

section \<open>Group data, by kind\<close>

text \<open>The operations of each kind; no operation of the interface uses the kind \<^verbatim>\<open>UseRatchetTreeExtension\<close>,
  which the table knows.\<close>

fun sv_write_kind ::
  "(group_data_type \<Rightarrow> 'g \<Rightarrow> 'd \<Rightarrow> 'err memory_write) \<Rightarrow> 'g codec \<Rightarrow> 'd codec \<Rightarrow> group_data_type \<Rightarrow> 'g \<Rightarrow> 'd
    \<Rightarrow> 'err storage_write" where
  "sv_write_kind memory K C JoinGroupConfig = sv_write_mls_join_config (memory JoinGroupConfig) K C"
| "sv_write_kind memory K C TreeData = sv_write_tree (memory TreeData) K C"
| "sv_write_kind memory K C InterimTranscriptHash = sv_write_interim_transcript_hash (memory InterimTranscriptHash) K C"
| "sv_write_kind memory K C ContextData = sv_write_context (memory ContextData) K C"
| "sv_write_kind memory K C ConfirmationTag = sv_write_confirmation_tag (memory ConfirmationTag) K C"
| "sv_write_kind memory K C GroupStateData = sv_write_group_state (memory GroupStateData) K C"
| "sv_write_kind memory K C MessageSecrets = sv_write_message_secrets (memory MessageSecrets) K C"
| "sv_write_kind memory K C ResumptionPskStore = sv_write_resumption_psk_store (memory ResumptionPskStore) K C"
| "sv_write_kind memory K C OwnLeafIndex = sv_write_own_leaf_index (memory OwnLeafIndex) K C"
| "sv_write_kind memory K C GroupEpochSecrets = sv_write_group_epoch_secrets (memory GroupEpochSecrets) K C"
| "sv_write_kind memory K C UseRatchetTreeExtension = (\<lambda>g x.
    write_storage (memory UseRatchetTreeExtension g x) (store_group_data K C UseRatchetTreeExtension g x))"

fun sv_read_kind ::
  "(group_data_type \<Rightarrow> 'g \<Rightarrow> ('d option, 'err) memory_read) \<Rightarrow> 'g codec \<Rightarrow> 'd codec \<Rightarrow> group_data_type \<Rightarrow> 'g
    \<Rightarrow> ('d option, 'err) storage_read" where
  "sv_read_kind memory K C JoinGroupConfig = sv_mls_group_join_config (memory JoinGroupConfig) K C"
| "sv_read_kind memory K C TreeData = sv_tree (memory TreeData) K C"
| "sv_read_kind memory K C InterimTranscriptHash = sv_interim_transcript_hash (memory InterimTranscriptHash) K C"
| "sv_read_kind memory K C ContextData = sv_group_context (memory ContextData) K C"
| "sv_read_kind memory K C ConfirmationTag = sv_confirmation_tag (memory ConfirmationTag) K C"
| "sv_read_kind memory K C GroupStateData = sv_group_state (memory GroupStateData) K C"
| "sv_read_kind memory K C MessageSecrets = sv_message_secrets (memory MessageSecrets) K C"
| "sv_read_kind memory K C ResumptionPskStore = sv_resumption_psk_store (memory ResumptionPskStore) K C"
| "sv_read_kind memory K C OwnLeafIndex = sv_own_leaf_index (memory OwnLeafIndex) K C"
| "sv_read_kind memory K C GroupEpochSecrets = sv_group_epoch_secrets (memory GroupEpochSecrets) K C"
| "sv_read_kind memory K C UseRatchetTreeExtension = (\<lambda>g.
    read_storage (memory UseRatchetTreeExtension g) (load_group_data K C UseRatchetTreeExtension g))"

fun sv_delete_kind ::
  "(group_data_type \<Rightarrow> 'g \<Rightarrow> 'err memory_write) \<Rightarrow> 'g codec \<Rightarrow> group_data_type \<Rightarrow> 'g \<Rightarrow> 'err storage_write" where
  "sv_delete_kind memory K JoinGroupConfig = sv_delete_group_config (memory JoinGroupConfig) K"
| "sv_delete_kind memory K TreeData = sv_delete_tree (memory TreeData) K"
| "sv_delete_kind memory K InterimTranscriptHash = sv_delete_interim_transcript_hash (memory InterimTranscriptHash) K"
| "sv_delete_kind memory K ContextData = sv_delete_context (memory ContextData) K"
| "sv_delete_kind memory K ConfirmationTag = sv_delete_confirmation_tag (memory ConfirmationTag) K"
| "sv_delete_kind memory K GroupStateData = sv_delete_group_state (memory GroupStateData) K"
| "sv_delete_kind memory K MessageSecrets = sv_delete_message_secrets (memory MessageSecrets) K"
| "sv_delete_kind memory K ResumptionPskStore = sv_delete_all_resumption_psk_secrets (memory ResumptionPskStore) K"
| "sv_delete_kind memory K OwnLeafIndex = sv_delete_own_leaf_index (memory OwnLeafIndex) K"
| "sv_delete_kind memory K GroupEpochSecrets = sv_delete_group_epoch_secrets (memory GroupEpochSecrets) K"
| "sv_delete_kind memory K UseRatchetTreeExtension = (\<lambda>g.
    write_storage (memory UseRatchetTreeExtension g) (delete_group_data K UseRatchetTreeExtension g))"

section \<open>Lemmas\<close>

declare sv_write_kind.simps [simp del] sv_read_kind.simps [simp del] sv_delete_kind.simps [simp del]

lemma write_storage_Ok_iff:
  "write_storage m q s = Ok s' \<longleftrightarrow>
    (\<exists>t t'. s = SqliteStorage t \<and> q t = Ok t' \<and> s' = SqliteStorage t') \<or>
    (\<exists>v v'. s = MemoryStorage v \<and> m v = Ok v' \<and> s' = MemoryStorage v')"
  by (cases s) (auto simp: write_storage_def result_simps)

lemma read_storage_simps [simp]:
  "read_storage m q (SqliteStorage t) = map_err SqliteError (q t)"
  "read_storage m q (MemoryStorage v) = map_err MemoryError (m v)"
  by (simp_all add: read_storage_def)

text \<open>If both storages keep the contract, so does what is made of them.\<close>

lemma storage_keyed:
  assumes "keyed_store mput mget mremove" "keyed_store sput sget sremove"
  shows "keyed_store (\<lambda>k v. write_storage (mput k v) (sput k v)) (\<lambda>k. read_storage (mget k) (sget k))
    (\<lambda>k. write_storage (mremove k) (sremove k))"
  by unfold_locales (auto simp: write_storage_Ok_iff
      keyed_store.read_write [OF assms(1)] keyed_store.read_write [OF assms(2)]
      keyed_store.read_write_other [OF assms(1)] keyed_store.read_write_other [OF assms(2)]
      keyed_store.read_remove [OF assms(1)] keyed_store.read_remove [OF assms(2)]
      keyed_store.read_remove_other [OF assms(1)] keyed_store.read_remove_other [OF assms(2)])

lemma kind_operations:
  "sv_write_kind mw K C t g x = write_storage (mw t g x) (store_group_data K C t g x)"
  "sv_read_kind mr K C t g = read_storage (mr t g) (load_group_data K C t g)"
  "sv_delete_kind md K t g = write_storage (md t g) (delete_group_data K t g)"
  by (cases t; simp add: group_data_ops sv_write_kind.simps sv_read_kind.simps sv_delete_kind.simps
      sv_write_mls_join_config_def sv_write_tree_def sv_write_interim_transcript_hash_def sv_write_context_def
      sv_write_confirmation_tag_def sv_write_group_state_def sv_write_message_secrets_def sv_write_resumption_psk_store_def
      sv_write_own_leaf_index_def sv_write_group_epoch_secrets_def
      sv_mls_group_join_config_def sv_tree_def sv_interim_transcript_hash_def sv_group_context_def sv_confirmation_tag_def
      sv_group_state_def sv_message_secrets_def sv_resumption_psk_store_def sv_own_leaf_index_def sv_group_epoch_secrets_def
      sv_delete_group_config_def sv_delete_tree_def sv_delete_interim_transcript_hash_def sv_delete_context_def
      sv_delete_confirmation_tag_def sv_delete_group_state_def sv_delete_message_secrets_def
      sv_delete_all_resumption_psk_secrets_def sv_delete_own_leaf_index_def sv_delete_group_epoch_secrets_def)+

section \<open>A sample\<close>

text \<open>A storage in memory that keeps every value under a key made of the kind and the group.\<close>

fun sample_kind :: "group_data_type \<Rightarrow> u8" where
  "sample_kind JoinGroupConfig = 0"
| "sample_kind TreeData = 1"
| "sample_kind InterimTranscriptHash = 2"
| "sample_kind ContextData = 3"
| "sample_kind ConfirmationTag = 4"
| "sample_kind GroupStateData = 5"
| "sample_kind MessageSecrets = 6"
| "sample_kind ResumptionPskStore = 7"
| "sample_kind OwnLeafIndex = 8"
| "sample_kind UseRatchetTreeExtension = 9"
| "sample_kind GroupEpochSecrets = 10"

lemma sample_kind_inj [simp]: "sample_kind a = sample_kind b \<longleftrightarrow> a = b"
  by (cases a; cases b; simp)

lemma sample_memory_keyed:
  "keyed_store (\<lambda>k x values. Ok (values(sample_kind (fst k) # snd k \<mapsto> x)))
    (\<lambda>k values. Ok (values (sample_kind (fst k) # snd k)))
    (\<lambda>k values. Ok (values(sample_kind (fst k) # snd k := None)) :: (memory_storage, unit) result)"
  by unfold_locales (auto simp: prod_eq_iff)

section \<open>Properties\<close>

text \<open>C37. The storage behaves as a map from kind and group to value, whichever of the two it is, as long as
  the storage in memory of OpenMLS does: after operations that succeed, each kind of data of each
  group reads as it was last written or deleted. An export of the storage in memory opens, with the
  same key, as what it was, so whoever imports it reads the same.\<close>

theorem storage_last_write:
  assumes "codec_ok K" "codec_ok C" "aead_ok A" "codec_ok P"
    "keyed_store (\<lambda>k. mw (fst k) (snd k)) (\<lambda>k. mr (fst k) (snd k)) (\<lambda>k. md (fst k) (snd k))"
    "run_store (\<lambda>k. sv_write_kind mw K C (fst k) (snd k)) (\<lambda>k. sv_delete_kind md K (fst k) (snd k)) ops self = Ok self'"
  shows "sv_read_kind mr K C t g self' = (case last_written (t, g) ops of None \<Rightarrow> sv_read_kind mr K C t g self | Some r \<Rightarrow> Ok r)
    \<and> (self' = MemoryStorage memory \<and> storage_export A P random_mask memory key = Ok e \<longrightarrow>
      map_ok MemoryStorage (storage_import A P e key) = Ok self')"
proof (intro conjI impI)
  show "sv_read_kind mr K C t g self' =
      (case last_written (t, g) ops of None \<Rightarrow> sv_read_kind mr K C t g self | Some r \<Rightarrow> Ok r)"
    using keyed_store.run_store_read [OF storage_keyed [OF assms(5) group_data_store [OF assms(1,2)]]
        assms(6) [unfolded kind_operations], of "(t, g)"]
    unfolding fst_conv snd_conv kind_operations .
  assume "self' = MemoryStorage memory \<and> storage_export A P random_mask memory key = Ok e"
  then have "storage_import A P e key = Ok memory" "self' = MemoryStorage memory"
    using storage_round_trip [OF assms(3,4)] by blast+
  then show "map_ok MemoryStorage (storage_import A P e key) = Ok self'" by simp
qed

definition sample_values :: memory_storage where
  "sample_values = [[1, 1] \<mapsto> [3]]"

definition sample_values_codec :: "memory_storage codec" where
  "sample_values_codec =
    \<lparr> encode = (\<lambda>values. if values = sample_values then Ok [1] else Err []), decode = (\<lambda>_. Ok sample_values) \<rparr>"

theorem storage_last_write_witness:
  "let mw = (\<lambda>t g x values. Ok (values(sample_kind t # g \<mapsto> x)) :: (memory_storage, unit) result);
       mr = (\<lambda>t g values. Ok (values (sample_kind t # g)) :: (bytes option, unit) result);
       md = (\<lambda>t g values. Ok (values(sample_kind t # g := None)) :: (memory_storage, unit) result);
       ops = [Write (TreeData, [1]) [2], Write (ContextData, [1]) [4], Write (TreeData, [1]) [3], Remove (ContextData, [1])]
   in \<exists>self' e. run_store (\<lambda>k. sv_write_kind mw byte_codec byte_codec (fst k) (snd k))
        (\<lambda>k. sv_delete_kind md byte_codec (fst k) (snd k)) ops (MemoryStorage storage_new_memory) = Ok self'
      \<and> sv_read_kind mr byte_codec byte_codec TreeData [1] self' = Ok (Some [3])
      \<and> sv_read_kind mr byte_codec byte_codec ContextData [1] self' = Ok None
      \<and> map_ok MemoryStorage (storage_import sample_aead sample_values_codec e (EncryptionKey [4])) = Ok self'"
proof -
  let ?mw = "\<lambda>t g x values. Ok (values(sample_kind t # g \<mapsto> x)) :: (memory_storage, unit) result"
  let ?mr = "\<lambda>t g values. Ok (values (sample_kind t # g)) :: (bytes option, unit) result"
  let ?md = "\<lambda>t g values. Ok (values(sample_kind t # g := None)) :: (memory_storage, unit) result"
  let ?ops = "[Write (TreeData, [1]) [2], Write (ContextData, [1]) [4], Write (TreeData, [1]) [3], Remove (ContextData, [1])]"
  have final: "Map.empty([1, 1] \<mapsto> [2], [3, 1] \<mapsto> [4], [1, 1] \<mapsto> [3], [3, 1] := None) = sample_values"
    by (auto simp: sample_values_def fun_eq_iff)
  have run: "run_store (\<lambda>k. sv_write_kind ?mw byte_codec byte_codec (fst k) (snd k))
      (\<lambda>k. sv_delete_kind ?md byte_codec (fst k) (snd k)) ?ops (MemoryStorage storage_new_memory) = Ok (MemoryStorage sample_values)"
    unfolding final [symmetric] by (simp add: kind_operations write_storage_def storage_new_memory_def del: fun_upd_apply)
  have codec: "codec_ok sample_values_codec" by (simp add: codec_ok_def sample_values_codec_def split: if_splits)
  obtain e where e: "storage_export sample_aead sample_values_codec (replicate 12 9) sample_values (EncryptionKey [4]) = Ok e"
    using sample_encrypts [of sample_values_codec sample_values "[1]"] by (auto simp: storage_export_def sample_values_codec_def)
  note holds = storage_last_write [where mr = ?mr, OF byte_codec_ok byte_codec_ok sample_aead_ok codec sample_memory_keyed run]
  have "sv_read_kind ?mr byte_codec byte_codec TreeData [1] (MemoryStorage sample_values) = Ok (Some [3])"
    "sv_read_kind ?mr byte_codec byte_codec ContextData [1] (MemoryStorage sample_values) = Ok None"
    using holds [of TreeData "[1]"] holds [of ContextData "[1]"] by simp_all
  moreover have "map_ok MemoryStorage (storage_import sample_aead sample_values_codec e (EncryptionKey [4])) = Ok (MemoryStorage sample_values)"
    using holds e by blast
  ultimately show ?thesis unfolding Let_def using run by blast
qed

end
