(* ===== verification/GroupId.thy ===== *)
theory GroupId
  imports SessionStore
begin

text \<open>
  Names of MLS groups (\<^verbatim>\<open>svalin_pki/src/mls/group_id.rs\<close>, with the hexadecimal form of a hash
  from \<^verbatim>\<open>svalin_pki/src/certificate.rs\<close>). An MLS group id is a byte string; the program uses
  \<^verbatim>\<open>global\<close>, \<^verbatim>\<open>device/<hex>\<close> and \<^verbatim>\<open>meta/<hex>\<close>. The \<^verbatim>\<open>hex\<close> crate is a parameter.
\<close>

section \<open>Hexadecimal hashes\<close>

record hex_crate =
  encode_hex :: "bytes \<Rightarrow> str"
  hex_decode :: "bytes \<Rightarrow> (bytes, string) result"

definition spki_to_hex :: "hex_crate \<Rightarrow> spki_hash \<Rightarrow> str" where
  "spki_to_hex H h = encode_hex H (spki_bytes h)"

definition spki_from_hex :: "hex_crate \<Rightarrow> bytes \<Rightarrow> (spki_hash, unit) result" where
  "spki_from_hex H hex = and_then (map_err (\<lambda>_. ()) (hex_decode H hex)) spki_from_slice"

text \<open>What the program relies on: decoding inverts encoding, and an encoding consists of
  the digits and the letters from a to f.\<close>

definition hex_ok :: "hex_crate \<Rightarrow> bool" where
  "hex_ok H \<longleftrightarrow> (\<forall>bs. hex_decode H (encode_hex H bs) = Ok bs
    \<and> set (encode_hex H bs) \<subseteq> set (utf8 ''0123456789abcdef''))"

section \<open>Group ids\<close>

datatype svalin_group_id =
    GlobalGroup
  | DeviceGroup spki_hash
  | DeviceMetaGroup spki_hash

datatype parse_group_id_error = WrongSliceLength | UnknownGroupType | MissingData | MissingGroupType

definition to_group_id :: "hex_crate \<Rightarrow> svalin_group_id \<Rightarrow> bytes" where
  "to_group_id H self = (case self of
     DeviceGroup hash \<Rightarrow> utf8 ''device/'' @ spki_to_hex H hash
   | DeviceMetaGroup hash \<Rightarrow> utf8 ''meta/'' @ spki_to_hex H hash
   | GlobalGroup \<Rightarrow> utf8 ''global'')"

text \<open>\<^verbatim>\<open>slice::split\<close>: the pieces between the separators, at least one.\<close>

fun slice_split :: "u8 \<Rightarrow> bytes \<Rightarrow> bytes list" where
  "slice_split sep [] = [[]]"
| "slice_split sep (c # cs) =
    (if c = sep then [] # slice_split sep cs
     else (case slice_split sep cs of [] \<Rightarrow> [[c]] | part # parts \<Rightarrow> (c # part) # parts))"

definition parse_hash_part ::
  "hex_crate \<Rightarrow> (spki_hash \<Rightarrow> svalin_group_id) \<Rightarrow> bytes list \<Rightarrow> (svalin_group_id, parse_group_id_error) result" where
  "parse_hash_part H kind parts =
    (case parts of
       [] \<Rightarrow> Err MissingData
     | hash # _ \<Rightarrow> map_ok kind (map_err (\<lambda>_. WrongSliceLength) (spki_from_hex H hash)))"

definition from_group_id :: "hex_crate \<Rightarrow> bytes \<Rightarrow> (svalin_group_id, parse_group_id_error) result" where
  "from_group_id H group_id =
    (case slice_split 0x2F group_id of
       [] \<Rightarrow> Err MissingGroupType
     | first # parts \<Rightarrow>
        if first = utf8 ''device'' then parse_hash_part H DeviceGroup parts
        else if first = utf8 ''meta'' then parse_hash_part H DeviceMetaGroup parts
        else if first = utf8 ''global'' then Ok GlobalGroup
        else Err UnknownGroupType)"

text \<open>The hash that a group is about.\<close>

fun group_subject :: "svalin_group_id \<Rightarrow> spki_hash option" where
  "group_subject GlobalGroup = None"
| "group_subject (DeviceGroup h) = Some h"
| "group_subject (DeviceMetaGroup h) = Some h"

definition group_id_wf :: "svalin_group_id \<Rightarrow> bool" where
  "group_id_wf g \<longleftrightarrow> (\<forall>h. group_subject g = Some h \<longrightarrow> spki_hash_wf h)"

section \<open>Lemmas\<close>

lemma slice_split_nonempty [simp]: "slice_split sep xs \<noteq> []"
  by (induction xs) (auto split: list.splits)

lemma slice_split_no_sep: "sep \<notin> set xs \<Longrightarrow> slice_split sep xs = [xs]"
  by (induction xs) auto

lemma slice_split_sep: "sep \<notin> set xs \<Longrightarrow> slice_split sep (xs @ sep # ys) = xs # slice_split sep ys"
  by (induction xs) auto

lemma group_literals:
  "utf8 ''device/'' = utf8 ''device'' @ [0x2F]" "utf8 ''meta/'' = utf8 ''meta'' @ [0x2F]"
  "0x2F \<notin> set (utf8 ''device'')" "0x2F \<notin> set (utf8 ''meta'')" "0x2F \<notin> set (utf8 ''global'')"
  "utf8 ''device'' \<noteq> utf8 ''meta''" "utf8 ''device'' \<noteq> utf8 ''global''" "utf8 ''meta'' \<noteq> utf8 ''global''"
  "0x2F \<notin> set (utf8 ''0123456789abcdef'')"
  by (simp_all add: utf8_def of_char_def)

lemma hex_no_slash: "hex_ok H \<Longrightarrow> 0x2F \<notin> set (spki_to_hex H h)"
  using group_literals(9) unfolding hex_ok_def spki_to_hex_def by blast

lemma spki_hex_round_trip: "hex_ok H \<Longrightarrow> spki_hash_wf h \<Longrightarrow> spki_from_hex H (spki_to_hex H h) = Ok h"
  by (simp add: hex_ok_def spki_from_hex_def spki_to_hex_def spki_from_slice_def spki_hash_wf_def)

text \<open>Parsing a canonical id followed by nothing or by further parts.\<close>

lemma from_group_id_extended:
  assumes "hex_ok H" "group_id_wf g" "suffix = [] \<or> hd suffix = 0x2F"
  shows "from_group_id H (to_group_id H g @ suffix) = Ok g"
proof -
  have tail: "\<exists>rest. slice_split 0x2F (xs @ suffix) = xs # rest" if "0x2F \<notin> set xs" for xs
    using assms(3) that slice_split_no_sep slice_split_sep by (cases suffix) auto
  show ?thesis
  proof (cases g)
    case GlobalGroup
    then show ?thesis
      using tail [OF group_literals(5)] group_literals by (auto simp: from_group_id_def to_group_id_def)
  next
    case (DeviceGroup h)
    then have "spki_hash_wf h" using assms(2) by (simp add: group_id_wf_def)
    then show ?thesis
      using DeviceGroup tail [OF hex_no_slash [OF assms(1), of h]] slice_split_sep [OF group_literals(3)]
        spki_hex_round_trip [OF assms(1)]
      by (auto simp: from_group_id_def to_group_id_def parse_hash_part_def group_literals(1))
  next
    case (DeviceMetaGroup h)
    then have "spki_hash_wf h" using assms(2) by (simp add: group_id_wf_def)
    then show ?thesis
      using DeviceMetaGroup tail [OF hex_no_slash [OF assms(1), of h]] slice_split_sep [OF group_literals(4)]
        spki_hex_round_trip [OF assms(1)] group_literals(6)
      by (auto simp: from_group_id_def to_group_id_def parse_hash_part_def group_literals(2))
  qed
qed

lemma from_to_group_id: "hex_ok H \<Longrightarrow> group_id_wf g \<Longrightarrow> from_group_id H (to_group_id H g) = Ok g"
  using from_group_id_extended [of H g "[]"] by simp

lemma parsed_group_id_wf: "from_group_id H gid = Ok g \<Longrightarrow> group_id_wf g"
  by (auto simp: from_group_id_def parse_hash_part_def spki_from_hex_def spki_from_slice_def
      group_id_wf_def spki_hash_wf_def result_simps split: list.splits if_splits)

text \<open>A parsed id has a canonical form that parses to the same group.\<close>

lemma canonical_group_id:
  "hex_ok H \<Longrightarrow> from_group_id H gid = Ok g \<Longrightarrow> from_group_id H (to_group_id H g) = Ok g"
  using from_to_group_id parsed_group_id_wf by blast

lemma to_group_id_inj:
  "hex_ok H \<Longrightarrow> group_id_wf g \<Longrightarrow> group_id_wf g' \<Longrightarrow> to_group_id H g = to_group_id H g' \<Longrightarrow> g = g'"
  by (metis from_to_group_id result.inject(1))

section \<open>Sample\<close>

definition nibble_char :: "nat \<Rightarrow> u8" where
  "nibble_char n = utf8 ''0123456789abcdef'' ! n"

definition char_nibble :: "u8 \<Rightarrow> nat" where
  "char_nibble c = (if unat c < 58 then unat c - 48 else unat c - 87)"

fun sample_hex_decode :: "bytes \<Rightarrow> bytes" where
  "sample_hex_decode (a # b # rest) = of_nat (16 * char_nibble a + char_nibble b) # sample_hex_decode rest"
| "sample_hex_decode _ = []"

definition sample_hex :: hex_crate where
  "sample_hex = \<lparr>
     encode_hex = \<lambda>bs. concat (map (\<lambda>b. [nibble_char (unat b div 16), nibble_char (unat b mod 16)]) bs),
     hex_decode = \<lambda>hex. Ok (sample_hex_decode hex) \<rparr>"

lemma nibble_round_trip:
  assumes "n < 16"
  shows "char_nibble (nibble_char n) = n" "nibble_char n \<in> set (utf8 ''0123456789abcdef'')"
proof -
  have "n \<in> set [0..<16]" using assms by simp
  moreover have "\<forall>n \<in> set [0..<16]. char_nibble (nibble_char n) = n" by code_simp
  ultimately show "char_nibble (nibble_char n) = n" by blast
  have "length (utf8 ''0123456789abcdef'') = 16" by (simp add: utf8_def)
  with assms show "nibble_char n \<in> set (utf8 ''0123456789abcdef'')"
    unfolding nibble_char_def by (metis nth_mem)
qed

lemma sample_hex_ok [simp]: "hex_ok sample_hex"
proof -
  have lt: "unat b div 16 < 16" "unat b mod 16 < 16" for b :: u8
    using unat_u8_less [of b] by (simp_all add: less_mult_imp_div_less)
  have "of_nat (16 * (unat b div 16) + unat b mod 16) = b" for b :: u8
    by (simp only: mult_div_mod_eq word_unat_eq_iff [symmetric] of_nat_unat ucast_id)
  then have "sample_hex_decode (encode_hex sample_hex bs) = bs" for bs
    by (induction bs) (simp_all add: sample_hex_def nibble_round_trip lt)
  moreover have "set (encode_hex sample_hex bs) \<subseteq> set (utf8 ''0123456789abcdef'')" for bs
    using nibble_round_trip(2) [OF lt(1)] nibble_round_trip(2) [OF lt(2)] by (auto simp: sample_hex_def)
  ultimately show ?thesis by (simp add: hex_ok_def sample_hex_def)
qed

section \<open>Properties\<close>

text \<open>Group ids. Every group's id is read back as the group and different groups have
  different ids. But a group has more than one id: what follows a further slash is
  ignored, so appending any such text gives another id that names the same group.\<close>

theorem group_id_parsing:
  assumes "hex_ok H" "group_id_wf g" "group_id_wf g'"
  shows "from_group_id H (to_group_id H g) = Ok g
    \<and> (to_group_id H g' = to_group_id H g \<longleftrightarrow> g' = g)
    \<and> from_group_id H (to_group_id H g @ 0x2F # junk) = Ok g"
  using from_to_group_id [OF assms(1,2)] to_group_id_inj [OF assms(1,3,2)]
    from_group_id_extended [OF assms(1,2), of "0x2F # junk"] by auto

theorem group_id_parsing_witness:
  "from_group_id sample_hex (to_group_id sample_hex (DeviceGroup (SpkiHash (replicate 32 7))) @ 0x2F # [1])
    = Ok (DeviceGroup (SpkiHash (replicate 32 7)))"
  using group_id_parsing [of sample_hex "DeviceGroup (SpkiHash (replicate 32 7))" GlobalGroup "[1]"]
  by (simp add: group_id_wf_def spki_hash_wf_def)

end
