(* ===== verification/MlsCommon.thy ===== *)
theory MlsCommon
  imports Verifier GroupId
begin

text \<open>
  What server, agents and clients share for group messaging: the messages on the wire
  (\<^verbatim>\<open>svalin_pki/src/mls/transport_types.rs\<close>), key packages (\<^verbatim>\<open>mls/key_package.rs\<close>), the members
  that a group must have (\<^verbatim>\<open>svalin/src/server/local_key_retriever.rs\<close>) and the check of a
  staged commit (\<^verbatim>\<open>mls/harness.rs\<close>). The OpenMLS library is a parameter: the record \<^verbatim>\<open>openmls\<close>
  has the functions the program calls, over the library's own types of messages (\<^verbatim>\<open>'x\<close>),
  key packages (\<^verbatim>\<open>'k\<close>) and staged commits (\<^verbatim>\<open>'c\<close>). One call of a handler reads the clock and
  the trust store once.
\<close>

section \<open>The OpenMLS library\<close>

record leaf_node =
  leaf_credential :: bytes
  leaf_signature_key :: bytes

datatype mls_sender = SenderMember nat | SenderOther

text \<open>The body of an MLS message, as far as the program tells bodies apart.\<close>

datatype 'x mls_body = PrivateBody 'x | PublicBody 'x | WelcomeBody 'x | OtherBody

datatype 'x protocol_message = PrivateMessage 'x | PublicMessage 'x

text \<open>\<^verbatim>\<open>KeyPackage\<close> and \<^verbatim>\<open>KeyPackageIn\<close> are one type here: the conversions do not change the
  content.\<close>

record ('x, 'k, 'c) openmls =
  message_in :: "bytes \<Rightarrow> ('x mls_body, string) result"
  message_out :: "'x mls_body \<Rightarrow> (bytes, string) result"
  welcome_in :: "bytes \<Rightarrow> ('x, string) result"
  welcome_out :: "'x \<Rightarrow> (bytes, string) result"
  group_info_in :: "bytes \<Rightarrow> ('x, string) result"
  group_info_out :: "'x \<Rightarrow> (bytes, string) result"
  message_group_id :: "'x protocol_message \<Rightarrow> bytes"
  credential_spki :: "bytes \<Rightarrow> (spki_hash, string) result"
  spki_credential :: "spki_hash \<Rightarrow> bytes"
  validate_key_package :: "'k \<Rightarrow> ('k, string) result"
  key_package_leaf :: "'k \<Rightarrow> leaf_node"
  credentials_to_verify :: "'c \<Rightarrow> bytes list"
  remove_proposals :: "'c \<Rightarrow> (mls_sender \<times> nat) list"
  add_proposals :: "'c \<Rightarrow> (mls_sender \<times> 'k) list"

section \<open>Messages\<close>

record new_group_transport =
  ngt_group_info :: bytes
  ngt_welcome :: "bytes option"

record add_to_group_transport =
  agt_commit :: bytes
  agt_welcome :: bytes

datatype message_to_server_transport =
    GroupMessageTransport bytes
  | NewDeviceGroupTransport new_group_transport
  | AddToGroupTransport add_to_group_transport

record 'x new_group =
  ng_group_info :: 'x
  ng_welcome :: "bytes option"

record 'x add_to_group =
  ag_commit :: 'x
  ag_commit_bytes :: bytes
  ag_welcome :: bytes

datatype 'x message_to_server =
    ServerGroupMessage bytes "'x protocol_message"
  | ServerNewDeviceGroup "'x new_group"
  | ServerAddToGroup "'x add_to_group"

datatype unpack_error = CodecError string | WrongMessageType

fun try_into_protocol_message :: "'x mls_body \<Rightarrow> ('x protocol_message, unpack_error) result" where
  "try_into_protocol_message (PrivateBody x) = Ok (PrivateMessage x)"
| "try_into_protocol_message (PublicBody x) = Ok (PublicMessage x)"
| "try_into_protocol_message _ = Err WrongMessageType"

definition unpack_new_group ::
  "('x, 'k, 'c, 'z) openmls_scheme \<Rightarrow> new_group_transport \<Rightarrow> ('x new_group, unpack_error) result" where
  "unpack_new_group L self =
    and_then (map_err CodecError (group_info_in L (ngt_group_info self))) (\<lambda>info.
    Ok \<lparr> ng_group_info = info, ng_welcome = ngt_welcome self \<rparr>)"

definition unpack_add_to_group ::
  "('x, 'k, 'c, 'z) openmls_scheme \<Rightarrow> add_to_group_transport \<Rightarrow> ('x add_to_group, unpack_error) result" where
  "unpack_add_to_group L self =
    and_then (map_err CodecError (message_in L (agt_commit self))) (\<lambda>body.
    case body of
      PublicBody commit \<Rightarrow>
        Ok \<lparr> ag_commit = commit, ag_commit_bytes = agt_commit self, ag_welcome = agt_welcome self \<rparr>
    | _ \<Rightarrow> Err WrongMessageType)"

fun unpack_to_server ::
  "('x, 'k, 'c, 'z) openmls_scheme \<Rightarrow> message_to_server_transport \<Rightarrow> ('x message_to_server, unpack_error) result" where
  "unpack_to_server L (GroupMessageTransport raw) =
    and_then (map_err CodecError (message_in L raw)) (\<lambda>body.
    map_ok (ServerGroupMessage raw) (try_into_protocol_message body))"
| "unpack_to_server L (NewDeviceGroupTransport g) = map_ok ServerNewDeviceGroup (unpack_new_group L g)"
| "unpack_to_server L (AddToGroupTransport a) = map_ok ServerAddToGroup (unpack_add_to_group L a)"

definition transport_message ::
  "('x, 'k, 'c, 'z) openmls_scheme \<Rightarrow> 'x mls_body \<Rightarrow> (message_to_server_transport, unpack_error) result" where
  "transport_message L mls_message =
    (case mls_message of
       PrivateBody _ \<Rightarrow> map_ok GroupMessageTransport (map_err CodecError (message_out L mls_message))
     | _ \<Rightarrow> Err WrongMessageType)"

definition transport_new_device_group ::
  "('x, 'k, 'c, 'z) openmls_scheme \<Rightarrow> 'x \<Rightarrow> 'x option \<Rightarrow> (message_to_server_transport, unpack_error) result" where
  "transport_new_device_group L group_info welcome =
    and_then (case welcome of
        None \<Rightarrow> Ok None
      | Some w \<Rightarrow> map_ok Some (map_err CodecError (welcome_out L w))) (\<lambda>welcome_bytes.
    and_then (map_err CodecError (group_info_out L group_info)) (\<lambda>info.
    Ok (NewDeviceGroupTransport \<lparr> ngt_group_info = info, ngt_welcome = welcome_bytes \<rparr>)))"

definition transport_add_to_group ::
  "('x, 'k, 'c, 'z) openmls_scheme \<Rightarrow> 'x mls_body \<Rightarrow> 'x mls_body \<Rightarrow> (message_to_server_transport, unpack_error) result" where
  "transport_add_to_group L commit welcome =
    (case (commit, welcome) of
       (PublicBody _, WelcomeBody w) \<Rightarrow>
         and_then (map_err CodecError (message_out L commit)) (\<lambda>commit_bytes.
         and_then (map_err CodecError (welcome_out L w)) (\<lambda>welcome_bytes.
         Ok (AddToGroupTransport \<lparr> agt_commit = commit_bytes, agt_welcome = welcome_bytes \<rparr>)))
     | _ \<Rightarrow> Err WrongMessageType)"

datatype message_to_member_transport =
    WelcomeTransport bytes
  | MemberGroupMessageTransport bytes
  | MemberAddToGroupTransport bytes

datatype 'x message_to_member =
    MemberWelcome 'x
  | MemberGroupMessage 'x
  | MemberAddToGroup 'x

fun unpack_to_member ::
  "('x, 'k, 'c, 'z) openmls_scheme \<Rightarrow> message_to_member_transport \<Rightarrow> ('x message_to_member, unpack_error) result" where
  "unpack_to_member L (WelcomeTransport w) = map_ok MemberWelcome (map_err CodecError (welcome_in L w))"
| "unpack_to_member L (MemberGroupMessageTransport m) =
    and_then (map_err CodecError (message_in L m)) (\<lambda>body.
    case body of PrivateBody x \<Rightarrow> Ok (MemberGroupMessage x) | _ \<Rightarrow> Err WrongMessageType)"
| "unpack_to_member L (MemberAddToGroupTransport m) =
    and_then (map_err CodecError (message_in L m)) (\<lambda>body.
    case body of PublicBody x \<Rightarrow> Ok (MemberAddToGroup x) | _ \<Rightarrow> Err WrongMessageType)"

record message_to_send =
  receivers_of :: "spki_hash list"
  message_of :: message_to_member_transport

definition remove_receiver :: "message_to_send \<Rightarrow> spki_hash \<Rightarrow> message_to_send" where
  "remove_receiver self receiver = self \<lparr> receivers_of := filter (\<lambda>r. r \<noteq> receiver) (receivers_of self) \<rparr>"

section \<open>Key packages\<close>

datatype key_package_error =
    KpVerifyError string
  | KpDeserializeError string
  | SignatureKeyMismatch
  | KpCertificateError verify_error
  | KpSpkiHashMismatch

record 'k key_package =
  kp_package :: 'k
  kp_certificate :: certificate

definition key_package_verify ::
  "('x, 'k, 'c, 'z) openmls_scheme \<Rightarrow> verifier \<Rightarrow> u64 \<Rightarrow> 'k \<Rightarrow> ('k key_package, key_package_error) result" where
  "key_package_verify L V now self =
    and_then (map_err KpVerifyError (validate_key_package L self)) (\<lambda>package.
    let leaf = key_package_leaf L package in
    and_then (map_err KpDeserializeError (credential_spki L (leaf_credential leaf))) (\<lambda>hash.
    and_then (map_err KpCertificateError (verify_spki_hash V hash now)) (\<lambda>certificate.
    if leaf_signature_key leaf \<noteq> public_key (as_unverified certificate) then Err SignatureKeyMismatch
    else Ok \<lparr> kp_package = package, kp_certificate = certificate \<rparr>)))"

text \<open>The hash that a package claims, before verification.\<close>

definition unverified_spki_hash ::
  "('x, 'k, 'c, 'z) openmls_scheme \<Rightarrow> 'k \<Rightarrow> (spki_hash, key_package_error) result" where
  "unverified_spki_hash L self =
    map_err KpDeserializeError (credential_spki L (leaf_credential (key_package_leaf L self)))"

definition key_package_new ::
  "('x, 'k, 'c, 'z) openmls_scheme \<Rightarrow> certificate \<Rightarrow> 'k \<Rightarrow> ('k key_package, key_package_error) result" where
  "key_package_new L certificate package =
    and_then (map_err KpDeserializeError
      (credential_spki L (leaf_credential (key_package_leaf L package)))) (\<lambda>hash.
    if hash \<noteq> cert_spki certificate then Err KpSpkiHashMismatch
    else Ok \<lparr> kp_package = package, kp_certificate = certificate \<rparr>)"

definition kp_spki_hash :: "'k key_package \<Rightarrow> spki_hash" where
  "kp_spki_hash self = cert_spki (kp_certificate self)"

section \<open>Required members\<close>

datatype retriever_error =
    AgentNotFound
  | RetrieverChain complete_cert_chain_error
  | RetrieverVerify verify_chain_error

definition verified_agent_chain ::
  "crypto \<Rightarrow> root_certificate \<Rightarrow> trust_store \<Rightarrow> u64 \<Rightarrow> spki_hash \<Rightarrow> (certificate_chain, retriever_error) result" where
  "verified_agent_chain C root ts now hash =
    and_then (ok_or AgentNotFound (trust_store_get ts hash)) (\<lambda>agent.
    and_then (map_err RetrieverChain
      (complete_certificate_chain ts (builder_new (as_unverified agent)))) (\<lambda>cert_chain.
    map_err RetrieverVerify (chain_verify C cert_chain root now)))"

text \<open>\<^verbatim>\<open>take(len - 1)\<close>: a verified chain is never empty, so the subtraction cannot underflow.\<close>

fun get_required_group_members ::
  "crypto \<Rightarrow> root_certificate \<Rightarrow> trust_store \<Rightarrow> u64 \<Rightarrow> svalin_group_id \<Rightarrow> (spki_hash list, retriever_error) result" where
  "get_required_group_members C root ts now (DeviceGroup hash) =
    map_ok (\<lambda>c. map cert_spki (chain_certificates c)) (verified_agent_chain C root ts now hash)"
| "get_required_group_members C root ts now (DeviceMetaGroup hash) =
    map_ok (\<lambda>c. map cert_spki (take (length (chain_certificates c) - 1) (chain_certificates c)))
      (verified_agent_chain C root ts now hash)"
| "get_required_group_members C root ts now GlobalGroup = Ok [cert_spki (as_certificate root)]"

section \<open>Checking a commit\<close>

datatype ('r, 'p) check_commit_error =
    CommitCredential string
  | CommitVerify verify_error
  | CommitRetriever 'r
  | OnlyMembers
  | CommitMemberLookup 'p
  | EditNotAllowed certificate_type
  | CannotRemoveRequired spki_hash
  | CommitKeyPackage key_package_error
  | UnexpectedKeyPackageType certificate_type

definition check_edit_allowed :: "certificate_type \<Rightarrow> (unit, ('r, 'p) check_commit_error) result" where
  "check_edit_allowed t = (case t of
     Root \<Rightarrow> Ok () | User \<Rightarrow> Ok () | UserSession \<Rightarrow> Ok () | _ \<Rightarrow> Err (EditNotAllowed t))"

fun verify_credentials ::
  "('x, 'k, 'c, 'z) openmls_scheme \<Rightarrow> verifier \<Rightarrow> u64 \<Rightarrow> bytes list \<Rightarrow> (unit, ('r, 'p) check_commit_error) result" where
  "verify_credentials L V now [] = Ok ()"
| "verify_credentials L V now (to_verify # rest) =
    and_then (map_err CommitCredential (credential_spki L to_verify)) (\<lambda>hash.
    and_then (map_err CommitVerify (verify_spki_hash V hash now)) (\<lambda>_.
    verify_credentials L V now rest))"

text \<open>The processor's \<^verbatim>\<open>get_member\<close> may load the group, so its state is threaded through.\<close>

definition check_sender ::
  "('s \<Rightarrow> nat \<Rightarrow> (spki_hash, 'p) result \<times> 's) \<Rightarrow> verifier \<Rightarrow> u64 \<Rightarrow> mls_sender \<Rightarrow> 's
    \<Rightarrow> (unit, ('r, 'p) check_commit_error) result \<times> 's" where
  "check_sender get_member V now sender st =
    (case sender of
       SenderOther \<Rightarrow> (Err OnlyMembers, st)
     | SenderMember index \<Rightarrow>
        bind_st (map_err_st CommitMemberLookup (get_member st index)) (\<lambda>hash st.
        bind_st (map_err CommitVerify (verify_spki_hash V hash now), st) (\<lambda>certificate st.
        (check_edit_allowed (cert_type certificate), st))))"

fun check_removes ::
  "('s \<Rightarrow> nat \<Rightarrow> (spki_hash, 'p) result \<times> 's) \<Rightarrow> verifier \<Rightarrow> u64 \<Rightarrow> spki_hash list
    \<Rightarrow> (mls_sender \<times> nat) list \<Rightarrow> 's \<Rightarrow> (unit, ('r, 'p) check_commit_error) result \<times> 's" where
  "check_removes get_member V now required [] st = (Ok (), st)"
| "check_removes get_member V now required ((sender, index) # rest) st =
    bind_st (check_sender get_member V now sender st) (\<lambda>_ st.
    bind_st (map_err_st CommitMemberLookup (get_member st index)) (\<lambda>hash st.
    if hash \<in> set required then (Err (CannotRemoveRequired hash), st)
    else check_removes get_member V now required rest st))"

fun check_adds ::
  "('x, 'k, 'c, 'z) openmls_scheme \<Rightarrow> ('s \<Rightarrow> nat \<Rightarrow> (spki_hash, 'p) result \<times> 's) \<Rightarrow> verifier \<Rightarrow> u64
    \<Rightarrow> (mls_sender \<times> 'k) list \<Rightarrow> 's \<Rightarrow> (unit, ('r, 'p) check_commit_error) result \<times> 's" where
  "check_adds L get_member V now [] st = (Ok (), st)"
| "check_adds L get_member V now ((sender, raw_key_package) # rest) st =
    bind_st (check_sender get_member V now sender st) (\<lambda>_ st.
    bind_st (map_err CommitKeyPackage (key_package_verify L V now raw_key_package), st) (\<lambda>kp st.
    case cert_type (kp_certificate kp) of
      User \<Rightarrow> check_adds L get_member V now rest st
    | UserSession \<Rightarrow> check_adds L get_member V now rest st
    | t \<Rightarrow> (Err (UnexpectedKeyPackageType t), st)))"

definition check_commit ::
  "('x, 'k, 'c, 'z) openmls_scheme \<Rightarrow> hex_crate \<Rightarrow> ('s \<Rightarrow> bytes \<Rightarrow> nat \<Rightarrow> (spki_hash, 'p) result \<times> 's)
    \<Rightarrow> verifier \<Rightarrow> (svalin_group_id \<Rightarrow> (spki_hash list, 'r) result) \<Rightarrow> u64 \<Rightarrow> svalin_group_id \<Rightarrow> 'c \<Rightarrow> 's
    \<Rightarrow> (unit, ('r, 'p) check_commit_error) result \<times> 's" where
  "check_commit L H get_member V required_of now group_id commit st =
    (let member = (\<lambda>st. get_member st (to_group_id H group_id)) in
     bind_st (verify_credentials L V now (credentials_to_verify L commit), st) (\<lambda>_ st.
     bind_st (map_err CommitRetriever (required_of group_id), st) (\<lambda>required_members st.
     bind_st (check_removes member V now required_members (remove_proposals L commit) st) (\<lambda>_ st.
     check_adds L member V now (add_proposals L commit) st))))"

section \<open>What the checks mean\<close>

text \<open>A step that keeps an invariant and succeeds exactly with the results in a set.\<close>

definition exact_st :: "('s \<Rightarrow> bool) \<Rightarrow> ('a, 'e) result \<times> 's \<Rightarrow> ('a \<Rightarrow> bool) \<Rightarrow> bool" where
  "exact_st I p A \<longleftrightarrow> I (snd p) \<and> (\<forall>x. fst p = Ok x \<longleftrightarrow> A x)"

lemma exact_st_value: "I s \<Longrightarrow> exact_st I (r, s) (\<lambda>x. r = Ok x)"
  by (simp add: exact_st_def)

lemma exact_st_map_err: "exact_st I p A \<Longrightarrow> exact_st I (map_err_st f p) A"
  by (simp add: exact_st_def result_simps)

lemma exact_st_cong: "exact_st I p A \<Longrightarrow> (\<And>x. A x \<longleftrightarrow> B x) \<Longrightarrow> exact_st I p B"
  by (simp add: exact_st_def)

lemma exact_st_bind:
  assumes "exact_st I p A" "\<And>x s. A x \<Longrightarrow> I s \<Longrightarrow> exact_st I (f x s) (B x)"
  shows "exact_st I (bind_st p f) (\<lambda>y. \<exists>x. A x \<and> B x y)"
proof (cases p)
  case (Pair r s)
  show ?thesis
  proof (cases r)
    case (Ok x)
    then have "A x' \<longleftrightarrow> x' = x" for x' using assms(1) Pair by (auto simp: exact_st_def)
    then show ?thesis using assms Pair Ok by (simp add: exact_st_def)
  qed (use assms(1) Pair in \<open>auto simp: exact_st_def\<close>)
qed

text \<open>The sender of a proposal is a member whose certificate is valid and of a kind that may
  edit groups.\<close>

definition may_edit :: "verifier \<Rightarrow> u64 \<Rightarrow> (nat \<Rightarrow> spki_hash option) \<Rightarrow> mls_sender \<Rightarrow> bool" where
  "may_edit V now member sender \<longleftrightarrow>
    (\<exists>i h c. sender = SenderMember i \<and> member i = Some h \<and> verify_spki_hash V h now = Ok c
      \<and> cert_type c \<in> {Root, User, UserSession})"

definition credential_known :: "('x, 'k, 'c, 'z) openmls_scheme \<Rightarrow> verifier \<Rightarrow> u64 \<Rightarrow> bytes \<Rightarrow> bool" where
  "credential_known L V now cred \<longleftrightarrow>
    (\<exists>h c. credential_spki L cred = Ok h \<and> verify_spki_hash V h now = Ok c)"

definition remove_allowed ::
  "verifier \<Rightarrow> u64 \<Rightarrow> (nat \<Rightarrow> spki_hash option) \<Rightarrow> spki_hash list \<Rightarrow> mls_sender \<times> nat \<Rightarrow> bool" where
  "remove_allowed V now member required p \<longleftrightarrow>
    may_edit V now member (fst p) \<and> (\<exists>h. member (snd p) = Some h \<and> h \<notin> set required)"

definition add_allowed ::
  "('x, 'k, 'c, 'z) openmls_scheme \<Rightarrow> verifier \<Rightarrow> u64 \<Rightarrow> (nat \<Rightarrow> spki_hash option) \<Rightarrow> mls_sender \<times> 'k \<Rightarrow> bool" where
  "add_allowed L V now member p \<longleftrightarrow>
    may_edit V now member (fst p) \<and> (\<exists>kp. key_package_verify L V now (snd p) = Ok kp
      \<and> cert_type (kp_certificate kp) \<in> {User, UserSession})"

definition commit_allowed ::
  "('x, 'k, 'c, 'z) openmls_scheme \<Rightarrow> verifier \<Rightarrow> u64 \<Rightarrow> (spki_hash list, 'r) result
    \<Rightarrow> (nat \<Rightarrow> spki_hash option) \<Rightarrow> 'c \<Rightarrow> bool" where
  "commit_allowed L V now required member commit \<longleftrightarrow>
    (\<forall>cred \<in> set (credentials_to_verify L commit). credential_known L V now cred)
    \<and> (\<exists>req. required = Ok req
      \<and> (\<forall>p \<in> set (remove_proposals L commit). remove_allowed V now member req p))
    \<and> (\<forall>p \<in> set (add_proposals L commit). add_allowed L V now member p)"

lemma key_package_verify_Ok_iff [result_simps]:
  "key_package_verify L V now k = Ok kp \<longleftrightarrow>
    (\<exists>h. validate_key_package L k = Ok (kp_package kp)
      \<and> credential_spki L (leaf_credential (key_package_leaf L (kp_package kp))) = Ok h
      \<and> verify_spki_hash V h now = Ok (kp_certificate kp)
      \<and> leaf_signature_key (key_package_leaf L (kp_package kp)) = public_key (as_unverified (kp_certificate kp)))"
  by (cases kp) (auto simp: key_package_verify_def result_simps Let_def split: if_splits)

lemma check_edit_allowed_Ok_iff [result_simps]:
  "check_edit_allowed t = Ok u \<longleftrightarrow> t \<in> {Root, User, UserSession}"
  by (cases t) (simp_all add: check_edit_allowed_def)

lemma verify_credentials_Ok_iff [result_simps]:
  "verify_credentials L V now cs = Ok u \<longleftrightarrow> (\<forall>cred \<in> set cs. credential_known L V now cred)"
  by (induction cs) (auto simp: result_simps credential_known_def)

text \<open>The interface to a processor: \<^verbatim>\<open>get_member\<close> answers according to \<^verbatim>\<open>member_at\<close>, and neither
  that view nor the processor's invariant change.\<close>

locale member_lookup =
  fixes get_member :: "'s \<Rightarrow> bytes \<Rightarrow> nat \<Rightarrow> (spki_hash, 'p) result \<times> 's"
    and member_at :: "'s \<Rightarrow> bytes \<Rightarrow> nat \<Rightarrow> spki_hash option"
    and s_inv :: "'s \<Rightarrow> bool"
  assumes finds: "s_inv st \<Longrightarrow> fst (get_member st gid i) = Ok h \<longleftrightarrow> member_at st gid i = Some h"
    and keeps: "s_inv st \<Longrightarrow> s_inv (snd (get_member st gid i))
      \<and> member_at (snd (get_member st gid i)) = member_at st"
begin

lemma lookup: "s_inv st \<and> member_at st = m \<Longrightarrow>
    exact_st (\<lambda>st. s_inv st \<and> member_at st = m) (get_member st gid i) (\<lambda>h. m gid i = Some h)"
  using keeps finds by (auto simp: exact_st_def)

lemma check_sender_exact:
  assumes "s_inv st \<and> member_at st = m"
  shows "exact_st (\<lambda>st. s_inv st \<and> member_at st = m) (check_sender (\<lambda>st. get_member st gid) V now s st)
    (\<lambda>_. may_edit V now (m gid) s)"
proof (cases s)
  case (SenderMember i)
  show ?thesis
    unfolding check_sender_def SenderMember mls_sender.case
    by (rule exact_st_cong, rule exact_st_bind [OF exact_st_map_err [OF lookup [OF assms]]],
        rule exact_st_bind [OF exact_st_value], assumption, rule exact_st_value, assumption)
      (auto simp: result_simps may_edit_def)
qed (use assms in \<open>auto simp: check_sender_def may_edit_def exact_st_def\<close>)

lemma check_removes_exact:
  "s_inv st \<and> member_at st = m \<Longrightarrow>
    exact_st (\<lambda>st. s_inv st \<and> member_at st = m) (check_removes (\<lambda>st. get_member st gid) V now req ps st
      :: (unit, ('r, 'p) check_commit_error) result \<times> 's)
      (\<lambda>_. \<forall>p \<in> set ps. remove_allowed V now (m gid) req p)"
proof (induction ps arbitrary: st)
  case (Cons p ps)
  obtain s i where p: "p = (s, i)" by fastforce
  let ?I = "\<lambda>st. s_inv st \<and> member_at st = m"
  have rest: "exact_st ?I
      (if h \<in> set req then (Err (CannotRemoveRequired h) :: (unit, ('r, 'p) check_commit_error) result, st')
       else check_removes (\<lambda>st. get_member st gid) V now req ps st')
      (\<lambda>_. h \<notin> set req \<and> (\<forall>p \<in> set ps. remove_allowed V now (m gid) req p))"
    if "?I st'" for h st'
    using Cons.IH [OF that] that by (simp add: exact_st_def)
  show ?case
    unfolding p check_removes.simps
    by (rule exact_st_cong, rule exact_st_bind [OF check_sender_exact [OF Cons.prems]],
        rule exact_st_bind [OF exact_st_map_err [OF lookup]], assumption, rule rest)
      (auto simp: remove_allowed_def)
qed (simp add: exact_st_def)

lemma check_adds_exact:
  "s_inv st \<and> member_at st = m \<Longrightarrow>
    exact_st (\<lambda>st. s_inv st \<and> member_at st = m) (check_adds (L :: ('x, 'k, 'c, 'z) openmls_scheme) (\<lambda>st. get_member st gid) V now ps st
      :: (unit, ('r, 'p) check_commit_error) result \<times> 's)
      (\<lambda>_. \<forall>p \<in> set ps. add_allowed L V now (m gid) p)"
proof (induction ps arbitrary: st)
  case (Cons p ps)
  obtain s k where p: "p = (s, k)" by fastforce
  let ?I = "\<lambda>st. s_inv st \<and> member_at st = m"
  have rest: "exact_st ?I
      (case cert_type (kp_certificate kp) of
         User \<Rightarrow> check_adds L (\<lambda>st. get_member st gid) V now ps st'
       | UserSession \<Rightarrow> check_adds L (\<lambda>st. get_member st gid) V now ps st'
       | t \<Rightarrow> (Err (UnexpectedKeyPackageType t) :: (unit, ('r, 'p) check_commit_error) result, st'))
      (\<lambda>_. cert_type (kp_certificate kp) \<in> {User, UserSession}
        \<and> (\<forall>p \<in> set ps. add_allowed L V now (m gid) p))"
    if "?I st'" for kp :: "'k key_package" and st'
    using Cons.IH [OF that] that by (cases "cert_type (kp_certificate kp)") (simp_all add: exact_st_def)
  show ?case
    unfolding p check_adds.simps
    by (rule exact_st_cong, rule exact_st_bind [OF check_sender_exact [OF Cons.prems]],
        rule exact_st_bind [OF exact_st_value], assumption, rule rest)
      (auto simp: add_allowed_def result_simps)
qed (simp add: exact_st_def)

text \<open>The check of a commit passes exactly for the allowed commits.\<close>

lemma check_commit_exact:
  assumes "s_inv st \<and> member_at st = m"
  shows "exact_st (\<lambda>st. s_inv st \<and> member_at st = m)
    (check_commit L H get_member V required_of now g commit st)
    (\<lambda>_. commit_allowed L V now (required_of g) (m (to_group_id H g)) commit)"
  unfolding check_commit_def Let_def
  by (rule exact_st_cong, rule exact_st_bind [OF exact_st_value], rule assms,
      rule exact_st_bind [OF exact_st_value], assumption,
      rule exact_st_bind [OF check_removes_exact], assumption, rule check_adds_exact)
    (auto simp: commit_allowed_def result_simps)

end

end
