(* ===== verification/MlsServer.thy ===== *)
theory MlsServer
  imports MlsCommon
begin

text \<open>
  The server's side of group messaging: the processor that keeps the public state of every
  group (\<^verbatim>\<open>svalin_pki/src/mls/public_processor.rs\<close>) and the delivery service on top of it
  (\<^verbatim>\<open>svalin_pki/src/mls/server.rs\<close>). The processor runs in its own task and serves one request
  at a time, so its operations are functions on its state. Public groups (\<^verbatim>\<open>'g\<close>) and the
  storage they are kept in (\<^verbatim>\<open>'t\<close>) belong to OpenMLS; what the properties need of them is the
  predicate \<^verbatim>\<open>public_mls_ok\<close>.
\<close>

section \<open>Public groups of the library\<close>

datatype 'c processed_message_content =
    ApplicationMessage bytes
  | ProposalMessage
  | ExternalJoinProposalMessage
  | StagedCommitMessage 'c

text \<open>\<^verbatim>\<open>pg_check_external\<close> is \<^verbatim>\<open>PublicGroup::from_external\<close> on a storage that is dropped afterwards.
  \<^verbatim>\<open>pg_merge\<close> changes the group in memory and then writes it, so it returns both.\<close>

record ('x, 'k, 'c, 'g, 't) public_mls = "('x, 'k, 'c) openmls" +
  has_ratchet_tree :: "'x \<Rightarrow> bool"
  info_group_id :: "'x \<Rightarrow> bytes"
  pg_check_external :: "'x \<Rightarrow> ('g, string) result"
  pg_from_external :: "'t \<Rightarrow> 'x \<Rightarrow> ('g, string) result \<times> 't"
  pg_load :: "'t \<Rightarrow> bytes \<Rightarrow> ('g option, string) result"
  pg_group_id :: "'g \<Rightarrow> bytes"
  pg_members :: "'g \<Rightarrow> leaf_node list"
  pg_leaf :: "'g \<Rightarrow> nat \<Rightarrow> leaf_node option"
  pg_process :: "'g \<Rightarrow> 'x protocol_message \<Rightarrow> ('c processed_message_content, string) result"
  pg_merge :: "'t \<Rightarrow> 'g \<Rightarrow> 'c \<Rightarrow> (unit, string) result \<times> 'g \<times> 't"

section \<open>The public processor\<close>

record ('g, 't) public_processor =
  group_cache :: "bytes \<rightharpoonup> 'g"
  pp_storage :: 't

datatype get_public_group_error = UnknownGroup | PublicStorageError string

datatype processor_error =
    PpGetGroup get_public_group_error
  | PpCodec string
  | PpProcess string
  | PpMessageTypeNotAllowed
  | PpMemberNotInGroup
  | PpMerge string

datatype add_group_error =
    MissingRatchetTree
  | TempCreationError string
  | CreationError string
  | AddGroupCodec string

datatype 'c processed_content = UnknownContent | CommitContent 'c

record 'c processed_message =
  pm_group_id :: bytes
  pm_receivers :: "spki_hash list"
  pm_content :: "'c processed_content"

definition pp_get_group ::
  "('x, 'k, 'c, 'g, 't) public_mls \<Rightarrow> bytes \<Rightarrow> ('g, 't) public_processor
    \<Rightarrow> ('g, get_public_group_error) result \<times> ('g, 't) public_processor" where
  "pp_get_group L group_id self =
    (case group_cache self group_id of
       Some g \<Rightarrow> (Ok g, self)
     | None \<Rightarrow>
        (case pg_load L (pp_storage self) group_id of
           Err e \<Rightarrow> (Err (PublicStorageError e), self)
         | Panicked \<Rightarrow> (Panicked, self)
         | Ok None \<Rightarrow> (Err UnknownGroup, self)
         | Ok (Some g) \<Rightarrow> (Ok g, self \<lparr> group_cache := (group_cache self)(group_id \<mapsto> g) \<rparr>)))"

definition member_hashes ::
  "('x, 'k, 'c, 'z) openmls_scheme \<Rightarrow> leaf_node list \<Rightarrow> (spki_hash list, string) result" where
  "member_hashes L leaves = collect_results (map (\<lambda>leaf. credential_spki L (leaf_credential leaf)) leaves)"

definition pp_process_message ::
  "('x, 'k, 'c, 'g, 't) public_mls \<Rightarrow> 'x protocol_message \<Rightarrow> ('g, 't) public_processor
    \<Rightarrow> ('c processed_message, processor_error) result \<times> ('g, 't) public_processor" where
  "pp_process_message L message self =
    (let group_id = message_group_id L message in
     bind_st (map_err_st PpGetGroup (pp_get_group L group_id self)) (\<lambda>group self.
     bind_st (map_err PpCodec (member_hashes L (pg_members L group)), self) (\<lambda>current_members self.
     case message of
       PrivateMessage _ \<Rightarrow>
         (Ok \<lparr> pm_group_id = group_id, pm_receivers = current_members, pm_content = UnknownContent \<rparr>, self)
     | PublicMessage _ \<Rightarrow>
         bind_st (map_err PpProcess (pg_process L group message), self) (\<lambda>processed self.
         case processed of
           ApplicationMessage _ \<Rightarrow> (Panicked, self)
         | ProposalMessage \<Rightarrow> (Err PpMessageTypeNotAllowed, self)
         | ExternalJoinProposalMessage \<Rightarrow> (Err PpMessageTypeNotAllowed, self)
         | StagedCommitMessage commit \<Rightarrow>
             (Ok \<lparr> pm_group_id = group_id, pm_receivers = current_members,
                pm_content = CommitContent commit \<rparr>, self)))))"

definition pp_check_group ::
  "('x, 'k, 'c, 'g, 't) public_mls \<Rightarrow> 'x new_group \<Rightarrow> ('g, add_group_error) result" where
  "pp_check_group L new_group =
    (if \<not> has_ratchet_tree L (ng_group_info new_group) then Err MissingRatchetTree
     else map_err TempCreationError (pg_check_external L (ng_group_info new_group)))"

definition pp_add_group ::
  "('x, 'k, 'c, 'g, 't) public_mls \<Rightarrow> 'x new_group \<Rightarrow> ('g, 't) public_processor
    \<Rightarrow> (message_to_send option, add_group_error) result \<times> ('g, 't) public_processor" where
  "pp_add_group L new_group self =
    (if \<not> has_ratchet_tree L (ng_group_info new_group) then (Err MissingRatchetTree, self)
     else
       (case pg_from_external L (pp_storage self) (ng_group_info new_group) of (created, storage) \<Rightarrow>
        bind_st (map_err CreationError created, self \<lparr> pp_storage := storage \<rparr>) (\<lambda>group self.
        bind_st (map_err AddGroupCodec (member_hashes L (pg_members L group)), self) (\<lambda>members self.
        (Ok (case ng_welcome new_group of
               Some welcome \<Rightarrow> Some \<lparr> receivers_of = members, message_of = WelcomeTransport welcome \<rparr>
             | None \<Rightarrow> None), self)))))"

definition pp_get_member ::
  "('x, 'k, 'c, 'g, 't) public_mls \<Rightarrow> ('g, 't) public_processor \<Rightarrow> bytes \<Rightarrow> nat
    \<Rightarrow> (spki_hash, processor_error) result \<times> ('g, 't) public_processor" where
  "pp_get_member L self group_id index =
    bind_st (map_err_st PpGetGroup (pp_get_group L group_id self)) (\<lambda>group self.
    (case pg_leaf L group index of
       None \<Rightarrow> Err PpMemberNotInGroup
     | Some leaf \<Rightarrow> map_err PpCodec (credential_spki L (leaf_credential leaf)), self))"

definition pp_commit ::
  "('x, 'k, 'c, 'g, 't) public_mls \<Rightarrow> bytes \<Rightarrow> 'c \<Rightarrow> ('g, 't) public_processor
    \<Rightarrow> (unit, processor_error) result \<times> ('g, 't) public_processor" where
  "pp_commit L group_id commit self =
    bind_st (map_err_st PpGetGroup (pp_get_group L group_id self)) (\<lambda>group self.
    case pg_merge L (pp_storage self) group commit of (merged, group', storage) \<Rightarrow>
    (map_err PpMerge merged,
     self \<lparr> group_cache := (group_cache self)(group_id \<mapsto> group'), pp_storage := storage \<rparr>))"

section \<open>The delivery service\<close>

datatype add_device_group_error =
    AdgCodec string
  | AdgAddGroup add_group_error
  | AdgParseGroupId parse_group_id_error
  | AdgRetriever retriever_error
  | AdgVerifier verify_error
  | UnexpectedGroup
  | InvalidGroupId
  | WrongMembers

text \<open>What the service works with besides its processor: root, trust store and clock.\<close>

record mls_env =
  env_crypto :: crypto
  env_hex :: hex_crate
  env_root :: root_certificate
  env_trust_store :: trust_store
  env_now :: u64

definition env_verifier :: "mls_env \<Rightarrow> verifier" where
  "env_verifier E = trust_store_verifier (env_crypto E) (env_trust_store E)"

definition env_required :: "mls_env \<Rightarrow> svalin_group_id \<Rightarrow> (spki_hash list, retriever_error) result" where
  "env_required E = get_required_group_members (env_crypto E) (env_root E) (env_trust_store E) (env_now E)"

definition server_verify_key_package ::
  "('x, 'k, 'c, 'z) openmls_scheme \<Rightarrow> mls_env \<Rightarrow> 'k \<Rightarrow> spki_hash \<Rightarrow> ('k key_package, key_package_error) result" where
  "server_verify_key_package L E package expected =
    and_then (key_package_verify L (env_verifier E) (env_now E) package) (\<lambda>verified.
    if kp_spki_hash verified \<noteq> expected then Err KpSpkiHashMismatch else Ok verified)"

definition check_group_subject :: "mls_env \<Rightarrow> svalin_group_id \<Rightarrow> (unit, add_device_group_error) result" where
  "check_group_subject E svalin_id =
    (case group_subject svalin_id of
       None \<Rightarrow> Ok ()
     | Some hash \<Rightarrow>
        and_then (map_err AdgVerifier (verify_spki_hash (env_verifier E) hash (env_now E))) (\<lambda>certificate.
        if cert_type certificate \<noteq> Agent then Err InvalidGroupId else Ok ()))"

definition add_svalin_group ::
  "('x, 'k, 'c, 'g, 't) public_mls \<Rightarrow> mls_env \<Rightarrow> 'x new_group \<Rightarrow> ('g, 't) public_processor
    \<Rightarrow> (message_to_send option, add_device_group_error) result \<times> ('g, 't) public_processor" where
  "add_svalin_group L E new_group st =
    bind_st (map_err AdgAddGroup (pp_check_group L new_group), st) (\<lambda>temp_group st.
    bind_st (map_err AdgCodec (member_hashes L (pg_members L temp_group)), st) (\<lambda>members st.
    bind_st (map_err AdgParseGroupId (from_group_id (env_hex E) (pg_group_id L temp_group)), st) (\<lambda>svalin_id st.
    bind_st (check_group_subject E svalin_id, st) (\<lambda>_ st.
    bind_st (map_err AdgRetriever (env_required E svalin_id), st) (\<lambda>required_members st.
    if set required_members \<noteq> set members then (Err WrongMembers, st)
    else map_err_st AdgAddGroup (pp_add_group L new_group st))))))"

definition add_device_group ::
  "('x, 'k, 'c, 'g, 't) public_mls \<Rightarrow> mls_env \<Rightarrow> 'x new_group \<Rightarrow> ('g, 't) public_processor
    \<Rightarrow> (message_to_send option, add_device_group_error) result \<times> ('g, 't) public_processor" where
  "add_device_group L E new_group st =
    bind_st (map_err AdgParseGroupId
      (from_group_id (env_hex E) (info_group_id L (ng_group_info new_group))), st) (\<lambda>svalin_id st.
    case svalin_id of
      DeviceGroup _ \<Rightarrow> add_svalin_group L E new_group st
    | DeviceMetaGroup _ \<Rightarrow> add_svalin_group L E new_group st
    | _ \<Rightarrow> (Err UnexpectedGroup, st))"

datatype server_mls_error =
    SmUnpack unpack_error
  | SmProcess processor_error
  | SmParse parse_group_id_error
  | SmAddGroup add_device_group_error

definition server_check_commit ::
  "('x, 'k, 'c, 'g, 't) public_mls \<Rightarrow> mls_env \<Rightarrow> svalin_group_id \<Rightarrow> 'c \<Rightarrow> ('g, 't) public_processor
    \<Rightarrow> (unit, (retriever_error, processor_error) check_commit_error) result \<times> ('g, 't) public_processor" where
  "server_check_commit L E =
    check_commit L (env_hex E) (pp_get_member L) (env_verifier E) (env_required E) (env_now E)"

text \<open>A commit that comes as a plain group message: merged only if it adds nobody and passes
  the check; the message is forwarded to the members in any case.\<close>

definition process_group_message ::
  "('x, 'k, 'c, 'g, 't) public_mls \<Rightarrow> mls_env \<Rightarrow> bytes \<Rightarrow> 'x protocol_message \<Rightarrow> ('g, 't) public_processor
    \<Rightarrow> (message_to_send list, server_mls_error) result \<times> ('g, 't) public_processor" where
  "process_group_message L E raw message st =
    bind_st (map_err_st SmProcess (pp_process_message L message st)) (\<lambda>processed st.
    bind_st (map_err SmParse (from_group_id (env_hex E) (pm_group_id processed)), st) (\<lambda>group_id st.
    bind_st
      (case pm_content processed of
         UnknownContent \<Rightarrow> (Ok (), st)
       | CommitContent commit \<Rightarrow>
          if length (add_proposals L commit) = 0 then
            (case server_check_commit L E group_id commit st of
               (Err _, st) \<Rightarrow> (Ok (), st)
             | (Panicked, st) \<Rightarrow> (Panicked, st)
             | (Ok _, st) \<Rightarrow> map_err_st SmProcess (pp_commit L (to_group_id (env_hex E) group_id) commit st))
          else (Ok (), st)) (\<lambda>_ st.
    (Ok [\<lparr> receivers_of = pm_receivers processed, message_of = MemberGroupMessageTransport raw \<rparr>], st))))"

text \<open>The hashes of the added members; an undecodable one panics, see the \<^verbatim>\<open>expect\<close>.\<close>

definition added_members ::
  "('x, 'k, 'c, 'z) openmls_scheme \<Rightarrow> 'c \<Rightarrow> (spki_hash list, 'e) result" where
  "added_members L commit =
    expect (member_hashes L (map (key_package_leaf L \<circ> snd) (add_proposals L commit)))"

definition handle_add_to_group ::
  "('x, 'k, 'c, 'g, 't) public_mls \<Rightarrow> mls_env \<Rightarrow> 'x add_to_group \<Rightarrow> ('g, 't) public_processor
    \<Rightarrow> (message_to_send list, server_mls_error) result \<times> ('g, 't) public_processor" where
  "handle_add_to_group L E add_to_group st =
    bind_st (map_err_st SmProcess (pp_process_message L (PublicMessage (ag_commit add_to_group)) st)) (\<lambda>processed st.
    bind_st (map_err SmParse (from_group_id (env_hex E) (pm_group_id processed)), st) (\<lambda>group_id st.
    let forwarded = \<lparr> receivers_of = pm_receivers processed,
                      message_of = MemberAddToGroupTransport (ag_commit_bytes add_to_group) \<rparr> in
    case pm_content processed of
      UnknownContent \<Rightarrow> (Ok [forwarded], st)
    | CommitContent commit \<Rightarrow>
       (case server_check_commit L E group_id commit st of
          (Err _, st) \<Rightarrow> (Ok [forwarded], st)
        | (Panicked, st) \<Rightarrow> (Panicked, st)
        | (Ok _, st) \<Rightarrow>
           bind_st (added_members L commit, st) (\<lambda>new_members st.
           bind_st (map_err_st SmProcess (pp_commit L (to_group_id (env_hex E) group_id) commit st)) (\<lambda>_ st.
           (Ok [forwarded,
             \<lparr> receivers_of = new_members, message_of = WelcomeTransport (ag_welcome add_to_group) \<rparr>], st))))))"

definition process_message ::
  "('x, 'k, 'c, 'g, 't) public_mls \<Rightarrow> mls_env \<Rightarrow> message_to_server_transport \<Rightarrow> ('g, 't) public_processor
    \<Rightarrow> (message_to_send list, server_mls_error) result \<times> ('g, 't) public_processor" where
  "process_message L E message st =
    bind_st (map_err SmUnpack (unpack_to_server L message), st) (\<lambda>message st.
    case message of
      ServerGroupMessage raw protocol_message \<Rightarrow> process_group_message L E raw protocol_message st
    | ServerNewDeviceGroup device_group \<Rightarrow>
        bind_st (map_err_st SmAddGroup (add_device_group L E device_group st)) (\<lambda>to_send st.
        (Ok (case to_send of None \<Rightarrow> [] | Some m \<Rightarrow> [m]), st))
    | ServerAddToGroup add_to_group \<Rightarrow> handle_add_to_group L E add_to_group st)"

section \<open>What the library promises\<close>

text \<open>Creating a group from its published information yields the same group whatever storage
  it is kept in, and what a storage holds after an operation it held before, or it is the
  group just written. Merging a commit brings in only leaves of the group it was staged on
  and leaves whose credentials \<^verbatim>\<open>credentials_to_verify\<close> lists.\<close>

definition public_mls_ok :: "('x, 'k, 'c, 'g, 't) public_mls \<Rightarrow> bool" where
  "public_mls_ok L \<longleftrightarrow>
    (\<forall>t i g t'. pg_from_external L t i = (Ok g, t') \<longrightarrow> pg_check_external L i = Ok g)
    \<and> (\<forall>t i k g. pg_load L (snd (pg_from_external L t i)) k = Ok (Some g) \<longrightarrow>
        pg_load L t k = Ok (Some g) \<or> pg_check_external L i = Ok g \<and> pg_group_id L g = k)
    \<and> (\<forall>t g c r g' t' k h. pg_merge L t g c = (r, g', t') \<and> pg_load L t' k = Ok (Some h) \<longrightarrow>
        pg_load L t k = Ok (Some h) \<or> h = g')
    \<and> (\<forall>t g g0 m c r g' t' leaf. pg_merge L t g c = (r, g', t') \<and> pg_process L g0 m = Ok (StagedCommitMessage c)
        \<and> leaf \<in> set (pg_members L g') \<longrightarrow>
        leaf \<in> set (pg_members L g) \<union> set (pg_members L g0)
        \<or> leaf_credential leaf \<in> set (credentials_to_verify L c))"

section \<open>Lemmas\<close>

text \<open>The group that the processor has under an id, cached or stored.\<close>

definition pp_group :: "('x, 'k, 'c, 'g, 't) public_mls \<Rightarrow> ('g, 't) public_processor \<Rightarrow> bytes \<Rightarrow> 'g option" where
  "pp_group L st gid =
    (case group_cache st gid of
       Some g \<Rightarrow> Some g
     | None \<Rightarrow> (case pg_load L (pp_storage st) gid of Ok (Some g) \<Rightarrow> Some g | _ \<Rightarrow> None))"

definition leaf_hash :: "('x, 'k, 'c, 'z) openmls_scheme \<Rightarrow> leaf_node \<Rightarrow> spki_hash option" where
  "leaf_hash L leaf = (case credential_spki L (leaf_credential leaf) of Ok h \<Rightarrow> Some h | _ \<Rightarrow> None)"

definition pp_member_at ::
  "('x, 'k, 'c, 'g, 't) public_mls \<Rightarrow> ('g, 't) public_processor \<Rightarrow> bytes \<Rightarrow> nat \<Rightarrow> spki_hash option" where
  "pp_member_at L st gid i =
    Option.bind (pp_group L st gid) (\<lambda>g. Option.bind (pg_leaf L g i) (leaf_hash L))"

lemma pp_get_group_spec:
  "fst (pp_get_group L gid st) = Ok g \<longleftrightarrow> pp_group L st gid = Some g"
  "pp_group L (snd (pp_get_group L gid st)) = pp_group L st"
  "pp_storage (snd (pp_get_group L gid st)) = pp_storage st"
  by (auto simp: pp_get_group_def pp_group_def fun_eq_iff split: option.splits result.splits)

lemma pp_get_group_OkD:
  assumes "pp_get_group L gid st = (Ok g, st')"
  shows "pp_group L st gid = Some g" "pp_group L st' = pp_group L st" "group_cache st' gid = Some g"
    "pp_storage st' = pp_storage st"
proof -
  show "pp_group L st gid = Some g" using pp_get_group_spec(1) [of L gid st g] assms by simp
  show "pp_group L st' = pp_group L st" using pp_get_group_spec(2) [of L gid st] assms by simp
  show "pp_storage st' = pp_storage st" using pp_get_group_spec(3) [of L gid st] assms by simp
  show "group_cache st' gid = Some g"
    using assms by (auto simp: pp_get_group_def split: option.splits result.splits)
qed

lemma pp_get_member_spec:
  "fst (pp_get_member L st gid i) = Ok h \<longleftrightarrow> pp_member_at L st gid i = Some h"
  "pp_group L (snd (pp_get_member L st gid i)) = pp_group L st"
  "pp_storage (snd (pp_get_member L st gid i)) = pp_storage st"
proof -
  obtain r st1 where g: "pp_get_group L gid st = (r, st1)" by fastforce
  have st1: "pp_group L st1 = pp_group L st" "pp_storage st1 = pp_storage st"
    using pp_get_group_spec(2,3) [of L gid st] g by simp_all
  then show "pp_group L (snd (pp_get_member L st gid i)) = pp_group L st"
    "pp_storage (snd (pp_get_member L st gid i)) = pp_storage st"
    by (cases r; simp add: pp_get_member_def g map_err_st_def)+
  have r: "r = Ok g' \<longleftrightarrow> pp_group L st gid = Some g'" for g'
    using pp_get_group_spec(1) [of L gid st g'] g by simp
  show "fst (pp_get_member L st gid i) = Ok h \<longleftrightarrow> pp_member_at L st gid i = Some h"
  proof (cases "pp_group L st gid")
    case (Some g')
    then have "fst (pp_get_member L st gid i) = (case pg_leaf L g' i of
        None \<Rightarrow> Err PpMemberNotInGroup
      | Some leaf \<Rightarrow> map_err PpCodec (credential_spki L (leaf_credential leaf)))"
      using r [of g'] g by (simp add: pp_get_member_def map_err_st_def)
    then show ?thesis
      by (simp add: pp_member_at_def Some leaf_hash_def result_simps split: option.splits result.splits)
  next
    case None
    then have "\<nexists>g'. r = Ok g'" using r by simp
    then show ?thesis
      using None g by (cases r) (simp_all add: pp_get_member_def map_err_st_def pp_member_at_def)
  qed
qed

text \<open>The processor as a source of members for the commit check; the check changes neither
  the groups nor the storage.\<close>

interpretation pp: member_lookup "pp_get_member L" "pp_member_at L"
    "\<lambda>st. pp_group L st = G \<and> pp_storage st = t" for L G t
proof unfold_locales
  fix st gid i h
  assume st: "pp_group L st = G \<and> pp_storage st = t"
  show "fst (pp_get_member L st gid i) = Ok h \<longleftrightarrow> pp_member_at L st gid i = Some h"
    by (rule pp_get_member_spec(1))
  show "(pp_group L (snd (pp_get_member L st gid i)) = G \<and> pp_storage (snd (pp_get_member L st gid i)) = t)
      \<and> pp_member_at L (snd (pp_get_member L st gid i)) = pp_member_at L st"
    using st pp_get_member_spec(2,3) [of L st gid i] by (simp add: pp_member_at_def fun_eq_iff)
qed

lemma server_check_commit_spec:
  assumes "server_check_commit L E g c st = (r, st')"
  shows "pp_group L st' = pp_group L st" "pp_storage st' = pp_storage st"
    "r = Ok () \<longleftrightarrow> commit_allowed L (env_verifier E) (env_now E) (env_required E g)
      (pp_member_at L st (to_group_id (env_hex E) g)) c"
proof -
  have "exact_st (\<lambda>st'. (pp_group L st' = pp_group L st \<and> pp_storage st' = pp_storage st)
      \<and> pp_member_at L st' = pp_member_at L st) (server_check_commit L E g c st)
    (\<lambda>_. commit_allowed L (env_verifier E) (env_now E) (env_required E g)
      (pp_member_at L st (to_group_id (env_hex E) g)) c)"
    unfolding server_check_commit_def by (rule pp.check_commit_exact) simp
  then show "pp_group L st' = pp_group L st" "pp_storage st' = pp_storage st"
    "r = Ok () \<longleftrightarrow> commit_allowed L (env_verifier E) (env_now E) (env_required E g)
      (pp_member_at L st (to_group_id (env_hex E) g)) c"
    using assms by (simp_all add: exact_st_def)
qed

text \<open>The groups that the processor holds, in its cache or in storage.\<close>

definition pp_holds :: "('x, 'k, 'c, 'g, 't) public_mls \<Rightarrow> ('g, 't) public_processor \<Rightarrow> 'g \<Rightarrow> bool" where
  "pp_holds L st g \<longleftrightarrow> (\<exists>k. group_cache st k = Some g) \<or> (\<exists>k. pg_load L (pp_storage st) k = Ok (Some g))"

lemma pp_group_eq_Some_iff:
  "pp_group L st gid = Some g \<longleftrightarrow> group_cache st gid = Some g
    \<or> group_cache st gid = None \<and> pg_load L (pp_storage st) gid = Ok (Some g)"
  by (auto simp: pp_group_def split: option.splits result.splits)

lemma pp_holds_group:
  "pp_holds L st g \<longleftrightarrow> (\<exists>k. pp_group L st k = Some g) \<or> (\<exists>k. pg_load L (pp_storage st) k = Ok (Some g))"
  unfolding pp_holds_def pp_group_eq_Some_iff by blast

lemma pp_holds_cong:
  "pp_group L st' = pp_group L st \<Longrightarrow> pp_storage st' = pp_storage st \<Longrightarrow> pp_holds L st' = pp_holds L st"
  by (simp add: pp_holds_group fun_eq_iff)

lemma pp_process_message_same:
  "pp_group L (snd (pp_process_message L m st)) = pp_group L st
    \<and> pp_storage (snd (pp_process_message L m st)) = pp_storage st"
proof -
  let ?P = "\<lambda>st'. pp_group L st' = pp_group L st \<and> pp_storage st' = pp_storage st"
  have "?P (snd (pp_get_group L (message_group_id L m) st))" by (simp add: pp_get_group_spec)
  then show ?thesis
    unfolding pp_process_message_def Let_def
    by (intro bind_st_inv [where P = ?P])
      (auto split: protocol_message.splits processed_message_content.splits intro!: bind_st_inv [where P = ?P])
qed

lemma pp_process_message_OkD:
  assumes "pp_process_message L m st = (Ok p, st')"
  shows "pm_group_id p = message_group_id L m"
    "\<exists>g. pp_group L st (message_group_id L m) = Some g
      \<and> member_hashes L (pg_members L g) = Ok (pm_receivers p)
      \<and> (\<forall>c. pm_content p = CommitContent c \<longleftrightarrow>
          (\<exists>x. m = PublicMessage x) \<and> pg_process L g m = Ok (StagedCommitMessage c))"
proof -
  let ?gid = "message_group_id L m"
  from assms obtain g st1 ms where g: "pp_get_group L ?gid st = (Ok g, st1)"
      "member_hashes L (pg_members L g) = Ok ms"
    and rest: "(case m of
       PrivateMessage _ \<Rightarrow>
         (Ok \<lparr> pm_group_id = ?gid, pm_receivers = ms, pm_content = UnknownContent \<rparr>, st1)
     | PublicMessage _ \<Rightarrow>
         bind_st (map_err PpProcess (pg_process L g m), st1) (\<lambda>processed self.
         case processed of
           ApplicationMessage _ \<Rightarrow> (Panicked, self)
         | ProposalMessage \<Rightarrow> (Err PpMessageTypeNotAllowed, self)
         | ExternalJoinProposalMessage \<Rightarrow> (Err PpMessageTypeNotAllowed, self)
         | StagedCommitMessage commit \<Rightarrow>
             (Ok \<lparr> pm_group_id = ?gid, pm_receivers = ms, pm_content = CommitContent commit \<rparr>, self)))
      = (Ok p, st')"
    by (auto simp: pp_process_message_def Let_def bind_st_Ok_iff map_err_st_Ok_iff map_err_Ok_iff)
  have p: "p = \<lparr> pm_group_id = ?gid, pm_receivers = ms, pm_content = UnknownContent \<rparr> \<and> (\<exists>x. m = PrivateMessage x)
      \<or> (\<exists>c x. p = \<lparr> pm_group_id = ?gid, pm_receivers = ms, pm_content = CommitContent c \<rparr>
          \<and> m = PublicMessage x \<and> pg_process L g m = Ok (StagedCommitMessage c))"
  proof (cases m)
    case (PublicMessage x)
    with rest obtain q where q: "pg_process L g m = Ok q" by (auto simp: bind_st_Ok_iff map_err_Ok_iff)
    then show ?thesis using rest PublicMessage by (cases q) auto
  qed (use rest in auto)
  show "pm_group_id p = ?gid" using p by auto
  have "pp_group L st ?gid = Some g" using pp_get_group_OkD(1) [OF g(1)] .
  then show "\<exists>g. pp_group L st ?gid = Some g \<and> member_hashes L (pg_members L g) = Ok (pm_receivers p)
      \<and> (\<forall>c. pm_content p = CommitContent c \<longleftrightarrow>
          (\<exists>x. m = PublicMessage x) \<and> pg_process L g m = Ok (StagedCommitMessage c))"
    using g(2) p by auto
qed

lemma pp_commit_holds:
  assumes "public_mls_ok L" "pp_holds L (snd (pp_commit L gid c st)) g'"
  shows "pp_holds L st g' \<or> (\<exists>g t. pp_group L st gid = Some g \<and> g' = fst (snd (pg_merge L t g c)))"
proof -
  obtain r st1 where g: "pp_get_group L gid st = (r, st1)" by fastforce
  have st1: "pp_group L st1 = pp_group L st" "pp_storage st1 = pp_storage st"
    using pp_get_group_spec(2,3) [of L gid st] g by simp_all
  show ?thesis
  proof (cases r)
    case (Ok grp)
    then have grp: "pp_group L st gid = Some grp" using pp_get_group_OkD(1) [of L gid st grp st1] g by simp
    obtain mr grp' t' where m: "pg_merge L (pp_storage st) grp c = (mr, grp', t')"
      using prod_cases3 by blast
    have st': "snd (pp_commit L gid c st) =
        st1 \<lparr> group_cache := (group_cache st1)(gid \<mapsto> grp'), pp_storage := t' \<rparr>"
      using g Ok m st1(2) by (simp add: pp_commit_def map_err_st_def)
    have load: "pg_load L t' k = Ok (Some h) \<Longrightarrow> pg_load L (pp_storage st) k = Ok (Some h) \<or> h = grp'" for k h
      using assms(1) m unfolding public_mls_ok_def by blast
    have "g' = grp' \<or> pp_holds L st1 g'"
      using assms(2) load st1(2) unfolding st' pp_holds_def by (auto split: if_splits)
    then show ?thesis using grp m pp_holds_cong [OF st1] by (metis fst_conv snd_conv)
  qed (use assms(2) g st1 pp_holds_cong [OF st1] in \<open>simp_all add: pp_commit_def map_err_st_def\<close>)
qed

section \<open>How the groups evolve\<close>

text \<open>A group that the service creates: it is what its published information describes, and
  its members are exactly the required ones.\<close>

definition created_group :: "('x, 'k, 'c, 'g, 't) public_mls \<Rightarrow> mls_env \<Rightarrow> 'x \<Rightarrow> 'g \<Rightarrow> bool" where
  "created_group L E info g \<longleftrightarrow> pg_check_external L info = Ok g
    \<and> (\<exists>svalin_id members req. from_group_id (env_hex E) (pg_group_id L g) = Ok svalin_id
      \<and> check_group_subject E svalin_id = Ok ()
      \<and> member_hashes L (pg_members L g) = Ok members
      \<and> env_required E svalin_id = Ok req \<and> set req = set members)"

text \<open>A group that results from merging an allowed commit. The commit was staged on the group
  with the message's id and is merged into the group with the canonical id.\<close>

definition merged_group ::
  "('x, 'k, 'c, 'g, 't) public_mls \<Rightarrow> mls_env \<Rightarrow> ('g, 't) public_processor \<Rightarrow> 'x protocol_message \<Rightarrow> 'g \<Rightarrow> bool" where
  "merged_group L E st m g' \<longleftrightarrow> (\<exists>svalin_id staged_on g c t.
    from_group_id (env_hex E) (message_group_id L m) = Ok svalin_id
    \<and> pp_group L st (message_group_id L m) = Some staged_on
    \<and> pg_process L staged_on m = Ok (StagedCommitMessage c)
    \<and> pp_group L st (to_group_id (env_hex E) svalin_id) = Some g
    \<and> commit_allowed L (env_verifier E) (env_now E) (env_required E svalin_id)
        (pp_member_at L st (to_group_id (env_hex E) svalin_id)) c
    \<and> g' = fst (snd (pg_merge L t g c)))"

lemma pp_add_group_holds:
  assumes "public_mls_ok L" "pp_holds L (snd (pp_add_group L ng st)) g"
  shows "pp_holds L st g \<or> pg_check_external L (ng_group_info ng) = Ok g"
proof (cases "has_ratchet_tree L (ng_group_info ng)")
  case True
  obtain r t' where e: "pg_from_external L (pp_storage st) (ng_group_info ng) = (r, t')" by fastforce
  have st': "snd (pp_add_group L ng st) = st \<lparr> pp_storage := t' \<rparr>"
    using True e by (cases r; cases "member_hashes L (pg_members L (the_ok r))")
      (simp_all add: pp_add_group_def)
  have load: "pg_load L t' k = Ok (Some h) \<Longrightarrow>
      pg_load L (pp_storage st) k = Ok (Some h) \<or> pg_check_external L (ng_group_info ng) = Ok h" for k h
    using assms(1) e unfolding public_mls_ok_def by (metis snd_conv)
  show ?thesis
    using assms(2) load unfolding st' pp_holds_def by auto
qed (use assms(2) in \<open>simp add: pp_add_group_def\<close>)

lemma add_svalin_group_holds:
  assumes "public_mls_ok L" "pp_holds L (snd (add_svalin_group L E ng st)) g"
  shows "pp_holds L st g \<or> created_group L E (ng_group_info ng) g"
proof (rule ccontr)
  assume not: "\<not> ?thesis"
  let ?P = "\<lambda>st'. \<not> pp_holds L st' g"
  have "?P (snd (add_svalin_group L E ng st))"
    unfolding add_svalin_group_def
  proof (intro bind_st_inv [where P = ?P]; (simp only: snd_conv)?)
    fix temp s1 ms s2 svalin_id s3 u s4 req s5
    assume A: "(map_err AdgAddGroup (pp_check_group L ng), st) = (Ok temp, s1)"
      "(map_err AdgCodec (member_hashes L (pg_members L temp)), s1) = (Ok ms, s2)"
      "(map_err AdgParseGroupId (from_group_id (env_hex E) (pg_group_id L temp)), s2) = (Ok svalin_id, s3)"
      "(check_group_subject E svalin_id, s3) = (Ok u, s4)"
      "(map_err AdgRetriever (env_required E svalin_id), s4) = (Ok req, s5)"
    have st: "s5 = st" using A by simp
    have temp: "pg_check_external L (ng_group_info ng) = Ok temp"
      using A(1) by (auto simp: pp_check_group_def result_simps split: if_splits)
    show "?P (snd (if set req \<noteq> set ms then (Err WrongMembers, s5)
        else map_err_st AdgAddGroup (pp_add_group L ng s5)))"
    proof (cases "set req = set ms")
      case True
      have "created_group L E (ng_group_info ng) temp"
        using temp A True by (auto simp: created_group_def result_simps)
      then have "pg_check_external L (ng_group_info ng) \<noteq> Ok g" using not temp by auto
      then show ?thesis using True not st pp_add_group_holds [OF assms(1), of ng st g] by auto
    qed (use not st in simp)
  qed (use not in simp_all)
  then show False using assms(2) by blast
qed

lemma server_commit_holds:
  assumes "public_mls_ok L" "pp_process_message L m st = (Ok p, st1)" "pm_content p = CommitContent c"
    "from_group_id (env_hex E) (pm_group_id p) = Ok svalin_id"
    "server_check_commit L E svalin_id c st1 = (Ok (), st2)"
    "pp_holds L (snd (pp_commit L (to_group_id (env_hex E) svalin_id) c st2)) g"
  shows "pp_holds L st g \<or> merged_group L E st m g"
proof -
  note D = pp_process_message_OkD [OF assms(2)]
  have st1: "pp_group L st1 = pp_group L st" "pp_storage st1 = pp_storage st"
    using pp_process_message_same [of L m st] assms(2) by simp_all
  note S = server_check_commit_spec [OF assms(5)]
  have st2: "pp_group L st2 = pp_group L st" "pp_storage st2 = pp_storage st" using st1 S by simp_all
  have "pp_member_at L st1 = pp_member_at L st" using st1(1) by (simp add: pp_member_at_def fun_eq_iff)
  then have allowed: "commit_allowed L (env_verifier E) (env_now E) (env_required E svalin_id)
      (pp_member_at L st (to_group_id (env_hex E) svalin_id)) c"
    using S(3) by simp
  from pp_commit_holds [OF assms(1,6)] show ?thesis
  proof
    assume "\<exists>g0 t. pp_group L st2 (to_group_id (env_hex E) svalin_id) = Some g0
      \<and> g = fst (snd (pg_merge L t g0 c))"
    then show ?thesis
      using D assms(3,4) allowed st2(1) unfolding merged_group_def by metis
  qed (use pp_holds_cong [OF st2] in simp)
qed

text \<open>Both kinds of messages that carry a commit: after the processor has looked at the message,
  only \<^verbatim>\<open>server_commit_holds\<close> can change a group.\<close>

lemma process_group_message_holds:
  assumes "public_mls_ok L" "pp_holds L (snd (process_group_message L E raw m st)) g"
  shows "pp_holds L st g \<or> merged_group L E st m g"
proof (rule ccontr)
  assume not: "\<not> ?thesis"
  let ?P = "\<lambda>st'. \<not> pp_holds L st' g"
  obtain r1 st1 where p: "pp_process_message L m st = (r1, st1)" by fastforce
  have st1: "?P st1"
    using not pp_process_message_same [of L m st] p pp_holds_cong [of L st1 st] by simp
  have "?P (snd (process_group_message L E raw m st))"
    unfolding process_group_message_def p
  proof (intro bind_st_inv [where P = ?P]; (simp only: map_err_st_sel snd_conv)?)
    fix pm s1 svalin_id s2
    assume A: "map_err_st SmProcess (r1, st1) = (Ok pm, s1)"
      "(map_err SmParse (from_group_id (env_hex E) (pm_group_id pm)), s1) = (Ok svalin_id, s2)"
    then have s: "s2 = st1" "r1 = Ok pm" by (auto simp: result_simps)
    show "?P (snd (case pm_content pm of
         UnknownContent \<Rightarrow> (Ok (), s2)
       | CommitContent commit \<Rightarrow>
          if length (add_proposals L commit) = 0 then
            (case server_check_commit L E svalin_id commit s2 of
               (Err _, st) \<Rightarrow> (Ok (), st)
             | (Panicked, st) \<Rightarrow> (Panicked, st)
             | (Ok _, st) \<Rightarrow> map_err_st SmProcess (pp_commit L (to_group_id (env_hex E) svalin_id) commit st))
          else (Ok (), s2)))"
    proof (cases "pm_content pm")
      case (CommitContent c)
      obtain r2 st2 where k: "server_check_commit L E svalin_id c st1 = (r2, st2)" by fastforce
      have "?P st2"
        using st1 server_check_commit_spec(1,2) [OF k] pp_holds_cong [of L st2 st1] by simp
      moreover have "?P (snd (pp_commit L (to_group_id (env_hex E) svalin_id) c st2))" if "r2 = Ok ()"
        using server_commit_holds [OF assms(1) p [unfolded s(2)] CommitContent _ k [unfolded that]] A(2) not
        by (auto simp: result_simps)
      ultimately show ?thesis using CommitContent k s(1) st1 by (cases r2) auto
    qed (use st1 s in simp)
  qed (use st1 in \<open>auto simp: map_err_st_def\<close>)
  then show False using assms(2) by blast
qed

lemma handle_add_to_group_holds:
  assumes "public_mls_ok L" "pp_holds L (snd (handle_add_to_group L E a st)) g"
  shows "pp_holds L st g \<or> merged_group L E st (PublicMessage (ag_commit a)) g"
proof (rule ccontr)
  assume not: "\<not> ?thesis"
  let ?P = "\<lambda>st'. \<not> pp_holds L st' g" and ?m = "PublicMessage (ag_commit a)"
  obtain r1 st1 where p: "pp_process_message L ?m st = (r1, st1)" by fastforce
  have st1: "?P st1"
    using not pp_process_message_same [of L ?m st] p pp_holds_cong [of L st1 st] by simp
  have "?P (snd (handle_add_to_group L E a st))"
    unfolding handle_add_to_group_def p Let_def
  proof (intro bind_st_inv [where P = ?P]; (simp only: map_err_st_sel snd_conv)?)
    fix pm s1 svalin_id s2
    assume A: "map_err_st SmProcess (r1, st1) = (Ok pm, s1)"
      "(map_err SmParse (from_group_id (env_hex E) (pm_group_id pm)), s1) = (Ok svalin_id, s2)"
    then have s: "s2 = st1" "r1 = Ok pm" by (auto simp: result_simps)
    let ?f = "\<lparr> receivers_of = pm_receivers pm, message_of = MemberAddToGroupTransport (ag_commit_bytes a) \<rparr>"
    show "?P (snd (case pm_content pm of
        UnknownContent \<Rightarrow> (Ok [?f], s2)
      | CommitContent commit \<Rightarrow>
         (case server_check_commit L E svalin_id commit s2 of
            (Err _, st) \<Rightarrow> (Ok [?f], st)
          | (Panicked, st) \<Rightarrow> (Panicked, st)
          | (Ok _, st) \<Rightarrow>
             bind_st (added_members L commit, st) (\<lambda>new_members st.
             bind_st (map_err_st SmProcess (pp_commit L (to_group_id (env_hex E) svalin_id) commit st)) (\<lambda>_ st.
             (Ok [?f, \<lparr> receivers_of = new_members, message_of = WelcomeTransport (ag_welcome a) \<rparr>], st))))))"
    proof (cases "pm_content pm")
      case (CommitContent c)
      obtain r2 st2 where k: "server_check_commit L E svalin_id c st1 = (r2, st2)" by fastforce
      have st2: "?P st2"
        using st1 server_check_commit_spec(1,2) [OF k] pp_holds_cong [of L st2 st1] by simp
      have commit: "?P (snd (pp_commit L (to_group_id (env_hex E) svalin_id) c st2))" if "r2 = Ok ()"
        using server_commit_holds [OF assms(1) p [unfolded s(2)] CommitContent _ k [unfolded that]] A(2) not
        by (auto simp: result_simps)
      have "?P (snd (bind_st (added_members L c, st2) (\<lambda>new_members st.
          bind_st (map_err_st SmProcess (pp_commit L (to_group_id (env_hex E) svalin_id) c st)) (\<lambda>_ st.
          (f new_members, st)))))" if "r2 = Ok ()" for f :: "spki_hash list \<Rightarrow> (message_to_send list, server_mls_error) result"
      proof (rule bind_st_inv [where P = ?P])
        fix x s
        assume "(added_members L c, st2) = (Ok x, s)"
        then show "?P (snd (bind_st (map_err_st SmProcess (pp_commit L (to_group_id (env_hex E) svalin_id) c s))
            (\<lambda>_ st. (f x, st))))"
          using commit [OF that] by (intro bind_st_inv [where P = ?P]) simp_all
      qed (use st2 in simp)
      then show ?thesis using CommitContent k s(1) st2 by (cases r2) simp_all
    qed (use st1 s in simp)
  qed (use st1 in \<open>auto simp: map_err_st_def\<close>)
  then show False using assms(2) by blast
qed

lemma process_message_holds:
  assumes "public_mls_ok L" "pp_holds L (snd (process_message L E m st)) g"
  shows "pp_holds L st g \<or> (\<exists>info. created_group L E info g) \<or> (\<exists>msg. merged_group L E st msg g)"
proof (cases "unpack_to_server L m")
  case (Ok msg)
  show ?thesis
  proof (cases msg)
    case (ServerGroupMessage raw pm)
    then show ?thesis
      using assms(2) Ok process_group_message_holds [OF assms(1), of E raw pm st g]
      by (auto simp: process_message_def)
  next
    case (ServerAddToGroup a)
    then show ?thesis
      using assms(2) Ok handle_add_to_group_holds [OF assms(1), of E a st g]
      by (auto simp: process_message_def)
  next
    case (ServerNewDeviceGroup ng)
    obtain r st' where a: "add_device_group L E ng st = (r, st')" by fastforce
    have "snd (process_message L E m st) = st'"
      using Ok ServerNewDeviceGroup a by (cases r) (simp_all add: process_message_def map_err_st_def)
    moreover have "st' = st \<or> st' = snd (add_svalin_group L E ng st)"
      using a by (cases "from_group_id (env_hex E) (info_group_id L (ng_group_info ng))")
        (auto simp: add_device_group_def split: svalin_group_id.splits)
    ultimately show ?thesis
      using assms(2) add_svalin_group_holds [OF assms(1), of E ng st g] by auto
  qed
qed (use assms(2) in \<open>simp_all add: process_message_def\<close>)

section \<open>Invariant: members are certified\<close>

definition certified_leaf ::
  "('x, 'k, 'c, 'z) openmls_scheme \<Rightarrow> crypto \<Rightarrow> root_certificate \<Rightarrow> leaf_node \<Rightarrow> bool" where
  "certified_leaf L C r leaf \<longleftrightarrow>
    (\<exists>c. credential_spki L (leaf_credential leaf) = Ok (cert_spki c) \<and> authorised C r c)"

definition certified_group ::
  "('x, 'k, 'c, 'g, 't) public_mls \<Rightarrow> crypto \<Rightarrow> root_certificate \<Rightarrow> 'g \<Rightarrow> bool" where
  "certified_group L C r g \<longleftrightarrow> (\<forall>leaf \<in> set (pg_members L g). certified_leaf L C r leaf)"

text \<open>The service's life: it starts without groups, handles messages while the trust store
  moves on, and may be restarted, which empties the cache.\<close>

inductive mls_server_run ::
  "('x, 'k, 'c, 'g, 't) public_mls \<Rightarrow> crypto \<Rightarrow> hex_crate \<Rightarrow> root_certificate \<Rightarrow> ('g, 't) public_processor \<Rightarrow> bool"
  for L C H r where
  srv_start: "(\<And>k g. pg_load L t k \<noteq> Ok (Some g)) \<Longrightarrow>
    mls_server_run L C H r \<lparr> group_cache = Map.empty, pp_storage = t \<rparr>"
| srv_message: "mls_server_run L C H r st \<Longrightarrow> reached_from C r ts \<Longrightarrow>
    mls_server_run L C H r (snd (process_message L
      \<lparr> env_crypto = C, env_hex = H, env_root = r, env_trust_store = ts, env_now = now \<rparr> m st))"
| srv_restart: "mls_server_run L C H r st \<Longrightarrow> mls_server_run L C H r (st \<lparr> group_cache := Map.empty \<rparr>)"

lemma stored_chain:
  assumes "reached_from C r ts" "trust_store_get ts h = Some a"
    "complete_certificate_chain ts (builder_new (as_unverified a)) = Ok ch"
  shows "\<forall>u \<in> set (unverified_certificates ch). trust_store_get ts (spki_hash u) = Some (Certificate u)"
proof -
  from assms(3) obtain b where b: "complete_loop ts (builder_new (as_unverified a)) = Ok b" "finish b = Ok ch"
    by (auto simp: complete_certificate_chain_def result_simps)
  obtain ps where ps: "builder_certificates b = as_unverified a # map as_unverified ps"
      "\<forall>p \<in> set ps. trust_store_get ts (cert_spki p) = Some p"
    using complete_loop_post [OF reached_from_keys [OF assms(1)] builder_new_inv, of "as_unverified a"] b(1)
    by (auto simp: complete_post_def builder_new_def)
  have "unverified_certificates ch = rev (builder_certificates b)"
    using b(2) by (auto simp: finish_def result_simps split: if_splits)
  then show ?thesis using ps reached_from_get(1) [OF assms(1,2)] assms(2) by auto
qed

lemma required_certified:
  assumes "reached_from C r ts" "get_required_group_members C r ts now g = Ok req" "h \<in> set req"
  shows "\<exists>c. cert_spki c = h \<and> authorised C r c"
proof -
  have chain: "\<exists>c. cert_spki c = h \<and> authorised C r c"
    if "verified_agent_chain C r ts now a = Ok vc" "h \<in> cert_spki ` set (chain_certificates vc)" for a vc
  proof -
    from that(1) obtain ag ch where ch: "trust_store_get ts a = Some ag"
        "complete_certificate_chain ts (builder_new (as_unverified ag)) = Ok ch" "chain_verify C ch r now = Ok vc"
      by (auto simp: verified_agent_chain_def result_simps)
    have "chain_certificates vc = as_certificate r # map Certificate (tl (unverified_certificates ch))"
      "unverified_certificates ch \<noteq> []"
      using ch(3) unfolding chain_verify_Ok_iff by blast+
    then have "h = cert_spki (as_certificate r) \<or> (\<exists>u \<in> set (unverified_certificates ch). h = spki_hash u)"
      using that(2) by (auto dest: list.set_sel(2))
    then show ?thesis
      using stored_chain [OF assms(1) ch(1,2)] reached_from_get [OF assms(1)] authorised.auth_root by metis
  qed
  show ?thesis
  proof (cases g)
    case GlobalGroup
    then show ?thesis using assms(2,3) authorised.auth_root [of C r] by auto
  next
    case (DeviceGroup a)
    with assms(2,3) show ?thesis by (auto simp: result_simps intro: chain)
  next
    case (DeviceMetaGroup a)
    with assms(2) obtain vc where vc: "verified_agent_chain C r ts now a = Ok vc"
        "req = map cert_spki (take (length (chain_certificates vc) - 1) (chain_certificates vc))"
      by (auto simp: result_simps)
    moreover have "h \<in> cert_spki ` set (chain_certificates vc)"
      using assms(3) vc(2) by (auto dest: in_set_takeD)
    ultimately show ?thesis using chain by blast
  qed
qed

lemma member_hashes_Ok_iff:
  "member_hashes L leaves = Ok hs \<longleftrightarrow> list_all2 (\<lambda>leaf h. credential_spki L (leaf_credential leaf) = Ok h) leaves hs"
  unfolding member_hashes_def
  by (induction leaves arbitrary: hs) (auto simp: result_simps list_all2_Cons1)

lemma created_certified:
  assumes "reached_from C r (env_trust_store E)" "env_crypto E = C" "env_root E = r" "created_group L E info g"
  shows "certified_group L C r g"
  unfolding certified_group_def
proof
  fix leaf assume leaf: "leaf \<in> set (pg_members L g)"
  from assms(4) obtain svalin_id members req where D: "member_hashes L (pg_members L g) = Ok members"
      "env_required E svalin_id = Ok req" "set req = set members"
    unfolding created_group_def by blast
  obtain i where i: "i < length (pg_members L g)" "leaf = pg_members L g ! i"
    using leaf by (auto simp: in_set_conv_nth)
  let ?h = "members ! i"
  have h: "?h \<in> set members" "credential_spki L (leaf_credential leaf) = Ok ?h"
    using D(1) i unfolding member_hashes_Ok_iff by (auto dest: list_all2_nthD list_all2_lengthD)
  have "\<exists>c. cert_spki c = ?h \<and> authorised C r c"
    by (rule required_certified [OF assms(1), of "env_now E" svalin_id req])
      (use D(2,3) h(1) assms(2,3) in \<open>simp_all add: env_required_def\<close>)
  then show "certified_leaf L C r leaf" using h(2) unfolding certified_leaf_def by metis
qed

lemma merged_certified:
  assumes "public_mls_ok L" "reached_from C r (env_trust_store E)" "env_crypto E = C"
    "merged_group L E st m g'" "\<And>g. pp_holds L st g \<Longrightarrow> certified_group L C r g"
  shows "certified_group L C r g'"
  unfolding certified_group_def
proof
  fix leaf assume leaf: "leaf \<in> set (pg_members L g')"
  from assms(4) obtain svalin_id g0 g c t where D: "pp_group L st (message_group_id L m) = Some g0"
      "pg_process L g0 m = Ok (StagedCommitMessage c)"
      "pp_group L st (to_group_id (env_hex E) svalin_id) = Some g"
      "commit_allowed L (env_verifier E) (env_now E) (env_required E svalin_id)
        (pp_member_at L st (to_group_id (env_hex E) svalin_id)) c"
      "g' = fst (snd (pg_merge L t g c))"
    unfolding merged_group_def by blast
  obtain mr t' where "pg_merge L t g c = (mr, g', t')" using D(5) by (metis prod.collapse)
  then have "leaf \<in> set (pg_members L g) \<union> set (pg_members L g0)
      \<or> leaf_credential leaf \<in> set (credentials_to_verify L c)"
    using assms(1) D(2) leaf unfolding public_mls_ok_def by blast
  moreover have "certified_group L C r g" "certified_group L C r g0"
    using assms(5) D(1,3) unfolding pp_holds_group by blast+
  moreover have "certified_leaf L C r leaf" if in_commit: "leaf_credential leaf \<in> set (credentials_to_verify L c)"
  proof -
    obtain h cert where "credential_spki L (leaf_credential leaf) = Ok h"
        "verify_spki_hash (env_verifier E) h (env_now E) = Ok cert"
      using D(4) in_commit unfolding commit_allowed_def credential_known_def by blast
    then show ?thesis
      using tsv.by_hash [OF assms(2), of h "env_now E" cert] assms(3)
      by (auto simp: env_verifier_def certified_leaf_def)
  qed
  ultimately show "certified_leaf L C r leaf" by (auto simp: certified_group_def)
qed

lemma mls_server_run_certified:
  assumes "public_mls_ok L" "mls_server_run L C H r st" "pp_holds L st g"
  shows "certified_group L C r g"
  using assms(2,3)
proof (induction arbitrary: g rule: mls_server_run.induct)
  case (srv_message st ts now m)
  let ?E = "\<lparr> env_crypto = C, env_hex = H, env_root = r, env_trust_store = ts, env_now = now \<rparr>"
  have E: "reached_from C r (env_trust_store ?E)" "env_crypto ?E = C" "env_root ?E = r"
    using srv_message.hyps by simp_all
  from process_message_holds [OF assms(1) srv_message.prems] consider
    "pp_holds L st g" | info where "created_group L ?E info g" | msg where "merged_group L ?E st msg g"
    by blast
  then show ?case
  proof cases
    case 2
    then show ?thesis by (rule created_certified [OF E])
  next
    case 3
    then show ?thesis by (rule merged_certified [OF assms(1) E(1,2) _ srv_message.IH])
  qed (rule srv_message.IH)
qed (auto simp: pp_holds_def)

section \<open>Sample library\<close>

text \<open>A library in which a group is its id and its leaves, the published information of a group
  is the group, and a commit is the list of leaves it adds.\<close>

type_synonym sample_group = "bytes \<times> leaf_node list"

definition sample_leaf :: "unverified_certificate \<Rightarrow> leaf_node" where
  "sample_leaf c = \<lparr> leaf_credential = spki_bytes (spki_hash c), leaf_signature_key = public_key c \<rparr>"

definition sample_device :: unverified_certificate where
  "sample_device = sample_cert Agent 3 9 7 0"

definition sample_info :: sample_group where
  "sample_info = (to_group_id sample_hex (DeviceGroup (spki_hash sample_device)),
     [sample_leaf (root_as_unverified sample_root), sample_leaf sample_device])"

definition sample_mls ::
  "(sample_group, leaf_node, leaf_node list, sample_group, bytes \<rightharpoonup> sample_group) public_mls" where
  "sample_mls = \<lparr>
     message_in = \<lambda>raw. Ok (PublicBody (raw, [])),
     message_out = \<lambda>_. Err ''unused'',
     welcome_in = \<lambda>_. Err ''unused'',
     welcome_out = \<lambda>_. Err ''unused'',
     group_info_in = \<lambda>raw. Ok sample_info,
     group_info_out = \<lambda>_. Err ''unused'',
     message_group_id = \<lambda>m. case m of PrivateMessage x \<Rightarrow> fst x | PublicMessage x \<Rightarrow> fst x,
     credential_spki = \<lambda>b. Ok (SpkiHash b),
     spki_credential = spki_bytes,
     validate_key_package = Ok,
     key_package_leaf = \<lambda>k. k,
     credentials_to_verify = map leaf_credential,
     remove_proposals = \<lambda>_. [],
     add_proposals = map (\<lambda>l. (SenderMember 0, l)),
     has_ratchet_tree = \<lambda>_. True,
     info_group_id = fst,
     pg_check_external = Ok,
     pg_from_external = \<lambda>t i. (Ok i, t(fst i \<mapsto> i)),
     pg_load = \<lambda>t k. Ok (t k),
     pg_group_id = fst,
     pg_members = snd,
     pg_leaf = \<lambda>g i. if i < length (snd g) then Some (snd g ! i) else None,
     pg_process = \<lambda>g m. Ok (StagedCommitMessage (case m of PrivateMessage x \<Rightarrow> snd x | PublicMessage x \<Rightarrow> snd x)),
     pg_merge = \<lambda>t g c. (Ok (), (fst g, snd g @ c), t(fst g \<mapsto> (fst g, snd g @ c))) \<rparr>"

lemma sample_mls_ok [simp]: "public_mls_ok sample_mls"
  by (auto simp: public_mls_ok_def sample_mls_def split: if_splits)

lemma sample_run_device:
  "\<exists>bs ts. ts_run sample_crypto sample_root bs ts
    \<and> trust_store_get ts (spki_hash sample_device) = Some (Certificate sample_device)
    \<and> trust_store_get ts (issuer sample_device) = Some (as_certificate sample_root)"
proof -
  let ?ts = "trust_store_initialize sample_root" and ?s = "state_initialize sample_root"
  let ?h = "cert_spki (cred_certificate sample_root_credential)"
  have st: "chain_st ?ts = ?s" "last_block ?ts = None"
    by (simp_all add: trust_store_initialize_def chain_initialize_def)
  have chk: "state_check sample_crypto ?s ?h 10 (Add sample_device) = Ok ()"
    and tx: "transaction_ok sample_crypto (Add sample_device)"
    by code_simp+
  note app = state_apply_AddD [OF state_initialize_inv [OF sample_root_ok] chk]
  obtain bs ts where "ts_run sample_crypto sample_root bs ts"
      "Some (chain_st ts) = state_apply sample_crypto ?s ?h 10 (Add sample_device)"
    using ts_run_package [OF sample_root_ok ts_init tx sample_signs(1), of 10]
      chk sample_signers(1) st app by fastforce
  moreover have "fmlookup (fmupd (spki_hash sample_device) (Certificate sample_device)
      (ts_certificates ?s)) (issuer sample_device) = Some (as_certificate sample_root)"
    by code_simp
  ultimately show ?thesis
    by (intro exI [of _ bs] exI [of _ ts]) (simp add: app trust_store_get_def)
qed

lemma sample_required:
  assumes "trust_store_get ts (spki_hash sample_device) = Some (Certificate sample_device)"
    "trust_store_get ts (issuer sample_device) = Some (as_certificate sample_root)"
  shows "get_required_group_members sample_crypto sample_root ts 10 (DeviceGroup (spki_hash sample_device))
    = Ok [cert_spki (as_certificate sample_root), spki_hash sample_device]"
proof -
  let ?b = "builder_new sample_device" and ?root = "root_as_unverified sample_root"
  let ?b' = "?b \<lparr> builder_certificates := [sample_device, ?root],
      known_spki_hashes := insert (spki_to_string (spki_hash ?root)) (known_spki_hashes ?b) \<rparr>"
  have "requested_issuer ?b = (Ok (Some (issuer sample_device)) :: (spki_hash option, complete_cert_chain_error) result)"
    "push_parent ?b ?root = (Ok (), ?b')"
    "requested_issuer ?b' = (Ok None :: (spki_hash option, complete_cert_chain_error) result)"
    by code_simp+
  then have "complete_loop ts ?b = Ok ?b'"
    using assms(2) by (subst complete_loop.simps, simp, subst complete_loop.simps, simp)
  moreover have "(finish ?b' :: (unverified_certificate_chain, unit) result)
      = Ok (UnverifiedCertificateChain [?root, sample_device])"
    by code_simp
  ultimately have "complete_certificate_chain ts ?b = Ok (UnverifiedCertificateChain [?root, sample_device])"
    by (simp add: complete_certificate_chain_def)
  moreover have "chain_verify sample_crypto (UnverifiedCertificateChain [?root, sample_device]) sample_root 10
      = Ok (CertificateChain [as_certificate sample_root, Certificate sample_device])"
    by code_simp
  ultimately show ?thesis using assms(1) by (simp add: verified_agent_chain_def)
qed

definition sample_env :: "trust_store \<Rightarrow> mls_env" where
  "sample_env ts = \<lparr> env_crypto = sample_crypto, env_hex = sample_hex, env_root = sample_root,
     env_trust_store = ts, env_now = 10 \<rparr>"

abbreviation sample_start :: "(sample_group, bytes \<rightharpoonup> sample_group) public_processor" where
  "sample_start \<equiv> \<lparr> group_cache = Map.empty, pp_storage = Map.empty \<rparr>"

definition sample_new_group :: message_to_server_transport where
  "sample_new_group = NewDeviceGroupTransport \<lparr> ngt_group_info = [], ngt_welcome = None \<rparr>"

lemma sample_group_id_wf: "group_id_wf (DeviceGroup (spki_hash sample_device))"
  by (simp add: group_id_wf_def spki_hash_wf_def sample_device_def sample_cert_def sample_pad_def)

text \<open>What the sample library's functions are, and the facts about the sample group.\<close>

lemma sample_mls_sel:
  "message_in sample_mls raw = Ok (PublicBody (raw, []))" "group_info_in sample_mls raw = Ok sample_info"
  "message_group_id sample_mls (PublicMessage x) = fst x" "add_proposals sample_mls [] = []"
  "credentials_to_verify sample_mls [] = []" "remove_proposals sample_mls c = []"
  "has_ratchet_tree sample_mls i" "info_group_id sample_mls = fst" "pg_check_external sample_mls = Ok"
  "pg_group_id sample_mls = fst" "pg_from_external sample_mls t i = (Ok i, t(fst i \<mapsto> i))"
  "pg_members sample_mls = snd" "pg_load sample_mls t k = Ok (t k)"
  "pg_process sample_mls g (PublicMessage x) = Ok (StagedCommitMessage (snd x))"
  "pg_merge sample_mls t g [] = (Ok (), g, t(fst g \<mapsto> g))"
  by (simp_all add: sample_mls_def)

lemma sample_info_id: "from_group_id sample_hex (fst sample_info) = Ok (DeviceGroup (spki_hash sample_device))"
  using from_to_group_id [OF sample_hex_ok sample_group_id_wf] by (simp add: sample_info_def)

lemma sample_members: "member_hashes sample_mls (snd sample_info)
    = Ok [cert_spki (as_certificate sample_root), spki_hash sample_device]"
  by (simp add: member_hashes_def sample_mls_def sample_info_def sample_leaf_def)

lemma sample_env_required:
  assumes "trust_store_get ts (spki_hash sample_device) = Some (Certificate sample_device)"
    "trust_store_get ts (issuer sample_device) = Some (as_certificate sample_root)"
  shows "env_required (sample_env ts) (DeviceGroup (spki_hash sample_device))
      = Ok [cert_spki (as_certificate sample_root), spki_hash sample_device]"
    "check_group_subject (sample_env ts) (DeviceGroup (spki_hash sample_device)) = Ok ()"
proof -
  show "env_required (sample_env ts) (DeviceGroup (spki_hash sample_device))
      = Ok [cert_spki (as_certificate sample_root), spki_hash sample_device]"
    using sample_required [OF assms] by (simp add: env_required_def sample_env_def)
  have "check_validity_at sample_device 10 = Ok ()" "certificate_type sample_device = Agent"
    by code_simp+
  then show "check_group_subject (sample_env ts) (DeviceGroup (spki_hash sample_device)) = Ok ()"
    using assms(1) by (simp add: check_group_subject_def sample_env_def env_verifier_def
        trust_store_verifier_def trust_store_verify_spki_hash_def)
qed

lemma sample_env_hex: "env_hex (sample_env ts) = sample_hex" by (simp add: sample_env_def)

lemma sample_creation:
  assumes "trust_store_get ts (spki_hash sample_device) = Some (Certificate sample_device)"
    "trust_store_get ts (issuer sample_device) = Some (as_certificate sample_root)"
  shows "process_message sample_mls (sample_env ts) sample_new_group sample_start
    = (Ok [], sample_start \<lparr> pp_storage := [fst sample_info \<mapsto> sample_info] \<rparr>)"
    "created_group sample_mls (sample_env ts) sample_info sample_info"
  by (simp_all add: process_message_def sample_new_group_def unpack_new_group_def add_device_group_def
      add_svalin_group_def pp_check_group_def pp_add_group_def map_err_st_def created_group_def
      sample_mls_sel sample_env_hex sample_info_id sample_members sample_env_required [OF assms])

section \<open>Properties\<close>

text \<open>C2. Every member of every group that the server keeps is certified: whatever messages
  arrive, while the trust store moves on and across restarts, the credential of each leaf
  names a certificate that descends from the root.\<close>

theorem mls_members_certified:
  assumes "public_mls_ok L" "mls_server_run L C H r st" "fst (pp_get_group L gid st) = Ok g"
    "leaf \<in> set (pg_members L g)"
  shows "\<exists>c. credential_spki L (leaf_credential leaf) = Ok (cert_spki c) \<and> authorised C r c"
proof -
  have "pp_holds L st g" using assms(3) by (auto simp: pp_get_group_spec pp_holds_group)
  then show ?thesis
    using mls_server_run_certified [OF assms(1,2)] assms(4)
    by (auto simp: certified_group_def certified_leaf_def)
qed

theorem mls_members_certified_witness:
  "\<exists>c. spki_hash sample_device = cert_spki c \<and> authorised sample_crypto sample_root c"
proof -
  obtain bs ts where run: "ts_run sample_crypto sample_root bs ts"
      "trust_store_get ts (spki_hash sample_device) = Some (Certificate sample_device)"
      "trust_store_get ts (issuer sample_device) = Some (as_certificate sample_root)"
    using sample_run_device by blast
  have "mls_server_run sample_mls sample_crypto sample_hex sample_root sample_start"
    by (rule srv_start) (simp add: sample_mls_def)
  from srv_message [OF this, of ts 10 sample_new_group] run(1)
  have "mls_server_run sample_mls sample_crypto sample_hex sample_root
      (sample_start \<lparr> pp_storage := [fst sample_info \<mapsto> sample_info] \<rparr>)"
    using sample_creation(1) [OF run(2,3)] by (auto simp: sample_env_def reached_from_def)
  moreover have "fst (pp_get_group sample_mls (fst sample_info)
      (sample_start \<lparr> pp_storage := [fst sample_info \<mapsto> sample_info] \<rparr>)) = Ok sample_info"
    by (simp add: pp_get_group_def sample_mls_def)
  moreover have "sample_leaf sample_device \<in> set (pg_members sample_mls sample_info)"
    by (simp add: sample_mls_def sample_info_def)
  ultimately have "\<exists>c. credential_spki sample_mls (leaf_credential (sample_leaf sample_device)) = Ok (cert_spki c)
      \<and> authorised sample_crypto sample_root c"
    by (rule mls_members_certified [OF sample_mls_ok])
  then show ?thesis by (simp add: sample_mls_def sample_leaf_def)
qed

text \<open>C10. A group on the server changes in two ways only: it is created with exactly the members
  its name requires, for an agent that is valid now, or a commit is merged that passed
  every check: each credential it brings in is valid now, each add and remove was
  proposed by a member that may edit, no required member is removed and only users and
  sessions with verified key packages are added.\<close>

theorem group_changes_guarded:
  assumes "public_mls_ok L" "\<not> pp_holds L st g" "pp_holds L (snd (process_message L E m st)) g"
  shows "(\<exists>info. created_group L E info g) \<or> (\<exists>msg. merged_group L E st msg g)"
  using process_message_holds [OF assms(1,3)] assms(2) by blast

theorem group_changes_guarded_witness:
  "\<exists>ts. (\<exists>info. created_group sample_mls (sample_env ts) info sample_info)
    \<or> (\<exists>msg. merged_group sample_mls (sample_env ts) sample_start msg sample_info)"
proof -
  obtain bs ts where run:
      "trust_store_get ts (spki_hash sample_device) = Some (Certificate sample_device)"
      "trust_store_get ts (issuer sample_device) = Some (as_certificate sample_root)"
    using sample_run_device by blast
  have "\<not> pp_holds sample_mls sample_start sample_info" by (simp add: pp_holds_def sample_mls_def)
  moreover have "pp_holds sample_mls
      (snd (process_message sample_mls (sample_env ts) sample_new_group sample_start)) sample_info"
    unfolding sample_creation(1) [OF run] by (auto simp: pp_holds_def sample_mls_def)
  ultimately show ?thesis using group_changes_guarded [OF sample_mls_ok] by blast
qed

text \<open>When a new group is accepted: its id names a device, it carries its ratchet tree, the
  library accepts it, and the hashes its leaves claim are exactly the required members.
  Nothing relates the signature keys of the leaves to the certificates with these hashes.\<close>

theorem new_group_accepted:
  assumes "public_mls_ok L"
  shows "is_ok (fst (add_device_group L E ng st)) \<longleftrightarrow>
    (\<exists>named g. from_group_id (env_hex E) (info_group_id L (ng_group_info ng)) = Ok named \<and> named \<noteq> GlobalGroup
      \<and> has_ratchet_tree L (ng_group_info ng)
      \<and> fst (pg_from_external L (pp_storage st) (ng_group_info ng)) = Ok g
      \<and> created_group L E (ng_group_info ng) g)"
proof -
  have svalin: "is_ok (fst (add_svalin_group L E ng st)) \<longleftrightarrow>
    (\<exists>g. has_ratchet_tree L (ng_group_info ng)
      \<and> fst (pg_from_external L (pp_storage st) (ng_group_info ng)) = Ok g
      \<and> created_group L E (ng_group_info ng) g)" (is "?l \<longleftrightarrow> ?r")
  proof
    assume ?l
    then obtain temp ms svalin_id req x where A: "pp_check_group L ng = Ok temp"
        "member_hashes L (pg_members L temp) = Ok ms" "from_group_id (env_hex E) (pg_group_id L temp) = Ok svalin_id"
        "check_group_subject E svalin_id = Ok ()" "env_required E svalin_id = Ok req" "set req = set ms"
        "fst (pp_add_group L ng st) = Ok x"
      by (auto simp: add_svalin_group_def result_simps split: if_splits)
    have tree: "has_ratchet_tree L (ng_group_info ng)" and temp: "pg_check_external L (ng_group_info ng) = Ok temp"
      using A(1) by (auto simp: pp_check_group_def result_simps split: if_splits)
    obtain g where g: "fst (pg_from_external L (pp_storage st) (ng_group_info ng)) = Ok g"
      using A(7) tree by (auto simp: pp_add_group_def result_simps split: prod.splits)
    moreover have "g = temp"
      using g temp assms unfolding public_mls_ok_def by (metis prod.collapse result.inject(1))
    ultimately show ?r using tree temp A by (auto simp: created_group_def)
  next
    assume ?r
    then obtain g where g: "has_ratchet_tree L (ng_group_info ng)"
        "fst (pg_from_external L (pp_storage st) (ng_group_info ng)) = Ok g"
        "created_group L E (ng_group_info ng) g" by blast
    from g(3) obtain svalin_id ms req where D: "pg_check_external L (ng_group_info ng) = Ok g"
        "from_group_id (env_hex E) (pg_group_id L g) = Ok svalin_id" "check_group_subject E svalin_id = Ok ()"
        "member_hashes L (pg_members L g) = Ok ms" "env_required E svalin_id = Ok req" "set req = set ms"
      unfolding created_group_def by blast
    then show ?l
      using g(1,2) by (cases "pg_from_external L (pp_storage st) (ng_group_info ng)")
        (simp add: add_svalin_group_def pp_check_group_def pp_add_group_def map_err_st_def)
  qed
  show ?thesis
    using svalin by (cases "from_group_id (env_hex E) (info_group_id L (ng_group_info ng))")
      (auto simp: add_device_group_def split: svalin_group_id.splits)
qed

theorem new_group_accepted_witness:
  "\<exists>ts. is_ok (fst (add_device_group sample_mls (sample_env ts)
    \<lparr> ng_group_info = sample_info, ng_welcome = None \<rparr> sample_start))"
proof -
  obtain bs ts where run:
      "trust_store_get ts (spki_hash sample_device) = Some (Certificate sample_device)"
      "trust_store_get ts (issuer sample_device) = Some (as_certificate sample_root)"
    using sample_run_device by blast
  have "is_ok (fst (add_device_group sample_mls (sample_env ts)
      \<lparr> ng_group_info = sample_info, ng_welcome = None \<rparr> sample_start))"
    unfolding new_group_accepted [OF sample_mls_ok] using sample_creation(2) [OF run]
    by (simp add: sample_mls_sel sample_env_hex sample_info_id)
  then show ?thesis by blast
qed

text \<open>A commit without adds that is sent as a plain group message puts the server out of
  step with the members: the server merges it, but it forwards the message in a form that
  no member can unpack.\<close>

theorem public_commit_desync:
  assumes "message_in L raw = Ok (PublicBody x)" "message_group_id L (PublicMessage x) = gid"
    "from_group_id (env_hex E) gid = Ok svalin_id" "to_group_id (env_hex E) svalin_id = gid"
    "pp_group L st gid = Some g" "member_hashes L (pg_members L g) = Ok members"
    "pg_process L g (PublicMessage x) = Ok (StagedCommitMessage c)" "add_proposals L c = []"
    "commit_allowed L (env_verifier E) (env_now E) (env_required E svalin_id) (pp_member_at L st gid) c"
    "pg_merge L (pp_storage st) g c = (Ok (), g', t')"
  shows "\<exists>st'. process_message L E (GroupMessageTransport raw) st
      = (Ok [\<lparr> receivers_of = members, message_of = MemberGroupMessageTransport raw \<rparr>], st')
    \<and> pp_group L st' gid = Some g'
    \<and> unpack_to_member L (MemberGroupMessageTransport raw) = Err WrongMessageType"
proof -
  obtain st1 where get1: "pp_get_group L gid st = (Ok g, st1)"
    using pp_get_group_spec(1) [of L gid st g] assms(5) by (metis prod.collapse)
  note st1 = pp_get_group_OkD [OF get1]
  let ?p = "\<lparr> pm_group_id = gid, pm_receivers = members, pm_content = CommitContent c \<rparr>"
  have p: "pp_process_message L (PublicMessage x) st = (Ok ?p, st1)"
    using assms(2,6,7) get1 by (simp add: pp_process_message_def map_err_st_def)
  obtain r2 st2 where k: "server_check_commit L E svalin_id c st1 = (r2, st2)" by fastforce
  note K = server_check_commit_spec [OF k]
  have "pp_member_at L st1 = pp_member_at L st" using st1(2) by (simp add: pp_member_at_def fun_eq_iff)
  then have r2: "r2 = Ok ()" using K(3) assms(4,9) by simp
  have "pp_group L st2 gid = Some g" using K(1) st1(2) assms(5) by simp
  then obtain st3 where get3: "pp_get_group L gid st2 = (Ok g, st3)"
    using pp_get_group_spec(1) [of L gid st2 g] by (metis prod.collapse)
  have "pp_storage st3 = pp_storage st" using pp_get_group_OkD(4) [OF get3] K(2) st1(4) by simp
  then have commit: "pp_commit L gid c st2 = (Ok (),
      st3 \<lparr> group_cache := (group_cache st3)(gid \<mapsto> g'), pp_storage := t' \<rparr>)"
    using get3 assms(10) by (simp add: pp_commit_def map_err_st_def)
  have "process_message L E (GroupMessageTransport raw) st
      = (Ok [\<lparr> receivers_of = members, message_of = MemberGroupMessageTransport raw \<rparr>],
         st3 \<lparr> group_cache := (group_cache st3)(gid \<mapsto> g'), pp_storage := t' \<rparr>)"
    using assms(1,3,4,8) p k r2 commit by (simp add: process_message_def process_group_message_def map_err_st_def)
  then show ?thesis using assms(1) by (simp add: pp_group_def)
qed

theorem public_commit_desync_witness:
  "\<exists>ts st'. process_message sample_mls (sample_env ts) (GroupMessageTransport (fst sample_info))
      (sample_start \<lparr> pp_storage := [fst sample_info \<mapsto> sample_info] \<rparr>)
    = (Ok [\<lparr> receivers_of = [cert_spki (as_certificate sample_root), spki_hash sample_device],
             message_of = MemberGroupMessageTransport (fst sample_info) \<rparr>], st')"
proof -
  obtain bs ts where run:
      "trust_store_get ts (spki_hash sample_device) = Some (Certificate sample_device)"
      "trust_store_get ts (issuer sample_device) = Some (as_certificate sample_root)"
    using sample_run_device by blast
  let ?st = "sample_start \<lparr> pp_storage := [fst sample_info \<mapsto> sample_info] \<rparr>"
  have "\<exists>st'. process_message sample_mls (sample_env ts) (GroupMessageTransport (fst sample_info)) ?st
      = (Ok [\<lparr> receivers_of = [cert_spki (as_certificate sample_root), spki_hash sample_device],
               message_of = MemberGroupMessageTransport (fst sample_info) \<rparr>], st')
    \<and> pp_group sample_mls st' (fst sample_info) = Some sample_info
    \<and> unpack_to_member sample_mls (MemberGroupMessageTransport (fst sample_info)) = Err WrongMessageType"
    by (rule public_commit_desync [where x = "(fst sample_info, [])" and c = "[]" and g = sample_info
          and svalin_id = "DeviceGroup (spki_hash sample_device)" and t' = "[fst sample_info \<mapsto> sample_info]"])
      (simp_all add: sample_mls_sel sample_env_hex sample_info_id sample_members pp_group_def
        commit_allowed_def sample_env_required [OF run], simp add: sample_info_def)
  then show ?thesis by blast
qed

end
