(* ===== verification/MlsMember.thy ===== *)
theory MlsMember
  imports MlsServer
begin

text \<open>
  The members' side of group messaging: the processor that keeps a member's groups
  (\<^verbatim>\<open>svalin_pki/src/mls/processor.rs\<close>), the part of the harness that creates groups
  (\<^verbatim>\<open>svalin_pki/src/mls/harness.rs\<close>), and what agents (\<^verbatim>\<open>mls/agent.rs\<close>) and clients
  (\<^verbatim>\<open>mls/client.rs\<close>) do with messages. As on the server, groups (\<^verbatim>\<open>'g\<close>), storage (\<^verbatim>\<open>'t\<close>) and
  staged welcomes (\<^verbatim>\<open>'w\<close>) belong to OpenMLS.
\<close>

section \<open>Groups of the library, seen by a member\<close>

text \<open>\<^verbatim>\<open>mg_new\<close> builds a group with only the member itself, \<^verbatim>\<open>mg_commit_adds\<close> is the commit builder
  with add proposals and returns the welcome and the group information. Every operation
  may write to the storage.\<close>

record ('x, 'k, 'c, 'g, 't, 'w) member_mls = "('x, 'k, 'c) openmls" +
  kp_build :: "'t \<Rightarrow> ('k, string) result \<times> 't"
  mg_new :: "'t \<Rightarrow> bytes \<Rightarrow> ('g, string) result \<times> 't"
  mg_export_info :: "'g \<Rightarrow> ('x, string) result"
  mg_commit_adds :: "'t \<Rightarrow> 'g \<Rightarrow> 'k list \<Rightarrow> ('x option \<times> 'x option, string) result \<times> 'g \<times> 't"
  mg_add_members :: "'t \<Rightarrow> 'g \<Rightarrow> 'k list \<Rightarrow> ('x mls_body \<times> 'x mls_body, string) result \<times> 'g \<times> 't"
  mg_merge_pending :: "'t \<Rightarrow> 'g \<Rightarrow> (unit, string) result \<times> 'g \<times> 't"
  mg_load :: "'t \<Rightarrow> bytes \<Rightarrow> ('g option, string) result"
  mg_stage_welcome :: "'t \<Rightarrow> 'x \<Rightarrow> ('w, string) result \<times> 't"
  staged_group_id :: "'w \<Rightarrow> bytes"
  staged_members :: "'w \<Rightarrow> leaf_node list"
  mg_into_group :: "'t \<Rightarrow> 'w \<Rightarrow> ('g, string) result \<times> 't"
  mg_group_id :: "'g \<Rightarrow> bytes"
  mg_members :: "'g \<Rightarrow> leaf_node list"
  mg_leaf :: "'g \<Rightarrow> nat \<Rightarrow> leaf_node option"
  mg_create_message :: "'t \<Rightarrow> 'g \<Rightarrow> bytes \<Rightarrow> ('x mls_body, string) result \<times> 'g \<times> 't"
  mg_process :: "'t \<Rightarrow> 'g \<Rightarrow> 'x protocol_message
    \<Rightarrow> (mls_sender \<times> 'c processed_message_content, string) result \<times> 'g \<times> 't"
  commit_group_id :: "'c \<Rightarrow> bytes"
  mg_merge_staged :: "'t \<Rightarrow> 'g \<Rightarrow> 'c \<Rightarrow> (unit, string) result \<times> 'g \<times> 't"

section \<open>The member's processor\<close>

record ('g, 't) mls_processor =
  mp_cache :: "bytes \<rightharpoonup> 'g"
  mp_storage :: 't

datatype member_error =
    MpUnknownGroup
  | MpStorage string
  | MpLibrary string
  | MpUnpack unpack_error
  | MpKeyPackage key_package_error
  | MpCodec string
  | MpForbiddenMessageType
  | MpInvalidSender
  | MpMemberNotFound

datatype 'c member_content = MessageContent bytes | MemberCommit 'c

record 'c member_processed =
  mpm_group_id :: bytes
  mpm_sender :: spki_hash
  mpm_content :: "'c member_content"

definition mp_get_group ::
  "('x, 'k, 'c, 'g, 't, 'w) member_mls \<Rightarrow> bytes \<Rightarrow> ('g, 't) mls_processor
    \<Rightarrow> ('g, member_error) result \<times> ('g, 't) mls_processor" where
  "mp_get_group L group_id self =
    (case mp_cache self group_id of
       Some g \<Rightarrow> (Ok g, self)
     | None \<Rightarrow>
        (case mg_load L (mp_storage self) group_id of
           Err e \<Rightarrow> (Err (MpStorage e), self)
         | Panicked \<Rightarrow> (Panicked, self)
         | Ok None \<Rightarrow> (Err MpUnknownGroup, self)
         | Ok (Some g) \<Rightarrow> (Ok g, self \<lparr> mp_cache := (mp_cache self)(group_id \<mapsto> g) \<rparr>)))"

text \<open>An operation on the mutable reference that \<^verbatim>\<open>get_group\<close> returns: the changed group stays in
  the cache.\<close>

definition on_group ::
  "bytes \<Rightarrow> ('a, string) result \<times> 'g \<times> 't \<Rightarrow> ('g, 't) mls_processor
    \<Rightarrow> ('a, member_error) result \<times> ('g, 't) mls_processor" where
  "on_group group_id outcome self =
    (case outcome of (r, g, t) \<Rightarrow>
       (map_err MpLibrary r, self \<lparr> mp_cache := (mp_cache self)(group_id \<mapsto> g), mp_storage := t \<rparr>))"

definition mp_create_key_package ::
  "('x, 'k, 'c, 'g, 't, 'w) member_mls \<Rightarrow> certificate \<Rightarrow> ('g, 't) mls_processor
    \<Rightarrow> ('k key_package, member_error) result \<times> ('g, 't) mls_processor" where
  "mp_create_key_package L me self =
    (case kp_build L (mp_storage self) of (r, t) \<Rightarrow>
       bind_st (map_err MpLibrary r, self \<lparr> mp_storage := t \<rparr>) (\<lambda>k self.
       (map_err MpKeyPackage (key_package_new L me k), self)))"

definition mp_create_group ::
  "('x, 'k, 'c, 'g, 't, 'w) member_mls \<Rightarrow> 'k key_package list \<Rightarrow> bytes \<Rightarrow> ('g, 't) mls_processor
    \<Rightarrow> (message_to_server_transport, member_error) result \<times> ('g, 't) mls_processor" where
  "mp_create_group L members group_id self =
    (case mg_new L (mp_storage self) group_id of (built, t) \<Rightarrow>
     bind_st (map_err MpLibrary built, self \<lparr> mp_storage := t \<rparr>) (\<lambda>group self.
     let self = self \<lparr> mp_cache := (mp_cache self)(group_id \<mapsto> group) \<rparr> in
     if members = [] then
       bind_st (map_err MpLibrary (mg_export_info L group), self) (\<lambda>group_info self.
       (map_err MpUnpack (transport_new_device_group L group_info None), self))
     else
       bind_st (on_group group_id (mg_commit_adds L (mp_storage self) group (map kp_package members)) self) (\<lambda>contents self.
       case contents of (welcome, info) \<Rightarrow>
       bind_st (expect_some info, self) (\<lambda>group_info self.
       bind_st (expect_some welcome, self) (\<lambda>welcome self.
       bind_st (mp_get_group L group_id self) (\<lambda>group self.
       bind_st (on_group group_id (mg_merge_pending L (mp_storage self) group) self) (\<lambda>_ self.
       (map_err MpUnpack (transport_new_device_group L group_info (Some welcome)), self))))))))"

definition mp_stage_join ::
  "('x, 'k, 'c, 'g, 't, 'w) member_mls \<Rightarrow> 'x \<Rightarrow> ('g, 't) mls_processor
    \<Rightarrow> ('w, member_error) result \<times> ('g, 't) mls_processor" where
  "mp_stage_join L welcome self =
    (case mg_stage_welcome L (mp_storage self) welcome of (r, t) \<Rightarrow>
       (map_err MpLibrary r, self \<lparr> mp_storage := t \<rparr>))"

definition mp_join_group ::
  "('x, 'k, 'c, 'g, 't, 'w) member_mls \<Rightarrow> 'w \<Rightarrow> ('g, 't) mls_processor
    \<Rightarrow> (unit, member_error) result \<times> ('g, 't) mls_processor" where
  "mp_join_group L welcome self =
    (case mg_into_group L (mp_storage self) welcome of (r, t) \<Rightarrow>
       bind_st (map_err MpLibrary r, self \<lparr> mp_storage := t \<rparr>) (\<lambda>group self.
       (Ok (), self \<lparr> mp_cache := (mp_cache self)(mg_group_id L group \<mapsto> group) \<rparr>)))"

definition mp_create_message ::
  "('x, 'k, 'c, 'g, 't, 'w) member_mls \<Rightarrow> bytes \<Rightarrow> bytes \<Rightarrow> ('g, 't) mls_processor
    \<Rightarrow> (message_to_server_transport, member_error) result \<times> ('g, 't) mls_processor" where
  "mp_create_message L group_id message self =
    bind_st (mp_get_group L group_id self) (\<lambda>group self.
    bind_st (on_group group_id (mg_create_message L (mp_storage self) group message) self) (\<lambda>body self.
    case body of
      PrivateBody _ \<Rightarrow> (map_err MpUnpack (transport_message L body), self)
    | _ \<Rightarrow> (Panicked, self)))"

definition mp_process_message ::
  "('x, 'k, 'c, 'g, 't, 'w) member_mls \<Rightarrow> 'x protocol_message \<Rightarrow> ('g, 't) mls_processor
    \<Rightarrow> ('c member_processed, member_error) result \<times> ('g, 't) mls_processor" where
  "mp_process_message L message self =
    (let group_id = message_group_id L message in
     bind_st (mp_get_group L group_id self) (\<lambda>group self.
     bind_st (on_group group_id (mg_process L (mp_storage self) group message) self) (\<lambda>processed self.
     case processed of (sender, content) \<Rightarrow>
     (case sender of
        SenderOther \<Rightarrow> (Err MpInvalidSender, self)
      | SenderMember index \<Rightarrow>
         bind_st (mp_get_group L group_id self) (\<lambda>group self.
         bind_st (expect_some (mg_leaf L group index), self) (\<lambda>leaf self.
         bind_st (map_err MpCodec (credential_spki L (leaf_credential leaf)), self) (\<lambda>sender self.
         (case content of
            ApplicationMessage bs \<Rightarrow>
              Ok \<lparr> mpm_group_id = group_id, mpm_sender = sender, mpm_content = MessageContent bs \<rparr>
          | ProposalMessage \<Rightarrow> Err MpForbiddenMessageType
          | ExternalJoinProposalMessage \<Rightarrow> Err MpForbiddenMessageType
          | StagedCommitMessage commit \<Rightarrow>
              Ok \<lparr> mpm_group_id = group_id, mpm_sender = sender, mpm_content = MemberCommit commit \<rparr>, self))))))))"

definition mp_group_exists ::
  "('x, 'k, 'c, 'g, 't, 'w) member_mls \<Rightarrow> bytes \<Rightarrow> ('g, 't) mls_processor
    \<Rightarrow> (bool, member_error) result \<times> ('g, 't) mls_processor" where
  "mp_group_exists L group_id self =
    (case mp_get_group L group_id self of
       (Ok _, self) \<Rightarrow> (Ok True, self)
     | (Err MpUnknownGroup, self) \<Rightarrow> (Ok False, self)
     | (Err e, self) \<Rightarrow> (Err e, self)
     | (Panicked, self) \<Rightarrow> (Panicked, self))"

definition mp_is_member ::
  "('x, 'k, 'c, 'g, 't, 'w) member_mls \<Rightarrow> bytes \<Rightarrow> spki_hash \<Rightarrow> ('g, 't) mls_processor
    \<Rightarrow> (bool, member_error) result \<times> ('g, 't) mls_processor" where
  "mp_is_member L group_id hash self =
    bind_st (mp_get_group L group_id self) (\<lambda>group self.
    (Ok (find (\<lambda>leaf. leaf_credential leaf = spki_credential L hash) (mg_members L group) \<noteq> None), self))"

definition mp_add_member ::
  "('x, 'k, 'c, 'g, 't, 'w) member_mls \<Rightarrow> bytes \<Rightarrow> 'k key_package \<Rightarrow> ('g, 't) mls_processor
    \<Rightarrow> (message_to_server_transport, member_error) result \<times> ('g, 't) mls_processor" where
  "mp_add_member L group_id package self =
    bind_st (mp_get_group L group_id self) (\<lambda>group self.
    bind_st (on_group group_id (mg_add_members L (mp_storage self) group [kp_package package]) self) (\<lambda>out self.
    bind_st (mp_get_group L group_id self) (\<lambda>group self.
    bind_st (on_group group_id (mg_merge_pending L (mp_storage self) group) self) (\<lambda>_ self.
    (map_err MpUnpack (transport_add_to_group L (fst out) (snd out)), self)))))"

definition mp_get_member ::
  "('x, 'k, 'c, 'g, 't, 'w) member_mls \<Rightarrow> ('g, 't) mls_processor \<Rightarrow> bytes \<Rightarrow> nat
    \<Rightarrow> (spki_hash, member_error) result \<times> ('g, 't) mls_processor" where
  "mp_get_member L self group_id index =
    bind_st (mp_get_group L group_id self) (\<lambda>group self.
    (case mg_leaf L group index of
       None \<Rightarrow> Err MpMemberNotFound
     | Some leaf \<Rightarrow> map_err MpCodec (credential_spki L (leaf_credential leaf)), self))"

definition mp_commit ::
  "('x, 'k, 'c, 'g, 't, 'w) member_mls \<Rightarrow> 'c \<Rightarrow> ('g, 't) mls_processor
    \<Rightarrow> (unit, member_error) result \<times> ('g, 't) mls_processor" where
  "mp_commit L commit self =
    (let group_id = commit_group_id L commit in
     bind_st (mp_get_group L group_id self) (\<lambda>group self.
     on_group group_id (mg_merge_staged L (mp_storage self) group commit) self))"

section \<open>Asking the server\<close>

datatype load_session_chain_error = IncorrectChain | ChainServerError

text \<open>\<^verbatim>\<open>svalin/src/shared/commands/load_certificate_chain.rs\<close>: what the dispatcher makes of the
  server's answer.\<close>

definition check_chain_response ::
  "spki_hash \<Rightarrow> (unverified_certificate_chain, unit) result \<Rightarrow> (unverified_certificate_chain, load_session_chain_error) result" where
  "check_chain_response hash response =
    and_then (map_err (\<lambda>_. ChainServerError) response) (\<lambda>ch.
    if map_option spki_hash (unverified_leaf ch) \<noteq> Some hash then Err IncorrectChain else Ok ch)"

datatype remote_retriever_error =
    RemoteChain load_session_chain_error
  | RemoteVerify verify_chain_error

definition remote_agent_chain ::
  "crypto \<Rightarrow> root_certificate \<Rightarrow> u64 \<Rightarrow> (spki_hash \<Rightarrow> (unverified_certificate_chain, unit) result) \<Rightarrow> spki_hash
    \<Rightarrow> (certificate_chain, remote_retriever_error) result" where
  "remote_agent_chain C root now ask hash =
    and_then (map_err RemoteChain (check_chain_response hash (ask hash))) (\<lambda>ch.
    map_err RemoteVerify (chain_verify C ch root now))"

fun remote_required_members ::
  "crypto \<Rightarrow> root_certificate \<Rightarrow> u64 \<Rightarrow> (spki_hash \<Rightarrow> (unverified_certificate_chain, unit) result) \<Rightarrow> svalin_group_id
    \<Rightarrow> (spki_hash list, remote_retriever_error) result" where
  "remote_required_members C root now ask (DeviceGroup hash) =
    map_ok (\<lambda>c. map cert_spki (chain_certificates c)) (remote_agent_chain C root now ask hash)"
| "remote_required_members C root now ask (DeviceMetaGroup hash) =
    map_ok (\<lambda>c. map cert_spki (take (length (chain_certificates c) - 1) (chain_certificates c)))
      (remote_agent_chain C root now ask hash)"
| "remote_required_members C root now ask GlobalGroup = Ok [cert_spki (as_certificate root)]"

datatype get_key_packages_error =
    GkpServerError
  | MissingKeyPackage spki_hash
  | GkpVerifyError key_package_error
  | ToManyKeyPackages

text \<open>\<^verbatim>\<open>svalin/src/shared/commands/get_key_packages.rs\<close>, the dispatcher.\<close>

definition check_key_packages ::
  "('x, 'k, 'c, 'z) openmls_scheme \<Rightarrow> spki_hash list \<Rightarrow> 'k list option \<Rightarrow> ('k list, get_key_packages_error) result" where
  "check_key_packages L requested key_packages =
    (case key_packages of
       None \<Rightarrow> Err GkpServerError
     | Some packages \<Rightarrow>
        and_then (map_err GkpVerifyError (collect_results (map (unverified_spki_hash L) packages))) (\<lambda>received.
        if card (set received) > length packages then Err ToManyKeyPackages
        else (case find (\<lambda>h. h \<notin> set received) requested of
            Some missing \<Rightarrow> Err (MissingKeyPackage missing)
          | None \<Rightarrow> Ok packages)))"

section \<open>Creating groups\<close>

text \<open>The harness of a member: its verifier, the required members, the server's key packages.\<close>

record ('k, 'r) harness_env =
  he_hex :: hex_crate
  he_verifier :: verifier
  he_required :: "svalin_group_id \<Rightarrow> (spki_hash list, 'r) result"
  he_packages :: "spki_hash list \<Rightarrow> ('k list, 'r) result"
  he_now :: u64

datatype 'r create_group_error =
    CreateMember member_error
  | CreateRetriever 'r
  | CreateKeyPackage key_package_error
  | CreateVerify verify_error
  | CreateWrongType certificate_type

fun verify_key_packages ::
  "('x, 'k, 'c, 'z) openmls_scheme \<Rightarrow> ('k, 'r) harness_env \<Rightarrow> 'k list
    \<Rightarrow> ('k key_package list, 'r create_group_error) result" where
  "verify_key_packages L E [] = Ok []"
| "verify_key_packages L E (member # rest) =
    and_then (map_err CreateKeyPackage (key_package_verify L (he_verifier E) (he_now E) member)) (\<lambda>kp.
    map_ok ((#) kp) (verify_key_packages L E rest))"

definition get_required_key_packages ::
  "('x, 'k, 'c, 'z) openmls_scheme \<Rightarrow> ('k, 'r) harness_env \<Rightarrow> svalin_group_id \<Rightarrow> spki_hash
    \<Rightarrow> ('k key_package list, 'r create_group_error) result" where
  "get_required_key_packages L E group_id me =
    and_then (map_err CreateRetriever (he_required E group_id)) (\<lambda>required.
    let required_members = filter (\<lambda>h. h \<noteq> me) required in
    if required_members = [] then Ok []
    else
      and_then (map_err CreateRetriever (he_packages E required_members)) (\<lambda>unverified.
      verify_key_packages L E unverified))"

definition create_group_if_not_exists ::
  "('x, 'k, 'c, 'g, 't, 'w) member_mls \<Rightarrow> ('k, 'r) harness_env \<Rightarrow> svalin_group_id \<Rightarrow> spki_hash
    \<Rightarrow> ('g, 't) mls_processor
    \<Rightarrow> (message_to_server_transport option, 'r create_group_error) result \<times> ('g, 't) mls_processor" where
  "create_group_if_not_exists L E group_id me st =
    bind_st (map_err_st CreateMember (mp_group_exists L (to_group_id (he_hex E) group_id) st)) (\<lambda>exists st.
    if exists then (Ok None, st)
    else
      bind_st (get_required_key_packages L E group_id me, st) (\<lambda>members st.
      bind_st (map_err_st CreateMember (mp_create_group L members (to_group_id (he_hex E) group_id) st)) (\<lambda>new_group st.
      (Ok (Some new_group), st))))"

section \<open>Agents\<close>

datatype 'r handle_error =
    HeUnpack unpack_error
  | HeMember member_error
  | HeParse parse_group_id_error
  | HeExpectedCommit
  | HeUnexpectedGroup svalin_group_id
  | HeCheck "('r, member_error) check_commit_error"
  | HeVerify verify_error
  | HeWrongCertificateType
  | HeRetriever 'r
  | HeCodec string
  | HeIncorrectMembers
  | HeExpectedData
  | HeNotTheDevice
  | HeUnallowedMessage

definition member_check_commit ::
  "('x, 'k, 'c, 'g, 't, 'w) member_mls \<Rightarrow> ('k, 'r) harness_env \<Rightarrow> svalin_group_id \<Rightarrow> 'c \<Rightarrow> ('g, 't) mls_processor
    \<Rightarrow> (unit, ('r, member_error) check_commit_error) result \<times> ('g, 't) mls_processor" where
  "member_check_commit L E =
    check_commit L (he_hex E) (mp_get_member L) (he_verifier E) (he_required E) (he_now E)"

definition agent_handle_add_to_group ::
  "('x, 'k, 'c, 'g, 't, 'w) member_mls \<Rightarrow> ('k, 'r) harness_env \<Rightarrow> svalin_group_id \<Rightarrow> 'x \<Rightarrow> ('g, 't) mls_processor
    \<Rightarrow> (unit, 'r handle_error) result \<times> ('g, 't) mls_processor" where
  "agent_handle_add_to_group L E my_device_group message st =
    bind_st (map_err_st HeMember (mp_process_message L (PublicMessage message) st)) (\<lambda>processed st.
    bind_st (map_err HeParse (from_group_id (he_hex E) (mpm_group_id processed)), st) (\<lambda>group_id st.
    case mpm_content processed of
      MessageContent _ \<Rightarrow> (Err HeExpectedCommit, st)
    | MemberCommit commit \<Rightarrow>
       if group_id \<noteq> my_device_group then (Err (HeUnexpectedGroup group_id), st)
       else
         bind_st (map_err_st HeCheck (member_check_commit L E group_id commit st)) (\<lambda>_ st.
         map_err_st HeMember (mp_commit L commit st))))"

text \<open>The branches that are \<^verbatim>\<open>todo!\<close> in the source panic.\<close>

definition agent_handle_message ::
  "('x, 'k, 'c, 'g, 't, 'w) member_mls \<Rightarrow> ('k, 'r) harness_env \<Rightarrow> certificate \<Rightarrow> message_to_member_transport
    \<Rightarrow> ('g, 't) mls_processor \<Rightarrow> (unit, 'r handle_error) result \<times> ('g, 't) mls_processor" where
  "agent_handle_message L E me message st =
    bind_st (map_err HeUnpack (unpack_to_member L message), st) (\<lambda>message st.
    case message of
      MemberWelcome _ \<Rightarrow> (Panicked, st)
    | MemberGroupMessage _ \<Rightarrow> (Panicked, st)
    | MemberAddToGroup m \<Rightarrow> agent_handle_add_to_group L E (DeviceGroup (cert_spki me)) m st)"

datatype ('rep, 'met) svalin_message = ReportMessage 'rep | MetaInfoMessage 'met

definition agent_send_report ::
  "('x, 'k, 'c, 'g, 't, 'w) member_mls \<Rightarrow> hex_crate \<Rightarrow> ('rep, 'met) svalin_message codec \<Rightarrow> certificate \<Rightarrow> 'rep
    \<Rightarrow> ('g, 't) mls_processor \<Rightarrow> (message_to_server_transport, 'r handle_error) result \<times> ('g, 't) mls_processor" where
  "agent_send_report L H P me report st =
    bind_st (map_err HeCodec (encode P (ReportMessage report)), st) (\<lambda>encoded st.
    map_err_st HeMember (mp_create_message L (to_group_id H (DeviceGroup (cert_spki me))) encoded st))"

definition create_device_group_if_missing ::
  "('x, 'k, 'c, 'g, 't, 'w) member_mls \<Rightarrow> ('k, 'r) harness_env \<Rightarrow> certificate \<Rightarrow> ('g, 't) mls_processor
    \<Rightarrow> (message_to_server_transport option, 'r create_group_error) result \<times> ('g, 't) mls_processor" where
  "create_device_group_if_missing L E me st =
    create_group_if_not_exists L E (DeviceGroup (cert_spki me)) (cert_spki me) st"

section \<open>Clients\<close>

datatype ('rep, 'met) message_data_content =
    DataReport spki_hash 'rep
  | DataMetaInfo spki_hash 'met
  | DataInternal

record ('rep, 'met) message_data =
  md_group :: svalin_group_id
  md_content :: "('rep, 'met) message_data_content"

definition client_new :: "certificate \<Rightarrow> (spki_hash, certificate_type) result" where
  "client_new me = (case cert_type me of
     Root \<Rightarrow> Ok (cert_spki me) | User \<Rightarrow> Ok (cert_spki me) | UserSession \<Rightarrow> Ok (cert_spki me)
   | t \<Rightarrow> Err t)"

definition check_welcome_subject ::
  "('k, 'r) harness_env \<Rightarrow> svalin_group_id \<Rightarrow> (unit, 'r handle_error) result" where
  "check_welcome_subject E group_id =
    (case group_subject group_id of
       None \<Rightarrow> Ok ()
     | Some hash \<Rightarrow>
        and_then (map_err HeVerify (verify_spki_hash (he_verifier E) hash (he_now E))) (\<lambda>certificate.
        if cert_type certificate \<noteq> Agent then Err HeWrongCertificateType else Ok ()))"

definition client_handle_welcome ::
  "('x, 'k, 'c, 'g, 't, 'w) member_mls \<Rightarrow> ('k, 'r) harness_env \<Rightarrow> 'x \<Rightarrow> ('g, 't) mls_processor
    \<Rightarrow> (svalin_group_id, 'r handle_error) result \<times> ('g, 't) mls_processor" where
  "client_handle_welcome L E welcome st =
    bind_st (map_err_st HeMember (mp_stage_join L welcome st)) (\<lambda>staged st.
    bind_st (map_err HeParse (from_group_id (he_hex E) (staged_group_id L staged)), st) (\<lambda>group_id st.
    bind_st (check_welcome_subject E group_id, st) (\<lambda>_ st.
    bind_st (map_err HeRetriever (he_required E group_id), st) (\<lambda>required_members st.
    bind_st (map_err HeCodec (member_hashes L (staged_members L staged)), st) (\<lambda>members st.
    if \<not> set required_members \<subseteq> set members then (Err HeIncorrectMembers, st)
    else
      bind_st (map_err_st HeMember (mp_join_group L staged st)) (\<lambda>_ st.
      (Ok group_id, st)))))))"

definition client_handle_add_to_group ::
  "('x, 'k, 'c, 'g, 't, 'w) member_mls \<Rightarrow> ('k, 'r) harness_env \<Rightarrow> 'x \<Rightarrow> ('g, 't) mls_processor
    \<Rightarrow> (('rep, 'met) message_data, 'r handle_error) result \<times> ('g, 't) mls_processor" where
  "client_handle_add_to_group L E message st =
    bind_st (map_err_st HeMember (mp_process_message L (PublicMessage message) st)) (\<lambda>processed st.
    bind_st (map_err HeParse (from_group_id (he_hex E) (mpm_group_id processed)), st) (\<lambda>group_id st.
    case mpm_content processed of
      MessageContent _ \<Rightarrow> (Err HeExpectedCommit, st)
    | MemberCommit commit \<Rightarrow>
       bind_st (map_err_st HeCheck (member_check_commit L E group_id commit st)) (\<lambda>_ st.
       bind_st (map_err_st HeMember (mp_commit L commit st)) (\<lambda>_ st.
       (Ok \<lparr> md_group = group_id, md_content = DataInternal \<rparr>, st)))))"

text \<open>A decrypted message: reports are accepted in device groups and only from the device,
  meta information in meta groups from every member.\<close>

definition client_data ::
  "svalin_group_id \<Rightarrow> spki_hash \<Rightarrow> ('rep, 'met) svalin_message \<Rightarrow> (('rep, 'met) message_data, 'r handle_error) result" where
  "client_data group_id sender decoded =
    (case decoded of
       ReportMessage report \<Rightarrow>
        (case group_id of
           DeviceGroup device \<Rightarrow>
             if device \<noteq> sender then Err HeNotTheDevice
             else Ok \<lparr> md_group = group_id, md_content = DataReport device report \<rparr>
         | _ \<Rightarrow> Err HeUnallowedMessage)
     | MetaInfoMessage meta_info \<Rightarrow>
        (case group_id of
           DeviceMetaGroup device \<Rightarrow>
             Ok \<lparr> md_group = group_id, md_content = DataMetaInfo device meta_info \<rparr>
         | _ \<Rightarrow> Err HeUnallowedMessage))"

definition client_handle_group_message ::
  "('x, 'k, 'c, 'g, 't, 'w) member_mls \<Rightarrow> ('rep, 'met) svalin_message codec \<Rightarrow> ('k, 'r) harness_env \<Rightarrow> 'x
    \<Rightarrow> ('g, 't) mls_processor \<Rightarrow> (('rep, 'met) message_data, 'r handle_error) result \<times> ('g, 't) mls_processor" where
  "client_handle_group_message L P E message st =
    bind_st (map_err_st HeMember (mp_process_message L (PrivateMessage message) st)) (\<lambda>processed st.
    bind_st (map_err HeParse (from_group_id (he_hex E) (mpm_group_id processed)), st) (\<lambda>group_id st.
    case mpm_content processed of
      MemberCommit _ \<Rightarrow> (Err HeExpectedData, st)
    | MessageContent decrypted \<Rightarrow>
       bind_st (map_err HeCodec (decode P decrypted), st) (\<lambda>decoded st.
       (client_data group_id (mpm_sender processed) decoded, st))))"

definition client_handle_message ::
  "('x, 'k, 'c, 'g, 't, 'w) member_mls \<Rightarrow> ('rep, 'met) svalin_message codec \<Rightarrow> ('k, 'r) harness_env
    \<Rightarrow> message_to_member_transport \<Rightarrow> ('g, 't) mls_processor
    \<Rightarrow> (('rep, 'met) message_data, 'r handle_error) result \<times> ('g, 't) mls_processor" where
  "client_handle_message L P E message st =
    bind_st (map_err HeUnpack (unpack_to_member L message), st) (\<lambda>message st.
    case message of
      MemberWelcome welcome \<Rightarrow>
        bind_st (client_handle_welcome L E welcome st) (\<lambda>group st.
        (Ok \<lparr> md_group = group, md_content = DataInternal \<rparr>, st))
    | MemberGroupMessage m \<Rightarrow> client_handle_group_message L P E m st
    | MemberAddToGroup m \<Rightarrow> client_handle_add_to_group L E m st)"

definition create_meta_group_if_missing ::
  "('x, 'k, 'c, 'g, 't, 'w) member_mls \<Rightarrow> ('k, 'r) harness_env \<Rightarrow> spki_hash \<Rightarrow> spki_hash \<Rightarrow> ('g, 't) mls_processor
    \<Rightarrow> (message_to_server_transport option, 'r create_group_error) result \<times> ('g, 't) mls_processor" where
  "create_meta_group_if_missing L E me hash st =
    bind_st (map_err CreateVerify (verify_spki_hash (he_verifier E) hash (he_now E)), st) (\<lambda>certificate st.
    if cert_type certificate \<noteq> Agent then (Err (CreateWrongType (cert_type certificate)), st)
    else create_group_if_not_exists L E (DeviceMetaGroup hash) me st)"

definition client_send_meta_info ::
  "('x, 'k, 'c, 'g, 't, 'w) member_mls \<Rightarrow> hex_crate \<Rightarrow> ('rep, 'met) svalin_message codec \<Rightarrow> spki_hash \<Rightarrow> 'met
    \<Rightarrow> ('g, 't) mls_processor \<Rightarrow> (message_to_server_transport, 'r handle_error) result \<times> ('g, 't) mls_processor" where
  "client_send_meta_info L H P hash metainfo st =
    bind_st (map_err HeCodec (encode P (MetaInfoMessage metainfo)), st) (\<lambda>encoded st.
    map_err_st HeMember (mp_create_message L (to_group_id H (DeviceMetaGroup hash)) encoded st))"

section \<open>Lemmas\<close>

definition mp_group ::
  "('x, 'k, 'c, 'g, 't, 'w) member_mls \<Rightarrow> ('g, 't) mls_processor \<Rightarrow> bytes \<Rightarrow> 'g option" where
  "mp_group L st gid =
    (case mp_cache st gid of
       Some g \<Rightarrow> Some g
     | None \<Rightarrow> (case mg_load L (mp_storage st) gid of Ok (Some g) \<Rightarrow> Some g | _ \<Rightarrow> None))"

definition mp_member_at ::
  "('x, 'k, 'c, 'g, 't, 'w) member_mls \<Rightarrow> ('g, 't) mls_processor \<Rightarrow> bytes \<Rightarrow> nat \<Rightarrow> spki_hash option" where
  "mp_member_at L st gid i =
    Option.bind (mp_group L st gid) (\<lambda>g. Option.bind (mg_leaf L g i) (leaf_hash L))"

lemma mp_get_group_spec:
  "fst (mp_get_group L gid st) = Ok g \<longleftrightarrow> mp_group L st gid = Some g"
  "mp_group L (snd (mp_get_group L gid st)) = mp_group L st"
  "mp_storage (snd (mp_get_group L gid st)) = mp_storage st"
  by (auto simp: mp_get_group_def mp_group_def fun_eq_iff split: option.splits result.splits)

lemma mp_get_member_spec:
  "fst (mp_get_member L st gid i) = Ok h \<longleftrightarrow> mp_member_at L st gid i = Some h"
  "mp_group L (snd (mp_get_member L st gid i)) = mp_group L st"
  "mp_storage (snd (mp_get_member L st gid i)) = mp_storage st"
proof -
  obtain r st1 where g: "mp_get_group L gid st = (r, st1)" by fastforce
  have st1: "mp_group L st1 = mp_group L st" "mp_storage st1 = mp_storage st"
    using mp_get_group_spec(2,3) [of L gid st] g by simp_all
  then show "mp_group L (snd (mp_get_member L st gid i)) = mp_group L st"
    "mp_storage (snd (mp_get_member L st gid i)) = mp_storage st"
    by (cases r; simp add: mp_get_member_def g)+
  have r: "r = Ok g' \<longleftrightarrow> mp_group L st gid = Some g'" for g'
    using mp_get_group_spec(1) [of L gid st g'] g by simp
  show "fst (mp_get_member L st gid i) = Ok h \<longleftrightarrow> mp_member_at L st gid i = Some h"
  proof (cases "mp_group L st gid")
    case (Some g')
    then have "fst (mp_get_member L st gid i) = (case mg_leaf L g' i of
        None \<Rightarrow> Err MpMemberNotFound
      | Some leaf \<Rightarrow> map_err MpCodec (credential_spki L (leaf_credential leaf)))"
      using r [of g'] g by (simp add: mp_get_member_def)
    then show ?thesis
      by (simp add: mp_member_at_def Some leaf_hash_def result_simps split: option.splits result.splits)
  next
    case None
    then have "\<nexists>g'. r = Ok g'" using r by simp
    then show ?thesis using None g by (cases r) (simp_all add: mp_get_member_def mp_member_at_def)
  qed
qed

interpretation mp: member_lookup "mp_get_member L" "mp_member_at L"
    "\<lambda>st. mp_group L st = G \<and> mp_storage st = t" for L G t
proof unfold_locales
  fix st gid i h
  assume st: "mp_group L st = G \<and> mp_storage st = t"
  show "fst (mp_get_member L st gid i) = Ok h \<longleftrightarrow> mp_member_at L st gid i = Some h"
    by (rule mp_get_member_spec(1))
  show "(mp_group L (snd (mp_get_member L st gid i)) = G \<and> mp_storage (snd (mp_get_member L st gid i)) = t)
      \<and> mp_member_at L (snd (mp_get_member L st gid i)) = mp_member_at L st"
    using st mp_get_member_spec(2,3) [of L st gid i] by (simp add: mp_member_at_def fun_eq_iff)
qed

lemma member_check_commit_spec:
  assumes "member_check_commit L E g c st = (r, st')"
  shows "mp_group L st' = mp_group L st" "mp_storage st' = mp_storage st"
    "r = Ok () \<longleftrightarrow> commit_allowed L (he_verifier E) (he_now E) (he_required E g)
      (mp_member_at L st (to_group_id (he_hex E) g)) c"
proof -
  have "exact_st (\<lambda>st'. (mp_group L st' = mp_group L st \<and> mp_storage st' = mp_storage st)
      \<and> mp_member_at L st' = mp_member_at L st) (member_check_commit L E g c st)
    (\<lambda>_. commit_allowed L (he_verifier E) (he_now E) (he_required E g)
      (mp_member_at L st (to_group_id (he_hex E) g)) c)"
    unfolding member_check_commit_def by (rule mp.check_commit_exact) simp
  then show "mp_group L st' = mp_group L st" "mp_storage st' = mp_storage st"
    "r = Ok () \<longleftrightarrow> commit_allowed L (he_verifier E) (he_now E) (he_required E g)
      (mp_member_at L st (to_group_id (he_hex E) g)) c"
    using assms by (simp_all add: exact_st_def)
qed

lemma verify_key_packages_cong:
  "he_verifier E' = he_verifier E \<Longrightarrow> he_now E' = he_now E \<Longrightarrow>
    verify_key_packages L E' ks = verify_key_packages L E ks"
  by (induction ks) simp_all

lemma verify_key_packages_append:
  "verify_key_packages L E xs = Ok kps \<Longrightarrow> verify_key_packages L E [y] = Ok [kp] \<Longrightarrow>
    verify_key_packages L E (xs @ [y]) = Ok (kps @ [kp])"
  by (induction xs arbitrary: kps) (auto simp: result_simps)

lemma find_missing_None: "find (\<lambda>h. h \<notin> S) xs = None \<longleftrightarrow> set xs \<subseteq> S"
  by (auto simp: find_None_iff)

text \<open>The check for too many packages compares a set with the list it was built from, so it never
  fires.\<close>

lemma received_not_too_many:
  assumes "collect_results (map f packages) = Ok hs"
  shows "\<not> length packages < card (set hs)"
  using collect_results_length [OF assms] card_length [of hs] by simp

lemma check_key_packages_Ok_iff:
  "check_key_packages L requested (Some packages) = Ok out \<longleftrightarrow> out = packages
    \<and> (\<exists>hs. collect_results (map (unverified_spki_hash L) packages) = Ok hs \<and> set requested \<subseteq> set hs)"
  by (cases "collect_results (map (unverified_spki_hash L) packages)")
    (auto simp: check_key_packages_def find_missing_None [symmetric] received_not_too_many split: option.splits)

lemma check_key_packages_not_too_many:
  "check_key_packages L requested packages \<noteq> Err ToManyKeyPackages"
proof (cases packages)
  case (Some ks)
  then show ?thesis
    by (cases "collect_results (map (unverified_spki_hash L) ks)")
      (simp_all add: check_key_packages_def received_not_too_many split: option.splits)
qed (simp add: check_key_packages_def)

lemma case_commit_Ok_iff:
  "(case c of MessageContent b \<Rightarrow> (Err e, s) | MemberCommit x \<Rightarrow> f x) = (Ok y, s')
    \<longleftrightarrow> (\<exists>x. c = MemberCommit x \<and> f x = (Ok y, s'))"
  by (cases c) auto

lemma case_data_Ok_iff:
  "(case c of MessageContent b \<Rightarrow> f b | MemberCommit x \<Rightarrow> (Err e, s)) = (Ok y, s')
    \<longleftrightarrow> (\<exists>b. c = MessageContent b \<and> f b = (Ok y, s'))"
  by (cases c) auto

lemma guard_st_Ok_iff:
  "(if b then (Err e, s) else t) = (Ok y, s') \<longleftrightarrow> \<not> b \<and> t = (Ok y, s')"
  by simp

lemmas handler_iffs = result_simps case_commit_Ok_iff case_data_Ok_iff guard_st_Ok_iff

lemma agent_handle_add_to_group_Ok_iff:
  "agent_handle_add_to_group L E g x st = (Ok u, st') \<longleftrightarrow>
    (\<exists>p c st1 st2. mp_process_message L (PublicMessage x) st = (Ok p, st1) \<and> mpm_content p = MemberCommit c
       \<and> from_group_id (he_hex E) (mpm_group_id p) = Ok g
       \<and> member_check_commit L E g c st1 = (Ok (), st2) \<and> mp_commit L c st2 = (Ok (), st'))"
  unfolding agent_handle_add_to_group_def handler_iffs by (auto simp: handler_iffs)

lemma agent_handle_message_Ok_iff:
  "agent_handle_message L E me m st = (Ok u, st') \<longleftrightarrow>
    (\<exists>x. unpack_to_member L m = Ok (MemberAddToGroup x)
       \<and> agent_handle_add_to_group L E (DeviceGroup (cert_spki me)) x st = (Ok u, st'))"
proof (cases "unpack_to_member L m")
  case (Ok message)
  then show ?thesis by (cases message) (simp_all add: agent_handle_message_def)
qed (simp_all add: agent_handle_message_def)

lemma member_check_commit_Ok_iff:
  "member_check_commit L E g c st1 = (Ok (), st2) \<longleftrightarrow>
    commit_allowed L (he_verifier E) (he_now E) (he_required E g)
      (mp_member_at L st1 (to_group_id (he_hex E) g)) c
    \<and> snd (member_check_commit L E g c st1) = st2 \<and> mp_group L st2 = mp_group L st1"
  using member_check_commit_spec [of L E g c st1] by (cases "member_check_commit L E g c st1") auto

lemma client_data_report_iff:
  "(client_data g sender x :: (_, 'r handle_error) result) = Ok md \<and> md_content md = DataReport d rep
    \<longleftrightarrow> x = ReportMessage rep \<and> g = DeviceGroup d \<and> sender = d
      \<and> md = \<lparr> md_group = g, md_content = DataReport d rep \<rparr>"
  by (cases x; cases g) (auto simp: client_data_def)

lemma client_data_meta_iff:
  "(client_data g sender x :: (_, 'r handle_error) result) = Ok md \<and> md_content md = DataMetaInfo d met
    \<longleftrightarrow> x = MetaInfoMessage met \<and> g = DeviceMetaGroup d
      \<and> md = \<lparr> md_group = g, md_content = DataMetaInfo d met \<rparr>"
  by (cases x; cases g) (auto simp: client_data_def)

lemma client_handle_group_message_Ok_iff:
  fixes E :: "('k, 'r) harness_env"
  shows "client_handle_group_message L P E x st = (Ok md, st') \<longleftrightarrow>
    (\<exists>p b g v. mp_process_message L (PrivateMessage x) st = (Ok p, st') \<and> mpm_content p = MessageContent b
      \<and> from_group_id (he_hex E) (mpm_group_id p) = Ok g \<and> decode P b = Ok v
      \<and> (client_data g (mpm_sender p) v :: (_, 'r handle_error) result) = Ok md)"
  unfolding client_handle_group_message_def by (auto simp: handler_iffs)

text \<open>Only group messages give the application data; welcomes and commits are internal.\<close>

lemma client_handle_message_data_iff:
  assumes "content \<noteq> DataInternal"
  shows "(client_handle_message L P E m st = (Ok md, st') \<and> md_content md = content) \<longleftrightarrow>
    (\<exists>x. unpack_to_member L m = Ok (MemberGroupMessage x)
      \<and> client_handle_group_message L P E x st = (Ok md, st') \<and> md_content md = content)"
proof (cases "unpack_to_member L m")
  case (Ok message)
  then show ?thesis
    using assms by (cases message)
      (auto simp: client_handle_message_def client_handle_add_to_group_def handler_iffs)
qed (simp_all add: client_handle_message_def)

lemma mp_join_group_Ok_iff:
  "mp_join_group L w st = (Ok u, st') \<longleftrightarrow>
    (\<exists>g t. mg_into_group L (mp_storage st) w = (Ok g, t)
      \<and> st' = \<lparr> mp_cache = (mp_cache st)(mg_group_id L g \<mapsto> g), mp_storage = t \<rparr>)"
  by (cases "mg_into_group L (mp_storage st) w"; cases "fst (mg_into_group L (mp_storage st) w)")
    (auto simp: mp_join_group_def)

lemma mp_stage_join_Ok_iff:
  "mp_stage_join L x st = (Ok w, st') \<longleftrightarrow>
    (\<exists>t. mg_stage_welcome L (mp_storage st) x = (Ok w, t) \<and> st' = st \<lparr> mp_storage := t \<rparr>)"
  by (cases "mg_stage_welcome L (mp_storage st) x") (auto simp: mp_stage_join_def result_simps)

section \<open>Sample member\<close>

text \<open>A member's library in which groups are as in \<^verbatim>\<open>sample_mls\<close>, application messages are their
  plain text, and every message comes from the leaf with index 1.\<close>

definition sample_member_mls ::
  "(sample_group, leaf_node, leaf_node list, sample_group, bytes \<rightharpoonup> sample_group, sample_group) member_mls" where
  "sample_member_mls = \<lparr>
     message_in = \<lambda>raw. Ok (if raw = [] then PublicBody sample_info else PrivateBody sample_info),
     message_out = \<lambda>_. Ok [1],
     welcome_in = \<lambda>_. Ok sample_info,
     welcome_out = \<lambda>_. Ok [],
     group_info_in = \<lambda>raw. Ok sample_info,
     group_info_out = \<lambda>_. Ok [],
     message_group_id = \<lambda>m. case m of PrivateMessage x \<Rightarrow> fst x | PublicMessage x \<Rightarrow> fst x,
     credential_spki = \<lambda>b. Ok (SpkiHash b),
     spki_credential = spki_bytes,
     validate_key_package = Ok,
     key_package_leaf = \<lambda>k. k,
     credentials_to_verify = map leaf_credential,
     remove_proposals = \<lambda>_. [],
     add_proposals = map (\<lambda>l. (SenderMember 0, l)),
     kp_build = \<lambda>t. (Ok (sample_leaf sample_device), t),
     mg_new = \<lambda>t gid. (Ok (gid, []), t),
     mg_export_info = Ok,
     mg_commit_adds = \<lambda>t g ks. (Ok (Some g, Some g), (fst g, snd g @ ks), t),
     mg_add_members = \<lambda>t g ks. (Ok (PublicBody g, WelcomeBody g), g, t),
     mg_merge_pending = \<lambda>t g. (Ok (), g, t(fst g \<mapsto> g)),
     mg_load = \<lambda>t k. Ok (t k),
     mg_stage_welcome = \<lambda>t w. (Ok w, t),
     staged_group_id = fst,
     staged_members = snd,
     mg_into_group = \<lambda>t w. (Ok w, t(fst w \<mapsto> w)),
     mg_group_id = fst,
     mg_members = snd,
     mg_leaf = \<lambda>g i. if i < length (snd g) then Some (snd g ! i) else None,
     mg_create_message = \<lambda>t g bs. (Ok (PrivateBody g), g, t),
     mg_process = \<lambda>t g m. (Ok (SenderMember 1, case m of
        PrivateMessage x \<Rightarrow> ApplicationMessage [7] | PublicMessage x \<Rightarrow> StagedCommitMessage []), g, t),
     commit_group_id = \<lambda>_. fst sample_info,
     mg_merge_staged = \<lambda>t g c. (Ok (), (fst g, snd g @ c), t(fst g \<mapsto> (fst g, snd g @ c))) \<rparr>"

definition sample_report_codec :: "(u8, u8) svalin_message codec" where
  "sample_report_codec = \<lparr> encode = \<lambda>m. case m of ReportMessage r \<Rightarrow> Ok [r] | MetaInfoMessage r \<Rightarrow> Err ''unused'',
     decode = \<lambda>bs. Ok (ReportMessage (hd bs)) \<rparr>"

definition sample_harness :: "(leaf_node, remote_retriever_error) harness_env" where
  "sample_harness = \<lparr> he_hex = sample_hex, he_verifier = exact_verifier (Certificate sample_device),
     he_required = \<lambda>_. Ok [cert_spki (as_certificate sample_root), spki_hash sample_device],
     he_packages = \<lambda>_. Ok [sample_leaf sample_device], he_now = 10 \<rparr>"

definition sample_joined :: "(sample_group, bytes \<rightharpoonup> sample_group) mls_processor" where
  "sample_joined = \<lparr> mp_cache = [fst sample_info \<mapsto> sample_info], mp_storage = Map.empty \<rparr>"

lemma sample_joined_cache: "mp_cache sample_joined (fst sample_info) = Some sample_info"
  by (simp add: sample_joined_def)

lemma sample_second_leaf: "snd sample_info ! 1 = sample_leaf sample_device" "length (snd sample_info) = 2"
  by (simp_all add: sample_info_def)

lemma sample_member_sel:
  "mg_stage_welcome sample_member_mls t x = (Ok x, t)" "staged_group_id sample_member_mls = fst"
  "staged_members sample_member_mls = snd" "mg_into_group sample_member_mls t x = (Ok x, t(fst x \<mapsto> x))"
  "credential_spki sample_member_mls b = Ok (SpkiHash b)" "key_package_leaf sample_member_mls k = k"
  "validate_key_package sample_member_mls k = Ok k"
  by (simp_all add: sample_member_mls_def)

lemma sample_unpack:
  "unpack_to_member sample_member_mls (MemberGroupMessageTransport [1]) = Ok (MemberGroupMessage sample_info)"
  by (simp add: sample_member_mls_def)

lemma sample_processed:
  "\<exists>st'. mp_process_message sample_member_mls (PrivateMessage sample_info) sample_joined
    = (Ok \<lparr> mpm_group_id = fst sample_info, mpm_sender = spki_hash sample_device,
            mpm_content = MessageContent [7] \<rparr>, st')"
  using sample_second_leaf
  by (simp add: mp_process_message_def sample_member_mls_def mp_get_group_def sample_joined_cache on_group_def
      sample_leaf_def Let_def)

lemma sample_member_hashes: "member_hashes sample_member_mls (snd sample_info)
    = Ok [cert_spki (as_certificate sample_root), spki_hash sample_device]"
  by (simp add: member_hashes_def sample_member_mls_def sample_info_def sample_leaf_def)

lemma sample_subject:
  "check_welcome_subject sample_harness (DeviceGroup (spki_hash sample_device))
    = Ok ()"
  "verify_spki_hash (exact_verifier (Certificate sample_device)) (spki_hash sample_device) 10
    = Ok (Certificate sample_device)"
proof -
  have "check_validity_at sample_device 10 = Ok ()" "certificate_type sample_device = Agent" by code_simp+
  then show "verify_spki_hash (exact_verifier (Certificate sample_device)) (spki_hash sample_device) 10
      = Ok (Certificate sample_device)"
    "check_welcome_subject sample_harness (DeviceGroup (spki_hash sample_device)) = Ok ()"
    by (simp_all add: exact_verifier_def check_welcome_subject_def sample_harness_def)
qed

section \<open>Properties\<close>

text \<open>What an agent does with a message from the server. A commit changes its groups only if
  it belongs to the agent's own device group and passes the commit check. A welcome or a
  group message that can be unpacked makes the agent panic.\<close>

theorem agent_message_exact:
  "(\<forall>st'. agent_handle_message L E me m st = (Ok (), st') \<longleftrightarrow>
     (\<exists>x p c st1 st2. unpack_to_member L m = Ok (MemberAddToGroup x)
       \<and> mp_process_message L (PublicMessage x) st = (Ok p, st1) \<and> mpm_content p = MemberCommit c
       \<and> from_group_id (he_hex E) (mpm_group_id p) = Ok (DeviceGroup (cert_spki me))
       \<and> commit_allowed L (he_verifier E) (he_now E) (he_required E (DeviceGroup (cert_spki me)))
           (mp_member_at L st1 (to_group_id (he_hex E) (DeviceGroup (cert_spki me)))) c
       \<and> snd (member_check_commit L E (DeviceGroup (cert_spki me)) c st1) = st2
       \<and> mp_group L st2 = mp_group L st1 \<and> mp_commit L c st2 = (Ok (), st')))
   \<and> (\<forall>w. unpack_to_member L m = Ok (MemberWelcome w) \<or> unpack_to_member L m = Ok (MemberGroupMessage w)
       \<longrightarrow> fst (agent_handle_message L E me m st) = Panicked)"
  unfolding agent_handle_message_Ok_iff agent_handle_add_to_group_Ok_iff member_check_commit_Ok_iff
  by (auto simp: agent_handle_message_def)

theorem agent_message_exact_witness:
  "fst (agent_handle_message sample_member_mls sample_harness (Certificate sample_device)
    (MemberGroupMessageTransport [1]) sample_joined) = Panicked"
proof -
  have "unpack_to_member sample_member_mls (MemberGroupMessageTransport [1]) = Ok (MemberGroupMessage sample_info)"
    by (simp add: sample_member_mls_def)
  then show ?thesis using agent_message_exact [of sample_member_mls] by blast
qed

text \<open>C24. A client passes a report to the application exactly when the message is an application
  message of that device's own group, sent by the leaf that carries the device's hash; the
  sender of meta information is any member of the device's meta group.\<close>

theorem client_report_authentic:
  fixes E :: "('k, 'r) harness_env"
  shows "(client_handle_message L P E m st = (Ok md, st') \<and> md_content md = DataReport d rep \<longleftrightarrow>
     (\<exists>x p b. unpack_to_member L m = Ok (MemberGroupMessage x)
       \<and> mp_process_message L (PrivateMessage x) st = (Ok p, st') \<and> mpm_content p = MessageContent b
       \<and> from_group_id (he_hex E) (mpm_group_id p) = Ok (DeviceGroup d) \<and> mpm_sender p = d
       \<and> decode P b = Ok (ReportMessage rep)
       \<and> md = \<lparr> md_group = DeviceGroup d, md_content = DataReport d rep \<rparr>))
   \<and> (client_handle_message L P E m st = (Ok md, st') \<and> md_content md = DataMetaInfo d met \<longleftrightarrow>
     (\<exists>x p b. unpack_to_member L m = Ok (MemberGroupMessage x)
       \<and> mp_process_message L (PrivateMessage x) st = (Ok p, st') \<and> mpm_content p = MessageContent b
       \<and> from_group_id (he_hex E) (mpm_group_id p) = Ok (DeviceMetaGroup d)
       \<and> decode P b = Ok (MetaInfoMessage met)
       \<and> md = \<lparr> md_group = DeviceMetaGroup d, md_content = DataMetaInfo d met \<rparr>))"
proof (rule conjI, goal_cases)
  case 1
  have "(\<exists>g v. from_group_id (he_hex E) i = Ok g \<and> decode P b = Ok v
      \<and> (client_data g sender v :: (_, 'r handle_error) result) = Ok md \<and> md_content md = DataReport d rep)
    \<longleftrightarrow> from_group_id (he_hex E) i = Ok (DeviceGroup d) \<and> sender = d \<and> decode P b = Ok (ReportMessage rep)
      \<and> md = \<lparr> md_group = DeviceGroup d, md_content = DataReport d rep \<rparr>" for i b sender
    unfolding client_data_report_iff by auto
  then show ?case
    unfolding client_handle_message_data_iff [OF message_data_content.distinct(3)]
      client_handle_group_message_Ok_iff by blast
next
  case 2
  have "(\<exists>g v. from_group_id (he_hex E) i = Ok g \<and> decode P b = Ok v
      \<and> (client_data g sender v :: (_, 'r handle_error) result) = Ok md \<and> md_content md = DataMetaInfo d met)
    \<longleftrightarrow> from_group_id (he_hex E) i = Ok (DeviceMetaGroup d) \<and> decode P b = Ok (MetaInfoMessage met)
      \<and> md = \<lparr> md_group = DeviceMetaGroup d, md_content = DataMetaInfo d met \<rparr>" for i b sender
    unfolding client_data_meta_iff by auto
  then show ?case
    unfolding client_handle_message_data_iff [OF message_data_content.distinct(5)]
      client_handle_group_message_Ok_iff by blast
qed

theorem client_report_authentic_witness:
  "\<exists>st'. client_handle_message sample_member_mls sample_report_codec sample_harness
      (MemberGroupMessageTransport [1]) sample_joined
    = (Ok \<lparr> md_group = DeviceGroup (spki_hash sample_device),
            md_content = DataReport (spki_hash sample_device) 7 \<rparr>, st')"
proof -
  let ?d = "spki_hash sample_device"
  let ?md = "\<lparr> md_group = DeviceGroup ?d, md_content = DataReport ?d 7 \<rparr> :: (u8, u8) message_data"
  let ?p = "\<lparr> mpm_group_id = fst sample_info, mpm_sender = ?d, mpm_content = MessageContent [7] \<rparr>"
  obtain st' where p: "mp_process_message sample_member_mls (PrivateMessage sample_info) sample_joined = (Ok ?p, st')"
    using sample_processed by blast
  have "client_handle_message sample_member_mls sample_report_codec sample_harness
      (MemberGroupMessageTransport [1]) sample_joined
      = (Ok ?md, st') \<and> md_content ?md = DataReport ?d 7"
    unfolding client_report_authentic [THEN conjunct1]
    using p by (intro exI [of _ sample_info] exI [of _ ?p] exI [of _ "[7]"])
      (simp add: sample_unpack sample_harness_def sample_info_id sample_report_codec_def del: unpack_to_member.simps)
  then show ?thesis by blast
qed

text \<open>When a client joins a group it was invited to: the group's name is readable, its subject is
  an agent that is valid now, and every required member is claimed by some leaf. Further members
  are not an obstacle, and no leaf's signature key is compared with a certificate.\<close>

theorem welcome_accepted:
  fixes E :: "('k, 'r) harness_env"
  shows "client_handle_welcome L E x st = (Ok g, st') \<longleftrightarrow>
    (\<exists>staged t required members group t'. mg_stage_welcome L (mp_storage st) x = (Ok staged, t)
      \<and> from_group_id (he_hex E) (staged_group_id L staged) = Ok g
      \<and> check_welcome_subject E g = Ok ()
      \<and> he_required E g = Ok required
      \<and> member_hashes L (staged_members L staged) = Ok members \<and> set required \<subseteq> set members
      \<and> mg_into_group L t staged = (Ok group, t')
      \<and> st' = \<lparr> mp_cache = (mp_cache st)(mg_group_id L group \<mapsto> group), mp_storage = t' \<rparr>)"
  unfolding client_handle_welcome_def
  by (auto simp: handler_iffs mp_stage_join_Ok_iff mp_join_group_Ok_iff)

theorem welcome_accepted_witness:
  "\<exists>st'. client_handle_welcome sample_member_mls sample_harness sample_info
      \<lparr> mp_cache = Map.empty, mp_storage = Map.empty \<rparr>
    = (Ok (DeviceGroup (spki_hash sample_device)), st')"
  unfolding welcome_accepted using sample_subject(1)
  by (auto simp: sample_harness_def sample_info_id sample_member_hashes sample_member_sel)

text \<open>The server chooses the members of a new group: if a member creates a group with the key
  packages the server returned, it also does so when the server adds any further package of
  a certificate it can verify. The dispatcher's check for too many packages never fires.\<close>

theorem server_chosen_members:
  assumes "he_required E g = Ok required" "requested = filter (\<lambda>h. h \<noteq> me) required" "requested \<noteq> []"
    "he_packages E requested = map_err f (check_key_packages L requested (Some ks))"
    "he_packages E' requested = map_err f (check_key_packages L requested (Some (ks @ [extra])))"
    "he_required E' = he_required E" "he_verifier E' = he_verifier E" "he_now E' = he_now E"
    "get_required_key_packages L E g me = Ok kps"
    "key_package_verify L (he_verifier E) (he_now E) extra = Ok kp"
    "unverified_spki_hash L extra = Ok h"
  shows "get_required_key_packages L E' g me = Ok (kps @ [kp])
    \<and> check_key_packages L hs packages \<noteq> Err ToManyKeyPackages"
proof
  show "check_key_packages L hs packages \<noteq> Err ToManyKeyPackages"
    by (rule check_key_packages_not_too_many)
  have got: "check_key_packages L requested (Some ks) = Ok ks" "verify_key_packages L E ks = Ok kps"
    using assms(1-4,9) check_key_packages_Ok_iff [of L requested ks]
    by (auto simp: get_required_key_packages_def result_simps)
  have "check_key_packages L requested (Some (ks @ [extra])) = Ok (ks @ [extra])"
    using got(1) assms(11) unfolding check_key_packages_Ok_iff by (auto simp: collect_results_snoc)
  moreover have "verify_key_packages L E' = verify_key_packages L E"
    using verify_key_packages_cong [OF assms(7,8)] by blast
  moreover have "verify_key_packages L E (ks @ [extra]) = Ok (kps @ [kp])"
    using verify_key_packages_append [OF got(2)] assms(10) by simp
  ultimately show "get_required_key_packages L E' g me = Ok (kps @ [kp])"
    using assms(1,2,3,5,6) by (simp add: get_required_key_packages_def)
qed

theorem server_chosen_members_witness:
  "get_required_key_packages sample_member_mls
      (sample_harness \<lparr> he_packages := \<lambda>_. Ok [sample_leaf sample_device, sample_leaf sample_device] \<rparr>)
      (DeviceGroup (spki_hash sample_device)) (cert_spki (as_certificate sample_root))
    = Ok [\<lparr> kp_package = sample_leaf sample_device, kp_certificate = Certificate sample_device \<rparr>,
          \<lparr> kp_package = sample_leaf sample_device, kp_certificate = Certificate sample_device \<rparr>]"
proof -
  let ?leaf = "sample_leaf sample_device" and ?d = "spki_hash sample_device"
  let ?kp = "\<lparr> kp_package = ?leaf, kp_certificate = Certificate sample_device \<rparr>"
  have hash: "unverified_spki_hash sample_member_mls ?leaf = Ok ?d"
    by (simp add: unverified_spki_hash_def sample_member_sel sample_leaf_def)
  have other: "cert_spki (as_certificate sample_root) \<noteq> ?d" by code_simp
  have kp: "key_package_verify sample_member_mls (exact_verifier (Certificate sample_device)) 10 ?leaf = Ok ?kp"
    using sample_subject(2) by (simp add: key_package_verify_def sample_member_sel sample_leaf_def)
  let ?f = "\<lambda>_. RemoteChain ChainServerError"
  have "get_required_key_packages sample_member_mls
      (sample_harness \<lparr> he_packages := \<lambda>_. Ok [?leaf, ?leaf] \<rparr>) (DeviceGroup ?d) (cert_spki (as_certificate sample_root))
      = Ok ([?kp] @ [?kp]) \<and> check_key_packages sample_member_mls [] None \<noteq> Err ToManyKeyPackages"
    by (rule server_chosen_members [where E = sample_harness and ks = "[?leaf]" and extra = ?leaf and f = ?f
          and requested = "[?d]" and required = "[cert_spki (as_certificate sample_root), ?d]" and h = ?d])
      (use hash other kp in \<open>simp_all add: sample_harness_def check_key_packages_def get_required_key_packages_def\<close>)
  then show ?thesis by simp
qed

end
