(* ===== verification/RequestTask.thy ===== *)
theory RequestTask
  imports Prelude
begin

text \<open>
  Tasks that own a state and work for the rest of the program: a handle puts a request, together
  with a channel for the response, into a queue of ten places and waits; the task takes one request
  after the other. \<^verbatim>\<open>MlsProcessorHandle\<close> (\<^verbatim>\<open>svalin_pki/src/mls/processor.rs\<close>) and \<^verbatim>\<open>PublicProcessorHandle\<close>
  (\<^verbatim>\<open>svalin_pki/src/mls/public_processor.rs\<close>) are built in this way; what a task does with a request is
  the argument \<^verbatim>\<open>handle\<close>. Identifiers tell the response channels of the requests apart. If an
  operation panics, the task ends, and what waits for it or comes later gets no response.
\<close>

section \<open>The task\<close>

text \<open>\<^verbatim>\<open>None\<close> in the place of the state is a task that has ended, and in the place of a response, a
  response channel that was dropped.\<close>

record ('q, 'r, 's) request_task =
  rt_state :: "'s option"
  rt_queue :: "(nat \<times> 'q) list"
  rt_responses :: "nat \<rightharpoonup> 'r option"

definition REQUEST_CHANNEL :: nat where
  "REQUEST_CHANNEL = 10"

definition new_task :: "'s \<Rightarrow> ('q, 'r, 's) request_task" where
  "new_task st = \<lparr> rt_state = Some st, rt_queue = [], rt_responses = Map.empty \<rparr>"

text \<open>Putting a request into the channel; the result \<^verbatim>\<open>None\<close> means that the method waits for a place. The
  outcome is not looked at: if the task has ended, the request is dropped with its response channel.\<close>

definition send_request :: "nat \<times> 'q \<Rightarrow> ('q, 'r, 's) request_task \<Rightarrow> ('q, 'r, 's) request_task option" where
  "send_request request self =
    (case rt_state self of
       None \<Rightarrow> Some (self \<lparr> rt_responses := (rt_responses self)(fst request \<mapsto> None) \<rparr>)
     | Some _ \<Rightarrow>
        if length (rt_queue self) < REQUEST_CHANNEL then Some (self \<lparr> rt_queue := rt_queue self @ [request] \<rparr>) else None)"

text \<open>One round of the loop, if there is a request. A panic drops the queue.\<close>

definition serve_request ::
  "('q \<Rightarrow> 's \<Rightarrow> 'r option \<times> 's option) \<Rightarrow> ('q, 'r, 's) request_task \<Rightarrow> ('q, 'r, 's) request_task" where
  "serve_request handle self =
    (case (rt_state self, rt_queue self) of
       (Some st, (i, request) # rest) \<Rightarrow>
        (case handle request st of
           (response, Some st) \<Rightarrow>
             self \<lparr> rt_state := Some st, rt_queue := rest, rt_responses := (rt_responses self)(i \<mapsto> response) \<rparr>
         | (_, None) \<Rightarrow>
             self \<lparr> rt_state := None, rt_queue := [],
               rt_responses := rt_responses self ++ map_of (map (\<lambda>(i, _). (i, None)) (rt_queue self)) \<rparr>)
     | _ \<Rightarrow> self)"

text \<open>Sending the response of an operation that came to an end.\<close>

definition respond :: "(('a, 'e) result \<Rightarrow> 'r) \<Rightarrow> ('a, 'e) result \<times> 's \<Rightarrow> 'r option \<times> 's option" where
  "respond response outcome =
    (case outcome of (result, st) \<Rightarrow>
     (case result of Panicked \<Rightarrow> (None, None) | _ \<Rightarrow> (Some (response result), Some st)))"

text \<open>What a method of the handle makes of the response it gets.\<close>

datatype 'e call_error = CallFailed 'e | CallRecvError

definition received :: "('r \<Rightarrow> ('a, 'e) result) \<Rightarrow> 'r option \<Rightarrow> ('a, 'e call_error) result" where
  "received payload response =
    (case response of None \<Rightarrow> Err CallRecvError | Some r \<Rightarrow> map_err CallFailed (payload r))"

text \<open>A method is its request and what it makes of the response.\<close>

type_synonym ('q, 'r, 'a, 'e) task_call = "'q \<times> ('r option \<Rightarrow> ('a, 'e call_error) result)"

section \<open>One request after the other\<close>

definition task_step :: "('q \<Rightarrow> 's \<Rightarrow> 'r option \<times> 's option) \<Rightarrow> 'q \<Rightarrow> 's option \<Rightarrow> 'r option \<times> 's option" where
  "task_step handle request st = (case st of None \<Rightarrow> (None, None) | Some st \<Rightarrow> handle request st)"

fun run_requests ::
  "('q \<Rightarrow> 's \<Rightarrow> 'r option \<times> 's option) \<Rightarrow> (nat \<times> 'q) list \<Rightarrow> 's option \<Rightarrow> (nat \<times> 'r option) list \<times> 's option" where
  "run_requests handle [] st = ([], st)"
| "run_requests handle ((i, request) # requests) st =
    (case task_step handle request st of (response, st) \<Rightarrow>
     (case run_requests handle requests st of (responses, st) \<Rightarrow> ((i, response) # responses, st)))"

text \<open>What a call gives in a state, and what the operation behind it gives.\<close>

definition call_outcome ::
  "('q \<Rightarrow> 's \<Rightarrow> 'r option \<times> 's option) \<Rightarrow> ('q, 'r, 'a, 'e) task_call \<Rightarrow> 's \<Rightarrow> ('a, 'e call_error) result" where
  "call_outcome handle call st = snd call (fst (handle (fst call) st))"

definition call_result :: "('a, 'e) result \<times> 's \<Rightarrow> ('a, 'e call_error) result" where
  "call_result outcome = (case fst outcome of Panicked \<Rightarrow> Err CallRecvError | r \<Rightarrow> map_err CallFailed r)"

text \<open>The requests that were put into the channel, in this order, whoever sent them, and the task.\<close>

inductive task_reachable ::
  "('q \<Rightarrow> 's \<Rightarrow> 'r option \<times> 's option) \<Rightarrow> 's \<Rightarrow> (nat \<times> 'q) list \<Rightarrow> ('q, 'r, 's) request_task \<Rightarrow> bool"
  for handle start where
  task_fresh: "task_reachable handle start [] (new_task start)"
| task_send: "task_reachable handle start sent self \<Longrightarrow> fst request \<notin> fst ` set sent
    \<Longrightarrow> send_request request self = Some self' \<Longrightarrow> task_reachable handle start (sent @ [request]) self'"
| task_serve: "task_reachable handle start sent self \<Longrightarrow> task_reachable handle start sent (serve_request handle self)"

section \<open>Lemmas\<close>

lemma run_requests_append:
  "run_requests handle (xs @ ys) st =
    (case run_requests handle xs st of (as, st) \<Rightarrow> (case run_requests handle ys st of (bs, st) \<Rightarrow> (as @ bs, st)))"
  by (induction xs arbitrary: st) (auto split: prod.splits)

lemma run_requests_stopped: "run_requests handle xs None = (map (\<lambda>(i, _). (i, None)) xs, None)"
  by (induction xs) (auto simp: task_step_def)

lemma run_requests_ids: "map fst (fst (run_requests handle xs st)) = map fst xs"
proof (induction xs arbitrary: st)
  case (Cons x xs)
  then show ?case
    by (cases x; cases "task_step handle (snd x) st"; cases "run_requests handle xs (snd (task_step handle (snd x) st))")
      (auto, metis fst_conv)
qed simp

lemma run_requests_keys: "run_requests handle xs st = (as, st') \<Longrightarrow> fst ` set as = fst ` set xs"
  using run_requests_ids [of handle xs st] by (metis fst_conv image_set)

lemma respond_cases: "respond f x = (None, None) \<or> (\<exists>r client. respond f x = (Some r, Some client))"
  by (cases x; cases "fst x") (auto simp: respond_def)

text \<open>What a method makes of the response is the outcome of the operation, with the error for a response
  that does not come where the operation panics.\<close>

lemma received_respond:
  assumes "\<And>r. payload (response r) = r"
  shows "received payload (fst (respond response outcome)) = call_result outcome"
  by (cases outcome; cases "fst outcome") (auto simp: respond_def received_def call_result_def assms)

lemma map_of_append_disjoint: "fst ` set xs \<inter> fst ` set ys = {} \<Longrightarrow> map_of (xs @ ys) = map_of xs ++ map_of ys"
  by (simp add: map_add_comm map_of_eq_None_iff dom_map_of_conv_image_fst Int_commute)

lemma map_of_snoc: "i \<notin> fst ` set xs \<Longrightarrow> map_of (xs @ [(i, y)]) = (map_of xs)(i \<mapsto> y)"
  by (subst map_of_append_disjoint) (simp_all add: map_add_def fun_eq_iff)

lemma run_requests_response:
  assumes "distinct (map fst (before @ (i, request) # later))" "snd (run_requests handle before st) = Some client"
  shows "map_of (fst (run_requests handle (before @ (i, request) # later) st)) i = Some (fst (handle request client))"
proof -
  have "i \<notin> fst ` set (fst (run_requests handle before st))"
    using assms(1) run_requests_keys [of handle before st] by (metis prod.collapse distinct.simps(2) distinct_append
        list.simps(9) map_append fst_conv not_distinct_conv_prefix set_map)
  then show ?thesis
    using assms(2) by (auto simp: run_requests_append task_step_def map_add_def map_of_eq_None_iff [symmetric] split: prod.splits)
qed

text \<open>The invariant: what was served, and what still waits.\<close>

definition task_inv ::
  "('q \<Rightarrow> 's \<Rightarrow> 'r option \<times> 's option) \<Rightarrow> 's \<Rightarrow> (nat \<times> 'q) list \<Rightarrow> ('q, 'r, 's) request_task \<Rightarrow> bool" where
  "task_inv handle start sent self \<longleftrightarrow> distinct (map fst sent) \<and> length (rt_queue self) \<le> REQUEST_CHANNEL
    \<and> (rt_state self = None \<longrightarrow> rt_queue self = [])
    \<and> (\<exists>done responses. sent = done @ rt_queue self
        \<and> run_requests handle done (Some start) = (responses, rt_state self)
        \<and> rt_responses self = map_of responses)"

lemma send_request_inv:
  assumes "task_inv handle start sent self" "fst request \<notin> fst ` set sent" "send_request request self = Some self'"
  shows "task_inv handle start (sent @ [request]) self'"
proof -
  obtain "done" responses where d: "sent = done @ rt_queue self"
      "run_requests handle done (Some start) = (responses, rt_state self)"
      "rt_responses self = map_of responses"
    using assms(1) by (auto simp: task_inv_def)
  show ?thesis
  proof (cases "rt_state self")
    case None
    then have q: "rt_queue self = []" using assms(1) by (simp add: task_inv_def)
    have "fst request \<notin> fst ` set responses" using run_requests_keys [OF d(2)] assms(2) d(1) q by simp
    then show ?thesis
      using assms d None q map_of_snoc [of "fst request" responses None]
      by (cases request) (auto simp: task_inv_def send_request_def run_requests_append task_step_def)
  next
    case (Some client)
    then show ?thesis
      using assms d by (auto simp: task_inv_def send_request_def split: if_splits)
  qed
qed

text \<open>What a task has to promise: an operation that ends leaves a state and gives a response.\<close>

locale request_handler =
  fixes handle :: "'q \<Rightarrow> 's \<Rightarrow> 'r option \<times> 's option"
  assumes ends: "handle request st = (None, None) \<or> (\<exists>r st'. handle request st = (Some r, Some st'))"
begin

lemma serve_request_inv:
  assumes "task_inv handle start sent self"
  shows "task_inv handle start sent (serve_request handle self)"
    "rt_queue (serve_request handle self) = [] \<or> Suc (length (rt_queue (serve_request handle self))) = length (rt_queue self)"
proof -
  obtain "done" responses where d: "sent = done @ rt_queue self"
      "run_requests handle done (Some start) = (responses, rt_state self)"
      "rt_responses self = map_of responses"
    using assms by (auto simp: task_inv_def)
  note keys = run_requests_keys [OF d(2)]
  have "task_inv handle start sent (serve_request handle self)
    \<and> (rt_queue (serve_request handle self) = [] \<or> Suc (length (rt_queue (serve_request handle self))) = length (rt_queue self))"
  proof (cases "rt_state self = None \<or> rt_queue self = []")
    case True
    then have "serve_request handle self = self" by (auto simp: serve_request_def split: option.splits list.splits)
    then show ?thesis using assms True by (auto simp: task_inv_def)
  next
    case False
    then obtain client i request rest where s: "rt_state self = Some client" "rt_queue self = (i, request) # rest"
      by (cases "rt_queue self") auto
    have ids: "distinct (map fst sent)" "length (rt_queue self) \<le> REQUEST_CHANNEL"
      using assms by (simp_all add: task_inv_def)
    consider "handle request client = (None, None)" | r client' where "handle request client = (Some r, Some client')"
      using ends [of request client] by blast
    then show ?thesis
    proof cases
      case 1
      let ?dropped = "map (\<lambda>(i, _). (i, None)) (rt_queue self)"
      have "run_requests handle sent (Some start) = (responses @ ?dropped, None)"
        using d(1,2) s 1 by (simp add: run_requests_append task_step_def run_requests_stopped)
      moreover have "map_of (responses @ ?dropped) = map_of responses ++ map_of ?dropped"
      proof (rule map_of_append_disjoint)
        have dropped: "fst ` set ?dropped = fst ` set (rt_queue self)" by force
        show "fst ` set responses \<inter> fst ` set ?dropped = {}" unfolding keys dropped using ids(1) d(1) by simp
      qed
      ultimately show ?thesis
        using s 1 d(3) ids by (simp add: serve_request_def task_inv_def)
    next
      case 2
      have "run_requests handle (done @ [(i, request)]) (Some start) = (responses @ [(i, Some r)], Some client')"
        using d(1,2) s 2 by (simp add: run_requests_append task_step_def)
      moreover have "map_of (responses @ [(i, Some r)]) = (map_of responses)(i \<mapsto> Some r)"
        by (rule map_of_snoc) (use ids(1) d(1) keys s(2) in auto)
      ultimately show ?thesis
        using s 2 d(1,3) ids by (auto simp: serve_request_def task_inv_def intro!: exI [of _ "done @ [(i, request)]"])
    qed
  qed
  then show "task_inv handle start sent (serve_request handle self)"
    "rt_queue (serve_request handle self) = [] \<or> Suc (length (rt_queue (serve_request handle self))) = length (rt_queue self)"
    by blast+
qed

lemma task_reachable_inv: "task_reachable handle start sent self \<Longrightarrow> task_inv handle start sent self"
proof (induction rule: task_reachable.induct)
  case task_fresh
  then show ?case by (simp add: task_inv_def new_task_def REQUEST_CHANNEL_def)
qed (blast intro: send_request_inv serve_request_inv(1))+

lemma serve_all:
  assumes "task_inv handle start sent self" "length (rt_queue self) \<le> n"
  shows "task_inv handle start sent ((serve_request handle ^^ n) self) \<and> rt_queue ((serve_request handle ^^ n) self) = []"
  using assms
proof (induction n arbitrary: self)
  case (Suc n)
  have "length (rt_queue (serve_request handle self)) \<le> n"
    using serve_request_inv(2) [OF Suc.prems(1)] Suc.prems(2) by auto
  then show ?case
    using Suc.IH [OF serve_request_inv(1) [OF Suc.prems(1)]] by (simp add: funpow_swap1)
qed simp

text \<open>Served and waiting requests, and a call among them.\<close>

lemma served_in_order:
  assumes "task_reachable handle start sent self"
  shows "\<exists>done. sent = done @ rt_queue self \<and> length (rt_queue self) \<le> REQUEST_CHANNEL
      \<and> snd (run_requests handle done (Some start)) = rt_state self
      \<and> map_of (fst (run_requests handle done (Some start))) = rt_responses self"
    "rt_responses ((serve_request handle ^^ length (rt_queue self)) self) = map_of (fst (run_requests handle sent (Some start)))"
proof -
  note inv = task_reachable_inv [OF assms]
  show "\<exists>done. sent = done @ rt_queue self \<and> length (rt_queue self) \<le> REQUEST_CHANNEL
      \<and> snd (run_requests handle done (Some start)) = rt_state self
      \<and> map_of (fst (run_requests handle done (Some start))) = rt_responses self"
    using inv unfolding task_inv_def by (metis fst_conv snd_conv)
  show "rt_responses ((serve_request handle ^^ length (rt_queue self)) self) = map_of (fst (run_requests handle sent (Some start)))"
    using serve_all [OF inv le_refl] by (auto simp: task_inv_def)
qed

lemma call_served:
  assumes "task_reachable handle start sent self" "sent = before @ (i, fst call) # later"
    "snd (run_requests handle before (Some start)) = Some client" "rt_responses self i = Some response"
  shows "snd call response = call_outcome handle call client"
proof -
  obtain "done" responses where d: "sent = done @ rt_queue self" "distinct (map fst sent)"
      "run_requests handle done (Some start) = (responses, rt_state self)" "rt_responses self = map_of responses"
    using task_reachable_inv [OF assms(1)] by (auto simp: task_inv_def)
  have "map_of (fst (run_requests handle (done @ rt_queue self) (Some start))) i = Some response"
    using assms(4) d(3,4) by (simp add: run_requests_append map_add_def split: prod.splits)
  then have "map_of (fst (run_requests handle sent (Some start))) i = Some response" unfolding d(1) .
  moreover have "distinct (map fst (before @ (i, fst call) # later))" using d(2) assms(2) by metis
  ultimately have "response = fst (handle (fst call) client)"
    using run_requests_response [of before i "fst call" later handle "Some start" client] assms(2,3) by simp
  then show ?thesis by (simp add: call_outcome_def)
qed

end

end
