(* ===== verification/Processor.thy ===== *)
theory Processor
  imports MlsMember RequestTask
begin

text \<open>
  The tasks that own the groups, and the handles that the rest of the program has: \<^verbatim>\<open>MlsProcessorHandle\<close>
  of a member (\<^verbatim>\<open>svalin_pki/src/mls/processor.rs\<close>), which does what MlsMember models, and
  \<^verbatim>\<open>PublicProcessorHandle\<close> of the server (\<^verbatim>\<open>svalin_pki/src/mls/public_processor.rs\<close>), which does what
  MlsServer models. Both are tasks of RequestTask.
\<close>

section \<open>The members\<close>

datatype ('x, 'k, 'c, 'w) processor_request =
    ReqCreateKeyPackage
  | ReqCreateGroup "'k key_package list" bytes
  | ReqCreateMessage bytes bytes
  | ReqStageJoin 'x
  | ReqJoinGroup 'w
  | ReqProcessMessage "'x protocol_message"
  | ReqGroupExists bytes
  | ReqIsMember bytes spki_hash
  | ReqAddMember bytes "'k key_package"
  | ReqGetMember bytes nat
  | ReqCommit 'c

text \<open>What goes through the response channel of a request.\<close>

datatype ('k, 'c, 'w) processor_response =
    RespKeyPackage "('k key_package, member_error) result"
  | RespTransport "(message_to_server_transport, member_error) result"
  | RespStaged "('w, member_error) result"
  | RespUnit "(unit, member_error) result"
  | RespProcessed "('c member_processed, member_error) result"
  | RespBool "(bool, member_error) result"
  | RespMember "(spki_hash, member_error) result"

definition processor_handle ::
  "('x, 'k, 'c, 'g, 't, 'w) member_mls \<Rightarrow> certificate \<Rightarrow> ('x, 'k, 'c, 'w) processor_request \<Rightarrow> ('g, 't) mls_processor
    \<Rightarrow> ('k, 'c, 'w) processor_response option \<times> ('g, 't) mls_processor option" where
  "processor_handle L me request client =
    (case request of
       ReqCreateKeyPackage \<Rightarrow> respond RespKeyPackage (mp_create_key_package L me client)
     | ReqCreateGroup members group_id \<Rightarrow> respond RespTransport (mp_create_group L members group_id client)
     | ReqStageJoin welcome \<Rightarrow> respond RespStaged (mp_stage_join L welcome client)
     | ReqJoinGroup welcome \<Rightarrow> respond RespUnit (mp_join_group L welcome client)
     | ReqCreateMessage group_id message \<Rightarrow> respond RespTransport (mp_create_message L group_id message client)
     | ReqProcessMessage message \<Rightarrow> respond RespProcessed (mp_process_message L message client)
     | ReqGroupExists group_id \<Rightarrow> respond RespBool (mp_group_exists L group_id client)
     | ReqIsMember group_id spki \<Rightarrow> respond RespBool (mp_is_member L group_id spki client)
     | ReqGetMember group_id index \<Rightarrow> respond RespMember (mp_get_member L client group_id index)
     | ReqAddMember group_id package \<Rightarrow> respond RespTransport (mp_add_member L group_id package client)
     | ReqCommit commit \<Rightarrow> respond RespUnit (mp_commit L commit client))"

definition start_processor :: "'t \<Rightarrow> ('g, 't) mls_processor" where
  "start_processor storage = \<lparr> mp_cache = Map.empty, mp_storage = storage \<rparr>"

subsection \<open>The handle\<close>

text \<open>The payload of a response; the type of a response channel leaves the other cases out.\<close>

fun as_key_package :: "('k, 'c, 'w) processor_response \<Rightarrow> ('k key_package, member_error) result" where
  "as_key_package (RespKeyPackage r) = r"
| "as_key_package _ = Panicked"

fun as_transport :: "('k, 'c, 'w) processor_response \<Rightarrow> (message_to_server_transport, member_error) result" where
  "as_transport (RespTransport r) = r"
| "as_transport _ = Panicked"

fun as_staged :: "('k, 'c, 'w) processor_response \<Rightarrow> ('w, member_error) result" where
  "as_staged (RespStaged r) = r"
| "as_staged _ = Panicked"

fun as_unit :: "('k, 'c, 'w) processor_response \<Rightarrow> (unit, member_error) result" where
  "as_unit (RespUnit r) = r"
| "as_unit _ = Panicked"

fun as_processed :: "('k, 'c, 'w) processor_response \<Rightarrow> ('c member_processed, member_error) result" where
  "as_processed (RespProcessed r) = r"
| "as_processed _ = Panicked"

fun as_bool :: "('k, 'c, 'w) processor_response \<Rightarrow> (bool, member_error) result" where
  "as_bool (RespBool r) = r"
| "as_bool _ = Panicked"

fun as_member :: "('k, 'c, 'w) processor_response \<Rightarrow> (spki_hash, member_error) result" where
  "as_member (RespMember r) = r"
| "as_member _ = Panicked"

type_synonym ('x, 'k, 'c, 'w, 'a) processor_call =
  "(('x, 'k, 'c, 'w) processor_request, ('k, 'c, 'w) processor_response, 'a, member_error) task_call"

definition call_create_key_package :: "('x, 'k, 'c, 'w, 'k key_package) processor_call" where
  "call_create_key_package = (ReqCreateKeyPackage, received as_key_package)"

definition call_create_group ::
  "'k key_package list \<Rightarrow> bytes \<Rightarrow> ('x, 'k, 'c, 'w, message_to_server_transport) processor_call" where
  "call_create_group members group_id = (ReqCreateGroup members group_id, received as_transport)"

definition call_stage_join :: "'x \<Rightarrow> ('x, 'k, 'c, 'w, 'w) processor_call" where
  "call_stage_join welcome = (ReqStageJoin welcome, received as_staged)"

definition call_join_group :: "'w \<Rightarrow> ('x, 'k, 'c, 'w, unit) processor_call" where
  "call_join_group welcome = (ReqJoinGroup welcome, received as_unit)"

definition call_create_message :: "bytes \<Rightarrow> bytes \<Rightarrow> ('x, 'k, 'c, 'w, message_to_server_transport) processor_call" where
  "call_create_message group_id message = (ReqCreateMessage group_id message, received as_transport)"

definition call_process_message :: "'x protocol_message \<Rightarrow> ('x, 'k, 'c, 'w, 'c member_processed) processor_call" where
  "call_process_message message = (ReqProcessMessage message, received as_processed)"

definition call_group_exists :: "bytes \<Rightarrow> ('x, 'k, 'c, 'w, bool) processor_call" where
  "call_group_exists group_id = (ReqGroupExists group_id, received as_bool)"

definition call_is_member :: "bytes \<Rightarrow> spki_hash \<Rightarrow> ('x, 'k, 'c, 'w, bool) processor_call" where
  "call_is_member group_id spki = (ReqIsMember group_id spki, received as_bool)"

definition call_add_member ::
  "bytes \<Rightarrow> 'k key_package \<Rightarrow> ('x, 'k, 'c, 'w, message_to_server_transport) processor_call" where
  "call_add_member group_id package = (ReqAddMember group_id package, received as_transport)"

definition call_commit :: "'c \<Rightarrow> ('x, 'k, 'c, 'w, unit) processor_call" where
  "call_commit commit = (ReqCommit commit, received as_unit)"

definition call_get_member :: "bytes \<Rightarrow> nat \<Rightarrow> ('x, 'k, 'c, 'w, spki_hash) processor_call" where
  "call_get_member group_id index = (ReqGetMember group_id index, received as_member)"

lemmas call_defs = call_create_key_package_def call_create_group_def call_stage_join_def call_join_group_def
  call_create_message_def call_process_message_def call_group_exists_def call_is_member_def call_add_member_def
  call_commit_def call_get_member_def

section \<open>The server\<close>

datatype ('x, 'c) public_request =
    ReqPublicMessage "'x protocol_message"
  | ReqAddGroup "'x new_group"
  | ReqCheckGroup "'x new_group"
  | ReqPublicMember bytes nat
  | ReqPublicCommit bytes 'c

datatype ('c, 'g) public_response =
    RespPublicMessage "('c processed_message, processor_error) result"
  | RespAddGroup "(message_to_send option, add_group_error) result"
  | RespCheckGroup "('g, add_group_error) result"
  | RespPublicMember "(spki_hash, processor_error) result"
  | RespPublicCommit "(unit, processor_error) result"

definition public_handle ::
  "('x, 'k, 'c, 'g, 't) public_mls \<Rightarrow> ('x, 'c) public_request \<Rightarrow> ('g, 't) public_processor
    \<Rightarrow> ('c, 'g) public_response option \<times> ('g, 't) public_processor option" where
  "public_handle L request public_processor =
    (case request of
       ReqPublicMessage message \<Rightarrow> respond RespPublicMessage (pp_process_message L message public_processor)
     | ReqCheckGroup new_group \<Rightarrow> respond RespCheckGroup (pp_check_group L new_group, public_processor)
     | ReqAddGroup new_group \<Rightarrow> respond RespAddGroup (pp_add_group L new_group public_processor)
     | ReqPublicMember group_id index \<Rightarrow> respond RespPublicMember (pp_get_member L public_processor group_id index)
     | ReqPublicCommit group_id commit \<Rightarrow> respond RespPublicCommit (pp_commit L group_id commit public_processor))"

definition start_public_processor :: "'t \<Rightarrow> ('g, 't) public_processor" where
  "start_public_processor storage = \<lparr> group_cache = Map.empty, pp_storage = storage \<rparr>"

subsection \<open>The handle of the server\<close>

fun as_public_message :: "('c, 'g) public_response \<Rightarrow> ('c processed_message, processor_error) result" where
  "as_public_message (RespPublicMessage r) = r"
| "as_public_message _ = Panicked"

fun as_add_group :: "('c, 'g) public_response \<Rightarrow> (message_to_send option, add_group_error) result" where
  "as_add_group (RespAddGroup r) = r"
| "as_add_group _ = Panicked"

fun as_check_group :: "('c, 'g) public_response \<Rightarrow> ('g, add_group_error) result" where
  "as_check_group (RespCheckGroup r) = r"
| "as_check_group _ = Panicked"

fun as_public_member :: "('c, 'g) public_response \<Rightarrow> (spki_hash, processor_error) result" where
  "as_public_member (RespPublicMember r) = r"
| "as_public_member _ = Panicked"

fun as_public_commit :: "('c, 'g) public_response \<Rightarrow> (unit, processor_error) result" where
  "as_public_commit (RespPublicCommit r) = r"
| "as_public_commit _ = Panicked"

type_synonym ('x, 'c, 'g, 'a, 'e) public_call =
  "(('x, 'c) public_request, ('c, 'g) public_response, 'a, 'e) task_call"

definition call_public_message ::
  "'x protocol_message \<Rightarrow> ('x, 'c, 'g, 'c processed_message, processor_error) public_call" where
  "call_public_message message = (ReqPublicMessage message, received as_public_message)"

definition call_check_group :: "'x new_group \<Rightarrow> ('x, 'c, 'g, 'g, add_group_error) public_call" where
  "call_check_group new_group = (ReqCheckGroup new_group, received as_check_group)"

definition call_add_group :: "'x new_group \<Rightarrow> ('x, 'c, 'g, message_to_send option, add_group_error) public_call" where
  "call_add_group new_group = (ReqAddGroup new_group, received as_add_group)"

definition call_public_commit :: "bytes \<Rightarrow> 'c \<Rightarrow> ('x, 'c, 'g, unit, processor_error) public_call" where
  "call_public_commit group_id commit = (ReqPublicCommit group_id commit, received as_public_commit)"

definition call_public_member :: "bytes \<Rightarrow> nat \<Rightarrow> ('x, 'c, 'g, spki_hash, processor_error) public_call" where
  "call_public_member group_id index = (ReqPublicMember group_id index, received as_public_member)"

lemmas public_call_defs = call_public_message_def call_check_group_def call_add_group_def call_public_commit_def
  call_public_member_def

section \<open>Lemmas\<close>

interpretation member_task: request_handler "processor_handle L me" for L me
proof
  show "processor_handle L me request st = (None, None) \<or> (\<exists>r st'. processor_handle L me request st = (Some r, Some st'))"
    for request st by (cases request) (simp_all add: processor_handle_def respond_cases)
qed

interpretation server_task: request_handler "public_handle L" for L
proof
  show "public_handle L request st = (None, None) \<or> (\<exists>r st'. public_handle L request st = (Some r, Some st'))"
    for request st by (cases request) (simp_all add: public_handle_def respond_cases)
qed

text \<open>A method gives the result of the operation on the state in which the task takes the request.\<close>

lemma call_results:
  "call_outcome (processor_handle L me) call_create_key_package st = call_result (mp_create_key_package L me st)"
  "call_outcome (processor_handle L me) (call_create_group members g) st = call_result (mp_create_group L members g st)"
  "call_outcome (processor_handle L me) (call_stage_join x) st = call_result (mp_stage_join L x st)"
  "call_outcome (processor_handle L me) (call_join_group w) st = call_result (mp_join_group L w st)"
  "call_outcome (processor_handle L me) (call_create_message g b) st = call_result (mp_create_message L g b st)"
  "call_outcome (processor_handle L me) (call_process_message m) st = call_result (mp_process_message L m st)"
  "call_outcome (processor_handle L me) (call_group_exists g) st = call_result (mp_group_exists L g st)"
  "call_outcome (processor_handle L me) (call_is_member g h) st = call_result (mp_is_member L g h st)"
  "call_outcome (processor_handle L me) (call_add_member g p) st = call_result (mp_add_member L g p st)"
  "call_outcome (processor_handle L me) (call_commit c) st = call_result (mp_commit L c st)"
  "call_outcome (processor_handle L me) (call_get_member g i) st = call_result (mp_get_member L st g i)"
  by (simp_all add: call_outcome_def call_defs processor_handle_def received_respond)

lemma public_call_results:
  "call_outcome (public_handle L) (call_public_message m) pp = call_result (pp_process_message L m pp)"
  "call_outcome (public_handle L) (call_check_group n) pp = call_result (pp_check_group L n, pp)"
  "call_outcome (public_handle L) (call_add_group n) pp = call_result (pp_add_group L n pp)"
  "call_outcome (public_handle L) (call_public_commit g c) pp = call_result (pp_commit L g c pp)"
  "call_outcome (public_handle L) (call_public_member g i) pp = call_result (pp_get_member L pp g i)"
  by (simp_all add: call_outcome_def public_call_defs public_handle_def received_respond)

section \<open>Properties\<close>



text \<open>The same holds for the public groups of the server.\<close>

theorem public_calls_in_order:
  assumes "task_reachable (public_handle L) (start_public_processor storage) sent self"
  shows "(\<exists>done. sent = done @ rt_queue self \<and> length (rt_queue self) \<le> REQUEST_CHANNEL
      \<and> snd (run_requests (public_handle L) done (Some (start_public_processor storage))) = rt_state self
      \<and> map_of (fst (run_requests (public_handle L) done (Some (start_public_processor storage)))) = rt_responses self)
    \<and> (sent = before @ (i, fst call) # later
      \<and> snd (run_requests (public_handle L) before (Some (start_public_processor storage))) = Some client
      \<and> rt_responses self i = Some response \<longrightarrow> snd call response = call_outcome (public_handle L) call client)"
  by (intro conjI impI server_task.served_in_order [OF assms]) (elim conjE, rule server_task.call_served [OF assms], assumption+)

end
