(* ===== verification/Script.thy ===== *)
theory Script
  imports Rpc "HOL-Library.Countable"
begin

text \<open>
  Interactive sessions. What one side of a multi-step protocol does with its session
  (the \<^verbatim>\<open>read_object\<close>, \<^verbatim>\<open>write_object\<close> and TLS calls of \<^verbatim>\<open>login.rs\<close>, \<^verbatim>\<open>join_agent/\<close> and
  \<^verbatim>\<open>aucpace_transport.rs\<close>) is a script: a tree of sends, receives and handshakes with
  continuations. A script runs on a transport (\<^verbatim>\<open>exec\<close>), against a peer that does whatever
  it likes (\<^verbatim>\<open>may_end\<close>), or against another script over a network that keeps the order of
  messages (\<^verbatim>\<open>net_step\<close>). The TLS setup of \<^verbatim>\<open>svalin_rpc/src/transport/tls_transport.rs\<close> is
  modelled here as well; rustls itself is a parameter.
\<close>

section \<open>Scripts\<close>

text \<open>A handshake is what rustls is configured with: the role, the own credential, and the callback
  that judges the certificate of the peer. A channel is what rustls tells about an established
  connection: the certificates of the peer, and the exported key material.\<close>

datatype tls_role = TlsClientRole | TlsServerRole

record handshake =
  hs_role :: tls_role
  hs_credential :: credential
  hs_verify :: "bytes \<Rightarrow> (unit, tls_error) result"

record tls_channel =
  peer_certificates :: "bytes list option"
  export_keying_material :: "bytes \<Rightarrow> bytes \<Rightarrow> (bytes, string) result"

text \<open>The unit of communication is the payload of a chunk. A send may fail, a receive may find the
  stream broken.\<close>

datatype 'r script =
    Finish 'r
  | Send bytes "bool \<Rightarrow> 'r script"
  | Receive "bytes option \<Rightarrow> 'r script"
  | Handshake handshake "tls_channel option \<Rightarrow> 'r script"

primrec bind_script :: "'a script \<Rightarrow> ('a \<Rightarrow> 'b script) \<Rightarrow> 'b script" where
  "bind_script (Finish r) f = f r"
| "bind_script (Send b k) f = Send b (\<lambda>x. bind_script (k x) f)"
| "bind_script (Receive k) f = Receive (\<lambda>x. bind_script (k x) f)"
| "bind_script (Handshake h k) f = Handshake h (\<lambda>x. bind_script (k x) f)"

text \<open>The \<^verbatim>\<open>?\<close> operator: go on with the value, or end with the error.\<close>

definition then_script :: "('a, 'e) result script \<Rightarrow> ('a \<Rightarrow> ('b, 'e) result script) \<Rightarrow> ('b, 'e) result script" where
  "then_script s f = bind_script s (\<lambda>r. case r of
      Ok x \<Rightarrow> f x
    | Err e \<Rightarrow> Finish (Err e)
    | Panicked \<Rightarrow> Finish Panicked)"

definition lift_result :: "('a, 'e) result \<Rightarrow> ('a, 'e) result script" where
  "lift_result r = Finish r"

definition map_err_script :: "('e \<Rightarrow> 'f) \<Rightarrow> ('a, 'e) result script \<Rightarrow> ('a, 'f) result script" where
  "map_err_script E s = bind_script s (\<lambda>r. Finish (map_err E r))"

text \<open>\<^verbatim>\<open>write_object\<close> and \<^verbatim>\<open>read_object\<close> of a session, with the error of the caller.\<close>

datatype object_error = ObjectIo | ObjectCodec string

definition put_object :: "(object_error \<Rightarrow> 'e) \<Rightarrow> 't codec \<Rightarrow> 't \<Rightarrow> (unit, 'e) result script" where
  "put_object E K x =
    (case encode K x of
       Ok b \<Rightarrow> Send b (\<lambda>written. Finish (if written then Ok () else Err (E ObjectIo)))
     | Err s \<Rightarrow> Finish (Err (E (ObjectCodec s)))
     | Panicked \<Rightarrow> Finish Panicked)"

definition get_object :: "(object_error \<Rightarrow> 'e) \<Rightarrow> 't codec \<Rightarrow> ('t, 'e) result script" where
  "get_object E K = Receive (\<lambda>received. Finish
    (case received of
       None \<Rightarrow> Err (E ObjectIo)
     | Some b \<Rightarrow> map_err (\<lambda>s. E (ObjectCodec s)) (decode K b)))"

section \<open>TLS transports\<close>

datatype preshared_error =
    CreateTempCredentialsError create_credentials_error
  | PresharedEncryptError encrypt_error
  | PresharedDecryptError decrypt_error
  | PresharedPostcardError string
  | ReadWriteError
  | NotTemporaryCertificate

datatype tls_setup_error =
    TlsConnectError
  | TlsMissingCertificate
  | TlsParseError certificate_parse_error
  | TlsPresharedError preshared_error

definition tls_transport ::
  "crypto \<Rightarrow> tls_role \<Rightarrow> (bytes \<Rightarrow> (unit, tls_error) result) \<Rightarrow> credential
    \<Rightarrow> (certificate \<times> tls_channel, tls_setup_error) result script" where
  "tls_transport C role verify cred =
    Handshake \<lparr> hs_role = role, hs_credential = cred, hs_verify = verify \<rparr> (\<lambda>connection. Finish
      (case connection of
         None \<Rightarrow> Err TlsConnectError
       | Some channel \<Rightarrow>
           (case peer_certificates channel of
              None \<Rightarrow> Err TlsMissingCertificate
            | Some [] \<Rightarrow> Err TlsMissingCertificate
            | Some (d # _) \<Rightarrow>
                map_ok (\<lambda>cert. (cert, channel))
                  (map_err TlsParseError (dangerous_from_already_verified_der C d)))))"

definition tls_client where "tls_client C = tls_transport C TlsClientRole"
definition tls_server where "tls_server C = tls_transport C TlsServerRole"

definition skip_verification :: "bytes \<Rightarrow> (unit, tls_error) result" where
  "skip_verification end_entity = Ok ()"

definition tls_derive_key :: "tls_channel \<Rightarrow> bytes \<Rightarrow> bytes \<Rightarrow> (bytes, string) result" where
  "tls_derive_key channel label context = export_keying_material channel label context"

text \<open>What is drawn for one temporary credential and its encryption: two clock readings and a key
  pair, the mask of the nonce, and the clock of the verifier.\<close>

record temp_draws =
  td_now1 :: int
  td_now2 :: int
  td_keypair :: keypair
  td_mask :: bytes
  td_verify_time :: u64

record tls_libs =
  lib_crypto :: crypto
  lib_rcgen :: rcgen
  lib_aead :: aead
  lib_cert_codec :: "unverified_certificate codec"
  lib_object_codec :: "unverified_certificate encrypted_object codec"

text \<open>The temporary certificates cross the base transport in a frame of their own, four bytes of
  length and the encrypted certificate: one message. Both sides write first.\<close>

definition exchange_temp_credentials ::
  "tls_libs \<Rightarrow> temp_draws \<Rightarrow> encryption_key \<Rightarrow> (credential \<times> certificate, preshared_error) result script" where
  "exchange_temp_credentials L d preshared =
    then_script (lift_result (map_err CreateTempCredentialsError
      (generate_temporary (lib_crypto L) (lib_rcgen L) (td_now1 d) (td_now2 d) (td_keypair d)))) (\<lambda>credentials.
    then_script (lift_result (map_err PresharedEncryptError
      (encrypt_object (lib_aead L) (lib_cert_codec L) (td_mask d) (as_unverified (cred_certificate credentials)) preshared))) (\<lambda>encrypted.
    then_script (put_object (\<lambda>e. case e of ObjectIo \<Rightarrow> ReadWriteError | ObjectCodec s \<Rightarrow> PresharedPostcardError s)
      (lib_object_codec L) encrypted) (\<lambda>_.
    then_script (get_object (\<lambda>e. case e of ObjectIo \<Rightarrow> ReadWriteError | ObjectCodec s \<Rightarrow> PresharedPostcardError s)
      (lib_object_codec L)) (\<lambda>encrypted.
    then_script (lift_result (map_err PresharedDecryptError
      (decrypt_object (lib_aead L) (lib_cert_codec L) encrypted preshared))) (\<lambda>unverified_certificate.
    lift_result (map_ok (\<lambda>certificate. (credentials, certificate))
      (ok_or NotTemporaryCertificate (use_as_temporary unverified_certificate))))))))"

definition tls_preshared ::
  "tls_libs \<Rightarrow> tls_role \<Rightarrow> temp_draws \<Rightarrow> encryption_key \<Rightarrow> (certificate \<times> tls_channel, tls_setup_error) result script" where
  "tls_preshared L role d preshared =
    then_script (map_err_script TlsPresharedError (exchange_temp_credentials L d preshared)) (\<lambda>(credentials, certificate).
    tls_transport (lib_crypto L) role
      (\<lambda>end_entity. verify_cert (lib_crypto L) (exact_verifier certificate) end_entity (td_verify_time d)) credentials)"

definition tls_client_preshared where "tls_client_preshared L = tls_preshared L TlsClientRole"
definition tls_server_preshared where "tls_server_preshared L = tls_preshared L TlsServerRole"

section \<open>Any peer\<close>

text \<open>The results with which a script may end, whatever the other side and the network do. Of rustls
  it is used that the first certificate of the peer passed the callback.\<close>

definition channel_accepted :: "handshake \<Rightarrow> tls_channel option \<Rightarrow> bool" where
  "channel_accepted h connection \<longleftrightarrow>
    (\<forall>channel d ds. connection = Some channel \<longrightarrow> peer_certificates channel = Some (d # ds) \<longrightarrow> hs_verify h d = Ok ())"

inductive may_end :: "'r script \<Rightarrow> 'r \<Rightarrow> bool" where
  finish: "may_end (Finish r) r"
| send: "may_end (k written) r \<Longrightarrow> may_end (Send b k) r"
| receive: "may_end (k received) r \<Longrightarrow> may_end (Receive k) r"
| handshake: "channel_accepted h connection \<Longrightarrow> may_end (k connection) r \<Longrightarrow> may_end (Handshake h k) r"

inductive_simps may_end_simps [simp]:
  "may_end (Finish x) r"
  "may_end (Send b k) r"
  "may_end (Receive k) r"
  "may_end (Handshake h k) r"

section \<open>A transport\<close>

text \<open>A script on a byte stream: sends and receives are the chunks of the transport, a handshake asks
  the TLS library, which replaces the stream.\<close>

type_synonym tls_lib = "handshake \<Rightarrow> transport \<Rightarrow> tls_channel option \<times> transport"

definition tls_lib_ok :: "tls_lib \<Rightarrow> bool" where
  "tls_lib_ok tls \<longleftrightarrow> (\<forall>h t. channel_accepted h (fst (tls h t)))"

primrec exec :: "tls_lib \<Rightarrow> 'r script \<Rightarrow> transport \<Rightarrow> 'r \<times> transport" where
  "exec tls (Finish r) t = (r, t)"
| "exec tls (Send b k) t = (case write_chunk b t of (r, t) \<Rightarrow> exec tls (k (is_ok r)) t)"
| "exec tls (Receive k) t =
    (case read_chunk t of (r, t) \<Rightarrow> exec tls (k (case r of Ok b \<Rightarrow> Some b | _ \<Rightarrow> None)) t)"
| "exec tls (Handshake h k) t = (case tls h t of (c, t) \<Rightarrow> exec tls (k c) t)"

lemma exec_may_end:
  assumes "tls_lib_ok tls"
  shows "may_end s (fst (exec tls s t))"
proof (induction s arbitrary: t)
  case (Send b k)
  obtain r t' where w: "write_chunk b t = (r, t')" by fastforce
  show ?case using Send [OF rangeI, of "is_ok r" t'] by (auto simp: w)
next
  case (Receive k)
  obtain r t' where w: "read_chunk t = (r, t')" by fastforce
  show ?case using Receive [OF rangeI, of "case r of Ok b \<Rightarrow> Some b | _ \<Rightarrow> None" t'] by (auto simp: w)
next
  case (Handshake h k)
  obtain c t' where h: "tls h t = (c, t')" by fastforce
  then have "channel_accepted h c" using assms unfolding tls_lib_ok_def by (metis fst_conv)
  then show ?case using Handshake [OF rangeI, of c t'] by (auto simp: h)
qed simp

section \<open>Lemmas on scripts\<close>

lemma bind_script_assoc: "bind_script (bind_script s f) g = bind_script s (\<lambda>x. bind_script (f x) g)"
  by (induction s) simp_all

lemma bind_script_Finish: "bind_script s Finish = s"
  by (induction s) simp_all

lemma may_end_bind: "may_end (bind_script s f) r \<longleftrightarrow> (\<exists>x. may_end s x \<and> may_end (f x) r)"
  by (induction s) auto

lemma lift_result_simp [simp]: "then_script (lift_result r) f =
    (case r of Ok x \<Rightarrow> f x | Err e \<Rightarrow> Finish (Err e) | Panicked \<Rightarrow> Finish Panicked)"
  by (simp add: lift_result_def then_script_def)

lemma may_end_lift [simp]: "may_end (lift_result x) r \<longleftrightarrow> r = x"
  by (auto simp: lift_result_def)

lemma may_end_then_Ok:
  "may_end (then_script s f) (Ok r) \<longleftrightarrow> (\<exists>x. may_end s (Ok x) \<and> may_end (f x) (Ok r))"
proof
  assume "may_end (then_script s f) (Ok r)"
  then obtain x where "may_end s x" "may_end (case x of Ok x \<Rightarrow> f x | Err e \<Rightarrow> Finish (Err e) | Panicked \<Rightarrow> Finish Panicked) (Ok r)"
    unfolding then_script_def may_end_bind by blast
  then show "\<exists>x. may_end s (Ok x) \<and> may_end (f x) (Ok r)" by (cases x) auto
next
  assume "\<exists>x. may_end s (Ok x) \<and> may_end (f x) (Ok r)"
  then show "may_end (then_script s f) (Ok r)"
    unfolding then_script_def may_end_bind by (auto intro: exI [of _ "Ok _"])
qed

lemma may_end_put_Ok: "may_end (put_object E K x) (Ok u) \<longleftrightarrow> is_ok (encode K x)"
  by (cases "encode K x") (auto simp: put_object_def)

lemma may_end_get_Ok: "may_end (get_object E K) (Ok x) \<longleftrightarrow> (\<exists>b. decode K b = Ok x)"
proof
  assume "may_end (get_object E K) (Ok x)"
  then obtain received where "Ok x = (case received of None \<Rightarrow> Err (E ObjectIo)
      | Some b \<Rightarrow> map_err (\<lambda>s. E (ObjectCodec s)) (decode K b))"
    by (auto simp: get_object_def)
  then show "\<exists>b. decode K b = Ok x"
    by (cases received) (simp, metis map_err_Ok_iff option.simps(5))
next
  assume "\<exists>b. decode K b = Ok x"
  then obtain b where "decode K b = Ok x" by blast
  then show "may_end (get_object E K) (Ok x)"
    by (auto simp: get_object_def intro!: exI [of _ "Some b"])
qed

lemma may_end_tls_Ok:
  "may_end (tls_transport C role verify cred) (Ok (cert, channel)) \<longleftrightarrow>
    (\<exists>d ds. peer_certificates channel = Some (d # ds) \<and> verify d = Ok ()
      \<and> dangerous_from_already_verified_der C d = Ok cert)" (is "?L \<longleftrightarrow> ?R")
proof
  assume ?L
  then obtain connection where c:
      "channel_accepted \<lparr> hs_role = role, hs_credential = cred, hs_verify = verify \<rparr> connection"
      "Ok (cert, channel) = (case connection of
         None \<Rightarrow> Err TlsConnectError
       | Some channel \<Rightarrow>
           (case peer_certificates channel of
              None \<Rightarrow> Err TlsMissingCertificate
            | Some [] \<Rightarrow> Err TlsMissingCertificate
            | Some (d # _) \<Rightarrow>
                map_ok (\<lambda>cert. (cert, channel))
                  (map_err TlsParseError (dangerous_from_already_verified_der C d))))"
    by (auto simp: tls_transport_def)
  then obtain ch where ch: "connection = Some ch" by (cases connection) auto
  then obtain d ds where d: "peer_certificates ch = Some (d # ds)"
    using c(2) by (auto split: option.splits list.splits)
  then show ?R
    using c ch by (cases "dangerous_from_already_verified_der C d") (auto simp: channel_accepted_def)
next
  assume ?R
  then show ?L by (auto simp: tls_transport_def channel_accepted_def intro: exI [of _ "Some channel"])
qed

lemma may_end_lift_Ok: "may_end (lift_result x) (Ok r) \<longleftrightarrow> x = Ok r"
  by (auto simp: lift_result_def)

lemma may_end_prod: "may_end (case x of (a, b) \<Rightarrow> f a b) r \<longleftrightarrow> may_end (f (fst x) (snd x)) r"
  by (cases x) simp

lemma may_end_case_result:
  "may_end (case x of Ok a \<Rightarrow> f a | Err e \<Rightarrow> g e | Panicked \<Rightarrow> h) r \<longleftrightarrow>
    (\<exists>a. x = Ok a \<and> may_end (f a) r) \<or> (\<exists>e. x = Err e \<and> may_end (g e) r) \<or> (x = Panicked \<and> may_end h r)"
  by (cases x) auto

lemmas may_end_ok = may_end_then_Ok may_end_put_Ok may_end_get_Ok may_end_tls_Ok

section \<open>Two scripts on a network\<close>

text \<open>The network between two sides keeps messages in order and loses none. A side that has finished
  has closed its session, which the other one sees after the last message. When both ask for
  a handshake, with nothing else under way, rustls connects them exactly when the roles
  differ and each accepts the certificate of the other; the exported key material is the same
  on both sides.\<close>

record ('a, 'b) net =
  left_side :: "'a script"
  right_side :: "'b script"
  to_right :: "bytes list"
  to_left :: "bytes list"

type_synonym exporter = "handshake \<Rightarrow> handshake \<Rightarrow> bytes \<Rightarrow> bytes \<Rightarrow> (bytes, string) result"

definition handshake_agree :: "handshake \<Rightarrow> handshake \<Rightarrow> bool" where
  "handshake_agree h h' \<longleftrightarrow> hs_role h \<noteq> hs_role h'
    \<and> hs_verify h (cert_der (cred_certificate (hs_credential h'))) = Ok ()
    \<and> hs_verify h' (cert_der (cred_certificate (hs_credential h))) = Ok ()"

definition channel_to :: "(bytes \<Rightarrow> bytes \<Rightarrow> (bytes, string) result) \<Rightarrow> handshake \<Rightarrow> tls_channel" where
  "channel_to x h = \<lparr> peer_certificates = Some [cert_der (cred_certificate (hs_credential h))], export_keying_material = x \<rparr>"

text \<open>The moves of the left side alone, of the right side alone (the same, seen from the other side),
  and of both in a handshake.\<close>

definition left_move :: "('a, 'b) net \<Rightarrow> ('a, 'b) net option" where
  "left_move c =
    (case left_side c of
       Finish x \<Rightarrow> None
     | Send b k \<Rightarrow> Some (c \<lparr> left_side := k True, to_right := to_right c @ [b] \<rparr>)
     | Receive k \<Rightarrow>
        (case to_left c of
           b # rest \<Rightarrow> Some (c \<lparr> left_side := k (Some b), to_left := rest \<rparr>)
         | [] \<Rightarrow> (case right_side c of Finish y \<Rightarrow> Some (c \<lparr> left_side := k None \<rparr>) | _ \<Rightarrow> None))
     | Handshake h k \<Rightarrow>
        (case right_side c of Finish y \<Rightarrow> Some (c \<lparr> left_side := k None \<rparr>) | _ \<Rightarrow> None))"

definition swap_net :: "('a, 'b) net \<Rightarrow> ('b, 'a) net" where
  "swap_net c = \<lparr> left_side = right_side c, right_side = left_side c, to_right = to_left c, to_left = to_right c \<rparr>"

definition right_move :: "('a, 'b) net \<Rightarrow> ('a, 'b) net option" where
  "right_move c = map_option swap_net (left_move (swap_net c))"

definition both_move :: "exporter \<Rightarrow> ('a, 'b) net \<Rightarrow> ('a, 'b) net option" where
  "both_move X c =
    (case (left_side c, right_side c, to_right c, to_left c) of
       (Handshake h k, Handshake h' k', [], []) \<Rightarrow>
         if handshake_agree h h'
         then Some (c \<lparr> left_side := k (Some (channel_to (X h h') h')), right_side := k' (Some (channel_to (X h h') h)) \<rparr>)
         else Some (c \<lparr> left_side := k None, right_side := k' None \<rparr>)
     | _ \<Rightarrow> None)"

inductive net_step :: "exporter \<Rightarrow> ('a, 'b) net \<Rightarrow> ('a, 'b) net \<Rightarrow> bool" for X where
  left: "left_move c = Some d \<Longrightarrow> net_step X c d"
| right: "right_move c = Some d \<Longrightarrow> net_step X c d"
| both: "both_move X c = Some d \<Longrightarrow> net_step X c d"

inductive_cases net_stepE: "net_step X c d"

abbreviation net_runs :: "exporter \<Rightarrow> ('a, 'b) net \<Rightarrow> ('a, 'b) net \<Rightarrow> bool" where
  "net_runs X \<equiv> (net_step X)\<^sup>*\<^sup>*"

lemma swap_net_simps [simp]:
  "left_side (swap_net c) = right_side c" "right_side (swap_net c) = left_side c"
  "to_right (swap_net c) = to_left c" "to_left (swap_net c) = to_right c"
  "swap_net (swap_net c) = c"
  by (simp_all add: swap_net_def)

text \<open>The order in which the two sides run does not matter: two different steps can both be done
  afterwards, with the same outcome.\<close>

lemma left_right_commute:
  assumes "left_move c = Some d" "right_move c = Some e"
  shows "\<exists>f. right_move d = Some f \<and> left_move e = Some f"
  using assms
  by (cases "left_side c"; cases "right_side c")
    (auto simp: left_move_def right_move_def swap_net_def split: list.splits)

lemma both_move_alone:
  assumes "both_move X c = Some d"
  shows "left_move c = None" "right_move c = None"
  using assms by (auto simp: both_move_def left_move_def right_move_def split: script.splits list.splits)

lemma net_step_diamond:
  assumes "net_step X c d" "net_step X c e"
  shows "d = e \<or> (\<exists>f. net_step X d f \<and> net_step X e f)"
  using assms left_right_commute [of c] both_move_alone [of X c]
  by (elim net_stepE) (fastforce intro: net_step.intros)+

text \<open>Every execution ends.\<close>

lemma left_move_sub: "left_move c = Some d \<Longrightarrow>
    right_side d = right_side c \<and> (\<exists>x. (\<exists>b k. left_side c = Send b k \<and> left_side d = k x)
      \<or> (\<exists>k y. left_side c = Receive k \<and> left_side d = k y) \<or> (\<exists>h k y. left_side c = Handshake h k \<and> left_side d = k y))"
  by (auto simp: left_move_def split: script.splits list.splits)

inductive smaller :: "'r script \<Rightarrow> 'r script \<Rightarrow> bool" where
  "smaller (k x) (Send b k)"
| "smaller (k y) (Receive k)"
| "smaller (k z) (Handshake h k)"

lemma wf_smaller: "wfP smaller"
proof (rule wfpUNIVI)
  fix P :: "'r script \<Rightarrow> bool" and s
  assume step: "\<forall>s. (\<forall>s'. smaller s' s \<longrightarrow> P s') \<longrightarrow> P s"
  show "P s" by (induction s) (rule step [rule_format], auto elim: smaller.cases)+
qed

lemma net_step_smaller:
  assumes "net_step X c d"
  shows "((left_side d, right_side d), (left_side c, right_side c))
    \<in> {(s', s). smaller s' s} <*lex*> {(s', s). smaller s' s}"
  using assms
proof cases
  case left
  then show ?thesis by (auto dest!: left_move_sub intro: smaller.intros)
next
  case right
  then obtain d' where "left_move (swap_net c) = Some d'" "d = swap_net d'" by (auto simp: right_move_def)
  then show ?thesis by (auto dest!: left_move_sub intro: smaller.intros)
next
  case both
  then show ?thesis
    by (auto simp: both_move_def split: script.splits list.splits if_splits intro: smaller.intros)
qed

lemma net_terminates: "wfP (\<lambda>d c. net_step X c d)"
proof -
  have "wf ({(s', s). smaller s' s} <*lex*> {(s', s). smaller s' s})"
    by (intro wf_lex_prod wf_smaller [unfolded wfp_def])
  then have "wf (inv_image ({(s', s). smaller s' s} <*lex*> {(s', s). smaller s' s}) (\<lambda>c. (left_side c, right_side c)))"
    by (rule wf_inv_image)
  then show ?thesis
    unfolding wfp_def by (rule wf_subset) (use net_step_smaller in \<open>fastforce simp: in_inv_image\<close>)
qed

text \<open>Hence all executions that cannot go on end in the same state.\<close>

lemma net_strip:
  assumes "net_step X c d" "net_runs X c e"
  shows "\<exists>f. net_runs X d f \<and> (net_step X e f \<or> e = f)"
  using assms(2)
proof (induction rule: rtranclp_induct)
  case base
  then show ?case using assms(1) by blast
next
  case (step e e')
  then obtain f where f: "net_runs X d f" "net_step X e f \<or> e = f" by blast
  show ?case
  proof (cases "e = f")
    case True
    then show ?thesis using f(1) step(2) by (intro exI [of _ e']) (auto intro: rtranclp.rtrancl_into_rtrancl)
  next
    case False
    then show ?thesis using f net_step_diamond [OF step(2), of f] by (meson rtranclp.rtrancl_into_rtrancl)
  qed
qed

lemma net_confluent:
  assumes "net_runs X c d" "net_runs X c e" "\<nexists>f. net_step X d f"
  shows "net_runs X e d"
  using assms(1,2,3)
proof (induction arbitrary: e rule: converse_rtranclp_induct)
  case base
  then show ?case by (metis converse_rtranclpE rtranclp.rtrancl_refl)
next
  case (step c c')
  from net_strip [OF step(1) step(4)] obtain f where "net_runs X c' f" "net_step X e f \<or> e = f" by blast
  then show ?case using step(3) [OF _ step(5)] by (meson converse_rtranclp_into_rtranclp)
qed

lemma net_unique_end:
  assumes "net_runs X c d" "\<nexists>f. net_step X d f" "net_runs X c e" "\<nexists>f. net_step X e f"
  shows "e = d"
  using net_confluent [OF assms(1,3,2)] assms(4) by (metis converse_rtranclpE)

lemma net_finished: "\<nexists>f. net_step X \<lparr> left_side = Finish x, right_side = Finish y, to_right = q, to_left = q' \<rparr> f"
  by (auto simp: left_move_def right_move_def swap_net_def both_move_def elim!: net_stepE)

text \<open>An execution, computed: one of the possible steps after the other.\<close>

definition net_next :: "exporter \<Rightarrow> ('a, 'b) net \<Rightarrow> ('a, 'b) net option" where
  "net_next X c =
    (case left_move c of Some d \<Rightarrow> Some d
     | None \<Rightarrow> (case right_move c of Some d \<Rightarrow> Some d | None \<Rightarrow> both_move X c))"

lemma net_next_step: "net_next X c = Some d \<Longrightarrow> net_step X c d"
  by (auto simp: net_next_def split: option.splits intro: net_step.intros)

lemma net_next_None: "net_next X c = None \<longleftrightarrow> (\<nexists>d. net_step X c d)"
  by (cases "left_move c"; cases "right_move c"; cases "both_move X c")
    (auto simp: net_next_def intro: net_step.intros elim!: net_stepE)

lemma net_runs_next:
  assumes "net_next X c = Some d" "net_runs X d e"
  shows "net_runs X c e"
  using net_next_step [OF assms(1)] assms(2) by (rule converse_rtranclp_into_rtranclp)

text \<open>Every value can be encoded, and is read back.\<close>

definition codec_total :: "'t codec \<Rightarrow> bool" where
  "codec_total K \<longleftrightarrow> (\<forall>x. \<exists>b. encode K x = Ok b \<and> decode K b = Ok x)"

lemma codec_total_enc:
  "codec_total K \<Longrightarrow> \<exists>enc. (\<forall>x. encode K x = Ok (enc x)) \<and> (\<forall>x. decode K (enc x) = Ok x)"
  unfolding codec_total_def by metis

text \<open>A value crosses the session.\<close>

definition carries :: "'t codec \<Rightarrow> 't \<Rightarrow> bool" where
  "carries K x \<longleftrightarrow> (\<exists>b. encode K x = Ok b \<and> decode K b = Ok x)"

text \<open>A serializer for any countable type.\<close>

definition unary_codec :: "('t \<Rightarrow> 'a :: countable) \<Rightarrow> ('a \<Rightarrow> 't) \<Rightarrow> 't codec" where
  "unary_codec rep unrep = \<lparr> encode = (\<lambda>x. Ok (replicate (to_nat (rep x)) 0)), decode = (\<lambda>b. Ok (unrep (from_nat (length b)))) \<rparr>"

lemma unary_codec_total: "(\<And>x. unrep (rep x) = x) \<Longrightarrow> codec_total (unary_codec rep unrep)"
  by (simp add: codec_total_def unary_codec_def)

text \<open>How the sides of a network look when their scripts are written with the operations of a session.\<close>

lemma then_script_assoc [simp]: "then_script (then_script s f) g = then_script s (\<lambda>x. then_script (f x) g)"
  unfolding then_script_def bind_script_assoc
  by (rule arg_cong [of _ _ "bind_script s"]) (auto split: result.splits)

lemma then_script_Finish [simp]: "then_script (Finish r) f =
    (case r of Ok x \<Rightarrow> f x | Err e \<Rightarrow> Finish (Err e) | Panicked \<Rightarrow> Finish Panicked)"
  by (simp add: then_script_def)

lemma put_object_then: "encode K x = Ok b \<Longrightarrow>
    then_script (put_object E K x) f = Send b (\<lambda>written. if written then f () else Finish (Err (E ObjectIo)))"
  by (simp add: put_object_def then_script_def fun_eq_iff)

lemma get_object_then:
  "then_script (get_object E K) f = Receive (\<lambda>received.
    case received of
      None \<Rightarrow> Finish (Err (E ObjectIo))
    | Some b \<Rightarrow> (case decode K b of
        Ok x \<Rightarrow> f x | Err s \<Rightarrow> Finish (Err (E (ObjectCodec s))) | Panicked \<Rightarrow> Finish Panicked))"
  by (auto simp: get_object_def then_script_def fun_eq_iff split: option.splits result.splits)

abbreviation net_of :: "'a script \<Rightarrow> 'b script \<Rightarrow> bytes list \<Rightarrow> bytes list \<Rightarrow> ('a, 'b) net" where
  "net_of l r q q' \<equiv> \<lparr> left_side = l, right_side = r, to_right = q, to_left = q' \<rparr>"

lemma left_put:
  assumes "encode K x = Ok b" "net_runs X (net_of (f ()) r (q @ [b]) q') e"
  shows "net_runs X (net_of (then_script (put_object E K x) f) r q q') e"
  by (rule net_runs_next [OF _ assms(2)]) (simp add: net_next_def left_move_def put_object_then [OF assms(1)])

lemma left_get:
  assumes "decode K b = Ok x" "net_runs X (net_of (f x) r q q') e"
  shows "net_runs X (net_of (then_script (get_object E K) f) r q (b # q')) e"
  by (rule net_runs_next [OF _ assms(2)]) (simp add: net_next_def left_move_def get_object_then assms(1))

lemma right_put:
  assumes "encode K x = Ok b" "net_runs X (net_of l (f ()) q (q' @ [b])) e"
  shows "net_runs X (net_of l (then_script (put_object E K x) f) q q') e"
proof -
  have "net_step X (net_of l (then_script (put_object E K x) f) q q') (net_of l (f ()) q (q' @ [b]))"
    by (rule net_step.right) (simp add: right_move_def left_move_def swap_net_def put_object_then [OF assms(1)])
  then show ?thesis using assms(2) by (rule converse_rtranclp_into_rtranclp)
qed

lemma right_get:
  assumes "decode K b = Ok x" "net_runs X (net_of l (f x) q q') e"
  shows "net_runs X (net_of l (then_script (get_object E K) f) (b # q) q') e"
proof -
  have "net_step X (net_of l (then_script (get_object E K) f) (b # q) q') (net_of l (f x) q q')"
    by (rule net_step.right) (simp add: right_move_def left_move_def swap_net_def get_object_then assms(1))
  then show ?thesis using assms(2) by (rule converse_rtranclp_into_rtranclp)
qed

text \<open>A send whose result is looked at, and a read after the other side has closed.\<close>

lemma left_put_bind:
  assumes "encode K x = Ok b" "net_runs X (net_of (f (Ok ())) r (q @ [b]) q') e"
  shows "net_runs X (net_of (bind_script (put_object E K x) f) r q q') e"
  by (rule net_runs_next [OF _ assms(2)]) (simp add: net_next_def left_move_def put_object_def assms(1))

lemma right_get_closed:
  assumes "net_runs X (net_of (Finish y) (Finish (Err (E ObjectIo))) [] q') e"
  shows "net_runs X (net_of (Finish y) (then_script (get_object E K) f) [] q') e"
proof (rule net_runs_next [OF _ assms])
  show "net_next X (net_of (Finish y) (then_script (get_object E K) f) [] q')
      = Some (net_of (Finish y) (Finish (Err (E ObjectIo))) [] q')"
    by (simp add: net_next_def left_move_def right_move_def swap_net_def get_object_then)
qed

lemma right_put_bind:
  assumes "encode K x = Ok b" "net_runs X (net_of l (f (Ok ())) q (q' @ [b])) e"
  shows "net_runs X (net_of l (bind_script (put_object E K x) f) q q') e"
proof -
  have "net_step X (net_of l (bind_script (put_object E K x) f) q q') (net_of l (f (Ok ())) q (q' @ [b]))"
    by (rule net_step.right) (simp add: right_move_def left_move_def swap_net_def put_object_def assms(1))
  then show ?thesis using assms(2) by (rule converse_rtranclp_into_rtranclp)
qed

text \<open>A side whose result is only put into another form runs the same way.\<close>

definition map_script :: "('a \<Rightarrow> 'b) \<Rightarrow> 'a script \<Rightarrow> 'b script" where
  "map_script g s = bind_script s (\<lambda>r. Finish (g r))"

lemma map_script_simps [simp]:
  "map_script g (Finish r) = Finish (g r)" "map_script g (Send b k) = Send b (\<lambda>x. map_script g (k x))"
  "map_script g (Receive k') = Receive (\<lambda>x. map_script g (k' x))" "map_script g (Handshake h k'') = Handshake h (\<lambda>x. map_script g (k'' x))"
  by (simp_all add: map_script_def)

lemma net_step_map:
  assumes "net_step X c d"
  shows "net_step X (net_of (left_side c) (map_script g (right_side c)) (to_right c) (to_left c))
    (net_of (left_side d) (map_script g (right_side d)) (to_right d) (to_left d))"
  using assms
proof (rule net_stepE)
  assume "left_move c = Some d"
  then show ?thesis
    by (intro net_step.left) (cases "left_side c"; cases "right_side c"; auto simp: left_move_def split: list.splits)
next
  assume "right_move c = Some d"
  then show ?thesis
    by (intro net_step.right) (cases "left_side c"; cases "right_side c"; auto simp: right_move_def left_move_def swap_net_def split: list.splits)
next
  assume "both_move X c = Some d"
  then show ?thesis
    by (intro net_step.both) (cases "left_side c"; cases "right_side c"; auto simp: both_move_def split: list.splits if_splits)
qed

lemma net_runs_map:
  assumes "net_runs X c d"
  shows "net_runs X (net_of (left_side c) (map_script g (right_side c)) (to_right c) (to_left c))
    (net_of (left_side d) (map_script g (right_side d)) (to_right d) (to_left d))"
  using assms by induction (auto intro: net_step_map rtranclp.rtrancl_into_rtrancl)

text \<open>What a network run can end with, a run with any peer can end with.\<close>

lemma left_move_may_end:
  assumes "left_move c = Some d"
  shows "may_end (left_side d) l \<Longrightarrow> may_end (left_side c) l" "right_side d = right_side c"
  using assms by (cases "left_side c"; auto simp: left_move_def channel_accepted_def split: script.splits list.splits)+

lemma net_step_may_end:
  assumes "net_step X c d" "may_end (left_side d) l" "may_end (right_side d) r"
  shows "may_end (left_side c) l \<and> may_end (right_side c) r"
  using assms(1)
proof (rule net_stepE)
  assume "left_move c = Some d"
  with assms(2,3) left_move_may_end show ?thesis by metis
next
  assume "right_move c = Some d"
  then obtain e where "left_move (swap_net c) = Some e" "d = swap_net e" by (auto simp: right_move_def)
  with assms(2,3) left_move_may_end [of "swap_net c" e] show ?thesis by simp
next
  assume "both_move X c = Some d"
  then obtain h k h' k' where m: "left_side c = Handshake h k" "right_side c = Handshake h' k'"
      "d = (if handshake_agree h h' then c \<lparr> left_side := k (Some (channel_to (X h h') h')), right_side := k' (Some (channel_to (X h h') h)) \<rparr>
         else c \<lparr> left_side := k None, right_side := k' None \<rparr>)"
    by (auto simp: both_move_def split: script.splits list.splits if_splits)
  show ?thesis
  proof (cases "handshake_agree h h'")
    case True
    then have "channel_accepted h (Some (channel_to (X h h') h'))" "channel_accepted h' (Some (channel_to (X h h') h))"
      by (simp_all add: channel_accepted_def channel_to_def handshake_agree_def)
    with True m assms(2,3) show ?thesis by auto
  next
    case False
    have "channel_accepted h None" "channel_accepted h' None" by (simp_all add: channel_accepted_def)
    with False m assms(2,3) show ?thesis by auto
  qed
qed

lemma net_runs_may_end:
  assumes "net_runs X c (net_of (Finish l) (Finish r) q q')"
  shows "may_end (left_side c) l \<and> may_end (right_side c) r"
  using assms by (induction rule: converse_rtranclp_induct) (simp, metis net_step_may_end)

text \<open>Errors that are wrapped.\<close>

lemma map_err_script_then [simp]:
  "map_err_script E (then_script s f) = then_script (map_err_script E s) (\<lambda>x. map_err_script E (f x))"
  unfolding map_err_script_def then_script_def bind_script_assoc
  by (rule arg_cong [of _ _ "bind_script s"]) (auto split: result.splits)

lemma map_err_map_err [simp]: "map_err E (map_err F r) = map_err (\<lambda>s. E (F s)) r"
  by (cases r) simp_all

lemma map_err_script_ops [simp]:
  "map_err_script E (lift_result r) = lift_result (map_err E r)"
  "map_err_script E (Finish r) = Finish (map_err E r)"
  "map_err_script E (put_object F K x) = put_object (\<lambda>e. E (F e)) K x"
  "map_err_script E (get_object F K) = get_object (\<lambda>e. E (F e)) K"
  by (auto simp: map_err_script_def lift_result_def put_object_def get_object_def fun_eq_iff
      split: result.splits option.splits)

lemma map_err_script_compose [simp]:
  "map_err_script E (map_err_script F s) = map_err_script (\<lambda>e. E (F e)) s"
  by (simp add: map_err_script_def bind_script_assoc)

lemma map_err_id [simp]: "map_err (\<lambda>e. e) r = r"
  by (cases r) simp_all

lemma map_err_script_id: "map_err_script (\<lambda>e. e) s = s"
  by (simp add: map_err_script_def bind_script_Finish)

lemma case_result_Finish:
  "(\<lambda>r. case r of Ok x \<Rightarrow> Finish (Ok x) | Err e \<Rightarrow> Finish (Err e) | Panicked \<Rightarrow> Finish Panicked) = Finish"
  by (auto simp: fun_eq_iff split: result.splits)

lemma then_script_Ok: "then_script s (\<lambda>x. Finish (Ok x)) = s"
  unfolding then_script_def case_result_Finish by (rule bind_script_Finish)

lemma then_map_err_bind: "then_script (map_err_script E s) f = bind_script s (\<lambda>r. case r of
    Ok x \<Rightarrow> f x | Err e \<Rightarrow> Finish (Err (E e)) | Panicked \<Rightarrow> Finish Panicked)"
  unfolding map_err_script_def then_script_def bind_script_assoc
  by (rule arg_cong [of _ _ "bind_script s"]) (auto simp: fun_eq_iff split: result.splits)

lemma may_end_map_err_Ok: "may_end (map_err_script E s) (Ok x) \<longleftrightarrow> may_end s (Ok x)"
  unfolding map_err_script_def may_end_bind by (auto simp: result_simps dest: sym [of "Ok _"])

text \<open>A handshake in which the client is the left side.\<close>

lemma tls_connect:
  assumes "verify (cert_der (cred_certificate cred')) = Ok ()" "verify' (cert_der (cred_certificate cred)) = Ok ()"
    "dangerous_from_already_verified_der C (cert_der (cred_certificate cred)) = Ok cert"
    "dangerous_from_already_verified_der C (cert_der (cred_certificate cred')) = Ok cert'"
    "h = \<lparr> hs_role = TlsClientRole, hs_credential = cred, hs_verify = verify \<rparr>"
    "h' = \<lparr> hs_role = TlsServerRole, hs_credential = cred', hs_verify = verify' \<rparr>"
    "net_runs X (net_of (f (Ok (cert', channel_to (X h h') h'))) (f' (Ok (cert, channel_to (X h h') h))) [] []) e"
  shows "net_runs X (net_of (bind_script (tls_transport C TlsClientRole verify cred) f)
    (bind_script (tls_transport C TlsServerRole verify' cred') f') [] []) e"
proof (rule net_runs_next [OF _ assms(7)])
  have "handshake_agree h h'" using assms(1,2,5,6) by (simp add: handshake_agree_def)
  then show "net_next X (net_of (bind_script (tls_transport C TlsClientRole verify cred) f)
      (bind_script (tls_transport C TlsServerRole verify' cred') f') [] [])
    = Some (net_of (f (Ok (cert', channel_to (X h h') h'))) (f' (Ok (cert, channel_to (X h h') h))) [] [])"
    using assms(3-6)
    by (simp add: net_next_def left_move_def right_move_def swap_net_def both_move_def tls_transport_def channel_to_def)
qed

text \<open>A tunnel under a key that both sides have. What one side needs for it: a temporary credential that
  can be made, encrypted and read again, and is valid when the other side looks at it.\<close>

definition temp_ready :: "tls_libs \<Rightarrow> temp_draws \<Rightarrow> u64 \<Rightarrow> encryption_key \<Rightarrow> credential \<Rightarrow> bytes \<Rightarrow> bool" where
  "temp_ready L d time key cred b \<longleftrightarrow>
    generate_temporary (lib_crypto L) (lib_rcgen L) (td_now1 d) (td_now2 d) (td_keypair d) = Ok cred
    \<and> cert_type (cred_certificate cred) = Temporary
    \<and> from_der (lib_crypto L) (cert_der (cred_certificate cred)) = Ok (as_unverified (cred_certificate cred))
    \<and> check_validity_at (as_unverified (cred_certificate cred)) time = Ok ()
    \<and> (\<exists>enc. encrypt_object (lib_aead L) (lib_cert_codec L) (td_mask d) (as_unverified (cred_certificate cred)) key = Ok enc
        \<and> encode (lib_object_codec L) enc = Ok b)"

definition tls_libs_ok :: "tls_libs \<Rightarrow> bool" where
  "tls_libs_ok L \<longleftrightarrow> aead_ok (lib_aead L) \<and> codec_ok (lib_cert_codec L) \<and> codec_ok (lib_object_codec L)"

lemma exact_verifier_accepts:
  assumes "from_der C (der (as_unverified cert)) = Ok (as_unverified cert)" "check_validity_at (as_unverified cert) time = Ok ()"
  shows "verify_cert C (exact_verifier cert) (der (as_unverified cert)) time = Ok ()"
  using assms by (simp add: verify_cert_def exact_verifier_def default_verifier_def default_verify_known_certificate_def cert_eq_def)

lemma preshared_connect:
  assumes "tls_libs_ok L" "temp_ready L d (td_verify_time d') key cred b" "temp_ready L d' (td_verify_time d) key cred' b'"
    "h = \<lparr> hs_role = TlsClientRole, hs_credential = cred,
       hs_verify = (\<lambda>end_entity. verify_cert (lib_crypto L) (exact_verifier (cred_certificate cred')) end_entity (td_verify_time d)) \<rparr>"
    "h' = \<lparr> hs_role = TlsServerRole, hs_credential = cred',
       hs_verify = (\<lambda>end_entity. verify_cert (lib_crypto L) (exact_verifier (cred_certificate cred)) end_entity (td_verify_time d')) \<rparr>"
    "net_runs X (net_of (f (cred_certificate cred', channel_to (X h h') h'))
      (f' (cred_certificate cred, channel_to (X h h') h)) [] []) e"
  shows "net_runs X (net_of (then_script (map_err_script E (tls_client_preshared L d key)) f)
    (then_script (map_err_script E' (tls_server_preshared L d' key)) f') [] []) e"
proof -
  from assms(1) have ok: "aead_ok (lib_aead L)" "codec_ok (lib_cert_codec L)" "codec_ok (lib_object_codec L)"
    by (simp_all add: tls_libs_ok_def)
  obtain enc where e: "encrypt_object (lib_aead L) (lib_cert_codec L) (td_mask d) (as_unverified (cred_certificate cred)) key = Ok enc"
      "encode (lib_object_codec L) enc = Ok b" using assms(2) by (auto simp: temp_ready_def)
  obtain enc' where e': "encrypt_object (lib_aead L) (lib_cert_codec L) (td_mask d') (as_unverified (cred_certificate cred')) key = Ok enc'"
      "encode (lib_object_codec L) enc' = Ok b'" using assms(3) by (auto simp: temp_ready_def)
  have dec: "decode (lib_object_codec L) b = Ok enc" "decode (lib_object_codec L) b' = Ok enc'"
    using ok(3) e(2) e'(2) by (auto simp: codec_ok_def)
  have opens: "decrypt_object (lib_aead L) (lib_cert_codec L) enc key = Ok (as_unverified (cred_certificate cred))"
    "decrypt_object (lib_aead L) (lib_cert_codec L) enc' key = Ok (as_unverified (cred_certificate cred'))"
    using encrypted_object_opens [OF ok(1,2) e(1)] encrypted_object_opens [OF ok(1,2) e'(1)] by simp_all
  let ?verify = "\<lambda>end_entity. verify_cert (lib_crypto L) (exact_verifier (cred_certificate cred')) end_entity (td_verify_time d)"
    and ?verify' = "\<lambda>end_entity. verify_cert (lib_crypto L) (exact_verifier (cred_certificate cred)) end_entity (td_verify_time d')"
  have connect: "net_runs X (net_of (then_script (map_err_script E (tls_transport (lib_crypto L) TlsClientRole ?verify cred)) f)
      (then_script (map_err_script E' (tls_transport (lib_crypto L) TlsServerRole ?verify' cred')) f') [] []) e"
    unfolding then_map_err_bind
    by (rule tls_connect [OF _ _ _ _ assms(4,5)])
      (use assms(2,3,6) in \<open>simp_all add: temp_ready_def exact_verifier_accepts dangerous_from_already_verified_der_def mark_as_trusted_def\<close>)
  show ?thesis
    unfolding tls_client_preshared_def tls_server_preshared_def tls_preshared_def exchange_temp_credentials_def
    using assms(2-3) e(1) e'(1) opens connect
    by (auto simp: temp_ready_def use_as_temporary_def intro!: left_put [OF e(2)] right_put [OF e'(2)] left_get [OF dec(2)] right_get [OF dec(1)])
qed

section \<open>A sample of the TLS libraries\<close>

definition sample_temp_rcgen :: rcgen where
  "sample_temp_rcgen = sample_rcgen \<lparr> self_signed := \<lambda>p kp. Ok [5, hd (kp_public_der kp), hd (kp_public_der kp), 0] \<rparr>"

definition sample_cert_codec :: "unverified_certificate codec" where
  "sample_cert_codec = \<lparr>
     encode = (\<lambda>c. if from_der sample_crypto (der c) = Ok c then Ok (der c) else Err ''unsupported''),
     decode = (\<lambda>b. map_err (\<lambda>_. ''unsupported'') (from_der sample_crypto b)) \<rparr>"

definition sample_object_codec :: "'t encrypted_object codec" where
  "sample_object_codec = \<lparr>
     encode = (\<lambda>e. case e of EncryptedObject d \<Rightarrow>
       if enc_alg d = Chacha20Poly1305 \<and> length (nonce_mask d) = 12 then Ok (nonce_mask d @ ciphertext d) else Err ''unsupported''),
     decode = (\<lambda>b. Ok (EncryptedObject \<lparr> ciphertext = drop 12 b, enc_alg = Chacha20Poly1305, nonce_mask = take 12 b \<rparr>)) \<rparr>"

definition sample_tls_libs :: tls_libs where
  "sample_tls_libs = \<lparr> lib_crypto = sample_crypto, lib_rcgen = sample_temp_rcgen, lib_aead = sample_aead,
     lib_cert_codec = sample_cert_codec, lib_object_codec = sample_object_codec \<rparr>"

definition sample_temp_draws :: "u8 \<Rightarrow> temp_draws" where
  "sample_temp_draws k = \<lparr> td_now1 = 0, td_now2 = 0, td_keypair = \<lparr> kp_serialized_der = [k], kp_public_der = [k] \<rparr>,
     td_mask = replicate 12 9, td_verify_time = 1 \<rparr>"

definition sample_temp_credential :: "u8 \<Rightarrow> credential" where
  "sample_temp_credential k = \<lparr> cred_keypair = \<lparr> kp_serialized_der = [k], kp_public_der = [k] \<rparr>,
     cred_certificate = Certificate (sample_cert Temporary 5 k k 0) \<rparr>"

lemma sample_object_codec_ok: "codec_ok (sample_object_codec :: 't encrypted_object codec)"
  by (auto simp: codec_ok_def sample_object_codec_def split: encrypted_object.splits if_splits)

lemma sample_tls_libs_ok: "tls_libs_ok sample_tls_libs"
  using sample_object_codec_ok
  by (auto simp: tls_libs_ok_def sample_tls_libs_def codec_ok_def sample_cert_codec_def split: if_splits)

lemma sample_temp_ready:
  assumes "k = 1 \<or> k = 2"
  shows "\<exists>b. temp_ready sample_tls_libs (sample_temp_draws k) 1 key (sample_temp_credential k) b"
proof -
  have fd: "from_der sample_crypto [5, k, k, 0] = Ok (sample_cert Temporary 5 k k 0)"
    using assms by (elim disjE) (simp_all, code_simp+)
  have fd': "from_der sample_crypto (der (sample_cert Temporary 5 k k 0)) = Ok (sample_cert Temporary 5 k k 0)"
    using fd by (simp add: sample_cert_def)
  have gen: "generate_temporary sample_crypto sample_temp_rcgen 0 0 \<lparr> kp_serialized_der = [k], kp_public_der = [k] \<rparr>
      = Ok (sample_temp_credential k)"
    using fd by (simp add: generate_temporary_def credential_new_def sample_temp_rcgen_def sample_rcgen_def
        export_public_key_def sample_temp_credential_def mark_as_trusted_def)
      (simp add: sample_cert_def sample_crypto_def)
  have "check_validity_at (sample_cert Temporary 5 k k 0) 1 = Ok ()"
    by (simp add: check_validity_at_def timestamp_u64_def sample_cert_def duration_minutes_def)
  moreover have "is_ok (fst (advance (nonce_counter_new (replicate 12 9))))" by code_simp
  ultimately show ?thesis
    using gen fd'
    by (auto simp: is_ok_iff temp_ready_def sample_tls_libs_def sample_temp_draws_def sample_temp_credential_def
        encrypt_object_def sample_cert_codec_def encrypt_bytes_def encrypt_with_alg_def sample_aead_def
        DEFAULT_ALG_def sample_object_codec_def sample_cert_def)
qed

end
