(* ===== verification/AucPace.thy ===== *)
theory AucPace
  imports Script
begin

text \<open>
  Encrypted tunnels from short passwords (\<^verbatim>\<open>svalin_rpc/src/transport/aucpace_transport.rs\<close>): the
  conversions of the messages of the \<^verbatim>\<open>aucpace\<close> crate, the client and the server side of the
  exchange, and the TLS tunnel they open under the agreed key. The cryptography of the crate
  is the parameter \<^verbatim>\<open>pake\<close>; its random values are arguments.
\<close>

section \<open>The library\<close>

text \<open>\<^verbatim>\<open>ParamsString\<close>: decimal values by name.\<close>

type_synonym params_string = "(string \<times> u32) list"

definition params_of_cost :: "argon_cost \<Rightarrow> params_string" where
  "params_of_cost c = [(''m'', m_cost c), (''t'', t_cost c), (''p'', p_cost c)]"

definition cost_of_params :: "params_string \<Rightarrow> (argon_cost, params_string_parse_error) result" where
  "cost_of_params ps = argon_cost_try_from (map_of ps)"

lemma cost_of_params_of_cost [simp]: "cost_of_params (params_of_cost c) = Ok c"
  by (simp add: cost_of_params_def params_of_cost_def argon_cost_try_from_def)

datatype 'pt server_message =
    SmNonce bytes
  | SmAugmentationInfo str 'pt bytes params_string
  | SmStrongAugmentationInfo str 'pt 'pt params_string
  | SmPublicKey 'pt
  | SmAuthenticator bytes

datatype 'pt client_message =
    CmNonce bytes
  | CmUsername bytes
  | CmStrongUsername bytes 'pt
  | CmPublicKey 'pt
  | CmAuthenticator bytes
  | CmRegistration bytes bytes params_string 'pt

text \<open>The states of the two sides, and the steps that the source calls. A database of verifiers is a
  partial function of the user name.\<close>

record ('s, 'c, 'pt, 'sc) pake =
  server_begin :: "bytes \<Rightarrow> 's \<times> 'pt server_message"
  server_agree_ssid :: "'s \<Rightarrow> bytes \<Rightarrow> 's"
  generate_client_info :: "'s \<Rightarrow> bytes \<Rightarrow> (bytes \<Rightarrow> ('pt \<times> bytes \<times> params_string) option) \<Rightarrow> bytes \<Rightarrow> 's \<times> 'pt server_message"
  generate_client_info_strong :: "'s \<Rightarrow> bytes \<Rightarrow> 'pt \<Rightarrow> (bytes \<Rightarrow> ('pt \<times> 'sc \<times> params_string) option) \<Rightarrow> bytes
    \<Rightarrow> ('s \<times> 'pt server_message, string) result"
  server_public_key :: "'s \<Rightarrow> bytes \<Rightarrow> 's \<times> 'pt server_message"
  receive_client_pubkey :: "'s \<Rightarrow> 'pt \<Rightarrow> ('s, string) result"
  receive_client_authenticator :: "'s \<Rightarrow> bytes \<Rightarrow> (bytes \<times> 'pt server_message, string) result"
  client_begin :: "bytes \<Rightarrow> 'c \<times> 'pt client_message"
  client_agree_ssid :: "'c \<Rightarrow> bytes \<Rightarrow> 'c"
  register_alloc :: "bytes \<Rightarrow> bytes \<Rightarrow> argon_cost \<Rightarrow> bytes \<Rightarrow> ('pt client_message, string) result"
  start_augmentation :: "'c \<Rightarrow> bytes \<Rightarrow> bytes \<Rightarrow> 'c \<times> 'pt client_message"
  start_augmentation_strong :: "'c \<Rightarrow> bytes \<Rightarrow> bytes \<Rightarrow> bytes \<Rightarrow> 'c \<times> 'pt client_message"
  generate_cpace :: "'c \<Rightarrow> 'pt \<Rightarrow> bytes \<Rightarrow> argon_cost \<Rightarrow> ('c, string) result"
  generate_cpace_strong :: "'c \<Rightarrow> 'pt \<Rightarrow> 'pt \<Rightarrow> argon_cost \<Rightarrow> ('c, string) result"
  client_public_key :: "'c \<Rightarrow> bytes \<Rightarrow> bytes \<Rightarrow> 'c \<times> 'pt client_message"
  receive_server_pubkey :: "'c \<Rightarrow> 'pt \<Rightarrow> ('c \<times> 'pt client_message, string) result"
  receive_server_authenticator :: "'c \<Rightarrow> bytes \<Rightarrow> (bytes, string) result"

section \<open>Messages\<close>

datatype message_transform_error = WrongInputVariant

definition NONCE_LENGTH :: nat where
  "NONCE_LENGTH = 16"

fun nonce_from_server :: "'pt server_message \<Rightarrow> (bytes, message_transform_error) result" where
  "nonce_from_server (SmNonce nonce) = Ok nonce"
| "nonce_from_server _ = Err WrongInputVariant"

fun nonce_from_client :: "'pt client_message \<Rightarrow> (bytes, message_transform_error) result" where
  "nonce_from_client (CmNonce nonce) = Ok nonce"
| "nonce_from_client _ = Err WrongInputVariant"

definition nonce_combine :: "bytes \<Rightarrow> bytes \<Rightarrow> bytes" where
  "nonce_combine self other = self @ other"

fun public_key_from_server :: "'pt server_message \<Rightarrow> ('pt, message_transform_error) result" where
  "public_key_from_server (SmPublicKey pubkey) = Ok pubkey"
| "public_key_from_server _ = Err WrongInputVariant"

fun public_key_from_client :: "'pt client_message \<Rightarrow> ('pt, message_transform_error) result" where
  "public_key_from_client (CmPublicKey pubkey) = Ok pubkey"
| "public_key_from_client _ = Err WrongInputVariant"

record 'pt client_info =
  ci_group :: str
  ci_x_pub :: 'pt
  ci_salt :: bytes
  ci_hash_params :: params_string

fun client_info_from_server :: "'pt server_message \<Rightarrow> ('pt client_info, message_transform_error) result" where
  "client_info_from_server (SmAugmentationInfo grp x_pub salt0 pbkdf_params) =
    Ok \<lparr> ci_group = grp, ci_x_pub = x_pub, ci_salt = salt0, ci_hash_params = pbkdf_params \<rparr>"
| "client_info_from_server _ = Err WrongInputVariant"

fun authenticator_from_server :: "'pt server_message \<Rightarrow> (bytes, message_transform_error) result" where
  "authenticator_from_server (SmAuthenticator authenticator) = Ok authenticator"
| "authenticator_from_server _ = Err WrongInputVariant"

fun authenticator_from_client :: "'pt client_message \<Rightarrow> (bytes, message_transform_error) result" where
  "authenticator_from_client (CmAuthenticator authenticator) = Ok authenticator"
| "authenticator_from_client _ = Err WrongInputVariant"

text \<open>Reading an authenticator demands 64 bytes; \<^verbatim>\<open>invalid_length\<close> is the error.\<close>

definition authenticator_visit :: "bytes \<Rightarrow> (bytes, string) result" where
  "authenticator_visit v = (if length v = 64 then Ok v else Err ''invalid length'')"

text \<open>The first 32 of 64 bytes.\<close>

definition key_to_array :: "bytes \<Rightarrow> bytes" where
  "key_to_array key = map (\<lambda>i. key ! i) [0..<32]"

record 'pt pake_codecs =
  nonce_codec :: "bytes codec"
  client_info_codec :: "'pt client_info codec"
  public_key_codec :: "'pt codec"
  authenticator_codec :: "bytes codec"
  authenticator_result_codec :: "bytes option codec"

section \<open>The client\<close>

datatype aucpace_error =
    ApTls tls_setup_error
  | ApSessionWrite object_error
  | ApSessionRead object_error
  | ApTransform message_transform_error
  | ApAucPace string
  | ApAuthenticationFailed string
  | ApParamsStringParse params_string_parse_error
  | ApWrongPassword

text \<open>The random values of one exchange.\<close>

record pake_draws =
  pd_nonce :: bytes
  pd_rand1 :: bytes
  pd_rand2 :: bytes
  pd_tls_nonce :: bytes
  pd_temp :: temp_draws

definition USERNAME :: bytes where
  "USERNAME = utf8 ''aucpace''"

definition aucpace_client ::
  "('s, 'c, 'pt, 'sc) pake \<Rightarrow> tls_libs \<Rightarrow> 'pt pake_codecs \<Rightarrow> pake_draws \<Rightarrow> bytes
    \<Rightarrow> (certificate \<times> tls_channel, aucpace_error) result script" where
  "aucpace_client P L K d password =
    (case client_begin P (pd_nonce d) of (client, client_nonce) \<Rightarrow>
    then_script (lift_result (map_err ApTransform (nonce_from_client client_nonce))) (\<lambda>client_nonce.
    then_script (put_object ApSessionWrite (nonce_codec K) client_nonce) (\<lambda>_.
    then_script (get_object ApSessionRead (nonce_codec K)) (\<lambda>server_nonce.
    let client = client_agree_ssid P client server_nonce in
    then_script (get_object ApSessionRead (client_info_codec K)) (\<lambda>info.
    then_script (lift_result (map_err ApParamsStringParse (cost_of_params (ci_hash_params info)))) (\<lambda>hasher.
    then_script (lift_result (map_err ApAucPace
      (generate_cpace P (fst (start_augmentation P client USERNAME password)) (ci_x_pub info) (ci_salt info) hasher))) (\<lambda>client.
    then_script (put_object ApSessionWrite (nonce_codec K) (pd_tls_nonce d)) (\<lambda>_.
    then_script (get_object ApSessionRead (nonce_codec K)) (\<lambda>server_nonce.
    case client_public_key P client (nonce_combine server_nonce (pd_tls_nonce d)) (pd_rand1 d) of (client, client_key) \<Rightarrow>
    then_script (lift_result (map_err ApTransform (public_key_from_client client_key))) (\<lambda>client_key.
    then_script (put_object ApSessionWrite (public_key_codec K) client_key) (\<lambda>_.
    then_script (get_object ApSessionRead (public_key_codec K)) (\<lambda>server_key.
    then_script (lift_result (map_err ApAucPace (receive_server_pubkey P client server_key))) (\<lambda>(client, client_authenticator).
    then_script (lift_result (map_err ApTransform (authenticator_from_client client_authenticator))) (\<lambda>client_authenticator.
    then_script (put_object ApSessionWrite (authenticator_codec K) client_authenticator) (\<lambda>_.
    then_script (get_object ApSessionRead (authenticator_result_codec K)) (\<lambda>answer.
    then_script (lift_result (ok_or ApWrongPassword answer)) (\<lambda>server_authenticator.
    then_script (lift_result (map_err ApAucPace (receive_server_authenticator P client server_authenticator))) (\<lambda>key.
    map_err_script ApTls (tls_client_preshared L (pd_temp d) (EncryptionKey (key_to_array key)))))))))))))))))))))"

section \<open>The server\<close>

text \<open>The server registers the password with itself, then plays the server of the exchange. The last
  branch is the \<^verbatim>\<open>unreachable!\<close> of the source.\<close>

definition pseudo_lookup :: "'pt \<times> bytes \<times> params_string \<Rightarrow> bytes \<Rightarrow> ('pt \<times> bytes \<times> params_string) option" where
  "pseudo_lookup entry username = Some entry"

definition pseudo_registration ::
  "('s, 'c, 'pt, 'sc) pake \<Rightarrow> bytes \<Rightarrow> bytes \<Rightarrow> ('pt \<times> bytes \<times> params_string, aucpace_error) result" where
  "pseudo_registration P rand password =
    and_then (map_err ApAucPace (register_alloc P USERNAME password argon_cost_basic rand)) (\<lambda>m.
    case m of
      CmRegistration _ salt0 params verifier \<Rightarrow> Ok (verifier, salt0, params)
    | _ \<Rightarrow> Panicked)"

definition aucpace_server ::
  "('s, 'c, 'pt, 'sc) pake \<Rightarrow> tls_libs \<Rightarrow> 'pt pake_codecs \<Rightarrow> pake_draws \<Rightarrow> bytes
    \<Rightarrow> (certificate \<times> tls_channel, aucpace_error) result script" where
  "aucpace_server P L K d password =
    then_script (lift_result (pseudo_registration P (pd_rand1 d) password)) (\<lambda>entry.
    case server_begin P (pd_nonce d) of (server, server_nonce) \<Rightarrow>
    then_script (lift_result (map_err ApTransform (nonce_from_server server_nonce))) (\<lambda>server_nonce.
    then_script (put_object ApSessionWrite (nonce_codec K) server_nonce) (\<lambda>_.
    then_script (get_object ApSessionRead (nonce_codec K)) (\<lambda>client_nonce.
    case generate_client_info P (server_agree_ssid P server client_nonce) USERNAME (pseudo_lookup entry) (pd_rand2 d) of (server, info) \<Rightarrow>
    then_script (lift_result (map_err ApTransform (client_info_from_server info))) (\<lambda>info.
    let info = (if ci_hash_params info = [] then info \<lparr> ci_hash_params := params_of_cost argon_cost_strong \<rparr> else info) in
    then_script (put_object ApSessionWrite (client_info_codec K) info) (\<lambda>_.
    then_script (put_object ApSessionWrite (nonce_codec K) (pd_tls_nonce d)) (\<lambda>_.
    then_script (get_object ApSessionRead (nonce_codec K)) (\<lambda>client_nonce.
    case server_public_key P server (nonce_combine (pd_tls_nonce d) client_nonce) of (server, server_key) \<Rightarrow>
    then_script (lift_result (map_err ApTransform (public_key_from_server server_key))) (\<lambda>server_public_key.
    then_script (put_object ApSessionWrite (public_key_codec K) server_public_key) (\<lambda>_.
    then_script (get_object ApSessionRead (public_key_codec K)) (\<lambda>client_key.
    then_script (lift_result (map_err ApAucPace (receive_client_pubkey P server client_key))) (\<lambda>server.
    then_script (get_object ApSessionRead (authenticator_codec K)) (\<lambda>client_authenticator.
    case receive_client_authenticator P server client_authenticator of
      Ok (key, server_authenticator) \<Rightarrow>
        then_script (lift_result (map_err ApTransform (authenticator_from_server server_authenticator))) (\<lambda>server_authenticator.
        then_script (put_object ApSessionWrite (authenticator_result_codec K) (Some server_authenticator)) (\<lambda>_.
        map_err_script ApTls (tls_server_preshared L (pd_temp d) (EncryptionKey (key_to_array key)))))
    | Err err \<Rightarrow>
        then_script (put_object ApSessionWrite (authenticator_result_codec K) None) (\<lambda>_.
        Finish (Err (ApAuthenticationFailed err)))
    | Panicked \<Rightarrow> Finish Panicked)))))))))))))"

section \<open>Documented behaviour of the library\<close>

text \<open>The steps of an exchange up to the authenticator of the client, called in order and without a
  network: the states of server and client, and the authenticator.\<close>

definition pake_exchange ::
  "('s, 'c, 'pt, 'sc) pake \<Rightarrow> pake_draws \<Rightarrow> pake_draws \<Rightarrow> bytes \<Rightarrow> bytes \<Rightarrow> 's \<Rightarrow> 'c \<Rightarrow> bytes \<Rightarrow> bool" where
  "pake_exchange P dc ds pwc pws s c authenticator \<longleftrightarrow>
    (\<exists>salt0 params verifier hasher s0 c0 s1 c1 s2 c2 g x yc ys ci.
      register_alloc P USERNAME pws argon_cost_basic (pd_rand1 ds) = Ok (CmRegistration USERNAME salt0 params verifier)
      \<and> params \<noteq> [] \<and> cost_of_params params = Ok hasher
      \<and> server_begin P (pd_nonce ds) = (s0, SmNonce (pd_nonce ds))
      \<and> client_begin P (pd_nonce dc) = (c0, CmNonce (pd_nonce dc))
      \<and> generate_client_info P (server_agree_ssid P s0 (pd_nonce dc)) USERNAME (pseudo_lookup (verifier, salt0, params)) (pd_rand2 ds)
          = (s1, SmAugmentationInfo g x salt0 params)
      \<and> generate_cpace P (fst (start_augmentation P (client_agree_ssid P c0 (pd_nonce ds)) USERNAME pwc)) x salt0 hasher = Ok c1
      \<and> ci = nonce_combine (pd_tls_nonce ds) (pd_tls_nonce dc)
      \<and> server_public_key P s1 ci = (s2, SmPublicKey ys)
      \<and> client_public_key P c1 ci (pd_rand1 dc) = (c2, CmPublicKey yc)
      \<and> receive_client_pubkey P s2 yc = Ok s
      \<and> receive_server_pubkey P c2 ys = Ok (c, CmAuthenticator authenticator))"

text \<open>An exchange always comes that far; the server accepts the authenticator exactly when the passwords
  are the same, and then the client accepts the answer with the same key. (Up to the
  negligible probability with which the cryptography fails.)\<close>

definition pake_ok :: "('s, 'c, 'pt, 'sc) pake \<Rightarrow> bool" where
  "pake_ok P \<longleftrightarrow> (\<forall>dc ds pwc pws. \<exists>s c a. pake_exchange P dc ds pwc pws s c a
    \<and> (if pwc = pws
       then \<exists>key a'. receive_client_authenticator P s a = Ok (key, SmAuthenticator a') \<and> receive_server_authenticator P c a' = Ok key
       else \<exists>e. receive_client_authenticator P s a = Err e))"

definition pake_codecs_ok :: "'pt pake_codecs \<Rightarrow> bool" where
  "pake_codecs_ok K \<longleftrightarrow> codec_total (nonce_codec K) \<and> codec_total (client_info_codec K) \<and> codec_total (public_key_codec K)
    \<and> codec_total (authenticator_codec K) \<and> codec_total (authenticator_result_codec K)"

section \<open>Client and server together\<close>

text \<open>What the codecs write.\<close>

definition pake_encoders where
  "pake_encoders K en ei ep ea er \<longleftrightarrow>
    (\<forall>x. encode (nonce_codec K) x = Ok (en x)) \<and> (\<forall>x. decode (nonce_codec K) (en x) = Ok x)
    \<and> (\<forall>x. encode (client_info_codec K) x = Ok (ei x)) \<and> (\<forall>x. decode (client_info_codec K) (ei x) = Ok x)
    \<and> (\<forall>x. encode (public_key_codec K) x = Ok (ep x)) \<and> (\<forall>x. decode (public_key_codec K) (ep x) = Ok x)
    \<and> (\<forall>x. encode (authenticator_codec K) x = Ok (ea x)) \<and> (\<forall>x. decode (authenticator_codec K) (ea x) = Ok x)
    \<and> (\<forall>x. encode (authenticator_result_codec K) x = Ok (er x)) \<and> (\<forall>x. decode (authenticator_result_codec K) (er x) = Ok x)"

lemma pake_codecsE:
  assumes "pake_codecs_ok K"
  obtains en ei ep ea er where "pake_encoders K en ei ep ea er"
  using that assms codec_total_enc [of "nonce_codec K"] codec_total_enc [of "client_info_codec K"]
    codec_total_enc [of "public_key_codec K"] codec_total_enc [of "authenticator_codec K"]
    codec_total_enc [of "authenticator_result_codec K"]
  unfolding pake_codecs_ok_def pake_encoders_def by blast

lemma pake_exchangeE:
  assumes "pake_exchange P dc ds pwc pws s c authenticator"
  obtains salt0 params verifier hasher s0 c0 s1 c1 s2 c2 g x yc ys where
    "register_alloc P USERNAME pws argon_cost_basic (pd_rand1 ds) = Ok (CmRegistration USERNAME salt0 params verifier)"
    "params \<noteq> []" "cost_of_params params = Ok hasher"
    "server_begin P (pd_nonce ds) = (s0, SmNonce (pd_nonce ds))"
    "client_begin P (pd_nonce dc) = (c0, CmNonce (pd_nonce dc))"
    "generate_client_info P (server_agree_ssid P s0 (pd_nonce dc)) USERNAME (pseudo_lookup (verifier, salt0, params)) (pd_rand2 ds)
        = (s1, SmAugmentationInfo g x salt0 params)"
    "generate_cpace P (fst (start_augmentation P (client_agree_ssid P c0 (pd_nonce ds)) USERNAME pwc)) x salt0 hasher = Ok c1"
    "server_public_key P s1 (nonce_combine (pd_tls_nonce ds) (pd_tls_nonce dc)) = (s2, SmPublicKey ys)"
    "client_public_key P c1 (nonce_combine (pd_tls_nonce ds) (pd_tls_nonce dc)) (pd_rand1 dc) = (c2, CmPublicKey yc)"
    "receive_client_pubkey P s2 yc = Ok s"
    "receive_server_pubkey P c2 ys = Ok (c, CmAuthenticator authenticator)"
  using assms unfolding pake_exchange_def by blast

text \<open>One step of either side.\<close>

lemmas pake_steps = left_put right_put left_get right_get

definition tunnel_side :: "tls_libs \<Rightarrow> tls_role \<Rightarrow> temp_draws \<Rightarrow> credential \<Rightarrow> credential \<Rightarrow> handshake" where
  "tunnel_side L role d own other = \<lparr> hs_role = role, hs_credential = own, hs_verify = (\<lambda>end_entity.
     verify_cert (lib_crypto L) (exact_verifier (cred_certificate other)) end_entity (td_verify_time d)) \<rparr>"

lemma tunnel_opens:
  fixes P :: "('s, 'c, 'pt, 'sc) pake"
  assumes "pake_codecs_ok K" "tls_libs_ok L"
    and x: "pake_exchange P dc ds pwc pws s c a"
    and key: "receive_client_authenticator P s a = Ok (key, SmAuthenticator a')" "receive_server_authenticator P c a' = Ok key"
    and temp: "temp_ready L (pd_temp dc) (td_verify_time (pd_temp ds)) (EncryptionKey (key_to_array key)) cred b"
      "temp_ready L (pd_temp ds) (td_verify_time (pd_temp dc)) (EncryptionKey (key_to_array key)) cred' b'"
    and h: "h = tunnel_side L TlsClientRole (pd_temp dc) cred cred'" "h' = tunnel_side L TlsServerRole (pd_temp ds) cred' cred"
    and cont: "net_runs X (net_of (f (cred_certificate cred', channel_to (X h h') h'))
        (f' (cred_certificate cred, channel_to (X h h') h)) [] []) e"
  shows "net_runs X (net_of (then_script (map_err_script E (aucpace_client P L K dc pwc)) f)
      (then_script (map_err_script E' (aucpace_server P L K ds pws)) f') [] []) e"
proof -
  from pake_codecsE [OF assms(1)] obtain en ei ep ea er where "pake_encoders K en ei ep ea er" .
  note k = this [unfolded pake_encoders_def]
  have tunnel: "net_runs X (net_of (then_script (map_err_script F (tls_client_preshared L (pd_temp dc) (EncryptionKey (key_to_array key)))) f)
      (then_script (map_err_script F' (tls_server_preshared L (pd_temp ds) (EncryptionKey (key_to_array key)))) f') [] []) e" for F F'
    using assms(2) temp h [unfolded tunnel_side_def] cont by (rule preshared_connect)
  from x show ?thesis
  proof (cases rule: pake_exchangeE)
    case e: (1 salt0 params verifier hasher s0 c0 s1 c1 s2 c2 g u yc ys)
    show ?thesis
      unfolding aucpace_client_def aucpace_server_def pseudo_registration_def Let_def
      by (simp add: e key | rule tunnel | rule pake_steps, simp add: k)+
  qed
qed

lemma tunnel_refused:
  fixes P :: "('s, 'c, 'pt, 'sc) pake"
  assumes "pake_codecs_ok K" "pake_exchange P dc ds pwc pws s c a" "receive_client_authenticator P s a = Err err"
    and cont: "net_runs X (net_of (Finish (Err (E ApWrongPassword))) (Finish (Err (E' (ApAuthenticationFailed err)))) [] []) e"
  shows "net_runs X (net_of (then_script (map_err_script E (aucpace_client P L K dc pwc)) f)
      (then_script (map_err_script E' (aucpace_server P L K ds pws)) f') [] []) e"
proof -
  from pake_codecsE [OF assms(1)] obtain en ei ep ea er where "pake_encoders K en ei ep ea er" .
  note k = this [unfolded pake_encoders_def]
  from assms(2) show ?thesis
  proof (cases rule: pake_exchangeE)
    case e: (1 salt0 params verifier hasher s0 c0 s1 c1 s2 c2 g u yc ys)
    show ?thesis
      unfolding aucpace_client_def aucpace_server_def pseudo_registration_def Let_def
      by (simp add: e assms(3) | rule cont | rule pake_steps, simp add: k)+
  qed
qed

section \<open>A sample of the library\<close>

definition sample_pake :: "(bytes, bytes, bytes, unit) pake" where
  "sample_pake = \<lparr>
     server_begin = (\<lambda>n. ([], SmNonce n)),
     server_agree_ssid = (\<lambda>s n. s),
     generate_client_info = (\<lambda>s u db r. case db u of
         Some (v, salt0, params) \<Rightarrow> (v, SmAugmentationInfo [] [] salt0 params)
       | None \<Rightarrow> (s, SmNonce [])),
     generate_client_info_strong = (\<lambda>s u b db r. case db u of
         Some (v, _, params) \<Rightarrow> Ok (v, SmStrongAugmentationInfo [] [] [] params)
       | None \<Rightarrow> Ok (s, SmStrongAugmentationInfo [] [] [] [])),
     server_public_key = (\<lambda>s ci. (s, SmPublicKey [])),
     receive_client_pubkey = (\<lambda>s y. Ok (if y = s then [] else [1])),
     receive_client_authenticator = (\<lambda>s a. if s = [] then Ok (replicate 64 0, SmAuthenticator (replicate 64 0)) else Err ''mismatch''),
     client_begin = (\<lambda>n. ([], CmNonce n)),
     client_agree_ssid = (\<lambda>c n. c),
     register_alloc = (\<lambda>u pw cost r. Ok (CmRegistration u [] (params_of_cost cost) pw)),
     start_augmentation = (\<lambda>c u pw. (pw, CmUsername u)),
     start_augmentation_strong = (\<lambda>c u pw r. (pw, CmStrongUsername u [])),
     generate_cpace = (\<lambda>c x salt0 h. Ok c),
     generate_cpace_strong = (\<lambda>c x b h. Ok c),
     client_public_key = (\<lambda>c ci r. (c, CmPublicKey c)),
     receive_server_pubkey = (\<lambda>c y. Ok (c, CmAuthenticator (replicate 64 0))),
     receive_server_authenticator = (\<lambda>c a. Ok (replicate 64 0)) \<rparr>"

lemma sample_pake_ok: "pake_ok sample_pake"
  by (auto simp: pake_ok_def pake_exchange_def sample_pake_def pseudo_lookup_def) (simp_all add: params_of_cost_def)

definition sample_pake_codecs :: "bytes pake_codecs" where
  "sample_pake_codecs = \<lparr> nonce_codec = sample_codec,
     client_info_codec = unary_codec (\<lambda>i. (ci_group i, ci_x_pub i, ci_salt i, ci_hash_params i))
       (\<lambda>(g, x, s, h). \<lparr> ci_group = g, ci_x_pub = x, ci_salt = s, ci_hash_params = h \<rparr>),
     public_key_codec = sample_codec, authenticator_codec = sample_codec,
     authenticator_result_codec = unary_codec id id \<rparr>"

lemma sample_pake_codecs_ok: "pake_codecs_ok sample_pake_codecs"
  by (simp add: pake_codecs_ok_def sample_pake_codecs_def unary_codec_total) (simp add: codec_total_def sample_codec_def)

section \<open>Properties\<close>

text \<open>C28. Two sides that run the exchange over a network in any order end in the same way. If the passwords
  are equal, both have a TLS tunnel to the temporary certificate of the other one and export
  the same key material; if not, the client is told that the password is wrong and the server
  has an authentication failure, and no tunnel is opened.\<close>

theorem tunnel_needs_password:
  fixes P :: "('s, 'c, 'pt, 'sc) pake"
  assumes "pake_ok P" "pake_codecs_ok K" "tls_libs_ok L"
    "\<forall>key. \<exists>b. temp_ready L (pd_temp dc) (td_verify_time (pd_temp ds)) key cred b"
    "\<forall>key. \<exists>b. temp_ready L (pd_temp ds) (td_verify_time (pd_temp dc)) key cred' b"
  shows "\<exists>l r. (\<forall>n. net_runs X (net_of (aucpace_client P L K dc pwc) (aucpace_server P L K ds pws) [] []) n
        \<longrightarrow> net_runs X n (net_of (Finish l) (Finish r) [] []))
    \<and> (if pwc = pws
       then \<exists>ch ch'. l = Ok (cred_certificate cred', ch) \<and> r = Ok (cred_certificate cred, ch')
         \<and> export_keying_material ch = export_keying_material ch'
       else l = Err ApWrongPassword \<and> (\<exists>e. r = Err (ApAuthenticationFailed e)))"
proof -
  let ?start = "net_of (aucpace_client P L K dc pwc) (aucpace_server P L K ds pws) [] []"
  obtain s c a where x: "pake_exchange P dc ds pwc pws s c a"
    and auth: "if pwc = pws
       then \<exists>key a'. receive_client_authenticator P s a = Ok (key, SmAuthenticator a') \<and> receive_server_authenticator P c a' = Ok key
       else \<exists>e. receive_client_authenticator P s a = Err e"
    using assms(1) unfolding pake_ok_def by blast
  note shape = map_err_script_id then_script_Ok
  have "\<exists>l r. net_runs X ?start (net_of (Finish l) (Finish r) [] [])
    \<and> (if pwc = pws
       then \<exists>ch ch'. l = Ok (cred_certificate cred', ch) \<and> r = Ok (cred_certificate cred, ch')
         \<and> export_keying_material ch = export_keying_material ch'
       else l = Err ApWrongPassword \<and> (\<exists>e. r = Err (ApAuthenticationFailed e)))"
  proof (cases "pwc = pws")
    case True
    then obtain key a' where k: "receive_client_authenticator P s a = Ok (key, SmAuthenticator a')"
        "receive_server_authenticator P c a' = Ok key" using auth by auto
    obtain b b' where t: "temp_ready L (pd_temp dc) (td_verify_time (pd_temp ds)) (EncryptionKey (key_to_array key)) cred b"
        "temp_ready L (pd_temp ds) (td_verify_time (pd_temp dc)) (EncryptionKey (key_to_array key)) cred' b'"
      using assms(4,5) by blast
    note run = tunnel_opens [OF assms(2,3) x k t refl refl, where f = "\<lambda>x. Finish (Ok x)" and f' = "\<lambda>x. Finish (Ok x)"
        and E = "\<lambda>e. e" and E' = "\<lambda>e. e", unfolded shape, OF rtranclp.rtrancl_refl]
    show ?thesis by (rule exI, rule exI, rule conjI, rule run) (simp add: True channel_to_def)
  next
    case False
    then obtain e where e: "receive_client_authenticator P s a = Err e" using auth by auto
    note run = tunnel_refused [OF assms(2) x e, where f = "\<lambda>x. Finish (Ok x)" and f' = "\<lambda>x. Finish (Ok x)"
        and E = "\<lambda>e. e" and E' = "\<lambda>e. e", unfolded shape, OF rtranclp.rtrancl_refl]
    show ?thesis by (rule exI, rule exI, rule conjI, rule run) (simp add: False)
  qed
  then obtain l r where run: "net_runs X ?start (net_of (Finish l) (Finish r) [] [])"
    and result: "if pwc = pws
       then \<exists>ch ch'. l = Ok (cred_certificate cred', ch) \<and> r = Ok (cred_certificate cred, ch')
         \<and> export_keying_material ch = export_keying_material ch'
       else l = Err ApWrongPassword \<and> (\<exists>e. r = Err (ApAuthenticationFailed e))" by blast
  have "\<forall>n. net_runs X ?start n \<longrightarrow> net_runs X n (net_of (Finish l) (Finish r) [] [])"
    using net_confluent [OF run _ net_finished] by blast
  with result show ?thesis by blast
qed

theorem tunnel_needs_password_witness:
  "\<exists>ch ch'. net_runs (\<lambda>_ _ _ _. Ok [])
      (net_of
        (aucpace_client sample_pake sample_tls_libs sample_pake_codecs
          \<lparr> pd_nonce = [1], pd_rand1 = [], pd_rand2 = [], pd_tls_nonce = [2], pd_temp = sample_temp_draws 1 \<rparr> [4, 2])
        (aucpace_server sample_pake sample_tls_libs sample_pake_codecs
          \<lparr> pd_nonce = [3], pd_rand1 = [], pd_rand2 = [], pd_tls_nonce = [4], pd_temp = sample_temp_draws 2 \<rparr> [4, 2]) [] [])
      (net_of (Finish (Ok (cred_certificate (sample_temp_credential 2), ch)))
        (Finish (Ok (cred_certificate (sample_temp_credential 1), ch'))) [] [])"
proof -
  let ?dc = "\<lparr> pd_nonce = [1], pd_rand1 = [], pd_rand2 = [], pd_tls_nonce = [2], pd_temp = sample_temp_draws 1 \<rparr>"
    and ?ds = "\<lparr> pd_nonce = [3], pd_rand1 = [], pd_rand2 = [], pd_tls_nonce = [4], pd_temp = sample_temp_draws 2 \<rparr>"
  have "td_verify_time (sample_temp_draws k) = 1" for k by (simp add: sample_temp_draws_def)
  then have "\<forall>key. \<exists>b. temp_ready sample_tls_libs (pd_temp ?dc) (td_verify_time (pd_temp ?ds)) key (sample_temp_credential 1) b"
    "\<forall>key. \<exists>b. temp_ready sample_tls_libs (pd_temp ?ds) (td_verify_time (pd_temp ?dc)) key (sample_temp_credential 2) b"
    using sample_temp_ready by simp_all
  from tunnel_needs_password [OF sample_pake_ok sample_pake_codecs_ok sample_tls_libs_ok this,
      of "\<lambda>_ _ _ _. Ok []" "[4, 2]" "[4, 2]"]
  show ?thesis by auto
qed

end
