(* ===== verification/MessageStore.thy ===== *)
theory MessageStore
  imports MlsServer TransactionStore
begin

text \<open>
  The mailboxes of the server: the tables that keep a message until every receiver has
  acknowledged it, the task that hands new messages to connected receivers
  (\<^verbatim>\<open>svalin_store/src/server_store/message_store.rs\<close>), the task that streams them
  (\<^verbatim>\<open>svalin/src/message_streaming/with_client.rs\<close>) and the handler that fills the mailboxes
  (\<^verbatim>\<open>svalin/src/message_streaming/server.rs\<close>). The schema is \<^verbatim>\<open>20260310234800_mls_messages.sql\<close>. Rows
  are lists in order of insertion; the automatic key of the second table is not kept. The
  capacity of the channels is not modelled.
\<close>

section \<open>The tables\<close>

type_synonym uuid = nat

record message_row =
  row_id :: uuid
  row_data :: bytes
  row_received_at :: int

record receiver_row =
  rr_message :: uuid
  rr_spki :: bytes

record message_db =
  mls_messages :: "message_row list"
  mls_message_receivers :: "receiver_row list"

text \<open>\<^verbatim>\<open>ORDER BY received_at\<close> leaves the order of rows with equal times open: the query engine is a
  parameter that returns the selected rows in some order that is sorted by time.\<close>

type_synonym sql_order = "message_row list \<Rightarrow> message_row list"

definition sql_order_ok :: "sql_order \<Rightarrow> bool" where
  "sql_order_ok order_by \<longleftrightarrow>
    (\<forall>rows. mset (order_by rows) = mset rows \<and> sorted (map row_received_at (order_by rows)))"

datatype message_store_error = MsDb sqlx_error | MsPostcard string

definition insert_rows :: "message_row \<Rightarrow> spki_hash list \<Rightarrow> message_db \<Rightarrow> message_db" where
  "insert_rows row hashes db = db \<lparr>
     mls_messages := mls_messages db @ [row],
     mls_message_receivers := mls_message_receivers db
       @ map (\<lambda>r. \<lparr> rr_message = row_id row, rr_spki = spki_bytes r \<rparr>) hashes \<rparr>"

text \<open>The transaction of \<^verbatim>\<open>add_message\<close>: a failure leaves the tables as they were.\<close>

definition insert_message ::
  "message_to_member_transport codec \<Rightarrow> uuid \<Rightarrow> u64 \<Rightarrow> message_to_send \<Rightarrow> message_db
    \<Rightarrow> (unit, message_store_error) result \<times> message_db" where
  "insert_message P message_id now message db =
    (case encode P (message_of message) of
       Err e \<Rightarrow> (Err (MsPostcard e), db)
     | Panicked \<Rightarrow> (Panicked, db)
     | Ok data \<Rightarrow>
        if message_id \<in> row_id ` set (mls_messages db) then (Err (MsDb UniqueViolation), db)
        else (Ok (), insert_rows \<lparr> row_id = message_id, row_data = data, row_received_at = as_i64 now \<rparr>
            (receivers_of message) db))"

text \<open>The join: a message row for every receiver row that refers to it.\<close>

definition selected_rows :: "message_db \<Rightarrow> spki_hash \<Rightarrow> message_row list" where
  "selected_rows db receiver =
    [m. r \<leftarrow> mls_message_receivers db, rr_spki r = spki_bytes receiver,
        m \<leftarrow> mls_messages db, row_id m = rr_message r]"

definition decode_row ::
  "message_to_member_transport codec \<Rightarrow> message_row
    \<Rightarrow> (uuid \<times> message_to_member_transport, message_store_error) result" where
  "decode_row P row = map_ok (Pair (row_id row)) (map_err MsPostcard (decode P (row_data row)))"

definition load_all_for ::
  "message_to_member_transport codec \<Rightarrow> sql_order \<Rightarrow> message_db \<Rightarrow> spki_hash
    \<Rightarrow> ((uuid \<times> message_to_member_transport) list, message_store_error) result" where
  "load_all_for P order_by db receiver =
    collect_results (map (decode_row P) (order_by (selected_rows db receiver)))"

definition aknowledge_single_message :: "spki_hash \<Rightarrow> uuid \<Rightarrow> message_db \<Rightarrow> message_db" where
  "aknowledge_single_message receiver message db =
    (let remaining = filter (\<lambda>r. \<not> (rr_message r = message \<and> rr_spki r = spki_bytes receiver))
           (mls_message_receivers db) in
     \<lparr> mls_messages = filter (\<lambda>m. \<not> (row_id m = message \<and> message \<notin> rr_message ` set remaining)) (mls_messages db),
       mls_message_receivers = remaining \<rparr>)"

definition aknowledge_messages :: "spki_hash \<Rightarrow> uuid list \<Rightarrow> message_db \<Rightarrow> message_db" where
  "aknowledge_messages receiver messages db = fold (aknowledge_single_message receiver) messages db"

section \<open>Subscriptions\<close>

text \<open>The channel of a subscriber: what it has not taken yet, and whether it still listens. The
  manager keeps the latest channel of every receiver and serves its requests one by one.\<close>

record subscription =
  sub_queue :: "(uuid \<times> message_to_member_transport) list"
  sub_closed :: bool

datatype subscription_request =
    Subscribe spki_hash nat
  | Distribute uuid message_to_send

record message_store =
  ms_db :: message_db
  ms_requests :: "subscription_request list"
  ms_subscribed :: "spki_hash \<rightharpoonup> nat"
  ms_channels :: "subscription list"

definition message_store_open :: "message_db \<Rightarrow> message_store" where
  "message_store_open db = \<lparr> ms_db = db, ms_requests = [], ms_subscribed = Map.empty, ms_channels = [] \<rparr>"

definition deliver ::
  "uuid \<Rightarrow> message_to_member_transport \<Rightarrow> spki_hash \<Rightarrow> message_store \<Rightarrow> message_store" where
  "deliver message_id package receiver self =
    (case ms_subscribed self receiver of
       None \<Rightarrow> self
     | Some ch \<Rightarrow>
        if sub_closed (ms_channels self ! ch)
        then self \<lparr> ms_subscribed := (ms_subscribed self)(receiver := None) \<rparr>
        else self \<lparr> ms_channels := (ms_channels self)[ch :=
               (ms_channels self ! ch) \<lparr> sub_queue := sub_queue (ms_channels self ! ch) @ [(message_id, package)] \<rparr>] \<rparr>)"

fun handle_request :: "subscription_request \<Rightarrow> message_store \<Rightarrow> message_store" where
  "handle_request (Subscribe receiver ch) self =
    self \<lparr> ms_subscribed := (ms_subscribed self)(receiver \<mapsto> ch) \<rparr>"
| "handle_request (Distribute message_id message) self =
    fold (deliver message_id (message_of message)) (receivers_of message) self"

text \<open>The manager takes the next request.\<close>

definition manager_step :: "message_store \<Rightarrow> message_store" where
  "manager_step self =
    (case ms_requests self of
       [] \<Rightarrow> self
     | request # rest \<Rightarrow> handle_request request (self \<lparr> ms_requests := rest \<rparr>))"

definition add_message ::
  "message_to_member_transport codec \<Rightarrow> uuid \<Rightarrow> u64 \<Rightarrow> message_to_send \<Rightarrow> message_store
    \<Rightarrow> (unit, message_store_error) result \<times> message_store" where
  "add_message P message_id now message self =
    (case insert_message P message_id now message (ms_db self) of (r, db) \<Rightarrow>
     bind_st (r, self \<lparr> ms_db := db \<rparr>) (\<lambda>_ self.
     (Ok (), self \<lparr> ms_requests := ms_requests self @ [Distribute message_id message] \<rparr>)))"

text \<open>The new channel is the last one.\<close>

definition message_subscribe :: "spki_hash \<Rightarrow> message_store \<Rightarrow> nat \<times> message_store" where
  "message_subscribe receiver self =
    (length (ms_channels self),
     self \<lparr> ms_channels := ms_channels self @ [\<lparr> sub_queue = [], sub_closed = False \<rparr>],
            ms_requests := ms_requests self @ [Subscribe receiver (length (ms_channels self))] \<rparr>)"

section \<open>Streaming\<close>

text \<open>What comes back for a message that was sent to the receiver: it accepted it, it reported an
  error, or the connection ended.\<close>

datatype feedback = Accepted | Refused | ConnectionLost

text \<open>The loop over the messages that were waiting, with the receiver as a machine.\<close>

fun stream_current ::
  "('p \<Rightarrow> message_to_member_transport \<Rightarrow> feedback \<times> 'p) \<Rightarrow> spki_hash \<Rightarrow> (uuid \<times> message_to_member_transport) list
    \<Rightarrow> message_db \<times> 'p \<Rightarrow> (unit, feedback) result \<times> message_db \<times> 'p" where
  "stream_current peer receiver [] st = (Ok (), st)"
| "stream_current peer receiver ((i, m) # rest) (db, p) =
    (case peer p m of
       (Accepted, p) \<Rightarrow> stream_current peer receiver rest (aknowledge_single_message receiver i db, p)
     | (answer, p) \<Rightarrow> (Err answer, db, p))"

text \<open>The whole task, as it interleaves with others: it loads, subscribes, sends what it loaded,
  and goes on with what arrives.\<close>

datatype stream_phase =
    NotStarted
  | Loaded "(uuid \<times> message_to_member_transport) list"
  | Replaying nat "(uuid \<times> message_to_member_transport) list"
  | Live nat
  | StreamEnded

record streaming =
  st_store :: message_store
  st_phase :: stream_phase
  st_adding :: "(uuid \<times> message_to_send) list"
  st_sent :: "(uuid \<times> message_to_member_transport) list"
  st_accepted :: "uuid set"
  st_posted :: "(uuid \<times> message_to_member_transport) set"

definition close_channel :: "nat \<Rightarrow> message_store \<Rightarrow> message_store" where
  "close_channel ch self =
    self \<lparr> ms_channels := (ms_channels self)[ch := (ms_channels self ! ch) \<lparr> sub_closed := True \<rparr>] \<rparr>"

definition take_queue :: "nat \<Rightarrow> message_store \<Rightarrow> message_store" where
  "take_queue ch self =
    self \<lparr> ms_channels := (ms_channels self)[ch :=
      (ms_channels self ! ch) \<lparr> sub_queue := tl (sub_queue (ms_channels self ! ch)) \<rparr>] \<rparr>"

abbreviation on_db :: "(message_db \<Rightarrow> message_db) \<Rightarrow> message_store \<Rightarrow> message_store" where
  "on_db f self \<equiv> self \<lparr> ms_db := f (ms_db self) \<rparr>"

text \<open>One step of the stream of \<^verbatim>\<open>h\<close> or of its surroundings. \<^verbatim>\<open>add_message\<close> takes two steps, the commit
  of its transaction and the request to distribute. The last three fields record what was
  sent to the receiver, what it accepted, and what was posted to it.\<close>

inductive stream_step ::
  "message_to_member_transport codec \<Rightarrow> sql_order \<Rightarrow> spki_hash \<Rightarrow> streaming \<Rightarrow> streaming \<Rightarrow> bool"
  for P order_by h where
  commit: "insert_message P i now m (ms_db (st_store s)) = (Ok (), db) \<Longrightarrow>
    i \<notin> fst ` st_posted s \<Longrightarrow> i \<notin> st_accepted s \<Longrightarrow>
    stream_step P order_by h s (s \<lparr> st_store := (st_store s) \<lparr> ms_db := db \<rparr>,
      st_adding := st_adding s @ [(i, m)],
      st_posted := st_posted s \<union> (if h \<in> set (receivers_of m) then {(i, message_of m)} else {}) \<rparr>)"
| distribute: "st_adding s = xs @ (i, m) # ys \<Longrightarrow>
    stream_step P order_by h s (s \<lparr> st_adding := xs @ ys, st_store := (st_store s)
      \<lparr> ms_requests := ms_requests (st_store s) @ [Distribute i m] \<rparr> \<rparr>)"
| manager: "stream_step P order_by h s (s \<lparr> st_store := manager_step (st_store s) \<rparr>)"
| other_ack: "h' \<noteq> h \<Longrightarrow>
    stream_step P order_by h s (s \<lparr> st_store := on_db (aknowledge_single_message h' i) (st_store s) \<rparr>)"
| other_subscribe: "h' \<noteq> h \<Longrightarrow>
    stream_step P order_by h s (s \<lparr> st_store := snd (message_subscribe h' (st_store s)) \<rparr>)"
| load: "st_phase s = NotStarted \<Longrightarrow> load_all_for P order_by (ms_db (st_store s)) h = Ok current \<Longrightarrow>
    stream_step P order_by h s (s \<lparr> st_phase := Loaded current \<rparr>)"
| load_failed: "st_phase s = NotStarted \<Longrightarrow> load_all_for P order_by (ms_db (st_store s)) h = Err e \<Longrightarrow>
    stream_step P order_by h s (s \<lparr> st_phase := StreamEnded \<rparr>)"
| subscribe: "st_phase s = Loaded current \<Longrightarrow> message_subscribe h (st_store s) = (ch, ms) \<Longrightarrow>
    stream_step P order_by h s (s \<lparr> st_phase := Replaying ch current, st_store := ms \<rparr>)"
| replay: "st_phase s = Replaying ch ((i, m) # rest) \<Longrightarrow>
    stream_step P order_by h s (s \<lparr> st_phase := Replaying ch rest, st_sent := st_sent s @ [(i, m)],
      st_accepted := insert i (st_accepted s),
      st_store := on_db (aknowledge_single_message h i) (st_store s) \<rparr>)"
| replay_failed: "st_phase s = Replaying ch ((i, m) # rest) \<Longrightarrow>
    stream_step P order_by h s (s \<lparr> st_phase := StreamEnded, st_sent := st_sent s @ [(i, m)],
      st_store := close_channel ch (st_store s) \<rparr>)"
| replayed: "st_phase s = Replaying ch [] \<Longrightarrow> stream_step P order_by h s (s \<lparr> st_phase := Live ch \<rparr>)"
| live: "st_phase s = Live ch \<Longrightarrow> sub_queue (ms_channels (st_store s) ! ch) = (i, m) # rest \<Longrightarrow>
    stream_step P order_by h s (s \<lparr> st_sent := st_sent s @ [(i, m)], st_accepted := insert i (st_accepted s),
      st_store := on_db (aknowledge_single_message h i) (take_queue ch (st_store s)) \<rparr>)"
| live_failed: "st_phase s = Live ch \<Longrightarrow> sub_queue (ms_channels (st_store s) ! ch) = (i, m) # rest \<Longrightarrow>
    stream_step P order_by h s (s \<lparr> st_phase := StreamEnded, st_sent := st_sent s @ [(i, m)],
      st_store := close_channel ch (st_store s) \<rparr>)"
| reconnect: "st_phase s = StreamEnded \<Longrightarrow> stream_step P order_by h s (s \<lparr> st_phase := NotStarted \<rparr>)"

definition stream_start :: "message_db \<Rightarrow> streaming" where
  "stream_start db = \<lparr> st_store = message_store_open db, st_phase = NotStarted, st_adding = [],
     st_sent = [], st_accepted = {}, st_posted = {} \<rparr>"

definition stream_reachable ::
  "message_to_member_transport codec \<Rightarrow> sql_order \<Rightarrow> spki_hash \<Rightarrow> streaming \<Rightarrow> bool" where
  "stream_reachable P order_by h s \<longleftrightarrow>
    (stream_step P order_by h)\<^sup>*\<^sup>* (stream_start \<lparr> mls_messages = [], mls_message_receivers = [] \<rparr>) s"

section \<open>The handler of group messages\<close>

datatype mls_handler_error = HandlerMls server_mls_error | HandlerStore message_store_error

text \<open>\<^verbatim>\<open>new_v4\<close> gives the identifiers that the store draws, counted from \<^verbatim>\<open>n\<close>.\<close>

fun send_all ::
  "message_to_member_transport codec \<Rightarrow> (nat \<Rightarrow> uuid) \<Rightarrow> u64 \<Rightarrow> spki_hash \<Rightarrow> nat \<Rightarrow> message_to_send list \<Rightarrow> message_store
    \<Rightarrow> (unit, mls_handler_error) result \<times> message_store" where
  "send_all P new_v4 now sender n [] ms = (Ok (), ms)"
| "send_all P new_v4 now sender n (to_send # rest) ms =
    bind_st (map_err_st HandlerStore (add_message P (new_v4 n) now (remove_receiver to_send sender) ms))
      (\<lambda>_ ms. send_all P new_v4 now sender (Suc n) rest ms)"

definition mls_handle ::
  "('x, 'k, 'c, 'g, 't) public_mls \<Rightarrow> mls_env \<Rightarrow> message_to_member_transport codec \<Rightarrow> (nat \<Rightarrow> uuid) \<Rightarrow> certificate
    \<Rightarrow> message_to_server_transport \<Rightarrow> ('g, 't) public_processor \<times> message_store
    \<Rightarrow> (unit, mls_handler_error) result \<times> ('g, 't) public_processor \<times> message_store" where
  "mls_handle L E P new_v4 sender message self =
    (case self of (pp, ms) \<Rightarrow>
     (case process_message L E message pp of
        (Err e, pp) \<Rightarrow> (Err (HandlerMls e), pp, ms)
      | (Panicked, pp) \<Rightarrow> (Panicked, pp, ms)
      | (Ok messages_to_send, pp) \<Rightarrow>
         (case send_all P new_v4 (env_now E) (cert_spki sender) 0 messages_to_send ms of (r, ms) \<Rightarrow> (r, pp, ms))))"

section \<open>Mailboxes\<close>

text \<open>What the rest of the server relies on: every receiver has a mailbox, a list of messages.
  Putting a message appends it to the mailboxes of its receivers, acknowledging removes
  it from one.\<close>

locale mailbox =
  fixes inv :: "'s \<Rightarrow> bool"
    and used :: "'s \<Rightarrow> 'i set"
    and contents :: "'h \<Rightarrow> 's \<Rightarrow> 'm list"
    and ident :: "'m \<Rightarrow> 'i"
    and put :: "'m \<Rightarrow> 'h list \<Rightarrow> 's \<Rightarrow> 's"
    and ack :: "'h \<Rightarrow> 'i \<Rightarrow> 's \<Rightarrow> 's"
  assumes put_inv: "inv s \<Longrightarrow> ident m \<notin> used s \<Longrightarrow> inv (put m hs s)"
    and put_used: "used (put m hs s) = insert (ident m) (used s)"
    and put_contents: "inv s \<Longrightarrow> ident m \<notin> used s \<Longrightarrow>
      contents h (put m hs s) = contents h s @ replicate (count_list hs h) m"
    and ack_inv: "inv s \<Longrightarrow> inv (ack h i s)"
    and ack_used: "used (ack h i s) \<subseteq> used s"
    and ack_contents: "inv s \<Longrightarrow> contents h' (ack h i s) =
      (if h' = h then filter (\<lambda>m. ident m \<noteq> i) (contents h' s) else contents h' s)"
begin

lemma ack_all:
  "inv s \<Longrightarrow> inv (fold (ack h) is s) \<and> used (fold (ack h) is s) \<subseteq> used s
    \<and> contents h' (fold (ack h) is s) =
      (if h' = h then filter (\<lambda>m. ident m \<notin> set is) (contents h' s) else contents h' s)"
proof (induction "is" arbitrary: s)
  case (Cons i "is")
  have "inv (ack h i s)" using Cons.prems by (rule ack_inv)
  from Cons.IH [OF this] show ?case
    using ack_used [of h i s] ack_contents [OF Cons.prems, of h' h i] by auto
qed simp

lemma put_kept: "inv s \<Longrightarrow> ident m \<notin> used s \<Longrightarrow> x \<in> set (contents h s) \<Longrightarrow> x \<in> set (contents h (put m hs s))"
  by (simp add: put_contents)

lemma put_arrives: "inv s \<Longrightarrow> ident m \<notin> used s \<Longrightarrow> h \<in> set hs \<Longrightarrow> m \<in> set (contents h (put m hs s))"
  using count_list_0_iff [of hs h] by (simp add: put_contents)

lemma ack_kept:
  "inv s \<Longrightarrow> x \<in> set (contents h s) \<Longrightarrow> h' \<noteq> h \<or> ident x \<noteq> i \<Longrightarrow> x \<in> set (contents h (ack h' i s))"
  by (auto simp: ack_contents)

end

definition db_wf :: "message_db \<Rightarrow> bool" where
  "db_wf db \<longleftrightarrow> distinct (map row_id (mls_messages db))
    \<and> rr_message ` set (mls_message_receivers db) \<subseteq> row_id ` set (mls_messages db)"

abbreviation db_ids :: "message_db \<Rightarrow> uuid set" where
  "db_ids db \<equiv> row_id ` set (mls_messages db)"

abbreviation mailbox_rows :: "spki_hash \<Rightarrow> message_db \<Rightarrow> message_row list" where
  "mailbox_rows h db \<equiv> selected_rows db h"

lemma concat_if: "concat (map (\<lambda>x. if P x then f x else []) xs) = concat (map f (filter P xs))"
  by (induction xs) auto

lemma concat_singletons: "concat (map (\<lambda>x. if P x then [x] else []) xs) = filter P xs"
  by (induction xs) auto

lemma selected_rows_alt:
  "selected_rows db h = concat (map (\<lambda>r. filter (\<lambda>m. row_id m = rr_message r) (mls_messages db))
    (filter (\<lambda>r. rr_spki r = spki_bytes h) (mls_message_receivers db)))"
  by (simp add: selected_rows_def concat_if concat_singletons)

lemma selected_rows_insert:
  assumes "db_wf db" "row_id row \<notin> db_ids db"
  shows "selected_rows (insert_rows row hs db) h = selected_rows db h @ replicate (count_list hs h) row"
proof -
  let ?f = "\<lambda>ms r. filter (\<lambda>m. row_id m = rr_message r) ms"
  have "?f (mls_messages db @ [row]) r = ?f (mls_messages db) r"
    if "r \<in> set (mls_message_receivers db)" for r
    using that assms by (auto simp: db_wf_def)
  then have old: "concat (map (?f (mls_messages db @ [row])) (filter Q (mls_message_receivers db)))
      = concat (map (?f (mls_messages db)) (filter Q (mls_message_receivers db)))" for Q
    by (intro arg_cong [where f = concat] map_cong) auto
  have none: "?f (mls_messages db) \<lparr> rr_message = row_id row, rr_spki = b \<rparr> = []" for b
    using assms(2) by (auto simp: filter_empty_conv image_iff)
  have new: "concat (map (?f (mls_messages db @ [row])) (filter (\<lambda>r. rr_spki r = spki_bytes h)
      (map (\<lambda>r. \<lparr> rr_message = row_id row, rr_spki = spki_bytes r \<rparr>) hs))) = replicate (count_list hs h) row"
    using none by (induction hs) (auto simp: spki_bytes_eq_iff)
  show ?thesis
    using new old by (simp add: selected_rows_alt insert_rows_def del: filter_append)
      (simp add: old [symmetric] filter_append [of _ "mls_message_receivers db"] del: filter_append)
qed

text \<open>Acknowledging: the rows of other receivers, and the messages they refer to, stay.\<close>

lemma ack_rows_kept:
  assumes "r \<in> set (mls_message_receivers (aknowledge_single_message h i db))"
  shows "filter (\<lambda>m. row_id m = rr_message r) (mls_messages (aknowledge_single_message h i db))
    = filter (\<lambda>m. row_id m = rr_message r) (mls_messages db)"
  using assms by (auto simp: aknowledge_single_message_def Let_def intro!: filter_cong)

lemma selected_rows_ack:
  "selected_rows (aknowledge_single_message h i db) h' =
    (if h' = h then filter (\<lambda>m. row_id m \<noteq> i) (selected_rows db h') else selected_rows db h')"
proof -
  let ?f = "\<lambda>r. filter (\<lambda>m. row_id m = rr_message r) (mls_messages db)"
  let ?mine = "\<lambda>r. rr_spki r = spki_bytes h'"
  have step: "concat (map ?f (filter (\<lambda>r. h' = h \<longrightarrow> rr_message r \<noteq> i) rs)) =
      (if h' = h then filter (\<lambda>m. row_id m \<noteq> i) (concat (map ?f rs)) else concat (map ?f rs))" for rs
  proof (induction rs)
    case (Cons r rs)
    have "filter (\<lambda>m. row_id m \<noteq> i) (?f r) = (if rr_message r = i then [] else ?f r)"
      by (auto simp: filter_empty_conv intro!: filter_cong)
    then show ?case using Cons.IH by (cases "h' = h") simp_all
  qed simp
  have "selected_rows (aknowledge_single_message h i db) h' = concat (map ?f
      (filter ?mine (mls_message_receivers (aknowledge_single_message h i db))))"
    unfolding selected_rows_alt using ack_rows_kept [of _ h i db] by (intro arg_cong [where f = concat] map_cong) auto
  also have "filter ?mine (mls_message_receivers (aknowledge_single_message h i db)) =
      filter (\<lambda>r. h' = h \<longrightarrow> rr_message r \<noteq> i) (filter ?mine (mls_message_receivers db))"
    by (auto simp: aknowledge_single_message_def Let_def spki_bytes_eq_iff intro!: filter_cong)
  finally show ?thesis unfolding step selected_rows_alt .
qed

lemma ack_wf:
  assumes "db_wf db"
  shows "db_wf (aknowledge_single_message h i db)"
proof -
  let ?db = "aknowledge_single_message h i db"
  have "rr_message r \<in> db_ids ?db" if "r \<in> set (mls_message_receivers ?db)" for r
  proof -
    have "r \<in> set (mls_message_receivers db)" using that by (simp add: aknowledge_single_message_def Let_def)
    then obtain m where "m \<in> set (mls_messages db)" "row_id m = rr_message r"
      using assms by (auto simp: db_wf_def)
    then show ?thesis using that by (force simp: aknowledge_single_message_def Let_def)
  qed
  then show ?thesis
    using assms by (auto simp: db_wf_def aknowledge_single_message_def Let_def distinct_map inj_on_def)
qed

interpretation db: mailbox db_wf db_ids mailbox_rows row_id insert_rows aknowledge_single_message
proof unfold_locales
  fix db :: message_db and row hs h h' i
  show "db_ids (insert_rows row hs db) = insert (row_id row) (db_ids db)" by (simp add: insert_rows_def)
  show "db_ids (aknowledge_single_message h i db) \<subseteq> db_ids db"
    by (auto simp: aknowledge_single_message_def Let_def)
  assume wf: "db_wf db"
  show "db_wf (aknowledge_single_message h i db)"
    using wf by (rule ack_wf)
  show "mailbox_rows h' (aknowledge_single_message h i db) =
      (if h' = h then filter (\<lambda>m. row_id m \<noteq> i) (mailbox_rows h' db) else mailbox_rows h' db)"
    by (rule selected_rows_ack)
  assume new: "row_id row \<notin> db_ids db"
  show "db_wf (insert_rows row hs db)" using wf new by (auto simp: db_wf_def insert_rows_def)
  show "mailbox_rows h (insert_rows row hs db) = mailbox_rows h db @ replicate (count_list hs h) row"
    by (rule selected_rows_insert [OF wf new])
qed

section \<open>Lemmas\<close>

text \<open>What the mailbox of \<^verbatim>\<open>h\<close> holds, decoded.\<close>

definition mailbox_messages ::
  "message_to_member_transport codec \<Rightarrow> message_db \<Rightarrow> spki_hash \<Rightarrow> (uuid \<times> message_to_member_transport) set" where
  "mailbox_messages P db h = (\<lambda>row. (row_id row, the_ok (decode P (row_data row)))) ` set (selected_rows db h)"

definition mailbox_readable :: "message_to_member_transport codec \<Rightarrow> message_db \<Rightarrow> spki_hash \<Rightarrow> bool" where
  "mailbox_readable P db h \<longleftrightarrow> (\<forall>row \<in> set (selected_rows db h). is_ok (decode P (row_data row)))"

lemma insert_message_Ok_iff:
  "insert_message P i now m db = (Ok (), db') \<longleftrightarrow>
    (\<exists>data. encode P (message_of m) = Ok data \<and> i \<notin> db_ids db
      \<and> db' = insert_rows \<lparr> row_id = i, row_data = data, row_received_at = as_i64 now \<rparr> (receivers_of m) db)"
  by (cases "encode P (message_of m)") (auto simp: insert_message_def)

lemma insert_message_mailbox:
  assumes "codec_ok P" "db_wf db" "insert_message P i now m db = (Ok (), db')"
  shows "db_wf db'" "mailbox_readable P db h \<Longrightarrow> mailbox_readable P db' h"
    "mailbox_messages P db' h = mailbox_messages P db h \<union> (if h \<in> set (receivers_of m) then {(i, message_of m)} else {})"
proof -
  obtain data where d: "encode P (message_of m) = Ok data" "i \<notin> db_ids db"
      "db' = insert_rows \<lparr> row_id = i, row_data = data, row_received_at = as_i64 now \<rparr> (receivers_of m) db"
    using assms(3) unfolding insert_message_Ok_iff by blast
  have dec: "decode P data = Ok (message_of m)" using assms(1) d(1) by (simp add: codec_ok_def)
  have rows: "selected_rows db' h = selected_rows db h
      @ replicate (count_list (receivers_of m) h) \<lparr> row_id = i, row_data = data, row_received_at = as_i64 now \<rparr>" for h
    using db.put_contents [OF assms(2)] d(2,3) by simp
  show "db_wf db'" using db.put_inv [OF assms(2)] d(2,3) by simp
  show "mailbox_readable P db h \<Longrightarrow> mailbox_readable P db' h"
    using dec by (auto simp: mailbox_readable_def rows)
  show "mailbox_messages P db' h = mailbox_messages P db h \<union> (if h \<in> set (receivers_of m) then {(i, message_of m)} else {})"
    using dec count_list_0_iff [of "receivers_of m" h] by (auto simp: mailbox_messages_def rows)
qed

lemma image_Collect_filter: "{x \<in> f ` S. Q x} = f ` {y \<in> S. Q (f y)}"
  by blast

lemma ack_mailbox:
  assumes "db_wf db"
  shows "db_wf (aknowledge_single_message h' i db)"
    "mailbox_readable P db h \<Longrightarrow> mailbox_readable P (aknowledge_single_message h' i db) h"
    "mailbox_messages P (aknowledge_single_message h' i db) h =
      (if h = h' then {x \<in> mailbox_messages P db h. fst x \<noteq> i} else mailbox_messages P db h)"
proof -
  have rows: "set (selected_rows (aknowledge_single_message h' i db) h)
      = (if h = h' then {m \<in> set (selected_rows db h). row_id m \<noteq> i} else set (selected_rows db h))"
    unfolding selected_rows_ack by simp
  show "db_wf (aknowledge_single_message h' i db)" using assms by (rule db.ack_inv)
  show "mailbox_readable P db h \<Longrightarrow> mailbox_readable P (aknowledge_single_message h' i db) h"
    by (simp add: mailbox_readable_def rows)
  show "mailbox_messages P (aknowledge_single_message h' i db) h =
      (if h = h' then {x \<in> mailbox_messages P db h. fst x \<noteq> i} else mailbox_messages P db h)"
    using image_Collect_filter [where Q = "\<lambda>x. fst x \<noteq> i"
      and f = "\<lambda>row. (row_id row, the_ok (decode P (row_data row)))" and S = "set (selected_rows db h)"]
    unfolding mailbox_messages_def rows by (cases "h = h'") simp_all
qed

lemma load_all_for_mailbox:
  assumes "sql_order_ok order_by" "mailbox_readable P db h"
  shows "load_all_for P order_by db h = Ok (map (\<lambda>row. (row_id row, the_ok (decode P (row_data row))))
      (order_by (selected_rows db h)))"
    "set (order_by (selected_rows db h)) = set (selected_rows db h)"
proof -
  show eq: "set (order_by (selected_rows db h)) = set (selected_rows db h)"
    using assms(1) unfolding sql_order_ok_def by (metis set_mset_mset)
  have "is_ok (decode_row P row) \<and> the_ok (decode_row P row) = (row_id row, the_ok (decode P (row_data row)))"
    if "row \<in> set (order_by (selected_rows db h))" for row
    using that assms(2) eq by (auto simp: mailbox_readable_def decode_row_def is_ok_iff)
  then show "load_all_for P order_by db h = Ok (map (\<lambda>row. (row_id row, the_ok (decode P (row_data row))))
      (order_by (selected_rows db h)))"
    by (simp add: load_all_for_def collect_results_all_Ok)
qed

lemma deliver_db [simp]: "ms_db (deliver i m h self) = ms_db self"
  by (simp add: deliver_def split: option.splits)

lemma manager_step_db [simp]: "ms_db (manager_step self) = ms_db self"
proof -
  have "ms_db (fold (deliver i m) hs self) = ms_db self" for i m hs self
    by (induction hs arbitrary: self) simp_all
  then have "ms_db (handle_request r self) = ms_db self" for r self by (cases r) simp_all
  then show ?thesis by (simp add: manager_step_def split: list.splits)
qed

lemma stream_db [simp]:
  "ms_db (close_channel ch ms) = ms_db ms" "ms_db (take_queue ch ms) = ms_db ms"
  "ms_db (snd (message_subscribe h ms)) = ms_db ms"
  by (simp_all add: close_channel_def take_queue_def message_subscribe_def)

definition stream_inv :: "message_to_member_transport codec \<Rightarrow> spki_hash \<Rightarrow> streaming \<Rightarrow> bool" where
  "stream_inv P h s \<longleftrightarrow> db_wf (ms_db (st_store s)) \<and> mailbox_readable P (ms_db (st_store s)) h
    \<and> mailbox_messages P (ms_db (st_store s)) h = {x \<in> st_posted s. fst x \<notin> st_accepted s}
    \<and> st_accepted s \<subseteq> fst ` set (st_sent s)"

lemma stream_step_inv:
  assumes "stream_step P order_by h s s'" "codec_ok P" "stream_inv P h s"
  shows "stream_inv P h s'"
  using assms
proof (induction rule: stream_step.induct)
  case (commit i now m s db)
  then show ?case
    using insert_message_mailbox(1) [OF commit.prems(1) _ commit.hyps(1)]
      insert_message_mailbox(2,3) [OF commit.prems(1) _ commit.hyps(1), where h = h]
    by (auto simp: stream_inv_def)
next
  case (other_ack h' s i)
  then show ?case using ack_mailbox(1) [where h' = h' and i = i] ack_mailbox(2,3) [where h' = h' and i = i and P = P and h = h] by (auto simp: stream_inv_def)
next
  case (replay s ch i m rest)
  then show ?case using ack_mailbox(1) [where h' = h and i = i] ack_mailbox(2,3) [where h' = h and i = i and P = P and h = h]
    by (auto simp: stream_inv_def)
next
  case (live s ch i m rest)
  then show ?case using ack_mailbox(1) [where h' = h and i = i] ack_mailbox(2,3) [where h' = h and i = i and P = P and h = h]
    by (auto simp: stream_inv_def)
next
  case (subscribe s current ch ms)
  then show ?case using stream_db(3) [of h "st_store s"] by (auto simp: stream_inv_def)
qed (auto simp: stream_inv_def)

lemma stream_reachable_inv:
  assumes "codec_ok P" "stream_reachable P order_by h s"
  shows "stream_inv P h s"
proof -
  have "stream_inv P h (stream_start \<lparr> mls_messages = [], mls_message_receivers = [] \<rparr>)"
    by (simp add: stream_inv_def stream_start_def message_store_open_def db_wf_def mailbox_readable_def
        mailbox_messages_def selected_rows_def)
  with assms(2) show ?thesis
    unfolding stream_reachable_def by (induction rule: rtranclp_induct) (auto intro: stream_step_inv [OF _ assms(1)])
qed

lemma stream_reachable_step:
  "stream_reachable P order_by h s \<Longrightarrow> stream_step P order_by h s s' \<Longrightarrow> stream_reachable P order_by h s'"
  unfolding stream_reachable_def by (rule rtranclp.rtrancl_into_rtrancl)

lemma sql_order_Nil: "sql_order_ok order_by \<Longrightarrow> order_by [] = []"
  unfolding sql_order_ok_def by (metis mset_zero_iff)

lemma sql_order_single: "sql_order_ok order_by \<Longrightarrow> order_by [row] = [row]"
  unfolding sql_order_ok_def by (metis mset_single_iff mset.simps(1) mset.simps(2) add_mset_eq_single)

section \<open>Operations on mailboxes\<close>

text \<open>The specification: a mailbox is a list of messages with their times.\<close>

datatype mailbox_op = Post uuid u64 message_to_send | Acknowledge spki_hash "uuid list"

fun run_op :: "message_to_member_transport codec \<Rightarrow> mailbox_op \<Rightarrow> message_db \<Rightarrow> message_db" where
  "run_op P (Post i now m) db = snd (insert_message P i now m db)"
| "run_op P (Acknowledge h ids) db = aknowledge_messages h ids db"

fun spec_op ::
  "spki_hash \<Rightarrow> mailbox_op \<Rightarrow> (int \<times> uuid \<times> message_to_member_transport) list
    \<Rightarrow> (int \<times> uuid \<times> message_to_member_transport) list" where
  "spec_op h (Post i now m) xs = xs @ replicate (count_list (receivers_of m) h) (as_i64 now, i, message_of m)"
| "spec_op h (Acknowledge h' ids) xs = (if h' = h then filter (\<lambda>x. fst (snd x) \<notin> set ids) xs else xs)"

fun op_ids :: "mailbox_op \<Rightarrow> uuid list" where
  "op_ids (Post i now m) = [i]"
| "op_ids (Acknowledge h ids) = []"

fun op_encodable :: "message_to_member_transport codec \<Rightarrow> mailbox_op \<Rightarrow> bool" where
  "op_encodable P (Post i now m) = is_ok (encode P (message_of m))"
| "op_encodable P (Acknowledge h ids) = True"

definition row_entry ::
  "message_to_member_transport codec \<Rightarrow> message_row \<Rightarrow> int \<times> uuid \<times> message_to_member_transport" where
  "row_entry P row = (row_received_at row, row_id row, the_ok (decode P (row_data row)))"

lemma run_ops_refine:
  assumes "codec_ok P"
  shows "db_wf db \<Longrightarrow> mailbox_readable P db h \<Longrightarrow> distinct (concat (map op_ids ops))
    \<Longrightarrow> db_ids db \<inter> set (concat (map op_ids ops)) = {} \<Longrightarrow> \<forall>x \<in> set ops. op_encodable P x
    \<Longrightarrow> mailbox_readable P (fold (run_op P) ops db) h
      \<and> map (row_entry P) (selected_rows (fold (run_op P) ops db) h)
        = fold (spec_op h) ops (map (row_entry P) (selected_rows db h))"
proof (induction ops arbitrary: db)
  case (Cons x ops)
  show ?case
  proof (cases x)
    case (Post i now m)
    then obtain data where d: "encode P (message_of m) = Ok data" using Cons.prems(5) by (auto simp: is_ok_iff)
    let ?row = "\<lparr> row_id = i, row_data = data, row_received_at = as_i64 now \<rparr>"
    have new: "i \<notin> db_ids db" using Cons.prems(4) Post by auto
    have ins: "insert_message P i now m db = (Ok (), insert_rows ?row (receivers_of m) db)"
      unfolding insert_message_Ok_iff using d new by blast
    have "row_entry P ?row = (as_i64 now, i, message_of m)"
      using assms d by (simp add: row_entry_def codec_ok_def)
    moreover note db.put_used [of ?row "receivers_of m" db] db.put_contents [OF Cons.prems(1), of ?row]
      insert_message_mailbox(1) [OF assms Cons.prems(1) ins]
      insert_message_mailbox(2) [OF assms Cons.prems(1) ins Cons.prems(2)]
    ultimately show ?thesis
      using Cons.IH [of "insert_rows ?row (receivers_of m) db"] Cons.prems(3-5) Post ins new by auto
  next
    case (Acknowledge h' ids)
    have entries: "map (row_entry P) (filter (\<lambda>m. row_id m \<notin> set ids) rows)
        = filter (\<lambda>x. fst (snd x) \<notin> set ids) (map (row_entry P) rows)" for rows
      by (simp add: filter_map comp_def row_entry_def)
    let ?db = "aknowledge_messages h' ids db"
    have wf: "db_wf ?db" and ids: "db_ids ?db \<subseteq> db_ids db"
      and rows: "selected_rows ?db h =
        (if h = h' then filter (\<lambda>m. row_id m \<notin> set ids) (selected_rows db h) else selected_rows db h)"
      using db.ack_all [OF Cons.prems(1)] by (simp_all add: aknowledge_messages_def)
    have "mailbox_readable P ?db h"
      using Cons.prems(2) by (simp add: mailbox_readable_def rows)
    moreover have "db_ids ?db \<inter> set (concat (map op_ids ops)) = {}"
      using ids Cons.prems(4) Acknowledge by auto
    ultimately show ?thesis
      using Cons.IH [OF wf] Cons.prems(3,5) Acknowledge entries rows by simp
  qed
qed simp

text \<open>What the handler leaves in the mailboxes.\<close>

fun posted_messages ::
  "(nat \<Rightarrow> uuid) \<Rightarrow> spki_hash \<Rightarrow> spki_hash \<Rightarrow> nat \<Rightarrow> message_to_send list \<Rightarrow> (uuid \<times> message_to_member_transport) set" where
  "posted_messages new_v4 sender h n [] = {}"
| "posted_messages new_v4 sender h n (m # rest) =
    (if h \<in> set (receivers_of m) \<and> h \<noteq> sender then {(new_v4 n, message_of m)} else {})
    \<union> posted_messages new_v4 sender h (Suc n) rest"

lemma add_message_Ok_iff:
  "add_message P i now m ms = (Ok u, ms') \<longleftrightarrow>
    (\<exists>db. insert_message P i now m (ms_db ms) = (Ok (), db)
      \<and> ms' = ms \<lparr> ms_db := db, ms_requests := ms_requests ms @ [Distribute i m] \<rparr>)"
  by (cases "insert_message P i now m (ms_db ms)"; cases "fst (insert_message P i now m (ms_db ms))")
    (auto simp: add_message_def)

lemma insert_disjoint_sub: "A \<inter> N = {} \<Longrightarrow> M \<subseteq> N \<Longrightarrow> x \<notin> M \<Longrightarrow> insert x A \<inter> M = {}"
  by blast

lemma remove_receiver_sel:
  "message_of (remove_receiver m sender) = message_of m"
  "set (receivers_of (remove_receiver m sender)) = set (receivers_of m) - {sender}"
  by (auto simp: remove_receiver_def)

lemma add_message_mailbox:
  assumes "codec_ok P" "db_wf (ms_db ms)" "i \<notin> db_ids (ms_db ms)" "is_ok (encode P (message_of m))"
  shows "\<exists>ms'. add_message P i now m ms = (Ok (), ms') \<and> db_wf (ms_db ms')
    \<and> db_ids (ms_db ms') = insert i (db_ids (ms_db ms))
    \<and> (\<forall>h. mailbox_messages P (ms_db ms') h = mailbox_messages P (ms_db ms) h
        \<union> (if h \<in> set (receivers_of m) then {(i, message_of m)} else {}))"
proof -
  obtain data where d: "encode P (message_of m) = Ok data" using assms(4) by (auto simp: is_ok_iff)
  let ?row = "\<lparr> row_id = i, row_data = data, row_received_at = as_i64 now \<rparr>"
  let ?db = "insert_rows ?row (receivers_of m) (ms_db ms)"
  have ins: "insert_message P i now m (ms_db ms) = (Ok (), ?db)"
    unfolding insert_message_Ok_iff using d assms(3) by blast
  then have "add_message P i now m ms
      = (Ok (), ms \<lparr> ms_db := ?db, ms_requests := ms_requests ms @ [Distribute i m] \<rparr>)"
    unfolding add_message_Ok_iff by blast
  moreover have "db_ids ?db = insert i (db_ids (ms_db ms))" using db.put_used [of ?row] by simp
  moreover note insert_message_mailbox(1,3) [OF assms(1,2) ins]
  ultimately show ?thesis by (intro exI conjI) (assumption, simp_all)
qed

lemma send_all_Ok:
  assumes "codec_ok P" "inj new_v4"
  shows "db_wf (ms_db ms) \<Longrightarrow> db_ids (ms_db ms) \<inter> new_v4 ` {n..} = {} \<Longrightarrow>
    \<forall>m \<in> set msgs. is_ok (encode P (message_of m)) \<Longrightarrow>
    \<exists>ms'. send_all P new_v4 now sender n msgs ms = (Ok (), ms')
      \<and> (\<forall>h. mailbox_messages P (ms_db ms') h
          = mailbox_messages P (ms_db ms) h \<union> posted_messages new_v4 sender h n msgs)"
proof (induction msgs arbitrary: n ms)
  case (Cons m msgs)
  have new: "new_v4 n \<notin> db_ids (ms_db ms)" using Cons.prems(2) by (metis atLeast_iff disjoint_iff image_eqI order_refl)
  have enc: "is_ok (encode P (message_of (remove_receiver m sender)))"
    using Cons.prems(3) by (simp add: remove_receiver_sel)
  obtain ms1 where ms1: "add_message P (new_v4 n) now (remove_receiver m sender) ms = (Ok (), ms1)"
      "db_wf (ms_db ms1)" "db_ids (ms_db ms1) = insert (new_v4 n) (db_ids (ms_db ms))"
      "\<forall>h. mailbox_messages P (ms_db ms1) h = mailbox_messages P (ms_db ms) h
        \<union> (if h \<in> set (receivers_of (remove_receiver m sender)) then {(new_v4 n, message_of (remove_receiver m sender))} else {})"
    using add_message_mailbox [OF assms(1) Cons.prems(1) new enc] by blast
  have fresh: "new_v4 n \<notin> new_v4 ` {Suc n..}" using assms(2) by (simp add: inj_image_mem_iff)
  have "new_v4 ` {Suc n..} \<subseteq> new_v4 ` {n..}" by (intro image_mono) auto
  then have disj: "db_ids (ms_db ms1) \<inter> new_v4 ` {Suc n..} = {}"
    unfolding ms1(3) using fresh by (rule insert_disjoint_sub [OF Cons.prems(2)])
  have rest: "\<forall>m \<in> set msgs. is_ok (encode P (message_of m))" using Cons.prems(3) by simp
  obtain ms' where ms': "send_all P new_v4 now sender (Suc n) msgs ms1 = (Ok (), ms')"
      "\<forall>h. mailbox_messages P (ms_db ms') h
          = mailbox_messages P (ms_db ms1) h \<union> posted_messages new_v4 sender h (Suc n) msgs"
    using Cons.IH [OF ms1(2) disj rest] by blast
  have "send_all P new_v4 now sender n (m # msgs) ms = (Ok (), ms')"
    using ms1(1) ms'(1) by (simp add: map_err_st_def)
  with ms'(2) ms1(4) show ?case by (simp add: remove_receiver_sel Un_assoc)
qed simp

text \<open>Two runs of the stream with one message for \<^verbatim>\<open>h\<close>.\<close>

abbreviation empty_db :: message_db where
  "empty_db \<equiv> \<lparr> mls_messages = [], mls_message_receivers = [] \<rparr>"

abbreviation first_db :: "bytes \<Rightarrow> spki_hash \<Rightarrow> message_db" where
  "first_db data h \<equiv> insert_rows \<lparr> row_id = 1, row_data = data, row_received_at = as_i64 0 \<rparr> [h] empty_db"

lemma first_message:
  fixes m :: message_to_send
  assumes "codec_ok P" "sql_order_ok order_by" "encode P (message_of m) = Ok data" "receivers_of m = [h]"
  shows "stream_reachable P order_by h (stream_start empty_db)"
    "insert_message P 1 0 m empty_db = (Ok (), first_db data h)"
    "load_all_for P order_by empty_db h = Ok []"
    "load_all_for P order_by (first_db data h) h = Ok [(1, message_of m)]"
proof -
  show "stream_reachable P order_by h (stream_start empty_db)" by (simp add: stream_reachable_def)
  show "insert_message P 1 0 m empty_db = (Ok (), first_db data h)"
    unfolding insert_message_Ok_iff using assms(3,4) by simp
  show "load_all_for P order_by empty_db h = Ok []"
    using sql_order_Nil [OF assms(2)] by (simp add: load_all_for_def selected_rows_def)
  show "load_all_for P order_by (first_db data h) h = Ok [(1, message_of m)]"
    using sql_order_single [OF assms(2)] assms(1,3)
    by (simp add: load_all_for_def selected_rows_def insert_rows_def decode_row_def codec_ok_def)
qed

lemmas start = stream_start_def message_store_open_def

lemma stream_gap_run:
  fixes m :: message_to_send
  assumes "codec_ok P" "sql_order_ok order_by" "encode P (message_of m) = Ok data" "receivers_of m = [h]"
  shows "\<exists>s. stream_reachable P order_by h s \<and> st_phase s = Live 0
      \<and> sub_queue (ms_channels (st_store s) ! 0) = [] \<and> ms_requests (st_store s) = [] \<and> st_adding s = []
      \<and> (1, message_of m) \<in> st_posted s \<and> st_accepted s = {}"
proof -
  let ?ms = "\<lambda>rs sub chs. \<lparr> ms_db = first_db data h, ms_requests = rs, ms_subscribed = sub, ms_channels = chs \<rparr>"
  let ?s = "\<lambda>ms ph ad. \<lparr> st_store = ms, st_phase = ph, st_adding = ad,
      st_sent = [], st_accepted = {}, st_posted = {(1, message_of m)} \<rparr>"
  let ?ch = "\<lparr> sub_queue = [], sub_closed = False \<rparr>"
  note first = first_message [OF assms]
  have g0: "stream_reachable P order_by h (stream_start empty_db \<lparr> st_phase := Loaded [] \<rparr>)"
    using stream_reachable_step [OF first(1) stream_step.load] first(3) by (simp add: start)
  have g1: "stream_reachable P order_by h (?s (?ms [] Map.empty []) (Loaded []) [(1, m)])"
    using stream_reachable_step [OF g0 stream_step.commit [where i = 1 and now = 0 and m = m]] first(2) assms(4)
    by (simp add: start)
  have g2: "stream_reachable P order_by h (?s (?ms [Distribute 1 m] Map.empty []) (Loaded []) [])"
    using stream_reachable_step [OF g1 stream_step.distribute [where xs = "[]"]] by simp
  have g3: "stream_reachable P order_by h (?s (?ms [Distribute 1 m, Subscribe h 0] Map.empty [?ch]) (Replaying 0 []) [])"
    using stream_reachable_step [OF g2 stream_step.subscribe] by (simp add: message_subscribe_def)
  have g4: "stream_reachable P order_by h (?s (?ms [Subscribe h 0] Map.empty [?ch]) (Replaying 0 []) [])"
    using stream_reachable_step [OF g3 stream_step.manager] assms(4) by (simp add: manager_step_def deliver_def)
  have g5: "stream_reachable P order_by h (?s (?ms [] [h \<mapsto> 0] [?ch]) (Replaying 0 []) [])"
    using stream_reachable_step [OF g4 stream_step.manager] by (simp add: manager_step_def)
  have g6: "stream_reachable P order_by h (?s (?ms [] [h \<mapsto> 0] [?ch]) (Live 0) [])"
    using stream_reachable_step [OF g5 stream_step.replayed] by simp
  then show ?thesis by (intro exI [where x = "?s (?ms [] [h \<mapsto> 0] [?ch]) (Live 0) []"]) simp
qed

lemma stream_duplicate_run:
  fixes m :: message_to_send
  assumes "codec_ok P" "sql_order_ok order_by" "encode P (message_of m) = Ok data" "receivers_of m = [h]"
  shows "\<exists>s. stream_reachable P order_by h s \<and> st_sent s = [(1, message_of m), (1, message_of m)]"
proof -
  let ?ms = "\<lambda>rs sub chs. \<lparr> ms_db = first_db data h, ms_requests = rs, ms_subscribed = sub, ms_channels = chs \<rparr>"
  let ?s = "\<lambda>ms ph ad. \<lparr> st_store = ms, st_phase = ph, st_adding = ad,
      st_sent = [], st_accepted = {}, st_posted = {(1, message_of m)} \<rparr>"
  let ?ch = "\<lparr> sub_queue = [], sub_closed = False \<rparr>"
  note first = first_message [OF assms]
  let ?loaded = "[(1, message_of m)]"
  have d1: "stream_reachable P order_by h (?s (?ms [] Map.empty []) NotStarted [(1, m)])"
    using stream_reachable_step [OF first(1) stream_step.commit [where i = 1 and now = 0 and m = m]] first(2) assms(4)
    by (simp add: start)
  have d2: "stream_reachable P order_by h (?s (?ms [] Map.empty []) (Loaded ?loaded) [(1, m)])"
    using stream_reachable_step [OF d1 stream_step.load] first(4) by simp
  have d3: "stream_reachable P order_by h (?s (?ms [Subscribe h 0] Map.empty [?ch]) (Replaying 0 ?loaded) [(1, m)])"
    using stream_reachable_step [OF d2 stream_step.subscribe] by (simp add: message_subscribe_def)
  have d4: "stream_reachable P order_by h (?s (?ms [Subscribe h 0, Distribute 1 m] Map.empty [?ch]) (Replaying 0 ?loaded) [])"
    using stream_reachable_step [OF d3 stream_step.distribute [where xs = "[]"]] by simp
  have d5: "stream_reachable P order_by h (?s (?ms [Distribute 1 m] [h \<mapsto> 0] [?ch]) (Replaying 0 ?loaded) [])"
    using stream_reachable_step [OF d4 stream_step.manager] by (simp add: manager_step_def)
  let ?full = "?ch \<lparr> sub_queue := ?loaded \<rparr>"
  have d6: "stream_reachable P order_by h (?s (?ms [] [h \<mapsto> 0] [?full]) (Replaying 0 ?loaded) [])"
    using stream_reachable_step [OF d5 stream_step.manager] assms(4) by (simp add: manager_step_def deliver_def)
  from stream_reachable_step [OF d6 stream_step.replay]
  obtain ms where d7: "stream_reachable P order_by h \<lparr> st_store = ms, st_phase = Replaying 0 [], st_adding = [],
      st_sent = ?loaded, st_accepted = {1}, st_posted = {(1, message_of m)} \<rparr>" "ms_channels ms = [?full]"
    by simp
  from stream_reachable_step [OF d7(1) stream_step.replayed]
  have d8: "stream_reachable P order_by h \<lparr> st_store = ms, st_phase = Live 0, st_adding = [],
      st_sent = ?loaded, st_accepted = {1}, st_posted = {(1, message_of m)} \<rparr>" by simp
  from stream_reachable_step [OF this stream_step.live] d7(2)
  show ?thesis by fastforce
qed

section \<open>Sample mailboxes\<close>

definition sample_message_codec :: "message_to_member_transport codec" where
  "sample_message_codec = \<lparr>
     encode = \<lambda>m. Ok (case m of WelcomeTransport b \<Rightarrow> 0 # b | MemberGroupMessageTransport b \<Rightarrow> 1 # b
       | MemberAddToGroupTransport b \<Rightarrow> 2 # b),
     decode = \<lambda>bs. Ok (if hd bs = 0 then WelcomeTransport (tl bs)
       else if hd bs = 1 then MemberGroupMessageTransport (tl bs) else MemberAddToGroupTransport (tl bs)) \<rparr>"

lemma sample_message_codec_ok: "codec_ok sample_message_codec"
  by (auto simp: codec_ok_def sample_message_codec_def split: message_to_member_transport.splits)

lemma sample_order_ok: "sql_order_ok (sort_key row_received_at)"
  by (simp add: sql_order_ok_def)

lemma sample_creation_welcome:
  assumes "trust_store_get ts (spki_hash sample_device) = Some (Certificate sample_device)"
    "trust_store_get ts (issuer sample_device) = Some (as_certificate sample_root)"
  shows "fst (process_message sample_mls (sample_env ts)
      (NewDeviceGroupTransport \<lparr> ngt_group_info = [], ngt_welcome = Some [5] \<rparr>) sample_start)
    = Ok [\<lparr> receivers_of = [cert_spki (as_certificate sample_root), spki_hash sample_device],
            message_of = WelcomeTransport [5] \<rparr>]"
  by (simp add: process_message_def unpack_new_group_def add_device_group_def
      add_svalin_group_def pp_check_group_def pp_add_group_def map_err_st_def created_group_def
      sample_mls_sel sample_env_hex sample_info_id sample_members sample_env_required [OF assms])

section \<open>Properties\<close>

text \<open>C15. However the stream of a receiver interleaves with posting, distribution and other
  receivers, and across broken connections: its mailbox holds exactly the messages posted
  to it that it has not accepted, and a message leaves only after it was sent to it.\<close>

theorem mailbox_exact:
  assumes "codec_ok P" "sql_order_ok order_by" "stream_reachable P order_by h s"
  shows "\<exists>ms. load_all_for P order_by (ms_db (st_store s)) h = Ok ms
    \<and> set ms = {x \<in> st_posted s. fst x \<notin> st_accepted s} \<and> st_accepted s \<subseteq> fst ` set (st_sent s)"
proof -
  have inv: "stream_inv P h s" using assms(1,3) by (rule stream_reachable_inv)
  then have "mailbox_readable P (ms_db (st_store s)) h" by (simp add: stream_inv_def)
  with load_all_for_mailbox [OF assms(2) this] inv show ?thesis
    by (auto simp: stream_inv_def mailbox_messages_def)
qed

theorem mailbox_exact_witness:
  "\<exists>ms. load_all_for sample_message_codec (sort_key row_received_at) (first_db [0, 5] (SpkiHash [7])) (SpkiHash [7]) = Ok ms
    \<and> set ms = {(1, WelcomeTransport [5])}"
proof -
  let ?P = sample_message_codec and ?o = "sort_key row_received_at :: sql_order" and ?h = "SpkiHash [7]"
  let ?m = "\<lparr> receivers_of = [?h], message_of = WelcomeTransport [5] \<rparr>"
  have enc: "encode ?P (message_of ?m) = Ok [0, 5]" by (simp add: sample_message_codec_def)
  note first = first_message [OF sample_message_codec_ok sample_order_ok enc, of ?h]
  let ?s = "\<lparr> st_store = message_store_open (first_db [0, 5] ?h), st_phase = NotStarted, st_adding = [(1, ?m)],
    st_sent = [], st_accepted = {}, st_posted = {(1, WelcomeTransport [5])} \<rparr>"
  have "stream_reachable ?P ?o ?h ?s"
    using stream_reachable_step [OF first(1) stream_step.commit [where i = 1 and now = 0 and m = ?m]] first(2)
    by (simp add: start)
  from mailbox_exact [OF sample_message_codec_ok sample_order_ok this] show ?thesis
    by (simp add: message_store_open_def Collect_conv_if)
qed

text \<open>C5. The tables implement mailboxes: after any sequence of posts and acknowledgements, loading
  returns exactly the messages of the receiver's mailbox, once for every time it is named as a
  receiver, ordered by the second of their arrival.\<close>

theorem mailbox_refinement:
  assumes "codec_ok P" "sql_order_ok order_by" "distinct (concat (map op_ids ops))"
    "\<forall>x \<in> set ops. op_encodable P x"
  shows "\<exists>entries. mset entries = mset (fold (spec_op h) ops []) \<and> sorted (map fst entries)
    \<and> load_all_for P order_by (fold (run_op P) ops \<lparr> mls_messages = [], mls_message_receivers = [] \<rparr>) h
      = Ok (map snd entries)"
proof -
  let ?db = "fold (run_op P) ops \<lparr> mls_messages = [], mls_message_receivers = [] \<rparr>"
  have R: "mailbox_readable P ?db h \<and> map (row_entry P) (selected_rows ?db h) = fold (spec_op h) ops []"
    using run_ops_refine [OF assms(1), of "\<lparr> mls_messages = [], mls_message_receivers = [] \<rparr>" h ops] assms(3,4)
    by (simp add: db_wf_def mailbox_readable_def selected_rows_def)
  let ?rows = "order_by (selected_rows ?db h)"
  have "mset (map (row_entry P) ?rows) = mset (map (row_entry P) (selected_rows ?db h))"
    using assms(2) by (simp add: sql_order_ok_def)
  moreover have "sorted (map fst (map (row_entry P) ?rows))"
    using assms(2) by (simp add: sql_order_ok_def comp_def row_entry_def)
  moreover have "load_all_for P order_by ?db h = Ok (map snd (map (row_entry P) ?rows))"
    using load_all_for_mailbox(1) [OF assms(2)] R by (simp add: comp_def row_entry_def)
  ultimately show ?thesis using R by metis
qed

theorem mailbox_refinement_witness:
  "\<exists>entries. mset entries = {# (as_i64 3, 1, WelcomeTransport [5]) #} \<and> sorted (map fst entries)
    \<and> load_all_for sample_message_codec (sort_key row_received_at)
        (fold (run_op sample_message_codec)
          [Post 1 3 \<lparr> receivers_of = [SpkiHash [7]], message_of = WelcomeTransport [5] \<rparr>,
           Post 2 4 \<lparr> receivers_of = [SpkiHash [7]], message_of = WelcomeTransport [6] \<rparr>,
           Acknowledge (SpkiHash [7]) [2]] empty_db) (SpkiHash [7]) = Ok (map snd entries)"
  using mailbox_refinement [OF sample_message_codec_ok sample_order_ok,
      of "[Post 1 3 \<lparr> receivers_of = [SpkiHash [7]], message_of = WelcomeTransport [5] \<rparr>,
           Post 2 4 \<lparr> receivers_of = [SpkiHash [7]], message_of = WelcomeTransport [6] \<rparr>,
           Acknowledge (SpkiHash [7]) [2]]" "SpkiHash [7]"]
  by (simp add: sample_message_codec_def)

text \<open>A group message that the server accepts reaches the mailbox of every receiver it names
  except the sender's, and no other mailbox changes.\<close>

theorem group_message_fanout:
  assumes "codec_ok P" "inj new_v4" "db_wf (ms_db ms)" "db_ids (ms_db ms) \<inter> range new_v4 = {}"
    "process_message L E m pp = (Ok out, pp')" "\<forall>x \<in> set out. is_ok (encode P (message_of x))"
  shows "\<exists>ms'. mls_handle L E P new_v4 sender m (pp, ms) = (Ok (), pp', ms')
    \<and> (\<forall>h. mailbox_messages P (ms_db ms') h
        = mailbox_messages P (ms_db ms) h \<union> posted_messages new_v4 (cert_spki sender) h 0 out)"
proof -
  have "db_ids (ms_db ms) \<inter> new_v4 ` {0..} = {}" using assms(4) by auto
  from send_all_Ok [OF assms(1,2,3) this assms(6), of "env_now E" "cert_spki sender"] show ?thesis
    using assms(5) by (auto simp: mls_handle_def)
qed

theorem group_message_fanout_witness:
  "\<exists>ts pp' ms'. mls_handle sample_mls (sample_env ts) sample_message_codec id (Certificate sample_device)
      (NewDeviceGroupTransport \<lparr> ngt_group_info = [], ngt_welcome = Some [5] \<rparr>)
      (sample_start, message_store_open empty_db) = (Ok (), pp', ms')
    \<and> mailbox_messages sample_message_codec (ms_db ms') (cert_spki (as_certificate sample_root)) = {(0, WelcomeTransport [5])}
    \<and> mailbox_messages sample_message_codec (ms_db ms') (spki_hash sample_device) = {}"
proof -
  obtain bs ts where run:
      "trust_store_get ts (spki_hash sample_device) = Some (Certificate sample_device)"
      "trust_store_get ts (issuer sample_device) = Some (as_certificate sample_root)"
    using sample_run_device by blast
  let ?m = "NewDeviceGroupTransport \<lparr> ngt_group_info = [], ngt_welcome = Some [5] \<rparr>"
  obtain pp' where p: "process_message sample_mls (sample_env ts) ?m sample_start
      = (Ok [\<lparr> receivers_of = [cert_spki (as_certificate sample_root), spki_hash sample_device],
            message_of = WelcomeTransport [5] \<rparr>], pp')"
    using sample_creation_welcome [OF run] by (metis prod.collapse)
  have other: "cert_spki (as_certificate sample_root) \<noteq> spki_hash sample_device" by code_simp
  have empty: "db_wf (ms_db (message_store_open empty_db))" "db_ids (ms_db (message_store_open empty_db)) \<inter> range id = {}"
      "mailbox_messages sample_message_codec (ms_db (message_store_open empty_db)) h = {}" for h
    by (simp_all add: message_store_open_def db_wf_def mailbox_messages_def selected_rows_def)
  have "is_ok (encode sample_message_codec x)" for x by (simp add: sample_message_codec_def)
  with group_message_fanout [OF sample_message_codec_ok inj_on_id empty(1,2) p, of "Certificate sample_device"]
  obtain ms' where "mls_handle sample_mls (sample_env ts) sample_message_codec id (Certificate sample_device) ?m
      (sample_start, message_store_open empty_db) = (Ok (), pp', ms')"
    "\<forall>h. mailbox_messages sample_message_codec (ms_db ms') h
      = posted_messages id (spki_hash sample_device) h 0 [\<lparr> receivers_of =
          [cert_spki (as_certificate sample_root), spki_hash sample_device], message_of = WelcomeTransport [5] \<rparr>]"
    unfolding empty(3) by auto
  then show ?thesis using other by (intro exI [of _ ts] exI [of _ pp'] exI [of _ ms']) simp
qed

text \<open>The stream loads before it subscribes, which leaves two windows. A message committed in
  between whose distribution comes first stays in the mailbox while the live stream waits
  with nothing to come; a message committed before whose distribution comes after is sent
  twice.\<close>

theorem stream_races:
  fixes m :: message_to_send
  assumes "codec_ok P" "sql_order_ok order_by" "encode P (message_of m) = Ok data" "receivers_of m = [h]"
  shows "(\<exists>s. stream_reachable P order_by h s \<and> st_phase s = Live 0
      \<and> sub_queue (ms_channels (st_store s) ! 0) = [] \<and> ms_requests (st_store s) = [] \<and> st_adding s = []
      \<and> (1, message_of m) \<in> st_posted s \<and> st_accepted s = {})
    \<and> (\<exists>s. stream_reachable P order_by h s \<and> st_sent s = [(1, message_of m), (1, message_of m)])"
  using stream_gap_run [OF assms] stream_duplicate_run [OF assms] by blast

theorem stream_races_witness:
  "\<exists>s. stream_reachable sample_message_codec (sort_key row_received_at) (SpkiHash [7]) s
    \<and> st_sent s = [(1, WelcomeTransport [5]), (1, WelcomeTransport [5])]"
  using stream_races [OF sample_message_codec_ok sample_order_ok,
      of "\<lparr> receivers_of = [SpkiHash [7]], message_of = WelcomeTransport [5] \<rparr>" "[0, 5]" "SpkiHash [7]"]
  by (simp add: sample_message_codec_def)

end
