(* ===== verification/ServerStores.thy ===== *)
theory ServerStores
  imports MessageStore MlsMember
begin

text \<open>
  The remaining tables of the server: key packages
  (\<^verbatim>\<open>svalin_store/src/server_store/key_package_store.rs\<close>) and users (\<^verbatim>\<open>user_store.rs\<close>), the command that
  hands out key packages (\<^verbatim>\<open>svalin/src/shared/commands/get_key_packages.rs\<close>) and the server's side
  of the command by which a session keeps the state of its user up to date
  (\<^verbatim>\<open>svalin/src/shared/commands/update_user_mls.rs\<close>). The schemas are
  \<^verbatim>\<open>20251202195732_key_packages.sql\<close> and \<^verbatim>\<open>20250413131517_users.sql\<close>.
\<close>

section \<open>Key packages\<close>

record key_package_row =
  kpr_id :: uuid
  kpr_spki :: bytes
  kpr_data :: bytes

datatype key_package_store_error =
    KpsSqlx sqlx_error
  | KpsPostcard string
  | KpsKeyPackage key_package_error
  | KpsHashMismatch
  | KpsWrongOwner

text \<open>\<^verbatim>\<open>LIMIT 1\<close> without an order: the query engine picks one of the selected rows.\<close>

type_synonym sql_pick = "key_package_row list \<Rightarrow> key_package_row"

definition sql_pick_ok :: "sql_pick \<Rightarrow> bool" where
  "sql_pick_ok pick \<longleftrightarrow> (\<forall>rows. rows \<noteq> [] \<longrightarrow> pick rows \<in> set rows)"

definition add_key_package ::
  "('x, 'k, 'c, 'z) openmls_scheme \<Rightarrow> 'k codec \<Rightarrow> uuid \<Rightarrow> 'k key_package \<Rightarrow> key_package_row list
    \<Rightarrow> (unit, key_package_store_error) result \<times> key_package_row list" where
  "add_key_package L P i key_package rows =
    bind_st (map_err KpsKeyPackage (unverified_spki_hash L (kp_package key_package)), rows) (\<lambda>hash rows.
    if hash \<noteq> kp_spki_hash key_package then (Err KpsHashMismatch, rows)
    else
      bind_st (map_err KpsPostcard (encode P (kp_package key_package)), rows) (\<lambda>data rows.
      if i \<in> kpr_id ` set rows then (Err (KpsSqlx UniqueViolation), rows)
      else (Ok (), rows @ [\<lparr> kpr_id = i, kpr_spki = spki_bytes (kp_spki_hash key_package), kpr_data = data \<rparr>])))"

definition count_key_packages :: "spki_hash \<Rightarrow> key_package_row list \<Rightarrow> u64" where
  "count_key_packages owner rows = of_nat (length (filter (\<lambda>r. kpr_spki r = spki_bytes owner) rows))"

text \<open>The loop of \<^verbatim>\<open>get_key_packages\<close>, inside its transaction.\<close>

fun take_key_packages ::
  "('x, 'k, 'c, 'z) openmls_scheme \<Rightarrow> 'k codec \<Rightarrow> sql_pick \<Rightarrow> spki_hash list \<Rightarrow> key_package_row list
    \<Rightarrow> ('k list, key_package_store_error) result \<times> key_package_row list" where
  "take_key_packages L P pick [] rows = (Ok [], rows)"
| "take_key_packages L P pick (entity # entities) rows =
    (let selected = filter (\<lambda>r. kpr_spki r = spki_bytes entity) rows in
     if selected = [] then (Err (KpsSqlx RowNotFound), rows)
     else
       let row = pick selected; rows = filter (\<lambda>r. kpr_id r \<noteq> kpr_id row) rows in
       bind_st (map_err KpsPostcard (decode P (kpr_data row)), rows) (\<lambda>key_package rows.
       bind_st (map_err KpsKeyPackage (unverified_spki_hash L key_package), rows) (\<lambda>hash rows.
       if hash \<noteq> entity then (Err KpsWrongOwner, rows)
       else
         bind_st (take_key_packages L P pick entities rows) (\<lambda>rest rows.
         (Ok (key_package # rest), rows)))))"

text \<open>A failure rolls the transaction back.\<close>

definition get_key_packages ::
  "('x, 'k, 'c, 'z) openmls_scheme \<Rightarrow> 'k codec \<Rightarrow> sql_pick \<Rightarrow> spki_hash list \<Rightarrow> key_package_row list
    \<Rightarrow> ('k list, key_package_store_error) result \<times> key_package_row list" where
  "get_key_packages L P pick entities rows =
    (case take_key_packages L P pick entities rows of
       (Ok key_packages, rows') \<Rightarrow> (Ok key_packages, rows')
     | (r, _) \<Rightarrow> (r, rows))"

text \<open>What the command writes as its answer.\<close>

definition get_key_packages_answer ::
  "('x, 'k, 'c, 'z) openmls_scheme \<Rightarrow> 'k codec \<Rightarrow> sql_pick \<Rightarrow> spki_hash list \<Rightarrow> key_package_row list
    \<Rightarrow> 'k list option \<times> key_package_row list" where
  "get_key_packages_answer L P pick request rows =
    (case get_key_packages L P pick request rows of
       (Ok key_packages, rows) \<Rightarrow> (Some key_packages, rows)
     | (_, rows) \<Rightarrow> (None, rows))"

section \<open>Users\<close>

text \<open>The data for logging in, which the store only keeps, is one component \<^verbatim>\<open>'a\<close>.\<close>

record ('a, 'm, 's) stored_user =
  su_credential :: encrypted_credential
  su_login :: 'a
  su_username :: bytes
  su_mls_store :: 'm
  su_persistent_data :: 's

record user_row =
  ur_spki :: bytes
  ur_username :: bytes
  ur_data :: bytes

datatype user_store_error =
    UsSqlx sqlx_error
  | UsPostcard string
  | RootUserExists
  | WrongTypeForRoot
  | UnknownUser spki_hash

definition add_root_user ::
  "('a, 'm, 's) stored_user codec \<Rightarrow> ('a, 'm, 's) stored_user \<Rightarrow> user_row list
    \<Rightarrow> (unit, user_store_error) result \<times> user_row list" where
  "add_root_user P user rows =
    (let certificate = enc_certificate (su_credential user) in
     if length rows > 0 then (Err RootUserExists, rows)
     else if certificate_type certificate \<noteq> Root then (Err WrongTypeForRoot, rows)
     else
       bind_st (map_err UsPostcard (encode P user), rows) (\<lambda>data rows.
       (Ok (), rows @ [\<lparr> ur_spki = spki_bytes (spki_hash certificate), ur_username = su_username user, ur_data = data \<rparr>])))"

definition decode_user ::
  "('a, 'm, 's) stored_user codec \<Rightarrow> user_row option \<Rightarrow> (('a, 'm, 's) stored_user option, user_store_error) result" where
  "decode_user P row =
    (case row of None \<Rightarrow> Ok None | Some row \<Rightarrow> map_ok Some (map_err UsPostcard (decode P (ur_data row))))"

definition get_user ::
  "('a, 'm, 's) stored_user codec \<Rightarrow> spki_hash \<Rightarrow> user_row list
    \<Rightarrow> (('a, 'm, 's) stored_user option, user_store_error) result" where
  "get_user P hash rows = decode_user P (find (\<lambda>r. ur_spki r = spki_bytes hash) rows)"

definition get_user_by_username ::
  "('a, 'm, 's) stored_user codec \<Rightarrow> bytes \<Rightarrow> user_row list
    \<Rightarrow> (('a, 'm, 's) stored_user option, user_store_error) result" where
  "get_user_by_username P username rows = decode_user P (find (\<lambda>r. ur_username r = username) rows)"

definition get_cert_by_spki_hash ::
  "('a, 'm, 's) stored_user codec \<Rightarrow> spki_hash \<Rightarrow> user_row list
    \<Rightarrow> (unverified_certificate option, user_store_error) result" where
  "get_cert_by_spki_hash P hash rows =
    map_ok (map_option (\<lambda>u. enc_certificate (su_credential u))) (get_user P hash rows)"

definition update_mls_data ::
  "('a, 'm, 's) stored_user codec \<Rightarrow> spki_hash \<Rightarrow> 'm \<Rightarrow> 's \<Rightarrow> user_row list
    \<Rightarrow> (unit, user_store_error) result \<times> user_row list" where
  "update_mls_data P hash mls_store persistent_data rows =
    bind_st (get_user P hash rows, rows) (\<lambda>user rows.
    (case user of
       None \<Rightarrow> (Err (UnknownUser hash), rows)
     | Some user \<Rightarrow>
        bind_st (map_err UsPostcard
            (encode P (user \<lparr> su_mls_store := mls_store, su_persistent_data := persistent_data \<rparr>)), rows) (\<lambda>data rows.
        (Ok (), map (\<lambda>r. if ur_spki r = spki_bytes hash then r \<lparr> ur_data := data \<rparr> else r) rows))))"

section \<open>Updating the state of a user\<close>

record ('k, 'm, 's) state_update =
  upd_mls_store :: 'm
  upd_persistent_data :: 's
  upd_key_packages :: "'k list"
  upd_aknowledged :: "uuid list"
  upd_messages :: "message_to_server_transport list"

record ('g, 't) server_state =
  ss_key_packages :: "key_package_row list"
  ss_users :: "user_row list"
  ss_messages :: message_store
  ss_groups :: "('g, 't) public_processor"

datatype update_error =
    UpKeyPackage key_package_error
  | UpKeyPackageStore key_package_store_error
  | UpUserStore user_store_error
  | UpHandler mls_handler_error

text \<open>The loop over the new key packages; \<^verbatim>\<open>kp_ids\<close> are the identifiers that are drawn.\<close>

fun add_user_key_packages ::
  "('x, 'k, 'c, 'g, 't) public_mls \<Rightarrow> mls_env \<Rightarrow> 'k codec \<Rightarrow> (nat \<Rightarrow> uuid) \<Rightarrow> spki_hash \<Rightarrow> nat \<Rightarrow> 'k list
    \<Rightarrow> key_package_row list \<Rightarrow> (unit, update_error) result \<times> key_package_row list" where
  "add_user_key_packages L E P kp_ids user n [] rows = (Ok (), rows)"
| "add_user_key_packages L E P kp_ids user n (k # ks) rows =
    bind_st (map_err UpKeyPackage (server_verify_key_package L E k user), rows) (\<lambda>key_package rows.
    bind_st (map_err_st UpKeyPackageStore (add_key_package L P (kp_ids n) key_package rows)) (\<lambda>_ rows.
    add_user_key_packages L E P kp_ids user (Suc n) ks rows))"

text \<open>The loop over the messages; \<^verbatim>\<open>new_v4 n\<close> are the identifiers for the results of the \<^verbatim>\<open>n\<close>-th one.\<close>

fun process_user_messages ::
  "('x, 'k, 'c, 'g, 't) public_mls \<Rightarrow> mls_env \<Rightarrow> message_to_member_transport codec \<Rightarrow> (nat \<Rightarrow> nat \<Rightarrow> uuid) \<Rightarrow> spki_hash
    \<Rightarrow> nat \<Rightarrow> message_to_server_transport list \<Rightarrow> ('g, 't) public_processor \<times> message_store
    \<Rightarrow> (unit, update_error) result \<times> ('g, 't) public_processor \<times> message_store" where
  "process_user_messages L E P new_v4 user n [] self = (Ok (), self)"
| "process_user_messages L E P new_v4 user n (message # rest) (pp, ms) =
    (case process_message L E message pp of
       (Err e, pp) \<Rightarrow> (Err (UpHandler (HandlerMls e)), pp, ms)
     | (Panicked, pp) \<Rightarrow> (Panicked, pp, ms)
     | (Ok to_send, pp) \<Rightarrow>
        (case send_all P (new_v4 n) (env_now E) user 0 to_send ms of
           (Ok _, ms) \<Rightarrow> process_user_messages L E P new_v4 user (Suc n) rest (pp, ms)
         | (Err e, ms) \<Rightarrow> (Err (UpHandler e), pp, ms)
         | (Panicked, ms) \<Rightarrow> (Panicked, pp, ms)))"

text \<open>\<^verbatim>\<open>handle_response\<close> for a state update. The steps are separate transactions: an error keeps the
  effects of the steps before it.\<close>

definition handle_state_update ::
  "('x, 'k, 'c, 'g, 't) public_mls \<Rightarrow> mls_env \<Rightarrow> 'k codec \<Rightarrow> ('a, 'm, 's) stored_user codec
    \<Rightarrow> message_to_member_transport codec \<Rightarrow> (nat \<Rightarrow> uuid) \<Rightarrow> (nat \<Rightarrow> nat \<Rightarrow> uuid) \<Rightarrow> spki_hash
    \<Rightarrow> ('k, 'm, 's) state_update \<Rightarrow> ('g, 't) server_state \<Rightarrow> (unit, update_error) result \<times> ('g, 't) server_state" where
  "handle_state_update L E Pk Pu Pm kp_ids new_v4 user update self =
    (case add_user_key_packages L E Pk kp_ids user 0 (upd_key_packages update) (ss_key_packages self) of (r, packages) \<Rightarrow>
     bind_st (r, self \<lparr> ss_key_packages := packages \<rparr>) (\<lambda>_ self.
     case update_mls_data Pu user (upd_mls_store update) (upd_persistent_data update) (ss_users self) of (r, users) \<Rightarrow>
     bind_st (map_err UpUserStore r, self \<lparr> ss_users := users \<rparr>) (\<lambda>_ self.
     let self = self \<lparr> ss_messages := on_db (aknowledge_messages user (upd_aknowledged update)) (ss_messages self) \<rparr> in
     case process_user_messages L E Pm new_v4 user 0 (upd_messages update) (ss_groups self, ss_messages self) of
       (r, pp, ms) \<Rightarrow> (r, self \<lparr> ss_groups := pp, ss_messages := ms \<rparr>))))"

section \<open>Lemmas\<close>

text \<open>Every stored package can be read and claims the hash it is stored under.\<close>

definition packages_wf :: "('x, 'k, 'c, 'z) openmls_scheme \<Rightarrow> 'k codec \<Rightarrow> key_package_row list \<Rightarrow> bool" where
  "packages_wf L P rows \<longleftrightarrow> distinct (map kpr_id rows)
    \<and> (\<forall>r \<in> set rows. \<exists>k h. decode P (kpr_data r) = Ok k \<and> unverified_spki_hash L k = Ok h \<and> kpr_spki r = spki_bytes h)"

lemma add_key_package_spec:
  assumes "codec_ok P" "packages_wf L P rows" "add_key_package L P i kp rows = (r, rows')"
  shows "packages_wf L P rows'"
    "r = Ok () \<Longrightarrow> \<exists>data. encode P (kp_package kp) = Ok data
      \<and> rows' = rows @ [\<lparr> kpr_id = i, kpr_spki = spki_bytes (kp_spki_hash kp), kpr_data = data \<rparr>]"
    "r \<noteq> Ok () \<Longrightarrow> rows' = rows"
proof -
  have cases: "(r = Ok () \<and> i \<notin> kpr_id ` set rows \<and> unverified_spki_hash L (kp_package kp) = Ok (kp_spki_hash kp)
      \<and> (\<exists>data. encode P (kp_package kp) = Ok data
        \<and> rows' = rows @ [\<lparr> kpr_id = i, kpr_spki = spki_bytes (kp_spki_hash kp), kpr_data = data \<rparr>]))
    \<or> (r \<noteq> Ok () \<and> rows' = rows)"
    using assms(3) by (cases "unverified_spki_hash L (kp_package kp)"; cases "encode P (kp_package kp)")
      (auto simp: add_key_package_def split: if_splits)
  then show "packages_wf L P rows'"
    using assms(1,2) by (auto simp: packages_wf_def codec_ok_def)
  show "r = Ok () \<Longrightarrow> \<exists>data. encode P (kp_package kp) = Ok data
      \<and> rows' = rows @ [\<lparr> kpr_id = i, kpr_spki = spki_bytes (kp_spki_hash kp), kpr_data = data \<rparr>]"
    and "r \<noteq> Ok () \<Longrightarrow> rows' = rows"
    using cases by auto
qed

text \<open>The rows of one owner.\<close>

abbreviation owned :: "spki_hash \<Rightarrow> key_package_row list \<Rightarrow> key_package_row list" where
  "owned h rows \<equiv> filter (\<lambda>r. kpr_spki r = spki_bytes h) rows"

lemma filter_key_remove1:
  "distinct (map f xs) \<Longrightarrow> x \<in> set xs \<Longrightarrow> filter (\<lambda>y. f y \<noteq> f x) xs = remove1 x xs"
proof (induction xs)
  case (Cons y ys)
  show ?case
  proof (cases "x = y")
    case True
    have "f z \<noteq> f y" if "z \<in> set ys" for z using Cons.prems(1) that by (auto simp: image_iff)
    then have "filter (\<lambda>z. f z \<noteq> f y) ys = ys" by (intro filter_True) blast
    then show ?thesis using True by simp
  next
    case False
    then have "x \<in> set ys" using Cons.prems(2) by simp
    then have "f y \<noteq> f x" using Cons.prems(1) by force
    then show ?thesis using Cons.IH Cons.prems(1) \<open>x \<in> set ys\<close> False by simp
  qed
qed simp

lemma length_filter_mset: "length (filter Q xs) = size (filter_mset Q (mset xs))"
  by (metis mset_filter size_mset)

lemma length_owned_remove1:
  assumes "row \<in> set rows" "kpr_spki row = spki_bytes h"
  shows "length (owned h' rows) = length (owned h' (remove1 row rows)) + (if h' = h then 1 else 0)"
proof -
  have "mset rows = add_mset row (mset (remove1 row rows))" using assms(1) by simp
  then show ?thesis
    using assms(2) unfolding length_filter_mset by (simp add: spki_bytes_eq_iff del: mset_remove1)
qed

lemma packages_wf_remove1: "packages_wf L P rows \<Longrightarrow> packages_wf L P (remove1 r rows)"
  using set_remove1_subset [of r rows] by (auto simp: packages_wf_def distinct_map inj_on_def)

lemma take_step:
  assumes "packages_wf L P rows" "sql_pick_ok pick" "owned h rows \<noteq> []"
  obtains row k where "row \<in> set rows" "kpr_spki row = spki_bytes h" "decode P (kpr_data row) = Ok k"
    "unverified_spki_hash L k = Ok h"
    "take_key_packages L P pick (h # hs) rows =
      bind_st (take_key_packages L P pick hs (remove1 row rows)) (\<lambda>rest rows. (Ok (k # rest), rows))"
proof -
  let ?row = "pick (owned h rows)"
  have "?row \<in> set (owned h rows)" using assms(2,3) unfolding sql_pick_ok_def by blast
  then have row: "?row \<in> set rows" "kpr_spki ?row = spki_bytes h" by simp_all
  obtain k h' where k: "decode P (kpr_data ?row) = Ok k" "unverified_spki_hash L k = Ok h'"
      "kpr_spki ?row = spki_bytes h'"
    using assms(1) row(1) unfolding packages_wf_def by blast
  have h': "h' = h" using row(2) k(3) by (simp add: spki_bytes_eq_iff)
  have "filter (\<lambda>r. kpr_id r \<noteq> kpr_id ?row) rows = remove1 ?row rows"
    using assms(1) row(1) by (intro filter_key_remove1) (simp_all add: packages_wf_def)
  then show ?thesis
    using assms(3) k(1,2) by (intro that [OF row k(1)]) (simp_all add: Let_def h')
qed

definition enough :: "spki_hash list \<Rightarrow> key_package_row list \<Rightarrow> bool" where
  "enough hs rows \<longleftrightarrow> (\<forall>h. count_list hs h \<le> length (owned h rows))"

lemma enough_Cons:
  assumes "row \<in> set rows" "kpr_spki row = spki_bytes h"
  shows "enough (h # hs) rows \<longleftrightarrow> enough hs (remove1 row rows)"
  unfolding enough_def length_owned_remove1 [OF assms] by (auto simp: all_conj_distrib)

lemma not_enough: "owned h rows = [] \<Longrightarrow> \<not> enough (h # hs) rows"
  by (auto simp: enough_def intro!: exI [of _ h])

lemma take_key_packages_spec:
  assumes "sql_pick_ok pick"
  shows "packages_wf L P rows \<Longrightarrow>
    (if enough hs rows then
      \<exists>ks rows' taken. take_key_packages L P pick hs rows = (Ok ks, rows') \<and> packages_wf L P rows'
        \<and> map (unverified_spki_hash L) ks = map Ok hs \<and> mset rows = mset rows' + mset taken
        \<and> map (\<lambda>t. decode P (kpr_data t)) taken = map Ok ks
     else \<not> is_ok (fst (take_key_packages L P pick hs rows)))"
proof (induction hs arbitrary: rows)
  case Nil
  have "enough [] rows" by (simp add: enough_def)
  then show ?case using Nil by (simp add: exI [of _ "[]"])
next
  case (Cons h hs)
  show ?case
  proof (cases "owned h rows = []")
    case True
    then have "\<not> is_ok (fst (take_key_packages L P pick (h # hs) rows))" by simp
    then show ?thesis using not_enough [OF True] by simp
  next
    case False
    obtain row k where row: "row \<in> set rows" "kpr_spki row = spki_bytes h" "decode P (kpr_data row) = Ok k"
        "unverified_spki_hash L k = Ok h"
        "take_key_packages L P pick (h # hs) rows =
          bind_st (take_key_packages L P pick hs (remove1 row rows)) (\<lambda>rest rows. (Ok (k # rest), rows))"
      using take_step [OF Cons.prems assms False] by metis
    note IH = Cons.IH [OF packages_wf_remove1 [OF Cons.prems, of row]]
    have split: "mset rows = add_mset row (mset (remove1 row rows))" using row(1) by simp
    show ?thesis
    proof (cases "enough hs (remove1 row rows)")
      case True
      then obtain ks rows' taken where T: "take_key_packages L P pick hs (remove1 row rows) = (Ok ks, rows')"
          "packages_wf L P rows'" "map (unverified_spki_hash L) ks = map Ok hs"
          "mset (remove1 row rows) = mset rows' + mset taken"
          "map (\<lambda>t. decode P (kpr_data t)) taken = map Ok ks"
        using IH by auto
      have "mset rows = mset rows' + mset (row # taken)" using split T(4) by simp
      moreover have "take_key_packages L P pick (h # hs) rows = (Ok (k # ks), rows')" unfolding row(5) T(1) by simp
      moreover have "map (\<lambda>t. decode P (kpr_data t)) (row # taken) = map Ok (k # ks)" using row(3) T(5) by simp
      moreover have "map (unverified_spki_hash L) (k # ks) = map Ok (h # hs)" using row(4) T(3) by simp
      moreover have "enough (h # hs) rows" using True enough_Cons [OF row(1,2)] by simp
      ultimately show ?thesis using T(2) by metis
    next
      case False
      then have "\<not> is_ok (fst (take_key_packages L P pick hs (remove1 row rows)))" using IH by simp
      then have "\<not> is_ok (fst (take_key_packages L P pick (h # hs) rows))"
        unfolding row(5) by (cases "take_key_packages L P pick hs (remove1 row rows)";
          cases "fst (take_key_packages L P pick hs (remove1 row rows))") simp_all
      then show ?thesis using False enough_Cons [OF row(1,2)] by simp
    qed
  qed
qed

text \<open>Posting never removes anything from a mailbox, whether it succeeds or not.\<close>

definition mailboxes_grow :: "message_to_member_transport codec \<Rightarrow> message_store \<Rightarrow> message_store \<Rightarrow> bool" where
  "mailboxes_grow P ms ms' \<longleftrightarrow> (db_wf (ms_db ms) \<longrightarrow> db_wf (ms_db ms')
    \<and> (\<forall>h. mailbox_messages P (ms_db ms) h \<subseteq> mailbox_messages P (ms_db ms') h))"

lemma mailboxes_grow_refl [intro!, simp]: "mailboxes_grow P ms ms"
  by (simp add: mailboxes_grow_def)

lemma mailboxes_grow_trans: "mailboxes_grow P a b \<Longrightarrow> mailboxes_grow P b c \<Longrightarrow> mailboxes_grow P a c"
  unfolding mailboxes_grow_def by blast

lemma add_message_grows:
  assumes "codec_ok P"
  shows "mailboxes_grow P ms (snd (add_message P i now m ms))"
proof (cases "insert_message P i now m (ms_db ms)")
  case (Pair r db)
  show ?thesis
  proof (cases r)
    case (Ok u)
    then have ins: "insert_message P i now m (ms_db ms) = (Ok (), db)" using Pair by simp
    then have "ms_db (snd (add_message P i now m ms)) = db" by (simp add: add_message_def)
    then show ?thesis
      using insert_message_mailbox(1,3) [OF assms _ ins] unfolding mailboxes_grow_def by auto
  next
    case (Err e)
    then have "db = ms_db ms"
      using Pair by (cases "encode P (message_of m)") (auto simp: insert_message_def split: if_splits)
    then show ?thesis using Pair Err by (simp add: add_message_def mailboxes_grow_def)
  next
    case Panicked
    then have "db = ms_db ms"
      using Pair by (cases "encode P (message_of m)") (auto simp: insert_message_def split: if_splits)
    then show ?thesis using Pair Panicked by (simp add: add_message_def mailboxes_grow_def)
  qed
qed

lemma send_all_grows:
  assumes "codec_ok P"
  shows "mailboxes_grow P ms (snd (send_all P new_v4 now sender n msgs ms))"
proof (induction msgs arbitrary: n ms)
  case (Cons m msgs)
  let ?a = "add_message P (new_v4 n) now (remove_receiver m sender) ms"
  have "mailboxes_grow P ms (snd ?a)" by (rule add_message_grows [OF assms])
  then show ?case
    using Cons.IH [of "snd ?a" "Suc n"] by (cases ?a; cases "fst ?a")
      (auto simp: map_err_st_def intro: mailboxes_grow_trans)
qed simp

lemma process_user_messages_grows:
  assumes "codec_ok P"
  shows "mailboxes_grow P ms (snd (snd (process_user_messages L E P new_v4 user n messages (pp, ms))))"
proof (induction messages arbitrary: n pp ms)
  case (Cons m messages)
  obtain r pp' where p: "process_message L E m pp = (r, pp')" by fastforce
  show ?case
  proof (cases r)
    case (Ok to_send)
    obtain r2 ms' where a: "send_all P (new_v4 n) (env_now E) user 0 to_send ms = (r2, ms')" by fastforce
    have grow: "mailboxes_grow P ms ms'"
      using send_all_grows [OF assms, of ms "new_v4 n" "env_now E" user 0 to_send] a by simp
    show ?thesis
      using grow mailboxes_grow_trans [OF grow Cons.IH] p Ok a by (cases r2) simp_all
  qed (use p in simp_all)
qed simp

lemma ack_keeps_others:
  assumes "db_wf db"
  shows "db_wf (aknowledge_messages user ids db)"
    "h \<noteq> user \<Longrightarrow> mailbox_messages P (aknowledge_messages user ids db) h = mailbox_messages P db h"
  using db.ack_all [OF assms] by (simp_all add: aknowledge_messages_def mailbox_messages_def)

lemma add_user_key_packages_owned:
  "\<exists>new. snd (add_user_key_packages L E P kp_ids user n ks rows) = rows @ new
    \<and> (\<forall>r \<in> set new. kpr_spki r = spki_bytes user)"
proof (induction ks arbitrary: n rows)
  case (Cons k ks)
  obtain v where v: "server_verify_key_package L E k user = v" by simp
  show ?case
  proof (cases v)
    case (Ok kp)
    then have owner: "kp_spki_hash kp = user"
      using v by (auto simp: server_verify_key_package_def result_simps split: if_splits)
    obtain r rows1 where a: "add_key_package L P (kp_ids n) kp rows = (r, rows1)" by fastforce
    have step: "\<exists>new. rows1 = rows @ new \<and> (\<forall>r \<in> set new. kpr_spki r = spki_bytes user)"
      using a owner by (cases "unverified_spki_hash L (kp_package kp)"; cases "encode P (kp_package kp)")
        (auto simp: add_key_package_def split: if_splits)
    show ?thesis
    proof (cases r)
      case (Ok u)
      obtain new1 where "rows1 = rows @ new1" "\<forall>r \<in> set new1. kpr_spki r = spki_bytes user" using step by blast
      moreover obtain new2 where "snd (add_user_key_packages L E P kp_ids user (Suc n) ks rows1) = rows1 @ new2"
          "\<forall>r \<in> set new2. kpr_spki r = spki_bytes user" using Cons.IH by blast
      ultimately show ?thesis
        using v \<open>v = Ok kp\<close> a Ok by (intro exI [of _ "new1 @ new2"]) (auto simp: map_err_st_def)
    qed (use v Ok a step in \<open>simp_all add: map_err_st_def\<close>)
  qed (use v in simp_all)
qed simp

lemma update_mls_data_others:
  "filter (\<lambda>r. ur_spki r \<noteq> spki_bytes user) (snd (update_mls_data P user m s rows))
    = filter (\<lambda>r. ur_spki r \<noteq> spki_bytes user) rows"
proof -
  have "filter (\<lambda>r. ur_spki r \<noteq> spki_bytes user)
      (map (\<lambda>r. if ur_spki r = spki_bytes user then r \<lparr> ur_data := data \<rparr> else r) rows)
      = filter (\<lambda>r. ur_spki r \<noteq> spki_bytes user) rows" for data
    by (induction rows) auto
  moreover have "snd (update_mls_data P user m s rows) = rows
      \<or> (\<exists>data. snd (update_mls_data P user m s rows)
          = map (\<lambda>r. if ur_spki r = spki_bytes user then r \<lparr> ur_data := data \<rparr> else r) rows)"
  proof (cases "get_user P user rows")
    case (Ok found)
    show ?thesis
    proof (cases found)
      case (Some u)
      then show ?thesis
        using Ok by (cases "encode P (u \<lparr> su_mls_store := m, su_persistent_data := s \<rparr>)")
          (auto simp: update_mls_data_def)
    qed (use Ok in \<open>simp add: update_mls_data_def\<close>)
  qed (simp_all add: update_mls_data_def)
  ultimately show ?thesis by auto
qed

lemma find_map_update:
  "find (\<lambda>r. ur_spki r = k) (map (\<lambda>r. if ur_spki r = k then r \<lparr> ur_data := data \<rparr> else r) rows)
    = map_option (\<lambda>r. r \<lparr> ur_data := data \<rparr>) (find (\<lambda>r. ur_spki r = k) rows)"
  by (induction rows) auto

lemma get_user_Some: "get_user P hash rows = Ok (Some u) \<Longrightarrow> \<exists>row. find (\<lambda>r. ur_spki r = spki_bytes hash) rows = Some row"
  by (auto simp: get_user_def decode_user_def split: option.splits)

lemma update_mls_data_Ok:
  assumes "codec_ok P" "update_mls_data P user m s rows = (Ok v, rows')"
  shows "\<exists>u. get_user P user rows = Ok (Some u)
    \<and> get_user P user rows' = Ok (Some (u \<lparr> su_mls_store := m, su_persistent_data := s \<rparr>))"
proof -
  obtain found where f: "get_user P user rows = Ok found"
    using assms(2) by (auto simp: update_mls_data_def result_simps)
  then obtain u where u: "found = Some u" using assms(2) by (cases found) (simp_all add: update_mls_data_def)
  obtain data where d: "encode P (u \<lparr> su_mls_store := m, su_persistent_data := s \<rparr>) = Ok data"
      "rows' = map (\<lambda>r. if ur_spki r = spki_bytes user then r \<lparr> ur_data := data \<rparr> else r) rows"
    using assms(2) f u by (auto simp: update_mls_data_def result_simps)
  have "decode P data = Ok (u \<lparr> su_mls_store := m, su_persistent_data := s \<rparr>)"
    using assms(1) d(1) by (simp add: codec_ok_def)
  moreover obtain row where "find (\<lambda>r. ur_spki r = spki_bytes user) rows = Some row"
    using get_user_Some f u by blast
  ultimately have "get_user P user rows' = Ok (Some (u \<lparr> su_mls_store := m, su_persistent_data := s \<rparr>))"
    unfolding d(2) get_user_def decode_user_def find_map_update by simp
  then show ?thesis using f u by blast
qed

section \<open>Sample stores\<close>

definition sample_leaf_codec :: "leaf_node codec" where
  "sample_leaf_codec = \<lparr> encode = \<lambda>l. Ok (leaf_credential l),
     decode = \<lambda>bs. Ok \<lparr> leaf_credential = bs, leaf_signature_key = [] \<rparr> \<rparr>"

definition sample_package_row :: key_package_row where
  "sample_package_row = \<lparr> kpr_id = 1, kpr_spki = [9], kpr_data = [9] \<rparr>"

lemma sample_packages_wf: "packages_wf sample_mls sample_leaf_codec [sample_package_row]"
  by (simp add: packages_wf_def sample_package_row_def sample_leaf_codec_def unverified_spki_hash_def sample_mls_def)

text \<open>A user and the codec of its two states.\<close>

definition sample_user :: "(unit, bytes, bytes) stored_user" where
  "sample_user = \<lparr> su_credential = \<lparr> encrypted_keypair = EncryptedObject \<lparr> ciphertext = [], enc_alg = Aes256Gcm, nonce_mask = [] \<rparr>,
     enc_certificate = root_as_unverified sample_root \<rparr>, su_login = (), su_username = [1],
     su_mls_store = [], su_persistent_data = [] \<rparr>"

definition sample_user_codec :: "(unit, bytes, bytes) stored_user codec" where
  "sample_user_codec = \<lparr>
     encode = \<lambda>u. if u = sample_user \<lparr> su_mls_store := su_mls_store u \<rparr> then Ok (su_mls_store u) else Err ''unused'',
     decode = \<lambda>bs. Ok (sample_user \<lparr> su_mls_store := bs \<rparr>) \<rparr>"

lemma sample_user_codec_ok: "codec_ok sample_user_codec"
  by (simp add: codec_ok_def sample_user_codec_def)

definition sample_server_state :: "(sample_group, bytes \<rightharpoonup> sample_group) server_state" where
  "sample_server_state = \<lparr> ss_key_packages = [],
     ss_users = [\<lparr> ur_spki = [7], ur_username = [1], ur_data = [] \<rparr>],
     ss_messages = message_store_open empty_db, ss_groups = sample_start \<rparr>"

definition sample_update :: "(leaf_node, bytes, bytes) state_update" where
  "sample_update = \<lparr> upd_mls_store = [5], upd_persistent_data = [], upd_key_packages = [], upd_aknowledged = [3],
     upd_messages = [] \<rparr>"

section \<open>Properties\<close>

text \<open>Key packages are handed out once each, all or none: if every requested owner has as many
  packages as it is requested, each request gets a package that claims its owner, these
  packages leave the table, and the asking member accepts the answer; otherwise the answer is
  a failure and the table stays as it is.\<close>

theorem key_packages_served:
  assumes "sql_pick_ok pick" "packages_wf L P rows"
  shows "if \<forall>h. count_list hs h \<le> length (owned h rows)
    then \<exists>ks rows' taken. get_key_packages_answer L P pick hs rows = (Some ks, rows')
      \<and> map (unverified_spki_hash L) ks = map Ok hs \<and> check_key_packages L hs (Some ks) = Ok ks
      \<and> mset rows = mset rows' + mset taken \<and> map (\<lambda>t. decode P (kpr_data t)) taken = map Ok ks
      \<and> packages_wf L P rows'
    else get_key_packages_answer L P pick hs rows = (None, rows)"
proof -
  note spec = take_key_packages_spec [OF assms(1,2), of hs]
  show ?thesis
  proof (cases "enough hs rows")
    case True
    then obtain ks rows' taken where t: "take_key_packages L P pick hs rows = (Ok ks, rows')" "packages_wf L P rows'"
        "map (unverified_spki_hash L) ks = map Ok hs" "mset rows = mset rows' + mset taken"
        "map (\<lambda>t. decode P (kpr_data t)) taken = map Ok ks"
      using spec by auto
    have "check_key_packages L hs (Some ks) = Ok ks"
      unfolding check_key_packages_Ok_iff t(3) by (simp add: collect_results_map_Ok)
    moreover have "get_key_packages_answer L P pick hs rows = (Some ks, rows')"
      using t(1) by (simp add: get_key_packages_answer_def get_key_packages_def)
    ultimately show ?thesis using True t(2-5) unfolding enough_def by auto
  next
    case False
    then have "get_key_packages_answer L P pick hs rows = (None, rows)"
      using spec by (cases "take_key_packages L P pick hs rows"; cases "fst (take_key_packages L P pick hs rows)")
        (simp_all add: get_key_packages_answer_def get_key_packages_def)
    then show ?thesis using False unfolding enough_def by simp
  qed
qed

theorem key_packages_served_witness:
  "\<exists>ks. get_key_packages_answer sample_mls sample_leaf_codec hd [SpkiHash [9]] [sample_package_row] = (Some ks, [])
    \<and> check_key_packages sample_mls [SpkiHash [9]] (Some ks) = Ok ks"
proof -
  have pick: "sql_pick_ok hd" by (simp add: sql_pick_ok_def)
  have "count_list [SpkiHash [9]] h \<le> length (owned h [sample_package_row])" for h
    by (cases h) (simp add: sample_package_row_def)
  with key_packages_served [OF pick sample_packages_wf, of "[SpkiHash [9]]"]
  obtain ks rows' taken where k: "get_key_packages_answer sample_mls sample_leaf_codec hd [SpkiHash [9]] [sample_package_row]
      = (Some ks, rows')" "check_key_packages sample_mls [SpkiHash [9]] (Some ks) = Ok ks"
      "map (unverified_spki_hash sample_mls) ks = map Ok [SpkiHash [9]]"
      "mset [sample_package_row] = mset rows' + mset taken"
      "map (\<lambda>t. decode sample_leaf_codec (kpr_data t)) taken = map Ok ks"
    by auto
  have "length ks = 1" using arg_cong [OF k(3), of length] by simp
  then have "length taken = 1" using arg_cong [OF k(5), of length] by simp
  then have "rows' = []" using arg_cong [OF k(4), of size] by simp
  then show ?thesis using k(1,2) by blast
qed

text \<open>An update that a session sends for its user, whether it succeeds or stops half way, adds
  key packages of this user only, touches no other user's record and removes messages only
  from this user's mailbox; if it succeeds, the record differs in the two stored states only.\<close>

theorem user_update_confined:
  assumes "codec_ok Pu" "codec_ok Pm" "db_wf (ms_db (ss_messages self))"
    "handle_state_update L E Pk Pu Pm kp_ids new_v4 user update self = (r, self')"
  shows "(\<exists>new. ss_key_packages self' = ss_key_packages self @ new \<and> (\<forall>row \<in> set new. kpr_spki row = spki_bytes user))
    \<and> filter (\<lambda>row. ur_spki row \<noteq> spki_bytes user) (ss_users self')
      = filter (\<lambda>row. ur_spki row \<noteq> spki_bytes user) (ss_users self)
    \<and> (\<forall>h. h \<noteq> user \<longrightarrow> mailbox_messages Pm (ms_db (ss_messages self)) h
        \<subseteq> mailbox_messages Pm (ms_db (ss_messages self')) h)
    \<and> (r = Ok () \<longrightarrow> (\<exists>u. get_user Pu user (ss_users self) = Ok (Some u)
        \<and> get_user Pu user (ss_users self') = Ok (Some
            (u \<lparr> su_mls_store := upd_mls_store update, su_persistent_data := upd_persistent_data update \<rparr>))))"
proof -
  obtain r1 packages where a: "add_user_key_packages L E Pk kp_ids user 0 (upd_key_packages update) (ss_key_packages self)
      = (r1, packages)" by fastforce
  have new: "\<exists>new. packages = ss_key_packages self @ new \<and> (\<forall>row \<in> set new. kpr_spki row = spki_bytes user)"
    using add_user_key_packages_owned [of L E Pk kp_ids user 0 "upd_key_packages update" "ss_key_packages self"] a by simp
  obtain r2 users where u: "update_mls_data Pu user (upd_mls_store update) (upd_persistent_data update) (ss_users self)
      = (r2, users)" by fastforce
  have others: "filter (\<lambda>row. ur_spki row \<noteq> spki_bytes user) users
      = filter (\<lambda>row. ur_spki row \<noteq> spki_bytes user) (ss_users self)"
    using update_mls_data_others [of user Pu "upd_mls_store update" "upd_persistent_data update" "ss_users self"] u by simp
  let ?ms = "on_db (aknowledge_messages user (upd_aknowledged update)) (ss_messages self)"
  obtain r3 pp ms where m: "process_user_messages L E Pm new_v4 user 0 (upd_messages update) (ss_groups self, ?ms)
      = (r3, pp, ms)" by (metis prod.collapse)
  have "mailboxes_grow Pm ?ms ms"
    using process_user_messages_grows [OF assms(2), of ?ms L E new_v4 user 0 "upd_messages update" "ss_groups self"] m by simp
  then have boxes: "mailbox_messages Pm (ms_db (ss_messages self)) h \<subseteq> mailbox_messages Pm (ms_db ms) h" if "h \<noteq> user" for h
    using ack_keeps_others(1) [OF assms(3)] ack_keeps_others(2) [OF assms(3) that, of Pm "upd_aknowledged update", symmetric]
    by (simp add: mailboxes_grow_def)
  show ?thesis
  proof (cases "is_ok r1 \<and> is_ok r2")
    case True
    then have s: "r = r3" "self' = self \<lparr> ss_key_packages := packages, ss_users := users, ss_messages := ms, ss_groups := pp \<rparr>"
      using assms(4) a u m by (auto simp: handle_state_update_def is_ok_iff)
    have "r2 = Ok ()" using True by (auto simp: is_ok_iff)
    with update_mls_data_Ok [OF assms(1)] u show ?thesis using s new others boxes by simp
  next
    case False
    then have "r \<noteq> Ok () \<and> (self' = self \<lparr> ss_key_packages := packages \<rparr>
        \<or> self' = self \<lparr> ss_key_packages := packages, ss_users := users \<rparr>)"
      using assms(4) a u by (cases r1; cases r2) (auto simp: handle_state_update_def)
    then show ?thesis using new others by auto
  qed
qed

theorem user_update_confined_witness:
  "\<exists>ts r self'. handle_state_update sample_mls (sample_env ts) sample_leaf_codec sample_user_codec
      sample_message_codec id (\<lambda>_. id) (SpkiHash [7]) sample_update sample_server_state = (r, self')
    \<and> get_user sample_user_codec (SpkiHash [7]) (ss_users self') = Ok (Some (sample_user \<lparr> su_mls_store := [5] \<rparr>))"
proof -
  fix ts
  obtain r self' where h: "handle_state_update sample_mls (sample_env ts) sample_leaf_codec sample_user_codec
      sample_message_codec id (\<lambda>_. id) (SpkiHash [7]) sample_update sample_server_state = (r, self')" by fastforce
  have r: "r = Ok ()"
    using h by (auto simp: handle_state_update_def sample_update_def sample_server_state_def update_mls_data_def
        get_user_def decode_user_def sample_user_codec_def sample_user_def)
  have wf: "db_wf (ms_db (ss_messages sample_server_state))"
    by (simp add: sample_server_state_def message_store_open_def db_wf_def)
  from user_update_confined [OF sample_user_codec_ok sample_message_codec_ok wf h] r
  obtain u where u: "get_user sample_user_codec (SpkiHash [7]) (ss_users sample_server_state) = Ok (Some u)"
      "get_user sample_user_codec (SpkiHash [7]) (ss_users self')
        = Ok (Some (u \<lparr> su_mls_store := [5], su_persistent_data := [] \<rparr>))"
    by (auto simp: sample_update_def)
  have "u = sample_user"
    using u(1) by (simp add: sample_server_state_def get_user_def decode_user_def sample_user_codec_def sample_user_def)
  then show ?thesis using h u(2) by (simp add: sample_user_def) blast
qed

end
