(* ===== verification/Login.thy ===== *)
theory Login
  imports AucPace ServerStores
begin

text \<open>
  Logging in with user name, password and one-time code
  (\<^verbatim>\<open>svalin/src/shared/commands/login.rs\<close>): the handler of the server, which ends with a
  session certificate in its session store, and the dispatcher of the client, which ends with
  a device credential and the trust store. The exchange is the strong variant of the
  \<^verbatim>\<open>aucpace\<close> crate (parameter \<^verbatim>\<open>pake\<close>), bound to a TLS connection between temporary
  certificates. \<^verbatim>\<open>totp_check\<close> is the check of the \<^verbatim>\<open>totp_rs\<close> crate at the current time.
\<close>

section \<open>Messages\<close>

type_synonym totp_check = "bytes \<Rightarrow> str \<Rightarrow> bool"

text \<open>What a stored user has for logging in.\<close>

record ('pt, 'sc) login_data =
  ld_key_params :: argon_params
  ld_totp_secret :: bytes
  ld_secret_exponent :: 'sc
  ld_params :: params_string
  ld_verifier :: 'pt
  ld_trust_store :: exported_store
  ld_trust_store_digest :: "chain_digest encrypted_object"

record login_approval =
  la_credentials :: encrypted_credential
  la_key_params :: argon_params
  la_root_cert :: unverified_certificate
  la_server_cert :: unverified_certificate
  la_trust_store :: exported_store
  la_trust_store_digest :: "chain_digest encrypted_object"

record 'pt strong_username =
  sun_username :: bytes
  sun_blinded :: 'pt

fun strong_username_from_client :: "'pt client_message \<Rightarrow> ('pt strong_username, message_transform_error) result" where
  "strong_username_from_client (CmStrongUsername username blinded) = Ok \<lparr> sun_username = username, sun_blinded = blinded \<rparr>"
| "strong_username_from_client _ = Err WrongInputVariant"

record 'pt strong_client_info =
  sci_group :: str
  sci_x_pub :: 'pt
  sci_blinded_salt :: 'pt
  sci_hash_params :: params_string

fun strong_client_info_from_server :: "'pt server_message \<Rightarrow> ('pt strong_client_info, message_transform_error) result" where
  "strong_client_info_from_server (SmStrongAugmentationInfo grp x_pub blinded_salt pbkdf_params) =
    Ok \<lparr> sci_group = grp, sci_x_pub = x_pub, sci_blinded_salt = blinded_salt, sci_hash_params = pbkdf_params \<rparr>"
| "strong_client_info_from_server _ = Err WrongInputVariant"

record 'pt login_codecs =
  lc_pake :: "'pt pake_codecs"
  lc_username :: "'pt strong_username codec"
  lc_info :: "'pt strong_client_info codec"
  lc_totp :: "str codec"
  lc_flag :: "bool codec"
  lc_approval :: "login_approval codec"
  lc_certificate :: "unverified_certificate codec"
  lc_result :: "unit option codec"

section \<open>The server\<close>

datatype login_handler_error =
    LhWrite object_error
  | LhRead object_error
  | LhTempCredentials create_credentials_error
  | LhTls tls_setup_error
  | LhDeriveKey string
  | LhTransform message_transform_error
  | LhAucPace string
  | LhAuthenticate string
  | LhUserStore user_store_error
  | LhUnknownUser
  | LhTotp
  | LhIssuerMismatch
  | LhPushParent add_certificate_error
  | LhCompleteChain complete_cert_chain_error
  | LhVerifyChain verify_chain_error
  | LhSessionStore add_session_error

record ('pt, 'sc, 'm, 's) login_handler =
  lh_trust_store :: trust_store
  lh_users :: "user_row list"
  lh_user_codec :: "(('pt, 'sc) login_data, 'm, 's) stored_user codec"
  lh_root_cert :: root_certificate
  lh_server_cert :: certificate

text \<open>The random values of one side, and its clock when it verifies the other side's chain or
  certificate.\<close>

record login_draws =
  ln_tls_nonce :: bytes
  ln_temp :: temp_draws
  ln_nonce :: bytes
  ln_rand1 :: bytes
  ln_rand2 :: bytes
  ln_preshared :: temp_draws
  ln_now :: u64

text \<open>\<^verbatim>\<open>lookup_verifier_strong\<close>: an error of the store is logged and counts as no user.\<close>

definition lookup_verifier_strong ::
  "(('pt, 'sc) login_data, 'm, 's) stored_user codec \<Rightarrow> user_row list \<Rightarrow> bytes \<Rightarrow> ('pt \<times> 'sc \<times> params_string) option" where
  "lookup_verifier_strong P rows username =
    (case get_user_by_username P username rows of
       Ok (Some user) \<Rightarrow> Some (ld_verifier (su_login user), ld_secret_exponent (su_login user), ld_params (su_login user))
     | _ \<Rightarrow> None)"

text \<open>The first connection is encrypted, but nobody has proved anything; its exported key material
  goes into the exchange.\<close>

definition login_connection ::
  "tls_libs \<Rightarrow> tls_role \<Rightarrow> (create_credentials_error \<Rightarrow> 'e) \<Rightarrow> (tls_setup_error \<Rightarrow> 'e) \<Rightarrow> (string \<Rightarrow> 'e)
    \<Rightarrow> login_draws \<Rightarrow> bytes \<Rightarrow> (bytes, 'e) result script" where
  "login_connection L role E1 E2 E3 d tls_combined_nonce =
    then_script (lift_result (map_err E1 (generate_temporary (lib_crypto L) (lib_rcgen L)
      (td_now1 (ln_temp d)) (td_now2 (ln_temp d)) (td_keypair (ln_temp d))))) (\<lambda>temp_credentials.
    then_script (map_err_script E2 (tls_transport (lib_crypto L) role skip_verification temp_credentials)) (\<lambda>(_, channel).
    lift_result (map_err E3 (tls_derive_key channel (utf8 ''login'') tls_combined_nonce))))"

definition login_server_tunnel ::
  "('s, 'c, 'pt, 'sc) pake \<Rightarrow> tls_libs \<Rightarrow> 'pt login_codecs \<Rightarrow> login_draws \<Rightarrow> ('pt, 'sc, 'm, 'd) login_handler
    \<Rightarrow> (bytes, login_handler_error) result script" where
  "login_server_tunnel P L J d self =
    (let K = lc_pake J in
    then_script (put_object LhWrite (nonce_codec K) (ln_tls_nonce d)) (\<lambda>_.
    then_script (get_object LhRead (nonce_codec K)) (\<lambda>tls_client_nonce.
    then_script (login_connection L TlsServerRole LhTempCredentials LhTls LhDeriveKey d
      (nonce_combine (ln_tls_nonce d) tls_client_nonce)) (\<lambda>key_material.
    case server_begin P (ln_nonce d) of (pake_server, server_nonce) \<Rightarrow>
    then_script (lift_result (map_err LhTransform (nonce_from_server server_nonce))) (\<lambda>server_nonce.
    then_script (put_object LhWrite (nonce_codec K) server_nonce) (\<lambda>_.
    then_script (get_object LhRead (nonce_codec K)) (\<lambda>client_nonce.
    then_script (get_object LhRead (lc_username J)) (\<lambda>strong_username.
    then_script (lift_result (map_err LhAucPace (generate_client_info_strong P (server_agree_ssid P pake_server client_nonce)
      (sun_username strong_username) (sun_blinded strong_username)
      (lookup_verifier_strong (lh_user_codec self) (lh_users self)) (ln_rand1 d)))) (\<lambda>(pake_server, info).
    then_script (lift_result (map_err LhTransform (strong_client_info_from_server info))) (\<lambda>info.
    let info = (if sci_hash_params info = [] then info \<lparr> sci_hash_params := params_of_cost argon_cost_strong \<rparr> else info) in
    then_script (put_object LhWrite (lc_info J) info) (\<lambda>_.
    case server_public_key P pake_server key_material of (pake_server, server_key) \<Rightarrow>
    then_script (lift_result (map_err LhTransform (public_key_from_server server_key))) (\<lambda>server_key.
    then_script (put_object LhWrite (public_key_codec K) server_key) (\<lambda>_.
    then_script (get_object LhRead (public_key_codec K)) (\<lambda>client_key.
    then_script (lift_result (map_err LhAucPace (receive_client_pubkey P pake_server client_key))) (\<lambda>pake_server.
    then_script (get_object LhRead (authenticator_codec K)) (\<lambda>client_authenticator.
    case receive_client_authenticator P pake_server client_authenticator of
      Ok (key, server_authenticator) \<Rightarrow>
        then_script (lift_result (map_err LhTransform (authenticator_from_server server_authenticator))) (\<lambda>server_authenticator.
        then_script (put_object LhWrite (authenticator_result_codec K) (Some server_authenticator)) (\<lambda>_.
        then_script (map_err_script LhTls (tls_server_preshared L (ln_preshared d) (EncryptionKey (key_to_array key)))) (\<lambda>_.
        lift_result (Ok (sun_username strong_username)))))
    | Err err \<Rightarrow>
        then_script (put_object LhWrite (authenticator_result_codec K) None) (\<lambda>_.
        Finish (Err (LhAuthenticate err)))
    | Panicked \<Rightarrow> Finish Panicked))))))))))))))))"

text \<open>Declining a session certificate: the send may fail unnoticed.\<close>

definition decline_session :: "'pt login_codecs \<Rightarrow> login_handler_error \<Rightarrow> ('a, login_handler_error) result script" where
  "decline_session J err =
    bind_script (put_object LhWrite (lc_result J) None) (\<lambda>_. Finish (Err err))"

definition login_approval_of ::
  "('pt, 'sc, 'm, 'd) login_handler \<Rightarrow> (('pt, 'sc) login_data, 'm, 'd) stored_user \<Rightarrow> login_approval" where
  "login_approval_of self user = \<lparr>
     la_credentials = su_credential user,
     la_key_params = ld_key_params (su_login user),
     la_root_cert = root_as_unverified (lh_root_cert self),
     la_server_cert = as_unverified (lh_server_cert self),
     la_trust_store = ld_trust_store (su_login user),
     la_trust_store_digest = ld_trust_store_digest (su_login user) \<rparr>"

definition login_certify ::
  "tls_libs \<Rightarrow> 'pt login_codecs \<Rightarrow> totp_check \<Rightarrow> u64 \<Rightarrow> ('pt, 'sc, 'm, 'd) login_handler \<Rightarrow> bytes
    \<Rightarrow> (certificate, login_handler_error) result script" where
  "login_certify L J totp_check now self username =
    then_script (lift_result (map_err LhUserStore (get_user_by_username (lh_user_codec self) username (lh_users self)))) (\<lambda>found.
    then_script (lift_result (ok_or LhUnknownUser found)) (\<lambda>user.
    then_script (get_object LhRead (lc_totp J)) (\<lambda>totp.
    let totp_success = totp_check (ld_totp_secret (su_login user)) totp in
    then_script (put_object LhWrite (lc_flag J) totp_success) (\<lambda>_.
    then_script (lift_result (ensure totp_success LhTotp)) (\<lambda>_.
    let user_cert = enc_certificate (su_credential user) in
    then_script (put_object LhWrite (lc_approval J) (login_approval_of self user)) (\<lambda>_.
    then_script (get_object LhRead (lc_certificate J)) (\<lambda>session_certificate.
    if issuer session_certificate \<noteq> spki_hash user_cert then decline_session J LhIssuerMismatch
    else
      (case push_parent (builder_new session_certificate) user_cert of
         (Err err, _) \<Rightarrow> decline_session J (LhPushParent err)
       | (Panicked, _) \<Rightarrow> Finish Panicked
       | (Ok _, chain_builder) \<Rightarrow>
          (case complete_certificate_chain (lh_trust_store self) chain_builder of
             Err err \<Rightarrow> decline_session J (LhCompleteChain err)
           | Panicked \<Rightarrow> Finish Panicked
           | Ok session_chain \<Rightarrow>
              (case chain_verify (lib_crypto L) session_chain (lh_root_cert self) now of
                 Err err \<Rightarrow> decline_session J (LhVerifyChain err)
               | Panicked \<Rightarrow> Finish Panicked
               | Ok session_chain \<Rightarrow> lift_result (take_leaf session_chain)))))))))))"

definition login_handle ::
  "('s, 'c, 'pt, 'sc) pake \<Rightarrow> tls_libs \<Rightarrow> 'pt login_codecs \<Rightarrow> totp_check \<Rightarrow> login_draws \<Rightarrow> ('pt, 'sc, 'm, 'd) login_handler
    \<Rightarrow> session_store \<Rightarrow> ((unit, login_handler_error) result \<times> session_store) script" where
  "login_handle P L J totp_check d self sessions =
    bind_script (then_script (login_server_tunnel P L J d self) (login_certify L J totp_check (ln_now d) self)) (\<lambda>r.
    case r of
      Err e \<Rightarrow> Finish (Err e, sessions)
    | Panicked \<Rightarrow> Finish (Panicked, sessions)
    | Ok leaf \<Rightarrow>
       (case add_session sessions leaf of (store_result, sessions) \<Rightarrow>
        bind_script (put_object LhWrite (lc_result J) (if is_ok store_result then Some () else None)) (\<lambda>send_result.
        Finish (and_then (map_err LhSessionStore store_result) (\<lambda>_. send_result), sessions))))"

section \<open>The client\<close>

datatype login_dispatcher_error =
    WriteClientNonceError object_error
  | ReadServerNonceError object_error
  | TempCredentialError create_credentials_error
  | TlsClientError tls_setup_error
  | LdDeriveKeyError string
  | LdMessageTransformError message_transform_error
  | WriteUsernameError object_error
  | ReadClientInfoError object_error
  | ChannelRecvError
  | LdJoinError
  | ParamsParseError params_string_parse_error
  | LdAucPaceError string
  | ClientPublicKeyWriteError object_error
  | ServerPublicKeyReadError object_error
  | ClientAuthenticatorWriteError object_error
  | ServerAuthenticatorReadError object_error
  | LdDecryptError decrypt_error
  | WriteTotpError object_error
  | ReadTotpResponseError object_error
  | InvalidTotp
  | ReadSuccessError object_error
  | WrongPassword
  | LdDecodeCredentialsError decode_credentials_error
  | CreateSessionError create_credentials_error
  | WriteSessionError object_error
  | ReadSessionResultError object_error
  | SessionSubmitError
  | RootCert use_as_root_error
  | LdVerifyUpstreamCertError signature_verification_error
  | DeriveEncryptionKeyError derive_key_error
  | TrustStoreImport "inner_import_error chain_import_error"
  | TrustStoreDigestMismatch

record login_success =
  ls_device_credential :: credential
  ls_root_cert :: root_certificate
  ls_server_cert :: certificate
  ls_trust_store :: trust_store

text \<open>Reading the stored keys: the password hash, the serializers of what is stored encrypted, and what is
  drawn for the device credential.\<close>

record login_env =
  le_argon2 :: argon2
  le_saved_codec :: "saved_keypair codec"
  le_digest_codec :: "chain_digest codec"
  le_now1 :: int
  le_now2 :: int
  le_keypair :: keypair

text \<open>The part that runs in a task of its own, with its channels: a failure before the user name is sent
  is seen as a closed channel, a panic as a join error.\<close>

definition augmentation_join :: "('a, login_dispatcher_error) result \<Rightarrow> ('a, login_dispatcher_error) result" where
  "augmentation_join r = (case r of Panicked \<Rightarrow> Err LdJoinError | _ \<Rightarrow> r)"

definition login_client_tunnel ::
  "('s, 'c, 'pt, 'sc) pake \<Rightarrow> tls_libs \<Rightarrow> 'pt login_codecs \<Rightarrow> login_draws \<Rightarrow> bytes \<Rightarrow> bytes
    \<Rightarrow> (unit, login_dispatcher_error) result script" where
  "login_client_tunnel P L J d username password =
    (let K = lc_pake J in
    then_script (put_object WriteClientNonceError (nonce_codec K) (ln_tls_nonce d)) (\<lambda>_.
    then_script (get_object ReadServerNonceError (nonce_codec K)) (\<lambda>tls_server_nonce.
    then_script (login_connection L TlsClientRole TempCredentialError TlsClientError LdDeriveKeyError d
      (nonce_combine tls_server_nonce (ln_tls_nonce d))) (\<lambda>key_material.
    case client_begin P (ln_nonce d) of (client, client_nonce) \<Rightarrow>
    then_script (lift_result (map_err LdMessageTransformError (nonce_from_client client_nonce))) (\<lambda>client_nonce.
    then_script (put_object WriteClientNonceError (nonce_codec K) client_nonce) (\<lambda>_.
    then_script (get_object ReadServerNonceError (nonce_codec K)) (\<lambda>server_nonce.
    case start_augmentation_strong P (client_agree_ssid P client server_nonce) username password (ln_rand1 d) of
      (client, strong_username) \<Rightarrow>
    then_script (lift_result (map_err (\<lambda>_. ChannelRecvError) (strong_username_from_client strong_username))) (\<lambda>strong_username.
    then_script (put_object WriteUsernameError (lc_username J) strong_username) (\<lambda>_.
    then_script (get_object ReadClientInfoError (lc_info J)) (\<lambda>info.
    then_script (lift_result (augmentation_join
      (and_then (map_err ParamsParseError (cost_of_params (sci_hash_params info))) (\<lambda>hasher.
       map_err LdAucPaceError (generate_cpace_strong P client (sci_x_pub info) (sci_blinded_salt info) hasher))))) (\<lambda>client.
    case client_public_key P client key_material (ln_rand2 d) of (client, client_key) \<Rightarrow>
    then_script (lift_result (map_err LdMessageTransformError (public_key_from_client client_key))) (\<lambda>client_key.
    then_script (put_object ClientPublicKeyWriteError (public_key_codec K) client_key) (\<lambda>_.
    then_script (get_object ServerPublicKeyReadError (public_key_codec K)) (\<lambda>server_key.
    then_script (lift_result (map_err LdAucPaceError (receive_server_pubkey P client server_key))) (\<lambda>(client, client_authenticator).
    then_script (lift_result (map_err LdMessageTransformError (authenticator_from_client client_authenticator))) (\<lambda>client_authenticator.
    then_script (put_object ClientAuthenticatorWriteError (authenticator_codec K) client_authenticator) (\<lambda>_.
    then_script (get_object ServerAuthenticatorReadError (authenticator_result_codec K)) (\<lambda>answer.
    then_script (lift_result (ok_or WrongPassword answer)) (\<lambda>server_authenticator.
    then_script (lift_result (map_err LdAucPaceError (receive_server_authenticator P client server_authenticator))) (\<lambda>key.
    then_script (map_err_script TlsClientError (tls_client_preshared L (ln_preshared d) (EncryptionKey (key_to_array key)))) (\<lambda>_.
    lift_result (Ok ()))))))))))))))))))))))"

text \<open>What is checked of the approval after the server has stored the session.\<close>

definition login_finish ::
  "tls_libs \<Rightarrow> login_env \<Rightarrow> u64 \<Rightarrow> login_approval \<Rightarrow> encryption_key \<Rightarrow> credential
    \<Rightarrow> (login_success, login_dispatcher_error) result" where
  "login_finish L N now approval key device_credential =
    and_then (map_err RootCert (use_as_root (la_root_cert approval))) (\<lambda>root_cert.
    and_then (map_err LdVerifyUpstreamCertError
      (verify_signature (lib_crypto L) (la_server_cert approval) (as_certificate root_cert) now)) (\<lambda>server_cert.
    and_then (map_err TrustStoreImport (trust_store_import (lib_crypto L) (la_trust_store approval))) (\<lambda>trust_store.
    and_then (map_err LdDecryptError
      (decrypt_object (lib_aead L) (le_digest_codec N) (la_trust_store_digest approval) key)) (\<lambda>digest.
    if trust_store_digest (lib_crypto L) trust_store \<noteq> digest then Err TrustStoreDigestMismatch
    else Ok \<lparr> ls_device_credential = device_credential, ls_root_cert = root_cert, ls_server_cert = server_cert,
      ls_trust_store = trust_store \<rparr>))))"

definition login_enter ::
  "tls_libs \<Rightarrow> 'pt login_codecs \<Rightarrow> login_env \<Rightarrow> u64 \<Rightarrow> bytes \<Rightarrow> str \<Rightarrow> (login_success, login_dispatcher_error) result script" where
  "login_enter L J N now password totp =
    then_script (put_object WriteTotpError (lc_totp J) totp) (\<lambda>_.
    then_script (get_object ReadTotpResponseError (lc_flag J)) (\<lambda>totp_success.
    then_script (lift_result (ensure totp_success InvalidTotp)) (\<lambda>_.
    then_script (get_object ReadSuccessError (lc_approval J)) (\<lambda>approval.
    then_script (lift_result (map_err DeriveEncryptionKeyError
      (derive_encryption_key (le_argon2 N) (la_key_params approval) password))) (\<lambda>key.
    then_script (lift_result (map_err LdDecodeCredentialsError
      (credential_decrypt (lib_crypto L) (lib_aead L) (le_saved_codec N) (lib_rcgen L) (la_credentials approval) key))) (\<lambda>user_credential.
    then_script (lift_result (map_err CreateSessionError
      (create_user_device_credential (lib_crypto L) (lib_rcgen L) (le_now1 N) (le_now2 N) user_credential (le_keypair N)))) (\<lambda>device_credential.
    then_script (put_object WriteSessionError (lc_certificate J) (as_unverified (cred_certificate device_credential))) (\<lambda>_.
    then_script (get_object ReadSessionResultError (lc_result J)) (\<lambda>session_result.
    then_script (lift_result (ok_or SessionSubmitError session_result)) (\<lambda>_.
    lift_result (login_finish L N now approval key device_credential)))))))))))"

definition login_dispatch ::
  "('s, 'c, 'pt, 'sc) pake \<Rightarrow> tls_libs \<Rightarrow> 'pt login_codecs \<Rightarrow> login_draws \<Rightarrow> login_env \<Rightarrow> bytes \<Rightarrow> bytes \<Rightarrow> str
    \<Rightarrow> (login_success, login_dispatcher_error) result script" where
  "login_dispatch P L J d N username password totp =
    then_script (login_client_tunnel P L J d username password) (\<lambda>_.
    login_enter L J N (ln_now d) password totp)"

section \<open>Lemmas on the client\<close>

lemma login_finish_Ok_iff:
  "login_finish L N now approval key device = Ok success \<longleftrightarrow>
    use_as_root (la_root_cert approval) = Ok (ls_root_cert success)
    \<and> verify_signature (lib_crypto L) (la_server_cert approval) (as_certificate (ls_root_cert success)) now = Ok (ls_server_cert success)
    \<and> trust_store_import (lib_crypto L) (la_trust_store approval) = Ok (ls_trust_store success)
    \<and> decrypt_object (lib_aead L) (le_digest_codec N) (la_trust_store_digest approval) key
        = Ok (trust_store_digest (lib_crypto L) (ls_trust_store success))
    \<and> ls_device_credential success = device"
  by (cases success) (auto simp: login_finish_def result_simps split: if_splits)

text \<open>A login can succeed with an approval exactly if the approval passes the checks, and some key is
  derived from the password that opens it.\<close>

definition approval_opens ::
  "tls_libs \<Rightarrow> 'pt login_codecs \<Rightarrow> login_env \<Rightarrow> bytes \<Rightarrow> login_approval \<Rightarrow> encryption_key \<Rightarrow> credential \<Rightarrow> credential \<Rightarrow> bool" where
  "approval_opens L J N password approval key user_credential device \<longleftrightarrow>
    derive_encryption_key (le_argon2 N) (la_key_params approval) password = Ok key
    \<and> credential_decrypt (lib_crypto L) (lib_aead L) (le_saved_codec N) (lib_rcgen L) (la_credentials approval) key = Ok user_credential
    \<and> create_user_device_credential (lib_crypto L) (lib_rcgen L) (le_now1 N) (le_now2 N) user_credential (le_keypair N) = Ok device
    \<and> is_ok (encode (lc_certificate J) (as_unverified (cred_certificate device)))"

lemma login_enter_Ok_iff:
  "may_end (login_enter L J N now password totp) (Ok success) \<longleftrightarrow>
    is_ok (encode (lc_totp J) totp) \<and> (\<exists>b. decode (lc_flag J) b = Ok True) \<and> (\<exists>b. decode (lc_result J) b = Ok (Some ()))
    \<and> (\<exists>approval key user_credential device. (\<exists>b. decode (lc_approval J) b = Ok approval)
        \<and> approval_opens L J N password approval key user_credential device
        \<and> login_finish L N now approval key device = Ok success)"
  unfolding login_enter_def may_end_ok may_end_lift_Ok approval_opens_def map_err_Ok_iff ensure_Ok_iff ok_or_Ok_iff is_ok_iff
  by (simp add: ex_bool_eq) blast

section \<open>Lemmas on the server\<close>

text \<open>Completing a chain only adds certificates behind those that the builder has.\<close>

lemma complete_loop_extends:
  "complete_loop ts b = Ok b' \<Longrightarrow> \<exists>more. builder_certificates b' = builder_certificates b @ more"
proof (induction ts b rule: complete_loop.induct)
  case (1 ts b)
  show ?case
  proof (cases "requested_issuer b :: (spki_hash option, complete_cert_chain_error) result")
    case (Ok req)
    show ?thesis
    proof (cases req)
      case None
      then show ?thesis using 1(2) Ok by (subst (asm) complete_loop.simps) simp
    next
      case (Some k)
      then obtain p where p: "trust_store_get ts k = Some p"
        using 1(2) Ok by (subst (asm) complete_loop.simps) (auto split: option.splits)
      obtain r b2 where push: "push_parent b (as_unverified p) = (r, b2)" by fastforce
      have r: "r = Ok ()" and loop: "complete_loop ts b2 = Ok b'"
        using 1(2) Ok Some p push by (subst (asm) complete_loop.simps; cases r; simp)+
      have "\<exists>more. builder_certificates b' = builder_certificates b2 @ more"
        using 1(1) [OF Ok Some p push [symmetric] r loop] .
      moreover have "builder_certificates b2 = builder_certificates b @ [as_unverified p]"
        using push r by (auto simp: push_parent_def split: option.splits if_splits)
      ultimately show ?thesis by auto
    qed
  qed (use 1(2) in \<open>subst (asm) complete_loop.simps; simp\<close>)+
qed

lemma successively_last2: "successively R (xs @ [a, b]) \<Longrightarrow> R a b"
  by (simp add: successively_append_iff)

text \<open>The leaf of a verified chain that was built from a certificate and its issuer.\<close>

lemma session_chain_leaf:
  assumes "push_parent (builder_new c) u = (Ok (), b)" "complete_certificate_chain ts b = Ok chain"
    "chain_verify C chain root t = Ok verified" "take_leaf verified = Ok leaf"
  shows "leaf = Certificate c \<and> (\<exists>parent. der (as_unverified parent) = der u \<and> verify_signature C c parent t = Ok leaf)"
proof -
  have b: "builder_certificates b = [c, u]"
    using assms(1) by (auto simp: push_parent_def builder_new_def split: if_splits)
  obtain b' where b': "complete_loop ts b = Ok b'" "finish b' = Ok chain"
    using assms(2) by (auto simp: complete_certificate_chain_def result_simps)
  obtain more where "builder_certificates b' = c # u # more"
    using complete_loop_extends [OF b'(1)] b by auto
  then have us: "unverified_certificates chain = rev more @ [u, c]"
    using b'(2) by (auto simp: finish_def result_simps split: if_splits)
  obtain vs where vs: "verified = CertificateChain vs" by (cases verified)
  have *: "der (hd (rev more @ [u, c])) = der (root_as_unverified root)"
      "vs = as_certificate root # map Certificate (tl (rev more @ [u, c]))"
      "successively (signed_step C t) vs"
    using assms(3) unfolding chain_verify_Ok_iff us vs by (auto simp: cert_eq_def)
  have leaf: "leaf = last vs" using assms(4) *(2) by (auto simp: take_leaf_def vs last_opt_Some)
  show ?thesis
  proof (cases more rule: rev_cases)
    case Nil
    then show ?thesis using * leaf by (auto simp: signed_step_def intro!: exI [of _ "as_certificate root"])
  next
    case (snoc ms m)
    then have "vs = (as_certificate root # map Certificate (rev ms)) @ [Certificate u, Certificate c]" using *(2) by simp
    note vs' = this
    have "signed_step C t (Certificate u) (Certificate c)" by (rule successively_last2 [OF *(3) [unfolded vs']])
    moreover have "leaf = Certificate c" using leaf vs' by simp
    ultimately show ?thesis by (auto simp: signed_step_def intro!: exI [of _ "Certificate u"])
  qed
qed

text \<open>The exchange on the server: the authenticator was accepted against what the store has for the user
  name.\<close>

definition server_authenticated ::
  "('s, 'c, 'pt, 'sc) pake \<Rightarrow> login_draws \<Rightarrow> ('pt, 'sc, 'm, 'd) login_handler \<Rightarrow> bytes \<Rightarrow> bytes \<Rightarrow> bool" where
  "server_authenticated P d self username key \<longleftrightarrow>
    (\<exists>client_nonce blinded key_material client_key authenticator s0 m0 s1 m1 s2 m2 s3 m3.
      server_begin P (ln_nonce d) = (s0, m0)
      \<and> generate_client_info_strong P (server_agree_ssid P s0 client_nonce) username blinded
          (lookup_verifier_strong (lh_user_codec self) (lh_users self)) (ln_rand1 d) = Ok (s1, m1)
      \<and> server_public_key P s1 key_material = (s2, m2)
      \<and> receive_client_pubkey P s2 client_key = Ok s3
      \<and> receive_client_authenticator P s3 authenticator = Ok (key, m3))"

lemma accept_tail_Ok:
  assumes "may_end (case r of
      Ok (key, server_authenticator) \<Rightarrow>
        then_script (lift_result (map_err LhTransform (authenticator_from_server server_authenticator))) (\<lambda>server_authenticator.
        then_script (put_object LhWrite K (Some server_authenticator)) (\<lambda>_.
        then_script (map_err_script LhTls (T key)) (\<lambda>_. lift_result (Ok username))))
    | Err err \<Rightarrow> then_script (put_object LhWrite K None) (\<lambda>_. Finish (Err (LhAuthenticate err)))
    | Panicked \<Rightarrow> Finish Panicked) (Ok u)"
  shows "\<exists>key m peer. u = username \<and> r = Ok (key, m) \<and> may_end (T key) (Ok peer)"
  using assms by (fastforce simp: may_end_case_result may_end_then_Ok may_end_lift_Ok may_end_map_err_Ok)

lemma login_server_tunnel_Ok:
  assumes "may_end (login_server_tunnel P L J d self) (Ok username)"
  shows "\<exists>key peer. server_authenticated P d self username key
    \<and> may_end (tls_server_preshared L (ln_preshared d) (EncryptionKey (key_to_array key))) (Ok peer)"
proof -
  obtain s0 m0 where start: "server_begin P (ln_nonce d) = (s0, m0)" by fastforce
  have "\<exists>client_nonce blinded info key_material client_key s3 authenticator key m3 peer.
      generate_client_info_strong P (server_agree_ssid P s0 client_nonce) username blinded
          (lookup_verifier_strong (lh_user_codec self) (lh_users self)) (ln_rand1 d) = Ok info
      \<and> receive_client_pubkey P (fst (server_public_key P (fst info) key_material)) client_key = Ok s3
      \<and> receive_client_authenticator P s3 authenticator = Ok (key, m3)
      \<and> may_end (tls_server_preshared L (ln_preshared d) (EncryptionKey (key_to_array key))) (Ok peer)"
    using assms
    unfolding login_server_tunnel_def Let_def may_end_then_Ok may_end_lift_Ok map_err_Ok_iff start prod.case may_end_prod
    by (elim exE conjE) (drule accept_tail_Ok, elim exE conjE, hypsubst, intro exI conjI, assumption+)
  then show ?thesis unfolding server_authenticated_def using start by (metis prod.collapse)
qed

text \<open>After that, a session certificate comes out only for the right one-time code, when the user's
  certificate has issued it.\<close>

lemma decline_session_not_Ok: "\<not> may_end (decline_session J e) (Ok x)"
  by (simp add: decline_session_def may_end_bind)

lemma login_certify_Ok:
  assumes "may_end (login_certify L J totp_check now self username) (Ok leaf)"
  obtains user totp cert parent where
    "get_user_by_username (lh_user_codec self) username (lh_users self) = Ok (Some user)"
    "totp_check (ld_totp_secret (su_login user)) totp"
    "leaf = Certificate cert" "issuer cert = spki_hash (enc_certificate (su_credential user))"
    "der (as_unverified parent) = der (enc_certificate (su_credential user))"
    "verify_signature (lib_crypto L) cert parent now = Ok leaf"
proof -
  from assms obtain user totp cert b chain verified where
      "get_user_by_username (lh_user_codec self) username (lh_users self) = Ok (Some user)"
      "totp_check (ld_totp_secret (su_login user)) totp"
      "issuer cert = spki_hash (enc_certificate (su_credential user))"
      "push_parent (builder_new cert) (enc_certificate (su_credential user)) = (Ok (), b)"
      "complete_certificate_chain (lh_trust_store self) b = Ok chain"
      "chain_verify (lib_crypto L) chain (lh_root_cert self) now = Ok verified"
      "take_leaf verified = (Ok leaf :: (certificate, login_handler_error) result)"
    unfolding login_certify_def Let_def may_end_then_Ok may_end_lift_Ok map_err_Ok_iff ok_or_Ok_iff ensure_Ok_iff
    by (elim exE conjE) (simp add: decline_session_not_Ok may_end_case_result may_end_lift_Ok split: if_splits prod.splits result.splits, metis)
  with session_chain_leaf [of cert "enc_certificate (su_credential user)" b "lh_trust_store self" chain "lib_crypto L" "lh_root_cert self" now
      verified leaf] show thesis using that by blast
qed

section \<open>Properties of the server\<close>

text \<open>C8. Whatever client it talks to, the login handler changes the session store in one way only: it
  adds one session certificate. For that the peer was authenticated against the verifier that
  is stored for the user name, has opened a tunnel under the agreed key, sent a right one-time
  code for that user, and the certificate names the user's certificate as issuer, and was
  signed with its key and valid at that time.\<close>

theorem login_adds_certified_session:
  assumes "may_end (login_handle P L J totp_check d self sessions) (r, sessions')" "sessions' \<noteq> sessions"
  shows "\<exists>username key peer user totp cert parent.
      server_authenticated P d self username key
    \<and> may_end (tls_server_preshared L (ln_preshared d) (EncryptionKey (key_to_array key))) (Ok peer)
    \<and> get_user_by_username (lh_user_codec self) username (lh_users self) = Ok (Some user)
    \<and> totp_check (ld_totp_secret (su_login user)) totp
    \<and> issuer cert = spki_hash (enc_certificate (su_credential user))
    \<and> der (as_unverified parent) = der (enc_certificate (su_credential user))
    \<and> verify_signature (lib_crypto L) cert parent (ln_now d) = Ok (Certificate cert)
    \<and> certificate_type cert = UserSession \<and> sessions' = sessions @ [session_row_of cert]"
proof -
  from assms(1) obtain leaf where leaf:
      "may_end (then_script (login_server_tunnel P L J d self) (login_certify L J totp_check (ln_now d) self)) (Ok leaf)"
      "sessions' = snd (add_session sessions leaf)"
    using assms(2) unfolding login_handle_def may_end_bind
    by (auto simp: may_end_case_result may_end_prod may_end_bind)
  then obtain username where u: "may_end (login_server_tunnel P L J d self) (Ok username)"
      "may_end (login_certify L J totp_check (ln_now d) self username) (Ok leaf)"
    unfolding may_end_then_Ok by blast
  from login_certify_Ok [OF u(2)] obtain user totp cert parent where c:
      "get_user_by_username (lh_user_codec self) username (lh_users self) = Ok (Some user)"
      "totp_check (ld_totp_secret (su_login user)) totp"
      "leaf = Certificate cert" "issuer cert = spki_hash (enc_certificate (su_credential user))"
      "der (as_unverified parent) = der (enc_certificate (su_credential user))"
      "verify_signature (lib_crypto L) cert parent (ln_now d) = Ok leaf" .
  have "certificate_type cert = UserSession \<and> sessions' = sessions @ [session_row_of cert]"
    using leaf(2) assms(2) c(3) by (auto simp: add_session_def Let_def session_row_of_def split: if_splits)
  then show ?thesis using login_server_tunnel_Ok [OF u(1)] c by blast
qed

section \<open>Properties of the client\<close>

text \<open>C9. Whatever server it talks to, a login that succeeds has a trust store whose digest is the one that
  was encrypted under the key that the password gives, and a device credential whose
  certificate was issued with the user's credential, which was decrypted with the same key.\<close>

theorem login_binds_trust_store:
  assumes "may_end (login_dispatch P L J d N username password totp) (Ok success)"
  shows "\<exists>(approval :: login_approval) key user_credential.
      derive_encryption_key (le_argon2 N) (la_key_params approval) password = Ok key
    \<and> decrypt_object (lib_aead L) (le_digest_codec N) (la_trust_store_digest approval) key
        = Ok (trust_store_digest (lib_crypto L) (ls_trust_store success))
    \<and> trust_store_import (lib_crypto L) (la_trust_store approval) = Ok (ls_trust_store success)
    \<and> credential_decrypt (lib_crypto L) (lib_aead L) (le_saved_codec N) (lib_rcgen L) (la_credentials approval) key = Ok user_credential
    \<and> create_user_device_credential (lib_crypto L) (lib_rcgen L) (le_now1 N) (le_now2 N) user_credential (le_keypair N)
        = Ok (ls_device_credential success)"
proof -
  from assms obtain approval key user_credential device where
      a: "approval_opens L J N password approval key user_credential device" "login_finish L N (ln_now d) approval key device = Ok success"
    unfolding login_dispatch_def may_end_then_Ok login_enter_Ok_iff by blast
  then show ?thesis
    by (auto simp: approval_opens_def login_finish_Ok_iff intro!: exI [of _ approval] exI [of _ key] exI [of _ user_credential])
qed

text \<open>The root and the server certificate of a successful login are tied to nothing: whoever answers can
  put any root certificate in their place, and any certificate that this root issued, and the
  login succeeds in the same way, with a trust store of another root.\<close>

theorem login_root_not_bound:
  assumes "may_end (login_dispatch P L J d N username password totp) (Ok success)"
    "\<forall>b approval. decode (lc_approval J) b = Ok approval \<longrightarrow> (\<exists>b'. decode (lc_approval J) b'
      = Ok (approval \<lparr> la_root_cert := root_as_unverified root, la_server_cert := as_unverified server \<rparr>))"
    "use_as_root (root_as_unverified root) = Ok root"
    "verify_signature (lib_crypto L) (as_unverified server) (as_certificate root) (ln_now d) = Ok server"
  shows "may_end (login_dispatch P L J d N username password totp)
    (Ok (success \<lparr> ls_root_cert := root, ls_server_cert := server \<rparr>))"
proof -
  from assms(1) obtain approval key user_credential device where
      a: "may_end (login_client_tunnel P L J d username password) (Ok ())" "is_ok (encode (lc_totp J) totp)"
        "\<exists>b. decode (lc_flag J) b = Ok True" "\<exists>b. decode (lc_result J) b = Ok (Some ())" "\<exists>b. decode (lc_approval J) b = Ok approval"
        "approval_opens L J N password approval key user_credential device" "login_finish L N (ln_now d) approval key device = Ok success"
    unfolding login_dispatch_def may_end_then_Ok login_enter_Ok_iff by (auto, blast)
  let ?approval = "approval \<lparr> la_root_cert := root_as_unverified root, la_server_cert := as_unverified server \<rparr>"
  have "approval_opens L J N password ?approval key user_credential device"
    using a(6) by (simp add: approval_opens_def)
  moreover have "login_finish L N (ln_now d) ?approval key device = Ok (success \<lparr> ls_root_cert := root, ls_server_cert := server \<rparr>)"
    using a(7) assms(3,4) by (simp add: login_finish_Ok_iff)
  moreover have "\<exists>b. decode (lc_approval J) b = Ok ?approval"
    using assms(2) a(5) by blast
  ultimately show ?thesis
    using a(1-4) unfolding login_dispatch_def may_end_then_Ok login_enter_Ok_iff by blast
qed

section \<open>Client and server together\<close>

text \<open>The message with which \<^verbatim>\<open>register_alloc_strong\<close> answers; the users in the store were registered
  with it.\<close>

datatype ('pt, 'sc) registration = StrongRegistration bytes 'sc params_string 'pt | OtherRegistration

type_synonym ('pt, 'sc) strong_register = "bytes \<Rightarrow> bytes \<Rightarrow> argon_cost \<Rightarrow> bytes \<Rightarrow> (('pt, 'sc) registration, string) result"

text \<open>The steps of a strong exchange up to the authenticator of the client, under one channel key.\<close>

definition strong_exchange ::
  "('s, 'c, 'pt, 'sc) pake \<Rightarrow> login_draws \<Rightarrow> login_draws \<Rightarrow> bytes \<Rightarrow> bytes \<Rightarrow> bytes \<Rightarrow> 'pt \<times> 'sc \<times> params_string
    \<Rightarrow> 's \<Rightarrow> 'c \<Rightarrow> bytes \<Rightarrow> bool" where
  "strong_exchange P dc ds key_material username pwc entry s c authenticator \<longleftrightarrow>
    (\<exists>s0 c0 s1 c1 c2 s2 c3 g x blinded_salt params hasher blinded yc ys.
      server_begin P (ln_nonce ds) = (s0, SmNonce (ln_nonce ds))
      \<and> client_begin P (ln_nonce dc) = (c0, CmNonce (ln_nonce dc))
      \<and> start_augmentation_strong P (client_agree_ssid P c0 (ln_nonce ds)) username pwc (ln_rand1 dc)
          = (c1, CmStrongUsername username blinded)
      \<and> (\<forall>db. db username = Some entry \<longrightarrow>
          generate_client_info_strong P (server_agree_ssid P s0 (ln_nonce dc)) username blinded db (ln_rand1 ds)
            = Ok (s1, SmStrongAugmentationInfo g x blinded_salt params))
      \<and> params \<noteq> [] \<and> cost_of_params params = Ok hasher
      \<and> generate_cpace_strong P c1 x blinded_salt hasher = Ok c2
      \<and> server_public_key P s1 key_material = (s2, SmPublicKey ys)
      \<and> client_public_key P c2 key_material (ln_rand2 dc) = (c3, CmPublicKey yc)
      \<and> receive_client_pubkey P s2 yc = Ok s
      \<and> receive_server_pubkey P c3 ys = Ok (c, CmAuthenticator authenticator))"

text \<open>As for the tunnel of \<^verbatim>\<open>AucPace\<close>: the exchange always comes to the authenticator, which is accepted
  exactly if the password is the registered one.\<close>

definition strong_pake_ok :: "('s, 'c, 'pt, 'sc) pake \<Rightarrow> ('pt, 'sc) strong_register \<Rightarrow> bool" where
  "strong_pake_ok P R \<longleftrightarrow> (\<forall>dc ds key_material username pwc pws cost rand u secret_exponent params verifier.
    R username pws cost rand = Ok (StrongRegistration u secret_exponent params verifier) \<longrightarrow>
    (\<exists>s c a. strong_exchange P dc ds key_material username pwc (verifier, secret_exponent, params) s c a
      \<and> (if pwc = pws
         then \<exists>key a'. receive_client_authenticator P s a = Ok (key, SmAuthenticator a') \<and> receive_server_authenticator P c a' = Ok key
         else \<exists>e. receive_client_authenticator P s a = Err e)))"

definition login_codecs_ok :: "'pt login_codecs \<Rightarrow> bool" where
  "login_codecs_ok J \<longleftrightarrow> pake_codecs_ok (lc_pake J) \<and> codec_total (lc_username J) \<and> codec_total (lc_info J)
    \<and> codec_total (lc_totp J) \<and> codec_total (lc_flag J) \<and> codec_total (lc_result J)"

lemma strong_exchangeE:
  assumes "strong_exchange P dc ds key_material username pwc entry s c authenticator" "db username = Some entry"
  obtains s0 c0 s1 c1 c2 s2 c3 g x blinded_salt params hasher blinded yc ys where
    "server_begin P (ln_nonce ds) = (s0, SmNonce (ln_nonce ds))"
    "client_begin P (ln_nonce dc) = (c0, CmNonce (ln_nonce dc))"
    "start_augmentation_strong P (client_agree_ssid P c0 (ln_nonce ds)) username pwc (ln_rand1 dc)
       = (c1, CmStrongUsername username blinded)"
    "generate_client_info_strong P (server_agree_ssid P s0 (ln_nonce dc)) username blinded db (ln_rand1 ds)
       = Ok (s1, SmStrongAugmentationInfo g x blinded_salt params)"
    "params \<noteq> []" "cost_of_params params = Ok hasher"
    "generate_cpace_strong P c1 x blinded_salt hasher = Ok c2"
    "server_public_key P s1 key_material = (s2, SmPublicKey ys)"
    "client_public_key P c2 key_material (ln_rand2 dc) = (c3, CmPublicKey yc)"
    "receive_client_pubkey P s2 yc = Ok s"
    "receive_server_pubkey P c3 ys = Ok (c, CmAuthenticator authenticator)"
  using assms unfolding strong_exchange_def by blast

text \<open>A temporary credential can be made, and its certificate parses.\<close>

definition temp_made :: "tls_libs \<Rightarrow> temp_draws \<Rightarrow> credential \<Rightarrow> bool" where
  "temp_made L d cred \<longleftrightarrow>
    generate_temporary (lib_crypto L) (lib_rcgen L) (td_now1 d) (td_now2 d) (td_keypair d) = Ok cred
    \<and> is_ok (from_der (lib_crypto L) (cert_der (cred_certificate cred)))"

text \<open>The first connection comes about, with the same key material on both sides.\<close>

definition login_side :: "tls_role \<Rightarrow> credential \<Rightarrow> handshake" where
  "login_side role cred = \<lparr> hs_role = role, hs_credential = cred, hs_verify = skip_verification \<rparr>"

lemma login_connects:
  assumes "temp_made L (ln_temp dc) cred" "temp_made L (ln_temp ds) cred'"
    "X (login_side TlsClientRole cred) (login_side TlsServerRole cred') (utf8 ''login'') context = Ok key_material"
    "net_runs X (net_of (f key_material) (f' key_material) [] []) e"
  shows "net_runs X (net_of (then_script (login_connection L TlsClientRole E1 E2 E3 dc context) f)
    (then_script (login_connection L TlsServerRole E1' E2' E3' ds context) f') [] []) e"
proof -
  obtain c c' where c: "dangerous_from_already_verified_der (lib_crypto L) (cert_der (cred_certificate cred)) = Ok c"
      "dangerous_from_already_verified_der (lib_crypto L) (cert_der (cred_certificate cred')) = Ok c'"
    using assms(1,2) by (auto simp: temp_made_def is_ok_iff dangerous_from_already_verified_der_def)
  show ?thesis
    using assms(1,2) unfolding login_connection_def temp_made_def
    by (simp, unfold then_map_err_bind) (rule tls_connect [OF _ _ c refl refl];
      simp add: skip_verification_def [abs_def] tls_derive_key_def channel_to_def
        assms(3) [unfolded login_side_def skip_verification_def [abs_def]] assms(4))
qed

text \<open>Both sides up to the tunnel, with the right password and with a wrong one.\<close>

lemma login_tunnel_opens:
  fixes P :: "('s, 'c, 'pt, 'sc) pake"
  assumes codecs: "login_codecs_ok J" "tls_libs_ok L"
    and made: "temp_made L (ln_temp dc) tcred" "temp_made L (ln_temp ds) tcred'"
      "X (login_side TlsClientRole tcred) (login_side TlsServerRole tcred') (utf8 ''login'')
        (nonce_combine (ln_tls_nonce ds) (ln_tls_nonce dc)) = Ok key_material"
    and x: "strong_exchange P dc ds key_material username pwc entry s c a"
      "lookup_verifier_strong (lh_user_codec self) (lh_users self) username = Some entry"
    and key: "receive_client_authenticator P s a = Ok (key, SmAuthenticator a')" "receive_server_authenticator P c a' = Ok key"
    and temp: "temp_ready L (ln_preshared dc) (td_verify_time (ln_preshared ds)) (EncryptionKey (key_to_array key)) cred b"
      "temp_ready L (ln_preshared ds) (td_verify_time (ln_preshared dc)) (EncryptionKey (key_to_array key)) cred' b'"
    and cont: "net_runs X (net_of (f ()) (f' username) [] []) e"
  shows "net_runs X (net_of (then_script (login_client_tunnel P L J dc username pwc) f)
      (then_script (login_server_tunnel P L J ds self) f') [] []) e"
proof -
  have "pake_codecs_ok (lc_pake J)" using codecs(1) by (simp add: login_codecs_ok_def)
  from pake_codecsE [OF this] obtain en ei ep ea er where "pake_encoders (lc_pake J) en ei ep ea er" .
  note k = this [unfolded pake_encoders_def]
  obtain eu where u: "\<And>x. encode (lc_username J) x = Ok (eu x)" "\<And>x. decode (lc_username J) (eu x) = Ok x"
    using codec_total_enc [of "lc_username J"] codecs(1) unfolding login_codecs_ok_def by blast
  obtain ef where i: "\<And>x. encode (lc_info J) x = Ok (ef x)" "\<And>x. decode (lc_info J) (ef x) = Ok x"
    using codec_total_enc [of "lc_info J"] codecs(1) unfolding login_codecs_ok_def by blast
  have tunnel: "net_runs X (net_of (then_script (map_err_script F (tls_client_preshared L (ln_preshared dc) (EncryptionKey (key_to_array key)))) (\<lambda>_. f ()))
      (then_script (map_err_script F' (tls_server_preshared L (ln_preshared ds) (EncryptionKey (key_to_array key)))) (\<lambda>_. f' username)) [] []) e" for F F'
    by (rule preshared_connect [OF codecs(2) temp refl refl]) (rule cont)
  from x show ?thesis
  proof (cases rule: strong_exchangeE)
    case e: (1 s0 c0 s1 c1 c2 s2 c3 g u blinded_salt params hasher blinded yc ys)
    show ?thesis
      unfolding login_client_tunnel_def login_server_tunnel_def Let_def
      by (simp add: e key augmentation_join_def | rule tunnel | rule login_connects [where X = X, OF made(1,2)], rule made(3)
          | rule pake_steps, simp add: k u i)+
  qed
qed

lemma login_tunnel_refused:
  fixes P :: "('s, 'c, 'pt, 'sc) pake"
  assumes codecs: "login_codecs_ok J"
    and made: "temp_made L (ln_temp dc) tcred" "temp_made L (ln_temp ds) tcred'"
      "X (login_side TlsClientRole tcred) (login_side TlsServerRole tcred') (utf8 ''login'')
        (nonce_combine (ln_tls_nonce ds) (ln_tls_nonce dc)) = Ok key_material"
    and x: "strong_exchange P dc ds key_material username pwc entry s c a"
      "lookup_verifier_strong (lh_user_codec self) (lh_users self) username = Some entry"
    and refused: "receive_client_authenticator P s a = Err err"
    and cont: "net_runs X (net_of (Finish (Err WrongPassword)) (Finish (Err (LhAuthenticate err))) [] []) e"
  shows "net_runs X (net_of (then_script (login_client_tunnel P L J dc username pwc) f)
      (then_script (login_server_tunnel P L J ds self) f') [] []) e"
proof -
  have "pake_codecs_ok (lc_pake J)" using codecs(1) by (simp add: login_codecs_ok_def)
  from pake_codecsE [OF this] obtain en ei ep ea er where "pake_encoders (lc_pake J) en ei ep ea er" .
  note k = this [unfolded pake_encoders_def]
  obtain eu where u: "\<And>x. encode (lc_username J) x = Ok (eu x)" "\<And>x. decode (lc_username J) (eu x) = Ok x"
    using codec_total_enc [of "lc_username J"] codecs(1) unfolding login_codecs_ok_def by blast
  obtain ef where i: "\<And>x. encode (lc_info J) x = Ok (ef x)" "\<And>x. decode (lc_info J) (ef x) = Ok x"
    using codec_total_enc [of "lc_info J"] codecs(1) unfolding login_codecs_ok_def by blast
  from x show ?thesis
  proof (cases rule: strong_exchangeE)
    case e: (1 s0 c0 s1 c1 c2 s2 c3 g u blinded_salt params hasher blinded yc ys)
    show ?thesis
      unfolding login_client_tunnel_def login_server_tunnel_def Let_def
      by (simp add: e refused augmentation_join_def | rule cont | rule login_connects [where X = X, OF made(1,2)], rule made(3)
          | rule pake_steps, simp add: k u i)+
  qed
qed

text \<open>What the two sides come to when the password was right: the one-time code decides; then the session
  certificate of the new device is stored.\<close>

definition login_accepts ::
  "tls_libs \<Rightarrow> 'pt login_codecs \<Rightarrow> login_env \<Rightarrow> ('pt, 'sc, 'm, 'd) login_handler \<Rightarrow> login_draws \<Rightarrow> login_draws \<Rightarrow> bytes
    \<Rightarrow> (('pt, 'sc) login_data, 'm, 'd) stored_user \<Rightarrow> session_store \<Rightarrow> login_success \<Rightarrow> bool" where
  "login_accepts L J N self dc ds password user sessions success \<longleftrightarrow>
    (let cert = as_unverified (cred_certificate (ls_device_credential success));
         user_cert = enc_certificate (su_credential user) in
     (\<exists>key user_credential. approval_opens L J N password (login_approval_of self user) key user_credential (ls_device_credential success)
       \<and> login_finish L N (ln_now dc) (login_approval_of self user) key (ls_device_credential success) = Ok success)
     \<and> carries (lc_approval J) (login_approval_of self user) \<and> carries (lc_certificate J) cert
     \<and> issuer cert = spki_hash user_cert
     \<and> (\<exists>b chain verified. push_parent (builder_new cert) user_cert = (Ok (), b)
          \<and> complete_certificate_chain (lh_trust_store self) b = Ok chain
          \<and> chain_verify (lib_crypto L) chain (lh_root_cert self) (ln_now ds) = Ok verified)
     \<and> certificate_type cert = UserSession
     \<and> spki_bytes (spki_hash cert) \<notin> session_spki_hash ` set sessions)"

lemma take_leaf_verified: "chain_verify C chain root t = Ok verified \<Longrightarrow> \<exists>leaf. take_leaf verified = Ok leaf"
  by (cases verified) (auto simp: chain_verify_Ok_iff take_leaf_def last_opt_Some)

definition login_store ::
  "'pt login_codecs \<Rightarrow> session_store \<Rightarrow> certificate \<Rightarrow> ((unit, login_handler_error) result \<times> session_store, login_handler_error) result script" where
  "login_store J sessions leaf =
    (case add_session sessions leaf of (store_result, sessions) \<Rightarrow>
     bind_script (put_object LhWrite (lc_result J) (if is_ok store_result then Some () else None)) (\<lambda>send_result.
     Finish (Ok (and_then (map_err LhSessionStore store_result) (\<lambda>_. send_result), sessions))))"

definition login_outcome :: "session_store \<Rightarrow> ((unit, 'e) result \<times> session_store, 'e) result \<Rightarrow> (unit, 'e) result \<times> session_store" where
  "login_outcome sessions r = (case r of Ok x \<Rightarrow> x | Err e \<Rightarrow> (Err e, sessions) | Panicked \<Rightarrow> (Panicked, sessions))"

lemma login_handle_map:
  "login_handle P L J totp_check d self sessions = map_script (login_outcome sessions)
    (then_script (login_server_tunnel P L J d self) (\<lambda>username.
     then_script (login_certify L J totp_check (ln_now d) self username) (login_store J sessions)))"
  unfolding login_handle_def map_script_def then_script_assoc [symmetric]
  unfolding then_script_def [of "then_script (login_server_tunnel P L J d self) (login_certify L J totp_check (ln_now d) self)"]
    bind_script_assoc
  by (rule arg_cong [of _ _ "bind_script _"])
    (auto simp: login_store_def login_outcome_def bind_script_assoc fun_eq_iff split: result.splits prod.splits)

lemma login_inside_tunnel:
  assumes codecs: "login_codecs_ok J"
    and user: "get_user_by_username (lh_user_codec self) username (lh_users self) = Ok (Some user)"
    and accepts: "login_accepts L J N self dc ds password user sessions success"
  shows "net_runs X (net_of (login_enter L J N (ln_now dc) password totp)
      (then_script (login_certify L J totp_check (ln_now ds) self username) (login_store J sessions)) [] [])
    (if totp_check (ld_totp_secret (su_login user)) totp
     then net_of (Finish (Ok success))
       (Finish (Ok (Ok (), sessions @ [session_row_of (as_unverified (cred_certificate (ls_device_credential success)))]))) [] []
     else net_of (Finish (Err InvalidTotp)) (Finish (Err LhTotp)) [] [])"
proof -
  obtain et where t: "\<And>x. encode (lc_totp J) x = Ok (et x)" "\<And>x. decode (lc_totp J) (et x) = Ok x"
    using codec_total_enc [of "lc_totp J"] codecs unfolding login_codecs_ok_def by blast
  obtain ef where f: "\<And>x. encode (lc_flag J) x = Ok (ef x)" "\<And>x. decode (lc_flag J) (ef x) = Ok x"
    using codec_total_enc [of "lc_flag J"] codecs unfolding login_codecs_ok_def by blast
  obtain er where r: "\<And>x. encode (lc_result J) x = Ok (er x)" "\<And>x. decode (lc_result J) (er x) = Ok x"
    using codec_total_enc [of "lc_result J"] codecs unfolding login_codecs_ok_def by blast
  let ?device = "ls_device_credential success"
  let ?cert = "as_unverified (cred_certificate ?device)"
  from accepts obtain key user_credential b chain verified eb ea where ok:
      "approval_opens L J N password (login_approval_of self user) key user_credential ?device"
      "login_finish L N (ln_now dc) (login_approval_of self user) key ?device = Ok success"
      "encode (lc_certificate J) ?cert = Ok eb" "decode (lc_certificate J) eb = Ok ?cert"
      "issuer ?cert = spki_hash (enc_certificate (su_credential user))"
      "push_parent (builder_new ?cert) (enc_certificate (su_credential user)) = (Ok (), b)"
      "complete_certificate_chain (lh_trust_store self) b = Ok chain"
      "chain_verify (lib_crypto L) chain (lh_root_cert self) (ln_now ds) = Ok verified"
      "certificate_type ?cert = UserSession" "spki_bytes (spki_hash ?cert) \<notin> session_spki_hash ` set sessions"
    and a: "encode (lc_approval J) (login_approval_of self user) = Ok ea" "decode (lc_approval J) ea = Ok (login_approval_of self user)"
    unfolding login_accepts_def Let_def carries_def by blast
  have leaf: "take_leaf verified = (Ok (cred_certificate ?device) :: (certificate, login_handler_error) result)"
    using take_leaf_verified [OF ok(8)] session_chain_leaf [OF ok(6,7,8)] by fastforce
  have store: "add_session sessions (cred_certificate ?device) = (Ok (), sessions @ [session_row_of ?cert])"
    using ok(9,10) by (simp add: add_session_appends)
  note opens = ok(1) [unfolded approval_opens_def]
  show ?thesis
    unfolding login_enter_def login_certify_def login_store_def Let_def
    by (cases "totp_check (ld_totp_secret (su_login user)) totp")
      (simp add: user opens ok(2-8) leaf store lift_result_def | rule pake_steps, simp add: t f a r ok(3,4) | rule right_put_bind, simp add: r)+
qed

lemma login_run:
  fixes P :: "('s, 'c, 'pt, 'sc) pake"
  assumes "login_codecs_ok J" "tls_libs_ok L" "strong_pake_ok P R"
    "temp_made L (ln_temp dc) tcred" "temp_made L (ln_temp ds) tcred'"
    "is_ok (X (login_side TlsClientRole tcred) (login_side TlsServerRole tcred') (utf8 ''login'')
      (nonce_combine (ln_tls_nonce ds) (ln_tls_nonce dc)))"
    "\<forall>key. \<exists>b. temp_ready L (ln_preshared dc) (td_verify_time (ln_preshared ds)) key cred b"
    "\<forall>key. \<exists>b. temp_ready L (ln_preshared ds) (td_verify_time (ln_preshared dc)) key cred' b"
    "get_user_by_username (lh_user_codec self) username (lh_users self) = Ok (Some user)"
    "R username registered argon_cost rand
      = Ok (StrongRegistration u (ld_secret_exponent (su_login user)) (ld_params (su_login user)) (ld_verifier (su_login user)))"
    "login_accepts L J N self dc ds password user sessions success"
  shows "\<exists>l r sessions'.
      net_runs X (net_of (login_dispatch P L J dc N username password totp) (login_handle P L J totp_check ds self sessions) [] [])
        (net_of (Finish l) (Finish (r, sessions')) [] [])
    \<and> (if password \<noteq> registered then l = Err WrongPassword \<and> (\<exists>e. r = Err (LhAuthenticate e)) \<and> sessions' = sessions
       else if \<not> totp_check (ld_totp_secret (su_login user)) totp then l = Err InvalidTotp \<and> r = Err LhTotp \<and> sessions' = sessions
       else l = Ok success \<and> r = Ok ()
         \<and> sessions' = sessions @ [session_row_of (as_unverified (cred_certificate (ls_device_credential success)))])"
proof -
  let ?start = "net_of (login_dispatch P L J dc N username password totp) (login_handle P L J totp_check ds self sessions) [] []"
  let ?core = "net_of (login_dispatch P L J dc N username password totp)
    (then_script (login_server_tunnel P L J ds self) (\<lambda>username.
     then_script (login_certify L J totp_check (ln_now ds) self username) (login_store J sessions))) [] []"
  let ?entry = "(ld_verifier (su_login user), ld_secret_exponent (su_login user), ld_params (su_login user))"
  have entry: "lookup_verifier_strong (lh_user_codec self) (lh_users self) username = Some ?entry"
    using assms(9) by (simp add: lookup_verifier_strong_def)
  obtain key_material where km: "X (login_side TlsClientRole tcred) (login_side TlsServerRole tcred') (utf8 ''login'')
      (nonce_combine (ln_tls_nonce ds) (ln_tls_nonce dc)) = Ok key_material" using assms(6) by (auto simp: is_ok_iff)
  obtain s c a where x: "strong_exchange P dc ds key_material username password ?entry s c a"
    and auth: "if password = registered
       then \<exists>key a'. receive_client_authenticator P s a = Ok (key, SmAuthenticator a') \<and> receive_server_authenticator P c a' = Ok key
       else \<exists>e. receive_client_authenticator P s a = Err e"
    using assms(3,10) unfolding strong_pake_ok_def by metis
  let ?goal = "\<lambda>l r. if password \<noteq> registered then l = Err WrongPassword \<and> (\<exists>e. r = Err (LhAuthenticate e))
       else if \<not> totp_check (ld_totp_secret (su_login user)) totp then l = Err InvalidTotp \<and> r = Err LhTotp
       else l = Ok success \<and> r = Ok (Ok (), sessions @ [session_row_of (as_unverified (cred_certificate (ls_device_credential success)))])"
  have "\<exists>l r. net_runs X ?core (net_of (Finish l) (Finish r) [] []) \<and> ?goal l r"
  proof (cases "password = registered")
    case True
    then obtain key a' where k: "receive_client_authenticator P s a = Ok (key, SmAuthenticator a')"
        "receive_server_authenticator P c a' = Ok key" using auth by auto
    obtain b b' where t: "temp_ready L (ln_preshared dc) (td_verify_time (ln_preshared ds)) (EncryptionKey (key_to_array key)) cred b"
        "temp_ready L (ln_preshared ds) (td_verify_time (ln_preshared dc)) (EncryptionKey (key_to_array key)) cred' b'"
      using assms(7,8) by blast
    note run = login_tunnel_opens [where X = X and f = "\<lambda>_. login_enter L J N (ln_now dc) password totp"
        and f' = "\<lambda>username. then_script (login_certify L J totp_check (ln_now ds) self username) (login_store J sessions)",
        OF assms(1,2,4,5) km x entry k t login_inside_tunnel [OF assms(1,9,11)]]
    show ?thesis
      unfolding login_dispatch_def using run True by (cases "totp_check (ld_totp_secret (su_login user)) totp") auto
  next
    case False
    then obtain e where e: "receive_client_authenticator P s a = Err e" using auth by auto
    note run = login_tunnel_refused [where X = X, OF assms(1,4,5) km x entry e rtranclp.rtrancl_refl]
    show ?thesis unfolding login_dispatch_def using run False by auto
  qed
  then obtain l r where run: "net_runs X ?core (net_of (Finish l) (Finish r) [] [])" and goal: "?goal l r" by blast
  have fin: "net_runs X ?start (net_of (Finish l) (Finish (login_outcome sessions r)) [] [])"
    using net_runs_map [OF run, of "login_outcome sessions"] by (simp add: login_handle_map)
  then have "net_runs X ?start (net_of (Finish l) (Finish (fst (login_outcome sessions r), snd (login_outcome sessions r))) [] [])"
    by simp
  then show ?thesis
    by (intro exI [of _ l] exI [of _ "fst (login_outcome sessions r)"] exI [of _ "snd (login_outcome sessions r)"] conjI)
      (use goal in \<open>auto simp: login_outcome_def split: if_splits\<close>)
qed

section \<open>Properties of client and server\<close>


section \<open>A sample login\<close>

definition sample_nonce :: bytes where
  "sample_nonce = (case fst (advance (nonce_counter_new (replicate 12 9))) of Ok n \<Rightarrow> n | _ \<Rightarrow> [])"

definition sample_sealed :: "bytes \<Rightarrow> 't encrypted_object" where
  "sample_sealed b = EncryptedObject \<lparr> ciphertext = [4] @ sample_nonce @ b, enc_alg = Chacha20Poly1305, nonce_mask = replicate 12 9 \<rparr>"

definition sample_login_libs :: tls_libs where
  "sample_login_libs = sample_tls_libs \<lparr> lib_rcgen := sample_temp_rcgen \<lparr> signed_by := \<lambda>p pk ca kp.
     if ca = [0, 7, 7, 0] \<and> epk_der pk = [6] then Ok [2, 6, 7, 0] else Err ''unsupported'' \<rparr> \<rparr>"

definition sample_login_data :: "(bytes, unit) login_data" where
  "sample_login_data = \<lparr> ld_key_params = \<lparr> cost = argon_cost_strong, salt = [] \<rparr>, ld_totp_secret = [5], ld_secret_exponent = (),
     ld_params = params_of_cost argon_cost_strong, ld_verifier = [4],
     ld_trust_store = trust_store_export sample_crypto (trust_store_initialize sample_root),
     ld_trust_store_digest = sample_sealed (trust_store_digest sample_crypto (trust_store_initialize sample_root)) \<rparr>"

definition sample_login_user :: "((bytes, unit) login_data, unit, unit) stored_user" where
  "sample_login_user = \<lparr> su_credential = \<lparr> encrypted_keypair = sample_sealed [7], enc_certificate = sample_cert Root 0 7 7 0 \<rparr>,
     su_login = sample_login_data, su_username = [117], su_mls_store = (), su_persistent_data = () \<rparr>"

definition sample_login_handler :: "(bytes, unit, unit, unit) login_handler" where
  "sample_login_handler = \<lparr> lh_trust_store = trust_store_initialize sample_root,
     lh_users = [\<lparr> ur_spki = sample_pad 32 [7], ur_username = [117], ur_data = [] \<rparr>],
     lh_user_codec = \<lparr> encode = (\<lambda>_. Ok []), decode = (\<lambda>_. Ok sample_login_user) \<rparr>,
     lh_root_cert = sample_root, lh_server_cert = Certificate (sample_cert Server 4 5 7 0) \<rparr>"

definition sample_login_draws :: "u8 \<Rightarrow> login_draws" where
  "sample_login_draws k = \<lparr> ln_tls_nonce = [k], ln_temp = sample_temp_draws k, ln_nonce = [k], ln_rand1 = [], ln_rand2 = [],
     ln_preshared = sample_temp_draws k, ln_now = 1 \<rparr>"

definition sample_login_env :: login_env where
  "sample_login_env = \<lparr> le_argon2 = (\<lambda>_ _ secret. Ok secret), le_saved_codec = sample_saved_codec, le_digest_codec = sample_codec,
     le_now1 = 0, le_now2 = 0, le_keypair = \<lparr> kp_serialized_der = [6], kp_public_der = [6] \<rparr> \<rparr>"

text \<open>The serializer for the approval knows two values: the one of the handler, and one with another root.\<close>

definition sample_other_root :: root_certificate where
  "sample_other_root = RootCertificate (Certificate (sample_cert Root 0 8 8 0))"

definition sample_other_server :: certificate where
  "sample_other_server = Certificate (sample_cert Server 4 5 8 0)"

definition sample_approval :: login_approval where
  "sample_approval = login_approval_of sample_login_handler sample_login_user"

definition sample_login_codecs :: "bytes login_codecs" where
  "sample_login_codecs = \<lparr> lc_pake = sample_pake_codecs,
     lc_username = unary_codec (\<lambda>u. (sun_username u, sun_blinded u)) (\<lambda>(u, b). \<lparr> sun_username = u, sun_blinded = b \<rparr>),
     lc_info = unary_codec (\<lambda>i. (sci_group i, sci_x_pub i, sci_blinded_salt i, sci_hash_params i))
       (\<lambda>(g, x, s, h). \<lparr> sci_group = g, sci_x_pub = x, sci_blinded_salt = s, sci_hash_params = h \<rparr>),
     lc_totp = sample_codec, lc_flag = unary_codec id id,
     lc_approval = \<lparr> encode = (\<lambda>_. Ok []), decode = (\<lambda>b. Ok (if b = [] then sample_approval
       else sample_approval \<lparr> la_root_cert := root_as_unverified sample_other_root, la_server_cert := as_unverified sample_other_server \<rparr>)) \<rparr>,
     lc_certificate = sample_cert_codec, lc_result = unary_codec id id \<rparr>"

definition sample_login_success :: login_success where
  "sample_login_success = \<lparr>
     ls_device_credential = \<lparr> cred_keypair = \<lparr> kp_serialized_der = [6], kp_public_der = [6] \<rparr>,
       cred_certificate = Certificate (sample_cert UserSession 2 6 7 0) \<rparr>,
     ls_root_cert = sample_root, ls_server_cert = Certificate (sample_cert Server 4 5 7 0),
     ls_trust_store = trust_store_initialize sample_root \<rparr>"

definition sample_strong_register :: "(bytes, unit) strong_register" where
  "sample_strong_register = (\<lambda>u pw cost r. Ok (StrongRegistration u () (params_of_cost cost) pw))"

lemma sample_strong_exchange:
  "strong_exchange sample_pake dc ds key_material username pwc (pws, (), params_of_cost c)
    (if pwc = pws then [] else [1]) pwc (replicate 64 0)"
  unfolding strong_exchange_def
  by (rule exI [of _ "[]"], rule exI [of _ "[]"], rule exI [of _ pws], rule exI [of _ pwc], rule exI [of _ pwc], rule exI [of _ pws],
      rule exI [of _ pwc], rule exI [of _ "[]"], rule exI [of _ "[]"], rule exI [of _ "[]"], rule exI [of _ "params_of_cost c"],
      rule exI [of _ c], rule exI [of _ "[]"], rule exI [of _ pwc], rule exI [of _ "[]"])
    (simp add: sample_pake_def, simp add: params_of_cost_def)

lemma sample_strong_pake_ok: "strong_pake_ok sample_pake sample_strong_register"
proof -
  have "\<exists>s c a. strong_exchange sample_pake dc ds key_material username pwc (pws, (), params_of_cost cost) s c a
      \<and> (if pwc = pws
         then \<exists>key a'. receive_client_authenticator sample_pake s a = Ok (key, SmAuthenticator a')
           \<and> receive_server_authenticator sample_pake c a' = Ok key
         else \<exists>e. receive_client_authenticator sample_pake s a = Err e)"
    for dc ds key_material username pwc pws and cost :: argon_cost
    by (intro exI conjI, rule sample_strong_exchange) (simp add: sample_pake_def)
  then show ?thesis by (auto simp: strong_pake_ok_def sample_strong_register_def)
qed

lemma sample_login_codecs_ok: "login_codecs_ok sample_login_codecs"
  using sample_pake_codecs_ok
  by (simp add: login_codecs_ok_def sample_login_codecs_def unary_codec_total) (simp add: codec_total_def sample_codec_def)

lemma sample_unsealed:
  "decrypt_object sample_aead K (sample_sealed b) (EncryptionKey [4]) = map_err UnmarshalError (decode K b)"
proof -
  have n: "fst (advance (nonce_counter_new (replicate 12 9))) = Ok sample_nonce" by code_simp
  show ?thesis by (simp add: decrypt_object_def decrypt_bytes_def sample_sealed_def sample_aead_def n)
qed

lemma sample_login_temp:
  "temp_ready sample_login_libs d time key cred b = temp_ready sample_tls_libs d time key cred b"
  by (simp add: temp_ready_def sample_login_libs_def sample_tls_libs_def generate_temporary_def credential_new_def)

lemma sample_login_ready:
  assumes "k = 1 \<or> k = 2"
  shows "\<exists>b. temp_ready sample_login_libs (ln_preshared (sample_login_draws k)) 1 key (sample_temp_credential k) b"
    "temp_made sample_login_libs (ln_temp (sample_login_draws k)) (sample_temp_credential k)"
  using sample_temp_ready [OF assms, folded sample_login_temp, of key]
  by (auto simp: temp_ready_def temp_made_def sample_login_draws_def)

lemma sample_login_ders:
  "from_der sample_crypto [2, 6, 7, 0] = Ok (sample_cert UserSession 2 6 7 0)"
  "x509_from_der sample_crypto [2, 6, 7, 0] = sample_from_der [2, 6, 7, 0]"
  by code_simp+

lemma sample_chain:
  "\<exists>b chain verified. push_parent (builder_new (sample_cert UserSession 2 6 7 0)) (sample_cert Root 0 7 7 0) = (Ok (), b)
    \<and> complete_certificate_chain (trust_store_initialize sample_root) b = Ok chain
    \<and> chain_verify sample_crypto chain sample_root 1 = Ok verified"
proof -
  let ?u = "sample_cert UserSession 2 6 7 0" and ?r = "sample_cert Root 0 7 7 0"
  have ne: "spki_to_string (spki_hash ?r) \<noteq> spki_to_string (spki_hash ?u)" by code_simp
  have t: "certificate_type ?u = UserSession" "certificate_type ?r = Root" "issuer ?u = spki_hash ?r" by (simp_all add: sample_cert_def)
  obtain b where b: "push_parent (builder_new ?u) ?r = (Ok (), b)" "builder_certificates b = [?u, ?r]"
    using ne t by (simp add: push_parent_def builder_new_def)
  have c: "complete_certificate_chain (trust_store_initialize sample_root) b = Ok (UnverifiedCertificateChain [?r, ?u])"
    unfolding complete_certificate_chain_def
    by (subst complete_loop.simps) (simp add: requested_issuer_def finish_def is_finished_def b(2) t)
  have s: "verify_signature sample_crypto ?u (as_certificate sample_root) 1 = Ok (Certificate ?u)" by code_simp
  have "chain_verify sample_crypto (UnverifiedCertificateChain [?r, ?u]) sample_root 1
      = Ok (CertificateChain [as_certificate sample_root, Certificate ?u])"
    by (simp add: chain_verify_Ok_iff signed_step_def s) (simp add: sample_root_def cert_eq_def)
  with b(1) c show ?thesis by blast
qed

lemma sample_device:
  "create_user_device_credential sample_crypto (lib_rcgen sample_login_libs) 0 0 sample_root_credential
      \<lparr> kp_serialized_der = [6], kp_public_der = [6] \<rparr> = Ok (ls_device_credential sample_login_success)"
  by (simp add: create_user_device_credential_def create_certificate_for_key_def sample_login_libs_def sample_temp_rcgen_def
      sample_rcgen_def sample_spki export_public_key_def sample_root_credential_def sample_login_ders upgrade_def
      credential_new_Ok_iff sample_login_success_def) (simp add: sample_cert_def)

lemma sample_decrypt:
  "credential_decrypt sample_crypto sample_aead sample_saved_codec (lib_rcgen sample_login_libs)
      \<lparr> encrypted_keypair = sample_sealed [7], enc_certificate = sample_cert Root 0 7 7 0 \<rparr> (EncryptionKey [4]) = Ok sample_root_credential"
  by (simp add: credential_decrypt_def keypair_decrypt_def sample_unsealed sample_login_libs_def sample_temp_rcgen_def
      sample_rcgen_def sample_saved_codec_def credential_new_def export_public_key_def sample_spki sample_root_credential_def
      sample_keypair_def mark_as_trusted_def) (simp add: sample_cert_def)

lemma sample_login_accepts:
  "login_accepts sample_login_libs sample_login_codecs sample_login_env sample_login_handler (sample_login_draws 1) (sample_login_draws 2)
    [4] sample_login_user [] sample_login_success"
proof -
  let ?device = "ls_device_credential sample_login_success"
  have libs: "lib_crypto sample_login_libs = sample_crypto" "lib_aead sample_login_libs = sample_aead"
    by (simp_all add: sample_login_libs_def sample_tls_libs_def)
  have approval: "login_approval_of sample_login_handler sample_login_user = sample_approval" by (simp add: sample_approval_def)
  have sel: "la_key_params sample_approval = \<lparr> cost = argon_cost_strong, salt = [] \<rparr>"
    "la_credentials sample_approval = \<lparr> encrypted_keypair = sample_sealed [7], enc_certificate = sample_cert Root 0 7 7 0 \<rparr>"
    "la_root_cert sample_approval = root_as_unverified sample_root" "la_server_cert sample_approval = sample_cert Server 4 5 7 0"
    "la_trust_store sample_approval = trust_store_export sample_crypto (trust_store_initialize sample_root)"
    "la_trust_store_digest sample_approval = sample_sealed (trust_store_digest sample_crypto (trust_store_initialize sample_root))"
    by (simp_all add: sample_approval_def login_approval_of_def sample_login_user_def sample_login_data_def sample_login_handler_def)
  have cert: "as_unverified (cred_certificate ?device) = sample_cert UserSession 2 6 7 0" by (simp add: sample_login_success_def)
  have carried: "carries (lc_certificate sample_login_codecs) (sample_cert UserSession 2 6 7 0)"
    "carries (lc_approval sample_login_codecs) sample_approval"
    using sample_login_ders(1) by (simp_all add: carries_def sample_login_codecs_def sample_cert_codec_def sample_cert_def)
  have opens: "approval_opens sample_login_libs sample_login_codecs sample_login_env [4] sample_approval (EncryptionKey [4]) sample_root_credential ?device"
    using carried(1) sample_decrypt sample_device
    by (auto simp: approval_opens_def libs sel cert carries_def sample_login_env_def derive_encryption_key_def derive_key_def)
  have imported: "trust_store_import sample_crypto (trust_store_export sample_crypto (trust_store_initialize sample_root))
      = Ok (trust_store_initialize sample_root)"
    by (simp add: trust_store_import_def trust_store_export_def chain_import_def chain_export_def trust_store_initialize_def
        chain_initialize_def trust_state_ops_def) code_simp
  have server: "verify_signature sample_crypto (sample_cert Server 4 5 7 0) (as_certificate sample_root) 1
      = Ok (Certificate (sample_cert Server 4 5 7 0))" by code_simp
  have fin: "login_finish sample_login_libs sample_login_env (ln_now (sample_login_draws 1)) sample_approval (EncryptionKey [4]) ?device
      = Ok sample_login_success"
    unfolding login_finish_Ok_iff libs sel sample_login_draws_def login_draws.select_convs
    using imported server
    by (simp add: sample_login_success_def sample_unsealed use_as_root_def sample_login_env_def sample_codec_def)
      (simp add: sample_root_def sample_cert_def)
  show ?thesis
    unfolding login_accepts_def Let_def approval cert
    using opens fin carried sample_chain
    by (auto simp: libs sample_login_user_def sample_login_handler_def sample_login_draws_def sample_cert_def)
qed

abbreviation sample_login_net :: "(login_success, login_dispatcher_error) result script \<Rightarrow>
    ((unit, login_handler_error) result \<times> session_store) script \<Rightarrow>
    ((login_success, login_dispatcher_error) result, (unit, login_handler_error) result \<times> session_store) net" where
  "sample_login_net l r \<equiv> net_of l r [] []"

abbreviation sample_dispatch :: "(login_success, login_dispatcher_error) result script" where
  "sample_dispatch \<equiv> login_dispatch sample_pake sample_login_libs sample_login_codecs (sample_login_draws 1) sample_login_env [117] [4] [1]"

abbreviation sample_handle :: "((unit, login_handler_error) result \<times> session_store) script" where
  "sample_handle \<equiv> login_handle sample_pake sample_login_libs sample_login_codecs (\<lambda>_ code. code = [1]) (sample_login_draws 2) sample_login_handler []"

lemma sample_login_cert: "as_unverified (cred_certificate (ls_device_credential sample_login_success)) = sample_cert UserSession 2 6 7 0"
  by (simp add: sample_login_success_def)

lemma sample_login_libs_ok: "tls_libs_ok sample_login_libs"
  using sample_tls_libs_ok by (simp add: tls_libs_ok_def sample_login_libs_def)

lemma sample_login_made:
  "temp_made sample_login_libs (ln_temp (sample_login_draws 1)) (sample_temp_credential 1)"
  "temp_made sample_login_libs (ln_temp (sample_login_draws 2)) (sample_temp_credential 2)"
  by (rule sample_login_ready(2), simp)+

lemma sample_login_preshared:
  "\<forall>key. \<exists>b. temp_ready sample_login_libs (ln_preshared (sample_login_draws 1)) (td_verify_time (ln_preshared (sample_login_draws 2))) key (sample_temp_credential 1) b"
  "\<forall>key. \<exists>b. temp_ready sample_login_libs (ln_preshared (sample_login_draws 2)) (td_verify_time (ln_preshared (sample_login_draws 1))) key (sample_temp_credential 2) b"
proof -
  have "td_verify_time (ln_preshared (sample_login_draws k)) = 1" for k
    by (simp add: sample_login_draws_def sample_temp_draws_def)
  with sample_login_ready(1) show
    "\<forall>key. \<exists>b. temp_ready sample_login_libs (ln_preshared (sample_login_draws 1)) (td_verify_time (ln_preshared (sample_login_draws 2))) key (sample_temp_credential 1) b"
    "\<forall>key. \<exists>b. temp_ready sample_login_libs (ln_preshared (sample_login_draws 2)) (td_verify_time (ln_preshared (sample_login_draws 1))) key (sample_temp_credential 2) b"
    by simp_all
qed

lemma sample_login_exporter: "is_ok ((\<lambda>_ _ _ _. Ok [] :: (bytes, string) result) h h' l c)"
  by simp

lemma sample_login_registered:
  "get_user_by_username (lh_user_codec sample_login_handler) [117] (lh_users sample_login_handler) = Ok (Some sample_login_user)"
  "sample_strong_register [117] [4] argon_cost_strong [] = Ok (StrongRegistration [117]
      (ld_secret_exponent (su_login sample_login_user)) (ld_params (su_login sample_login_user)) (ld_verifier (su_login sample_login_user)))"
  by (simp_all add: get_user_by_username_def decode_user_def sample_login_handler_def sample_strong_register_def
      sample_login_user_def sample_login_data_def)

lemmas sample_login_hyps = sample_login_codecs_ok sample_login_libs_ok sample_strong_pake_ok sample_login_made
  sample_login_exporter sample_login_preshared sample_login_registered sample_login_accepts


lemma sample_login_run:
  "net_runs (\<lambda>_ _ _ _. Ok []) (sample_login_net sample_dispatch sample_handle)
    (sample_login_net (Finish (Ok sample_login_success)) (Finish (Ok (), [session_row_of (sample_cert UserSession 2 6 7 0)])))"
  using login_run [where X = "\<lambda>_ _ _ _. Ok []" and totp = "[1]" and totp_check = "\<lambda>_ code. code = [1]", OF sample_login_hyps]
  unfolding sample_login_cert by auto

lemma sample_login_may_end:
  "may_end sample_dispatch (Ok sample_login_success)"
  "may_end sample_handle (Ok (), [session_row_of (sample_cert UserSession 2 6 7 0)])"
  using net_runs_may_end [OF sample_login_run] by simp_all

theorem login_binds_trust_store_witness:
  "\<exists>(approval :: login_approval) key. decrypt_object sample_aead sample_codec (la_trust_store_digest approval) key
    = Ok (trust_store_digest sample_crypto (trust_store_initialize sample_root))"
  using login_binds_trust_store [OF sample_login_may_end(1)]
  by (auto simp: sample_login_libs_def sample_tls_libs_def sample_login_env_def sample_login_success_def)

theorem login_root_not_bound_witness:
  "may_end sample_dispatch (Ok (sample_login_success \<lparr> ls_root_cert := sample_other_root, ls_server_cert := sample_other_server \<rparr>))"
proof -
  have codec: "\<forall>b approval. decode (lc_approval sample_login_codecs) b = Ok approval \<longrightarrow> (\<exists>b'. decode (lc_approval sample_login_codecs) b'
      = Ok (approval \<lparr> la_root_cert := root_as_unverified sample_other_root, la_server_cert := as_unverified sample_other_server \<rparr>))"
    by (auto simp: sample_login_codecs_def intro!: exI [of _ "[0]"])
  have "verify_signature sample_crypto (as_unverified sample_other_server) (as_certificate sample_other_root) 1 = Ok sample_other_server"
    by code_simp
  then have server: "verify_signature (lib_crypto sample_login_libs) (as_unverified sample_other_server) (as_certificate sample_other_root)
      (ln_now (sample_login_draws 1)) = Ok sample_other_server"
    by (simp add: sample_login_libs_def sample_tls_libs_def sample_login_draws_def)
  have "use_as_root (root_as_unverified sample_other_root) = Ok sample_other_root"
    by (simp add: use_as_root_def sample_other_root_def sample_cert_def)
  from login_root_not_bound [OF sample_login_may_end(1) codec this server] show ?thesis .
qed

theorem login_adds_certified_session_witness:
  "\<exists>cert parent. verify_signature sample_crypto cert parent 1 = Ok (Certificate cert)
    \<and> session_row_of (sample_cert UserSession 2 6 7 0) = session_row_of cert"
proof -
  have "[session_row_of (sample_cert UserSession 2 6 7 0)] \<noteq> []" by simp
  from login_adds_certified_session [OF sample_login_may_end(2) this] show ?thesis
    by (auto simp: sample_login_libs_def sample_tls_libs_def sample_login_draws_def)
qed

end
