(* ===== verification/ClientState.thy ===== *)
theory ClientState
  imports TransactionStore MlsMember
begin

text \<open>
  What a client knows about its devices: the persistent state
  (\<^verbatim>\<open>svalin_store/src/client_store/persistent.rs\<close>), the tables that keep it across restarts
  (\<^verbatim>\<open>svalin_store/src/client_store.rs\<close>), the state with the agents that are online
  (\<^verbatim>\<open>svalin/src/client/state.rs\<close>), the task that owns it and what the client does with a message
  from the server (\<^verbatim>\<open>svalin/src/message_streaming/client.rs\<close>). Of a system report only the fields
  that this code reads are kept; \<^verbatim>\<open>'x\<close> stands for the others. The schemas are
  \<^verbatim>\<open>20260401214959_system_reports.sql\<close> and \<^verbatim>\<open>20260518234400_meta_info.sql\<close>.
\<close>

section \<open>The persistent state\<close>

datatype os_family = OsWindows | OsLinux | OsUnknown

record 'x svalin_report =
  rep_version :: str
  rep_generated_at :: u64
  rep_hostname :: "str option"
  rep_os_family :: os_family
  rep_rest :: 'x

record svalin_meta_info =
  mi_updated_at :: u64
  mi_name :: str
  mi_group :: str
  mi_notes :: str

record 'x device_state =
  dev_spki_hash :: spki_hash
  dev_report :: "'x svalin_report option"
  dev_meta_info :: "svalin_meta_info option"

type_synonym 'x persistent_state = "spki_hash \<rightharpoonup> 'x device_state"

datatype 'x persistent_message =
    UpdateSystemReport spki_hash "'x svalin_report"
  | UpdateMetaInfo spki_hash svalin_meta_info
  | UpdateFromMainState "'x persistent_state"

definition persistent_empty :: "'x persistent_state" where
  "persistent_empty = Map.empty"

definition get_device_entry :: "'x persistent_state \<Rightarrow> spki_hash \<Rightarrow> 'x device_state" where
  "get_device_entry self hash =
    (case self hash of
       Some d \<Rightarrow> d
     | None \<Rightarrow> \<lparr> dev_spki_hash = hash, dev_report = None, dev_meta_info = None \<rparr>)"

definition report_time :: "'x device_state \<Rightarrow> u64" where
  "report_time d = (case dev_report d of None \<Rightarrow> 0 | Some r \<Rightarrow> rep_generated_at r)"

text \<open>The entries of the other state are independent of each other, so the order in which the
  loop visits them does not matter.\<close>

fun persistent_update :: "'x persistent_message \<Rightarrow> 'x persistent_state \<Rightarrow> 'x persistent_state" where
  "persistent_update (UpdateSystemReport hash report) self =
    self(hash \<mapsto> (get_device_entry self hash) \<lparr> dev_report := Some report \<rparr>)"
| "persistent_update (UpdateMetaInfo hash meta_info) self =
    self(hash \<mapsto> (get_device_entry self hash) \<lparr> dev_meta_info := Some meta_info \<rparr>)"
| "persistent_update (UpdateFromMainState state) self = (\<lambda>hash.
    case state hash of
      None \<Rightarrow> self hash
    | Some other_device \<Rightarrow>
       let device = get_device_entry self hash in
       Some (if report_time device < report_time other_device
             then device \<lparr> dev_report := dev_report other_device \<rparr> else device))"

definition device_name :: "'x device_state \<Rightarrow> str" where
  "device_name d =
    (case dev_meta_info d of
       Some meta \<Rightarrow>
         if mi_name meta \<noteq> [] then mi_name meta
         else (case Option.bind (dev_report d) rep_hostname of Some h \<Rightarrow> h | None \<Rightarrow> spki_to_string (dev_spki_hash d))
     | None \<Rightarrow>
        (case Option.bind (dev_report d) rep_hostname of Some h \<Rightarrow> h | None \<Rightarrow> spki_to_string (dev_spki_hash d)))"

definition device_os :: "'x device_state \<Rightarrow> os_family" where
  "device_os d = (case dev_report d of None \<Rightarrow> OsUnknown | Some r \<Rightarrow> rep_os_family r)"

section \<open>The tables\<close>

text \<open>Both tables have the hash as primary key and a time beside the data: rows in order of
  insertion, with different keys.\<close>

record timed_row =
  tr_data :: bytes
  tr_time :: int

type_synonym timed_table = "(bytes \<times> timed_row) list"

record client_db =
  system_reports :: timed_table
  meta_info_rows :: timed_table

text \<open>\<^verbatim>\<open>INSERT .. ON CONFLICT(spki_hash) DO UPDATE SET data = ? WHERE time < ?\<close>: the condition reads the
  time of the stored row, and only the data is updated.\<close>

definition upsert_newer :: "bytes \<Rightarrow> bytes \<Rightarrow> int \<Rightarrow> timed_table \<Rightarrow> timed_table" where
  "upsert_newer key data time rows =
    (case map_of rows key of
       None \<Rightarrow> rows @ [(key, \<lparr> tr_data = data, tr_time = time \<rparr>)]
     | Some row \<Rightarrow>
        map (\<lambda>(k, r). if k = key \<and> tr_time r < time then (k, r \<lparr> tr_data := data \<rparr>) else (k, r)) rows)"

definition store_report ::
  "'x svalin_report codec \<Rightarrow> spki_hash \<Rightarrow> 'x svalin_report \<Rightarrow> client_db \<Rightarrow> (unit, string) result \<times> client_db" where
  "store_report P hash report db =
    bind_st (encode P report, db) (\<lambda>data db.
    (Ok (), db \<lparr> system_reports := upsert_newer (spki_bytes hash) data (as_i64 (rep_generated_at report)) (system_reports db) \<rparr>))"

definition store_meta_info ::
  "svalin_meta_info codec \<Rightarrow> spki_hash \<Rightarrow> svalin_meta_info \<Rightarrow> client_db \<Rightarrow> (unit, string) result \<times> client_db" where
  "store_meta_info P hash meta_info db =
    bind_st (encode P meta_info, db) (\<lambda>data db.
    (Ok (), db \<lparr> meta_info_rows := upsert_newer (spki_bytes hash) data (as_i64 (mi_updated_at meta_info)) (meta_info_rows db) \<rparr>))"

text \<open>The loop over the devices of another state, in the order \<^verbatim>\<open>devices\<close> of the hash map.\<close>

fun store_devices ::
  "'x svalin_report codec \<Rightarrow> svalin_meta_info codec \<Rightarrow> (spki_hash \<times> 'x device_state) list \<Rightarrow> client_db
    \<Rightarrow> (unit, string) result \<times> client_db" where
  "store_devices P Q [] db = (Ok (), db)"
| "store_devices P Q ((hash, device) # devices) db =
    bind_st (case dev_report device of None \<Rightarrow> (Ok (), db) | Some report \<Rightarrow> store_report P hash report db) (\<lambda>_ db.
    bind_st (case dev_meta_info device of None \<Rightarrow> (Ok (), db) | Some m \<Rightarrow> store_meta_info Q hash m db) (\<lambda>_ db.
    store_devices P Q devices db))"

fun client_store_update ::
  "'x svalin_report codec \<Rightarrow> svalin_meta_info codec \<Rightarrow> ('x persistent_state \<Rightarrow> (spki_hash \<times> 'x device_state) list)
    \<Rightarrow> 'x persistent_message \<Rightarrow> client_db \<Rightarrow> (unit, string) result \<times> client_db" where
  "client_store_update P Q entries (UpdateSystemReport hash report) db = store_report P hash report db"
| "client_store_update P Q entries (UpdateMetaInfo hash meta_info) db = store_meta_info Q hash meta_info db"
| "client_store_update P Q entries (UpdateFromMainState state) db = store_devices P Q (entries state) db"

text \<open>Loading goes through both tables in the order in which the queries return the rows, the
  parameter \<^verbatim>\<open>select\<close>. Rows that cannot
  be decoded are skipped; a key that is not a hash panics.\<close>

fun load_rows ::
  "(bytes \<Rightarrow> ('m, string) result) \<Rightarrow> (spki_hash \<Rightarrow> 'm \<Rightarrow> 'x persistent_message) \<Rightarrow> timed_table
    \<Rightarrow> 'x persistent_state \<Rightarrow> ('x persistent_state, string) result" where
  "load_rows dec msg [] state = Ok state"
| "load_rows dec msg ((key, row) # rows) state =
    (if length key \<noteq> 32 then Panicked
     else (case dec (tr_data row) of
       Ok m \<Rightarrow> load_rows dec msg rows (persistent_update (msg (SpkiHash key) m) state)
     | _ \<Rightarrow> load_rows dec msg rows state))"

definition load_persistent ::
  "'x svalin_report codec \<Rightarrow> svalin_meta_info codec \<Rightarrow> (timed_table \<Rightarrow> timed_table) \<Rightarrow> client_db
    \<Rightarrow> ('x persistent_state, string) result" where
  "load_persistent P Q select db =
    and_then (load_rows (decode P) UpdateSystemReport (select (system_reports db)) persistent_empty) (\<lambda>state.
    load_rows (decode Q) UpdateMetaInfo (select (meta_info_rows db)) state)"

section \<open>The state of the client\<close>

record 'x client_state =
  cs_persistent :: "'x persistent_state"
  cs_agents_online :: "spki_hash set"

datatype 'x client_state_update =
    PersistentUpdate "'x persistent_message"
  | AgentOnlineStatus spki_hash bool

definition client_state_new :: "'x persistent_state \<Rightarrow> 'x client_state" where
  "client_state_new persistent = \<lparr> cs_persistent = persistent, cs_agents_online = {} \<rparr>"

fun apply_client_update :: "'x client_state_update \<Rightarrow> 'x client_state \<Rightarrow> 'x client_state" where
  "apply_client_update (PersistentUpdate msg) self = self \<lparr> cs_persistent := persistent_update msg (cs_persistent self) \<rparr>"
| "apply_client_update (AgentOnlineStatus hash online) self =
    self \<lparr> cs_agents_online := (if online then insert hash (cs_agents_online self) else cs_agents_online self - {hash}) \<rparr>"

definition agent_online :: "'x client_state \<Rightarrow> spki_hash \<Rightarrow> bool" where
  "agent_online self hash \<longleftrightarrow> hash \<in> cs_agents_online self"

text \<open>The task behind \<^verbatim>\<open>ClientStateHandle\<close>: its state, the database, and the queues of the subscribers.
  A failing write to the database is logged only.\<close>

record 'x state_task =
  tk_state :: "'x client_state"
  tk_db :: client_db
  tk_receivers :: "'x client_state_update list list"

datatype 'x client_state_request = Update "'x client_state_update" | SubscribeState

text \<open>A subscriber gets the current state and a receiver, the last one.\<close>

fun handle_state_request ::
  "'x svalin_report codec \<Rightarrow> svalin_meta_info codec \<Rightarrow> ('x persistent_state \<Rightarrow> (spki_hash \<times> 'x device_state) list)
    \<Rightarrow> 'x client_state_request \<Rightarrow> 'x state_task \<Rightarrow> 'x client_state option \<times> 'x state_task" where
  "handle_state_request P Q entries SubscribeState self =
    (Some (tk_state self), self \<lparr> tk_receivers := tk_receivers self @ [[]] \<rparr>)"
| "handle_state_request P Q entries (Update message) self =
    (None, self \<lparr> tk_receivers := map (\<lambda>q. q @ [message]) (tk_receivers self),
       tk_db := (case message of PersistentUpdate m \<Rightarrow> snd (client_store_update P Q entries m (tk_db self))
         | AgentOnlineStatus _ _ \<Rightarrow> tk_db self),
       tk_state := apply_client_update message (tk_state self) \<rparr>)"

section \<open>Messages from the server\<close>

datatype message_to_client =
    ClientAgentOnlineStatus spki_hash bool
  | ClientMls message_to_member_transport
  | ClientGoodbye

text \<open>The state updates that a message leads to, and whether the loop ends.\<close>

fun client_receive ::
  "('x, 'k, 'c, 'g, 't, 'w) member_mls \<Rightarrow> ('y svalin_report, svalin_meta_info) svalin_message codec \<Rightarrow> ('k, 'r) harness_env
    \<Rightarrow> message_to_client \<Rightarrow> ('g, 't) mls_processor
    \<Rightarrow> (bool \<times> 'y client_state_update list, 'r handle_error) result \<times> ('g, 't) mls_processor" where
  "client_receive L P E (ClientMls message) st =
    bind_st (client_handle_message L P E message st) (\<lambda>md st.
    (Ok (False, (case md_content md of
       DataInternal \<Rightarrow> []
     | DataReport hash report \<Rightarrow> [PersistentUpdate (UpdateSystemReport hash report)]
     | DataMetaInfo hash meta_info \<Rightarrow> [PersistentUpdate (UpdateMetaInfo hash meta_info)])), st))"
| "client_receive L P E (ClientAgentOnlineStatus hash online) st = (Ok (False, [AgentOnlineStatus hash online]), st)"
| "client_receive L P E ClientGoodbye st = (Ok (True, []), st)"

section \<open>Lemmas\<close>

text \<open>A state is determined by the reports and the meta information of the devices.\<close>

definition state_of :: "(spki_hash \<rightharpoonup> 'x svalin_report) \<Rightarrow> (spki_hash \<rightharpoonup> svalin_meta_info) \<Rightarrow> 'x persistent_state" where
  "state_of reports metas = (\<lambda>h. if reports h = None \<and> metas h = None then None
     else Some \<lparr> dev_spki_hash = h, dev_report = reports h, dev_meta_info = metas h \<rparr>)"

lemma state_of_empty: "persistent_empty = state_of Map.empty Map.empty"
  by (simp add: persistent_empty_def state_of_def)

lemma get_device_entry_state_of:
  "get_device_entry (state_of reports metas) h = \<lparr> dev_spki_hash = h, dev_report = reports h, dev_meta_info = metas h \<rparr>"
  by (simp add: get_device_entry_def state_of_def)

lemma persistent_update_state_of:
  "persistent_update (UpdateSystemReport h r) (state_of reports metas) = state_of (reports(h \<mapsto> r)) metas"
  "persistent_update (UpdateMetaInfo h m) (state_of reports metas) = state_of reports (metas(h \<mapsto> m))"
  by (auto simp: get_device_entry_state_of fun_eq_iff) (auto simp: state_of_def)

text \<open>What a table holds: the decoded rows. It is up to date with a map if every value of the map is
  stored with a time that is not later than its own.\<close>

definition table_holds ::
  "'m codec \<Rightarrow> ('m \<Rightarrow> int) \<Rightarrow> timed_table \<Rightarrow> (spki_hash \<rightharpoonup> 'm) \<Rightarrow> bool" where
  "table_holds P time rows f \<longleftrightarrow> distinct (map fst rows)
    \<and> (\<forall>(k, row) \<in> set rows. length k = 32 \<and>
        (\<exists>m. f (SpkiHash k) = Some m \<and> decode P (tr_data row) = Ok m \<and> tr_time row \<le> time m))
    \<and> (\<forall>h. f h \<noteq> None \<longrightarrow> spki_bytes h \<in> fst ` set rows)"

definition row_holds :: "'m codec \<Rightarrow> ('m \<Rightarrow> int) \<Rightarrow> (spki_hash \<rightharpoonup> 'm) \<Rightarrow> bytes \<Rightarrow> timed_row \<Rightarrow> bool" where
  "row_holds P time f k row \<longleftrightarrow> length k = 32 \<and>
    (\<exists>m. f (SpkiHash k) = Some m \<and> decode P (tr_data row) = Ok m \<and> tr_time row \<le> time m)"

lemma table_holds_iff:
  "table_holds P time rows f \<longleftrightarrow> distinct (map fst rows) \<and> (\<forall>(k, row) \<in> set rows. row_holds P time f k row)
    \<and> (\<forall>h. f h \<noteq> None \<longrightarrow> spki_bytes h \<in> fst ` set rows)"
  by (simp add: table_holds_def row_holds_def)

lemma upsert_keys:
  "map fst (upsert_newer k data t rows) = (if k \<in> fst ` set rows then map fst rows else map fst rows @ [k])"
proof (cases "map_of rows k")
  case None
  then have "k \<notin> fst ` set rows" by (simp add: map_of_eq_None_iff)
  then show ?thesis using None by (simp add: upsert_newer_def)
next
  case (Some row)
  then have "k \<in> fst ` set rows" by (metis domI dom_map_of_conv_image_fst)
  then show ?thesis using Some by (simp add: upsert_newer_def comp_def case_prod_unfold if_distrib [of fst])
qed

lemma upsert_rows:
  assumes "(k', row) \<in> set (upsert_newer k data t rows)"
    "\<And>r. (k, r) \<in> set rows \<Longrightarrow> tr_time r < t"
  shows "k' \<noteq> k \<and> (k', row) \<in> set rows \<or> k' = k \<and> tr_data row = data \<and> tr_time row \<le> t"
proof (cases "map_of rows k")
  case None
  then have "k \<notin> fst ` set rows" by (simp add: map_of_eq_None_iff)
  then have "(k, row) \<notin> set rows" by (auto simp: image_iff)
  then show ?thesis using assms(1) None by (auto simp: upsert_newer_def)
next
  case (Some row0)
  then obtain r where r: "(k', r) \<in> set rows" "row = (if k' = k \<and> tr_time r < t then r \<lparr> tr_data := data \<rparr> else r)"
    using assms(1) by (auto simp: upsert_newer_def split: if_splits)
  then show ?thesis using assms(2) by (auto intro: less_imp_le)
qed

lemma upsert_holds:
  assumes "table_holds P time rows f" "codec_ok P" "encode P m = Ok data" "length (spki_bytes h) = 32"
    "\<And>old. f h = Some old \<Longrightarrow> time old < time m"
  shows "table_holds P time (upsert_newer (spki_bytes h) data (time m) rows) (f(h \<mapsto> m))"
  unfolding table_holds_iff
proof (intro conjI ballI allI impI)
  have dec: "decode P data = Ok m" using assms(2,3) by (simp add: codec_ok_def)
  have hash: "SpkiHash k = h \<longleftrightarrow> k = spki_bytes h" for k by (cases h) auto
  show "distinct (map fst (upsert_newer (spki_bytes h) data (time m) rows))"
    using assms(1) unfolding upsert_keys table_holds_def by auto
  have later: "tr_time r < time m" if "(spki_bytes h, r) \<in> set rows" for r
  proof -
    have "row_holds P time f (spki_bytes h) r" using assms(1) that unfolding table_holds_iff by auto
    then show ?thesis using assms(5) hash [of "spki_bytes h"] unfolding row_holds_def by force
  qed
  fix x assume x: "x \<in> set (upsert_newer (spki_bytes h) data (time m) rows)"
  obtain k row where kr: "x = (k, row)" by fastforce
  have "k \<noteq> spki_bytes h \<and> (k, row) \<in> set rows \<or> k = spki_bytes h \<and> tr_data row = data \<and> tr_time row \<le> time m"
    by (rule upsert_rows [OF x [unfolded kr]]) (rule later)
  then have "row_holds P time (f(h \<mapsto> m)) k row"
  proof (elim disjE conjE)
    assume "k \<noteq> spki_bytes h" "(k, row) \<in> set rows"
    then have "row_holds P time f k row" using assms(1) unfolding table_holds_iff by auto
    then show ?thesis using \<open>k \<noteq> spki_bytes h\<close> hash [of k] by (simp add: row_holds_def)
  next
    assume "k = spki_bytes h" "tr_data row = data" "tr_time row \<le> time m"
    then show ?thesis using assms(4) dec hash [of k] by (simp add: row_holds_def)
  qed
  then show "case x of (k, row) \<Rightarrow> row_holds P time (f(h \<mapsto> m)) k row" using kr by simp
next
  fix h' assume "(f(h \<mapsto> m)) h' \<noteq> None"
  then have "h' = h \<or> spki_bytes h' \<in> fst ` set rows" using assms(1) unfolding table_holds_def by (auto split: if_splits)
  moreover have "fst ` set (upsert_newer (spki_bytes h) data (time m) rows) = insert (spki_bytes h) (fst ` set rows)"
    using arg_cong [OF upsert_keys [of "spki_bytes h" data "time m" rows], of set] by (auto split: if_splits)
  ultimately show "spki_bytes h' \<in> fst ` set (upsert_newer (spki_bytes h) data (time m) rows)" by auto
qed

lemma load_rows_holds:
  assumes S: "\<And>h m g. persistent_update (msg h m) (S g) = S (g(h \<mapsto> m))"
  shows "\<forall>(k, row) \<in> set rows. row_holds P time f k row \<Longrightarrow>
    load_rows (decode P) msg rows (S g) = Ok (S (\<lambda>h. if spki_bytes h \<in> fst ` set rows then f h else g h))"
proof (induction rows arbitrary: g)
  case (Cons x rows)
  obtain k row where x: "x = (k, row)" by fastforce
  obtain m where m: "length k = 32" "f (SpkiHash k) = Some m" "decode P (tr_data row) = Ok m"
    using Cons.prems unfolding x row_holds_def by auto
  have "load_rows (decode P) msg (x # rows) (S g) = load_rows (decode P) msg rows (S (g(SpkiHash k \<mapsto> m)))"
    using m by (simp add: x S)
  also have "\<dots> = Ok (S (\<lambda>h. if spki_bytes h \<in> fst ` set rows then f h else (g(SpkiHash k \<mapsto> m)) h))"
    using Cons.prems by (intro Cons.IH) auto
  also have "(\<lambda>h. if spki_bytes h \<in> fst ` set rows then f h else (g(SpkiHash k \<mapsto> m)) h)
      = (\<lambda>h. if spki_bytes h \<in> fst ` set (x # rows) then f h else g h)"
  proof
    fix h show "(if spki_bytes h \<in> fst ` set rows then f h else (g(SpkiHash k \<mapsto> m)) h)
        = (if spki_bytes h \<in> fst ` set (x # rows) then f h else g h)"
      using m(2) by (cases h) (auto simp: x)
  qed
  finally show ?case .
qed simp

lemma load_table:
  assumes "\<And>h m g. persistent_update (msg h m) (S g) = S (g(h \<mapsto> m))" "table_holds P time rows f"
    "mset selected = mset rows"
  shows "load_rows (decode P) msg selected (S Map.empty) = Ok (S f)"
proof -
  have "set selected = set rows" using assms(3) by (metis set_mset_mset)
  then have rows: "\<forall>(k, row) \<in> set selected. row_holds P time f k row" "fst ` set selected = fst ` set rows"
    using assms(2) unfolding table_holds_iff by auto
  have "f h = None" if "spki_bytes h \<notin> fst ` set rows" for h
    using assms(2) that unfolding table_holds_def by blast
  then have "(\<lambda>h. if spki_bytes h \<in> fst ` set rows then f h else None) = f" by (simp add: fun_eq_iff)
  then show ?thesis
    using load_rows_holds [where msg = msg and S = S and g = Map.empty, OF assms(1) rows(1)] unfolding rows(2) by simp
qed

text \<open>The database is up to date with a state.\<close>

definition db_holds ::
  "'x svalin_report codec \<Rightarrow> svalin_meta_info codec \<Rightarrow> client_db \<Rightarrow> 'x persistent_state \<Rightarrow> bool" where
  "db_holds P Q db st \<longleftrightarrow> (\<exists>reports metas. st = state_of reports metas
    \<and> table_holds P (\<lambda>r. as_i64 (rep_generated_at r)) (system_reports db) reports
    \<and> table_holds Q (\<lambda>m. as_i64 (mi_updated_at m)) (meta_info_rows db) metas)"

text \<open>A report or meta information that can be stored and is newer than what the device has.\<close>

fun newer_message ::
  "'x svalin_report codec \<Rightarrow> svalin_meta_info codec \<Rightarrow> 'x persistent_state \<Rightarrow> 'x persistent_message \<Rightarrow> bool" where
  "newer_message P Q st (UpdateSystemReport h r) \<longleftrightarrow> is_ok (encode P r) \<and> length (spki_bytes h) = 32
    \<and> (case dev_report (get_device_entry st h) of None \<Rightarrow> True
       | Some old \<Rightarrow> as_i64 (rep_generated_at old) < as_i64 (rep_generated_at r))"
| "newer_message P Q st (UpdateMetaInfo h m) \<longleftrightarrow> is_ok (encode Q m) \<and> length (spki_bytes h) = 32
    \<and> (case dev_meta_info (get_device_entry st h) of None \<Rightarrow> True
       | Some old \<Rightarrow> as_i64 (mi_updated_at old) < as_i64 (mi_updated_at m))"
| "newer_message P Q st (UpdateFromMainState other) \<longleftrightarrow> False"

fun newer_messages ::
  "'x svalin_report codec \<Rightarrow> svalin_meta_info codec \<Rightarrow> 'x persistent_state \<Rightarrow> 'x persistent_message list \<Rightarrow> bool" where
  "newer_messages P Q st [] \<longleftrightarrow> True"
| "newer_messages P Q st (m # ms) \<longleftrightarrow> newer_message P Q st m \<and> newer_messages P Q (persistent_update m st) ms"

lemma client_store_update_holds:
  assumes "codec_ok P" "codec_ok Q" "db_holds P Q db st" "newer_message P Q st m"
  shows "fst (client_store_update P Q entries m db) = Ok ()
    \<and> db_holds P Q (snd (client_store_update P Q entries m db)) (persistent_update m st)"
proof -
  obtain reports metas where st: "st = state_of reports metas"
      "table_holds P (\<lambda>r. as_i64 (rep_generated_at r)) (system_reports db) reports"
      "table_holds Q (\<lambda>m. as_i64 (mi_updated_at m)) (meta_info_rows db) metas"
    using assms(3) unfolding db_holds_def by blast
  show ?thesis
  proof (cases m)
    case (UpdateSystemReport h r)
    then obtain data where d: "encode P r = Ok data" using assms(4) by (auto simp: is_ok_iff)
    have "table_holds P (\<lambda>r. as_i64 (rep_generated_at r))
        (upsert_newer (spki_bytes h) data (as_i64 (rep_generated_at r)) (system_reports db)) (reports(h \<mapsto> r))"
      using assms(4) UpdateSystemReport
      by (intro upsert_holds [OF st(2) assms(1) d]) (auto simp: st(1) get_device_entry_state_of)
    then show ?thesis
      using st(3) d by (auto simp: UpdateSystemReport store_report_def db_holds_def st(1) persistent_update_state_of
          simp del: persistent_update.simps)
  next
    case (UpdateMetaInfo h i)
    then obtain data where d: "encode Q i = Ok data" using assms(4) by (auto simp: is_ok_iff)
    have "table_holds Q (\<lambda>m. as_i64 (mi_updated_at m))
        (upsert_newer (spki_bytes h) data (as_i64 (mi_updated_at i)) (meta_info_rows db)) (metas(h \<mapsto> i))"
      using assms(4) UpdateMetaInfo
      by (intro upsert_holds [OF st(3) assms(2) d]) (auto simp: st(1) get_device_entry_state_of)
    then show ?thesis
      using st(2) d by (auto simp: UpdateMetaInfo store_meta_info_def db_holds_def st(1) persistent_update_state_of
          simp del: persistent_update.simps)
  next
    case (UpdateFromMainState other)
    then show ?thesis using assms(4) by simp
  qed
qed

lemma client_store_run_holds:
  assumes "codec_ok P" "codec_ok Q"
  shows "db_holds P Q db st \<Longrightarrow> newer_messages P Q st ms \<Longrightarrow>
    db_holds P Q (fold (\<lambda>m db. snd (client_store_update P Q entries m db)) ms db) (fold persistent_update ms st)"
proof (induction ms arbitrary: db st)
  case (Cons m ms)
  then show ?case using client_store_update_holds [OF assms, of db st m entries] by simp
qed simp

lemma load_persistent_holds:
  assumes "db_holds P Q db st" "\<forall>rows. mset (select rows) = mset rows"
  shows "load_persistent P Q select db = Ok st"
proof -
  obtain reports metas where st: "st = state_of reports metas"
      "table_holds P (\<lambda>r. as_i64 (rep_generated_at r)) (system_reports db) reports"
      "table_holds Q (\<lambda>m. as_i64 (mi_updated_at m)) (meta_info_rows db) metas"
    using assms(1) unfolding db_holds_def by blast
  have "load_rows (decode P) UpdateSystemReport (select (system_reports db)) (state_of Map.empty Map.empty)
      = Ok (state_of reports Map.empty)"
    using load_table [where S = "\<lambda>f. state_of f Map.empty", OF persistent_update_state_of(1) st(2)] assms(2) by blast
  moreover have "load_rows (decode Q) UpdateMetaInfo (select (meta_info_rows db)) (state_of reports Map.empty)
      = Ok (state_of reports metas)"
    using load_table [where S = "state_of reports", OF persistent_update_state_of(2) st(3)] assms(2) by blast
  ultimately show ?thesis by (simp add: load_persistent_def state_of_empty st(1))
qed

text \<open>The view of one subscriber, number \<^verbatim>\<open>i\<close>, that started from \<^verbatim>\<open>s\<close>.\<close>

lemma state_task_run_view:
  "i < length (tk_receivers tk) \<Longrightarrow> tk_state tk = fold apply_client_update (tk_receivers tk ! i) s \<Longrightarrow>
    i < length (tk_receivers (fold (\<lambda>r tk. snd (handle_state_request P Q entries r tk)) requests tk))
    \<and> tk_state (fold (\<lambda>r tk. snd (handle_state_request P Q entries r tk)) requests tk)
      = fold apply_client_update
          (tk_receivers (fold (\<lambda>r tk. snd (handle_state_request P Q entries r tk)) requests tk) ! i) s"
proof (induction requests arbitrary: tk)
  case (Cons r requests)
  have "i < length (tk_receivers (snd (handle_state_request P Q entries r tk)))
    \<and> tk_state (snd (handle_state_request P Q entries r tk))
      = fold apply_client_update (tk_receivers (snd (handle_state_request P Q entries r tk)) ! i) s"
    using Cons.prems by (cases r) (simp_all add: nth_append)
  then show ?case using Cons.IH by simp
qed simp

lemma state_task_view:
  "tk_state (fold (\<lambda>r tk. snd (handle_state_request P Q entries r tk)) requests
      (tk \<lparr> tk_receivers := tk_receivers tk @ [[]] \<rparr>))
    = fold apply_client_update
        (tk_receivers (fold (\<lambda>r tk. snd (handle_state_request P Q entries r tk)) requests
          (tk \<lparr> tk_receivers := tk_receivers tk @ [[]] \<rparr>)) ! length (tk_receivers tk))
        (tk_state tk)"
  by (rule state_task_run_view [THEN conjunct2]) (simp_all add: nth_append)

section \<open>Sample reports\<close>

definition sample_report :: "u64 \<Rightarrow> unit svalin_report" where
  "sample_report t = \<lparr> rep_version = [], rep_generated_at = t, rep_hostname = None, rep_os_family = OsLinux, rep_rest = () \<rparr>"

definition sample_time_codec :: "unit svalin_report codec" where
  "sample_time_codec = \<lparr>
     encode = \<lambda>r. if r = sample_report 5 then Ok [5] else if r = sample_report 6 then Ok [6]
       else if r = sample_report 7 then Ok [7] else Err ''unused'',
     decode = \<lambda>bs. Ok (sample_report (if bs = [5] then 5 else if bs = [6] then 6 else 7)) \<rparr>"

definition no_meta_codec :: "svalin_meta_info codec" where
  "no_meta_codec = \<lparr> encode = \<lambda>_. Err ''unused'', decode = \<lambda>_. Err ''unused'' \<rparr>"

lemma client_codecs_ok: "codec_ok sample_time_codec" "codec_ok no_meta_codec"
  by (auto simp: codec_ok_def sample_time_codec_def no_meta_codec_def)

lemma sample_times: "as_i64 5 = 5" "as_i64 6 = 6" "as_i64 7 = 7"
  using as_i64_of_nat [of 5] as_i64_of_nat [of 6] as_i64_of_nat [of 7] by simp_all

abbreviation sample_key :: spki_hash where
  "sample_key \<equiv> SpkiHash (replicate 32 1)"

abbreviation empty_client_db :: client_db where
  "empty_client_db \<equiv> \<lparr> system_reports = [], meta_info_rows = [] \<rparr>"

section \<open>Properties\<close>



text \<open>The tables keep the time of the first report of a device for ever. Hence a report that is
  older than the stored one replaces it, and a second report of the same second is shown
  until the client restarts, when the first one comes back.\<close>

theorem stale_reports:
  assumes "codec_ok P" "length (spki_bytes h) = 32" "is_ok (encode P a)" "is_ok (encode P b)" "is_ok (encode P c)"
    "as_i64 (rep_generated_at a) < as_i64 (rep_generated_at c)" "as_i64 (rep_generated_at c) < as_i64 (rep_generated_at b)"
    "rep_generated_at d = rep_generated_at a" "is_ok (encode P d)"
  shows "(\<exists>st. load_persistent P Q id (fold (\<lambda>m db. snd (client_store_update P Q entries m db))
        [UpdateSystemReport h a, UpdateSystemReport h b, UpdateSystemReport h c] empty_client_db) = Ok st
      \<and> dev_report (get_device_entry st h) = Some c)
    \<and> (\<exists>st. load_persistent P Q id (fold (\<lambda>m db. snd (client_store_update P Q entries m db))
        [UpdateSystemReport h a, UpdateSystemReport h d] empty_client_db) = Ok st
      \<and> dev_report (get_device_entry st h) = Some a
      \<and> dev_report (get_device_entry
          (fold persistent_update [UpdateSystemReport h a, UpdateSystemReport h d] persistent_empty) h) = Some d)"
proof -
  obtain xa xb xc xd where e: "encode P a = Ok xa" "encode P b = Ok xb" "encode P c = Ok xc" "encode P d = Ok xd"
    using assms(3,4,5,9) by (auto simp: is_ok_iff)
  then have dec: "decode P xa = Ok a" "decode P xc = Ok c" using assms(1) by (auto simp: codec_ok_def)
  have key: "SpkiHash (spki_bytes h) = h" by (cases h) simp
  show ?thesis
    using assms(2,6-8) e dec
    by (simp add: store_report_def upsert_newer_def load_persistent_def persistent_empty_def get_device_entry_def key)
qed

theorem stale_reports_witness:
  "\<exists>st. load_persistent sample_time_codec no_meta_codec id
      (fold (\<lambda>m db. snd (client_store_update sample_time_codec no_meta_codec (\<lambda>_. []) m db))
        [UpdateSystemReport sample_key (sample_report 5), UpdateSystemReport sample_key (sample_report 7),
         UpdateSystemReport sample_key (sample_report 6)] empty_client_db) = Ok st
    \<and> dev_report (get_device_entry st sample_key) = Some (sample_report 6)"
  using stale_reports [OF client_codecs_ok(1), of sample_key "sample_report 5" "sample_report 7" "sample_report 6"
      "sample_report 5" no_meta_codec "\<lambda>_. []"] sample_times
  by (simp add: sample_time_codec_def) (simp add: sample_report_def)

text \<open>A subscriber that starts from the state it was given and applies what it receives has the
  state of the task, whatever requests come in between.\<close>

theorem subscriber_view:
  "tk_state (fold (\<lambda>r tk. snd (handle_state_request P Q entries r tk)) requests
      (snd (handle_state_request P Q entries SubscribeState tk)))
    = fold apply_client_update
        (tk_receivers (fold (\<lambda>r tk. snd (handle_state_request P Q entries r tk)) requests
          (snd (handle_state_request P Q entries SubscribeState tk))) ! length (tk_receivers tk))
        (the (fst (handle_state_request P Q entries SubscribeState tk)))"
  by (simp add: state_task_view)

end
