(* ===== verification/InitServer.thy ===== *)
theory InitServer
  imports Login ClientState MemoryStore
begin

text \<open>
  Initialising a server (\<^verbatim>\<open>svalin/src/shared/commands/init.rs\<close>): the first client makes the root
  credential, the certificate of the server and the trust store, and the server keeps them
  with the root user.
\<close>

section \<open>The request\<close>

type_synonym 'x persistent_data = "'x persistent_state encrypted_object"

record ('pt, 'sc, 'x) init_request =
  ir_server_cert :: unverified_certificate
  ir_encrypted_credential :: encrypted_credential
  ir_credential_key_params :: argon_params
  ir_totp_secret :: bytes
  ir_username :: bytes
  ir_secret_exponent :: 'sc
  ir_params :: params_string
  ir_verifier :: 'pt
  ir_user_mls_store :: "memory_storage encrypted_object"
  ir_persistent_data :: "'x persistent_data"
  ir_trust_store :: exported_store
  ir_trust_store_digest :: "chain_digest encrypted_object"

type_synonym ('pt, 'sc, 'x) init_user =
  "(('pt, 'sc) login_data, memory_storage encrypted_object, 'x persistent_data) stored_user"

text \<open>The arguments of \<^verbatim>\<open>add_root_user\<close>.\<close>

definition init_user_of :: "('pt, 'sc, 'x) init_request \<Rightarrow> ('pt, 'sc, 'x) init_user" where
  "init_user_of r = \<lparr> su_credential = ir_encrypted_credential r,
     su_login = \<lparr> ld_key_params = ir_credential_key_params r, ld_totp_secret = ir_totp_secret r,
       ld_secret_exponent = ir_secret_exponent r, ld_params = ir_params r, ld_verifier = ir_verifier r,
       ld_trust_store = ir_trust_store r, ld_trust_store_digest = ir_trust_store_digest r \<rparr>,
     su_username = ir_username r, su_mls_store = ir_user_mls_store r, su_persistent_data = ir_persistent_data r \<rparr>"

record ('pt, 'sc, 'x) init_codecs =
  ic_public_key :: "exported_public_key codec"
  ic_request :: "('pt, 'sc, 'x) init_request codec"
  ic_result :: "unit option codec"
  ic_unit :: "unit codec"
  ic_user :: "('pt, 'sc, 'x) init_user codec"

section \<open>The server\<close>

datatype init_handler_error =
    AlreadyInitialized
  | IhWrite object_error
  | IhRead object_error
  | IhUpgrade create_credentials_error
  | IhImport "inner_import_error chain_import_error"
  | RootMismatch
  | IhUserStore user_store_error

text \<open>The user table, whether the channel is still there, and what went through it.\<close>

record init_state =
  is_users :: "user_row list"
  is_channel :: bool
  is_success :: "(credential \<times> trust_store) option"

definition init_receive ::
  "tls_libs \<Rightarrow> ('pt, 'sc, 'x) init_codecs \<Rightarrow> keypair
    \<Rightarrow> (('pt, 'sc, 'x) init_request \<times> credential \<times> trust_store, init_handler_error) result script" where
  "init_receive L J keypair =
    then_script (put_object IhWrite (ic_public_key J) (export_public_key keypair)) (\<lambda>_.
    then_script (get_object IhRead (ic_request J)) (\<lambda>init_request.
    then_script (lift_result (map_err IhUpgrade (upgrade (lib_crypto L) (lib_rcgen L) keypair (ir_server_cert init_request)))) (\<lambda>my_credential.
    then_script (lift_result (map_err IhImport (trust_store_import (lib_crypto L) (ir_trust_store init_request)))) (\<lambda>trust_store.
    then_script (lift_result (ensure
      (cert_eq (root_as_unverified (trust_store_root trust_store)) (enc_certificate (ir_encrypted_credential init_request))) RootMismatch)) (\<lambda>_.
    lift_result (Ok (init_request, my_credential, trust_store)))))))"

text \<open>The guard is held from start to end, so requests are handled one after the other. The channel is
  taken before the answer is written, and dropped with the guard when that fails.\<close>

definition init_handle ::
  "tls_libs \<Rightarrow> ('pt, 'sc, 'x) init_codecs \<Rightarrow> keypair \<Rightarrow> init_state \<Rightarrow> ((unit, init_handler_error) result \<times> init_state) script" where
  "init_handle L J keypair self =
    (if \<not> is_channel self then Finish (Err AlreadyInitialized, self)
     else
       bind_script (init_receive L J keypair) (\<lambda>received.
       case received of
         Err e \<Rightarrow> Finish (Err e, self)
       | Panicked \<Rightarrow> Finish (Panicked, self)
       | Ok (init_request, my_credential, trust_store) \<Rightarrow>
          (case add_root_user (ic_user J) (init_user_of init_request) (is_users self) of
             (Err e, users) \<Rightarrow> Finish (Err (IhUserStore e), self \<lparr> is_users := users \<rparr>)
           | (Panicked, users) \<Rightarrow> Finish (Panicked, self \<lparr> is_users := users \<rparr>)
           | (Ok _, users) \<Rightarrow>
              let self = self \<lparr> is_users := users, is_channel := False \<rparr> in
              bind_script (put_object IhWrite (ic_result J) (Some ())) (\<lambda>written.
              case written of
                Err e \<Rightarrow> Finish (Err e, self)
              | Panicked \<Rightarrow> Finish (Panicked, self)
              | Ok _ \<Rightarrow>
                 bind_script (get_object IhRead (ic_unit J)) (\<lambda>_.
                 Finish (Ok (), self \<lparr> is_success := Some (my_credential, trust_store) \<rparr>))))))"

section \<open>The client\<close>

datatype init_error =
    InUseAsRootError use_as_root_error
  | ReadRequestError object_error
  | CreateCertError create_certificate_error
  | WriteServerCertError object_error
  | InReadSuccessError object_error
  | WriteConfirmError object_error
  | InAucPaceError string
  | InEncryptError encrypt_error
  | InUnspecified derive_key_error
  | ServerError
  | InCreateBlockError "ts_error create_block_error"

record init_client =
  in_root :: credential
  in_username :: bytes
  in_password :: bytes
  in_totp :: bytes

text \<open>\<^verbatim>\<open>Init::new\<close>.\<close>

definition init_new ::
  "crypto \<Rightarrow> rcgen \<Rightarrow> int \<Rightarrow> int \<Rightarrow> keypair \<Rightarrow> bytes \<Rightarrow> bytes \<Rightarrow> bytes \<Rightarrow> (init_client, create_credentials_error) result" where
  "init_new C R now1 now2 kp totp username password =
    map_ok (\<lambda>root. \<lparr> in_root = root, in_username = username, in_password = password, in_totp = totp \<rparr>)
      (generate_root C R now1 now2 kp)"

text \<open>The libraries and serializers of the client, its clock and what it draws.\<close>

record ('pt, 'sc, 'x) init_env =
  ie_register :: "('pt, 'sc) strong_register"
  ie_argon2 :: argon2
  ie_state_codec :: "'x persistent_state codec"
  ie_memory_codec :: "memory_storage codec"
  ie_saved_codec :: "saved_keypair codec"
  ie_digest_codec :: "chain_digest codec"
  ie_now1 :: int
  ie_now2 :: int
  ie_now3 :: u64
  ie_rand :: bytes
  ie_salt :: bytes
  ie_masks :: "nat \<Rightarrow> bytes"

text \<open>The registration, with its \<^verbatim>\<open>unreachable!\<close> branch.\<close>

definition init_register ::
  "('pt, 'sc, 'x) init_env \<Rightarrow> init_client \<Rightarrow> ('sc \<times> params_string \<times> 'pt, init_error) result" where
  "init_register N self =
    and_then (map_err InAucPaceError (ie_register N (in_username self) (in_password self) argon_cost_strong (ie_rand N))) (\<lambda>m.
    case m of
      StrongRegistration username secret_exponent params verifier \<Rightarrow> Ok (secret_exponent, params, verifier)
    | OtherRegistration \<Rightarrow> Panicked)"

text \<open>Everything between reading the key of the server and writing the request.\<close>

definition init_prepare ::
  "tls_libs \<Rightarrow> ('pt, 'sc, 'x) init_env \<Rightarrow> init_client \<Rightarrow> exported_public_key
    \<Rightarrow> (('pt, 'sc, 'x) init_request \<times> trust_store, init_error) result" where
  "init_prepare L N self pubkey =
    (let C = lib_crypto L; A = lib_aead L in
    and_then (map_err CreateCertError
      (create_server_certificate_for_key C (lib_rcgen L) (ie_now1 N) (ie_now2 N) (in_root self) pubkey)) (\<lambda>server_cert.
    and_then (map_err InUseAsRootError (use_as_root (as_unverified (cred_certificate (in_root self))))) (\<lambda>root.
    let trust_store = trust_store_initialize root in
    and_then (init_register N self) (\<lambda>(secret_exponent, params, verifier).
    let credential_key_params = strong_with_salt (ie_salt N) in
    and_then (map_err InUnspecified (derive_encryption_key (ie_argon2 N) credential_key_params (in_password self))) (\<lambda>key.
    and_then (map_err InEncryptError (encrypt_object A (ie_state_codec N) (ie_masks N 0) persistent_empty key)) (\<lambda>persistent_data.
    and_then (map_err InEncryptError (storage_export A (ie_memory_codec N) (ie_masks N 1) storage_new_memory key)) (\<lambda>user_mls_store.
    and_then (map_err InEncryptError (credential_export A (ie_saved_codec N) (ie_masks N 2) (in_root self) key)) (\<lambda>encrypted_credential.
    case trust_store_add C (ie_now3 N) trust_store server_cert (in_root self) of
      (Err e, _) \<Rightarrow> Err (InCreateBlockError e)
    | (Panicked, _) \<Rightarrow> Panicked
    | (Ok block, trust_store) \<Rightarrow>
    and_then (expect_some (trust_store_apply C trust_store block)) (\<lambda>trust_store.
    and_then (map_err InEncryptError
      (encrypt_object A (ie_digest_codec N) (ie_masks N 3) (trust_store_digest C trust_store) key)) (\<lambda>trust_store_digest.
    Ok (\<lparr> ir_server_cert = as_unverified server_cert, ir_encrypted_credential = encrypted_credential,
          ir_credential_key_params = credential_key_params, ir_totp_secret = in_totp self, ir_username = in_username self,
          ir_secret_exponent = secret_exponent, ir_params = params, ir_verifier = verifier, ir_user_mls_store = user_mls_store,
          ir_persistent_data = persistent_data, ir_trust_store = trust_store_export C trust_store,
          ir_trust_store_digest = trust_store_digest \<rparr>, trust_store)))))))))))"

definition init_dispatch ::
  "tls_libs \<Rightarrow> ('pt, 'sc, 'x) init_codecs \<Rightarrow> ('pt, 'sc, 'x) init_env \<Rightarrow> init_client
    \<Rightarrow> (credential \<times> trust_store, init_error) result script" where
  "init_dispatch L J N self =
    then_script (get_object ReadRequestError (ic_public_key J)) (\<lambda>pubkey.
    then_script (lift_result (init_prepare L N self pubkey)) (\<lambda>(init_request, trust_store).
    then_script (put_object WriteServerCertError (ic_request J) init_request) (\<lambda>_.
    then_script (get_object InReadSuccessError (ic_result J)) (\<lambda>server_result.
    then_script (put_object WriteConfirmError (ic_unit J) ()) (\<lambda>_.
    lift_result (map_ok (\<lambda>_. (in_root self, trust_store)) (ok_or ServerError server_result)))))))"

section \<open>Lemmas\<close>

text \<open>The trust store that the client makes survives being exported and imported.\<close>

lemma init_trust_store:
  assumes "root_ok C r" "issuer (root_as_unverified r) = spki_hash (root_as_unverified r)" "cert_wf C (as_unverified server)"
    "trust_store_add C now (trust_store_initialize r) server cred = (Ok block, ts)"
  shows "\<exists>ts'. ts = trust_store_initialize r \<and> trust_store_apply C ts block = Some ts'
    \<and> trust_store_import C (trust_store_export C ts') = Ok ts' \<and> trust_store_root ts' = r
    \<and> trust_store_get ts' (cert_spki server) = Some (Certificate (as_unverified server))"
proof -
  let ?T = "trust_state_ops C" and ?k = "cert_spki (cred_certificate cred)" and ?tx = "Add (as_unverified server)"
    and ?s = "state_initialize r"
  have st: "chain_st (trust_store_initialize r) = ?s" by (simp add: trust_store_initialize_def chain_initialize_def)
  have inv: "state_inv C ?s" by (rule state_initialize_inv [OF assms(1)])
  have tx: "transaction_ok C ?tx" using assms(3) by (simp add: transaction_ok_def)
  have chk: "state_check C ?s ?k now ?tx = Ok ()"
    using assms(4) st by (auto simp: trust_store_add_def chain_package_def Let_def split: result.splits option.splits)
  let ?s' = "?s \<lparr> ts_certificates := fmupd (spki_hash (as_unverified server)) (Certificate (as_unverified server)) (ts_certificates ?s) \<rparr>"
  have app: "state_apply C ?s ?k now ?tx = Some ?s'" by (rule state_apply_AddD [OF inv chk])
  have same: "ts = trust_store_initialize r"
    using ts.chain_package_unchanged [OF inv [folded st] tx] assms(4) by (metis snd_conv trust_store_add_def)
  have block: "block_signer (as_unchecked block) = ?k" "block_time (as_unchecked block) = now"
      "block_transaction (as_unchecked block) = ?tx" "resulting_state (as_unchecked block) = state_digest ?T C ?s'"
    using assms(4) chk app st
    by (auto simp: trust_store_add_def chain_package_def Let_def next_block_def split: option.splits)
  define ts' where "ts' = \<lparr> last_block = Some block, chain_st = ?s' \<rparr>"
  have "trust_store_apply C ts block = Some ts'"
    using app block by (simp add: trust_store_apply_def chain_apply_def same st ts'_def Let_def)
  moreover have "issuers_present ?s'"
  proof -
    obtain p where "fmlookup (ts_certificates ?s) ?k = Some p" "cert_spki p = issuer (as_unverified server)"
      by (rule state_check_AddD [OF chk]) blast
    then have "issuer (as_unverified server) = spki_hash (root_as_unverified r)"
      using assms(1) by (auto simp: state_initialize_def split: if_splits)
    then show ?thesis
      using assms(2) by (auto simp: issuers_present_def state_initialize_def split: if_splits)
  qed
  then have "trust_store_import C (trust_store_export C ts') = Ok ts'"
    unfolding trust_store_import_def trust_store_export_def
    by (intro ts.chain_import_export) (use state_import_export [OF state_apply_inv [OF inv tx chk app]] block in \<open>simp_all add: ts'_def\<close>)
  moreover have "trust_store_root ts' = r" by (simp add: trust_store_root_def ts'_def state_initialize_def)
  moreover have "trust_store_get ts' (cert_spki server) = Some (Certificate (as_unverified server))"
    by (simp add: trust_store_get_def ts'_def)
  ultimately show ?thesis using same by blast
qed

lemma right_get_bind:
  assumes "decode K b = Ok x" "net_runs X (net_of l (f (Ok x)) q q') e"
  shows "net_runs X (net_of l (bind_script (get_object E K) f) (b # q) q') e"
proof -
  have "net_step X (net_of l (bind_script (get_object E K) f) (b # q) q') (net_of l (f (Ok x)) q q')"
    by (rule net_step.right) (simp add: right_move_def left_move_def swap_net_def get_object_def assms(1))
  then show ?thesis using assms(2) by (rule converse_rtranclp_into_rtranclp)
qed

text \<open>The handler with the state in the result of the last step only.\<close>

definition init_keep ::
  "('pt, 'sc, 'x) init_codecs \<Rightarrow> init_state \<Rightarrow> ('pt, 'sc, 'x) init_request \<times> credential \<times> trust_store
    \<Rightarrow> ((unit, init_handler_error) result \<times> init_state, init_handler_error) result script" where
  "init_keep J self received =
    (case received of (init_request, my_credential, trust_store) \<Rightarrow>
     case add_root_user (ic_user J) (init_user_of init_request) (is_users self) of
       (Err e, users) \<Rightarrow> Finish (Ok (Err (IhUserStore e), self \<lparr> is_users := users \<rparr>))
     | (Panicked, users) \<Rightarrow> Finish (Ok (Panicked, self \<lparr> is_users := users \<rparr>))
     | (Ok _, users) \<Rightarrow>
        let self = self \<lparr> is_users := users, is_channel := False \<rparr> in
        bind_script (put_object IhWrite (ic_result J) (Some ())) (\<lambda>written.
        case written of
          Err e \<Rightarrow> Finish (Ok (Err e, self))
        | Panicked \<Rightarrow> Finish (Ok (Panicked, self))
        | Ok _ \<Rightarrow>
           bind_script (get_object IhRead (ic_unit J)) (\<lambda>_.
           Finish (Ok (Ok (), self \<lparr> is_success := Some (my_credential, trust_store) \<rparr>)))))"

definition init_outcome :: "init_state \<Rightarrow> ((unit, 'e) result \<times> init_state, 'e) result \<Rightarrow> (unit, 'e) result \<times> init_state" where
  "init_outcome self r = (case r of Ok x \<Rightarrow> x | Err e \<Rightarrow> (Err e, self) | Panicked \<Rightarrow> (Panicked, self))"

lemma init_handle_map:
  assumes "is_channel self"
  shows "init_handle L J keypair self = map_script (init_outcome self) (then_script (init_receive L J keypair) (init_keep J self))"
  using assms unfolding init_handle_def map_script_def then_script_def bind_script_assoc
  by (auto intro!: arg_cong [of _ _ "bind_script (init_receive L J keypair)"] arg_cong [of _ _ "bind_script (put_object IhWrite (ic_result J) (Some ()))"]
      simp: init_keep_def init_outcome_def bind_script_assoc fun_eq_iff Let_def split: result.splits prod.splits)

lemma case_result_prod_Ok:
  "(case x of (Err e, _) \<Rightarrow> Err (E e) | (Panicked, _) \<Rightarrow> Panicked | (Ok b, c) \<Rightarrow> f b c) = Ok y
    \<longleftrightarrow> (\<exists>b c. x = (Ok b, c) \<and> f b c = Ok y)"
  by (cases x; cases "fst x") auto

lemma init_prepare_OkD:
  assumes "init_prepare L N self pubkey = Ok (request, ts)"
  obtains server r block ts0 where
    "create_server_certificate_for_key (lib_crypto L) (lib_rcgen L) (ie_now1 N) (ie_now2 N) (in_root self) pubkey = Ok server"
    "use_as_root (as_unverified (cred_certificate (in_root self))) = Ok r"
    "trust_store_add (lib_crypto L) (ie_now3 N) (trust_store_initialize r) server (in_root self) = (Ok block, ts0)"
    "trust_store_apply (lib_crypto L) ts0 block = Some ts"
    "ir_server_cert request = as_unverified server" "ir_trust_store request = trust_store_export (lib_crypto L) ts"
    "enc_certificate (ir_encrypted_credential request) = as_unverified (cred_certificate (in_root self))"
    "ir_username request = in_username self"
proof -
  from assms show thesis
    using that unfolding init_prepare_def Let_def
    by (auto simp: result_simps case_result_prod_Ok credential_export_def)
qed

text \<open>What the server finds when it checks the request of the client.\<close>

lemma init_request_accepted:
  assumes "signed_by_ok (lib_crypto L) (lib_rcgen L)" "use_as_root (as_unverified (cred_certificate (in_root client))) = Ok r"
    "root_ok (lib_crypto L) r" "issuer (root_as_unverified r) = spki_hash (root_as_unverified r)"
    "init_prepare L N client (export_public_key keypair) = Ok (request, ts)"
  obtains server where
    "upgrade (lib_crypto L) (lib_rcgen L) keypair (ir_server_cert request) = Ok \<lparr> cred_keypair = keypair, cred_certificate = server \<rparr>"
    "trust_store_import (lib_crypto L) (ir_trust_store request) = Ok ts" "trust_store_root ts = r"
    "trust_store_get ts (cert_spki server) = Some server"
    "enc_certificate (ir_encrypted_credential request) = root_as_unverified r" "ir_username request = in_username client"
proof -
  let ?C = "lib_crypto L" and ?R = "lib_rcgen L"
  from init_prepare_OkD [OF assms(5)] obtain server block ts0 where p:
      "create_server_certificate_for_key ?C ?R (ie_now1 N) (ie_now2 N) (in_root client) (export_public_key keypair) = Ok server"
      "trust_store_add ?C (ie_now3 N) (trust_store_initialize r) server (in_root client) = (Ok block, ts0)"
      "trust_store_apply ?C ts0 block = Some ts"
      "ir_server_cert request = as_unverified server" "ir_trust_store request = trust_store_export ?C ts"
      "enc_certificate (ir_encrypted_credential request) = as_unverified (cred_certificate (in_root client))"
      "ir_username request = in_username client"
    using assms(2) by (metis result.inject(1))
  have r: "as_unverified (cred_certificate (in_root client)) = root_as_unverified r"
    using assms(2) by (auto simp: use_as_root_def split: if_splits)
  obtain c where c: "create_certificate_for_key ?C ?R (ie_now1 N) (ie_now2 N) (in_root client) (export_public_key keypair) Server = Ok c"
      "server = Certificate c"
    using p(1) by (auto simp: create_server_certificate_for_key_def mark_as_trusted_def result_simps)
  have "upgrade ?C ?R keypair (as_unverified server) = Ok \<lparr> cred_keypair = keypair, cred_certificate = server \<rparr>"
    using certificate_for_key_upgrades [OF assms(1) c(1)] c(2) by simp
  moreover have "cert_wf ?C c" using c(1) by (auto simp: create_certificate_for_key_def result_simps intro: from_der_wf)
  then have "trust_store_import ?C (trust_store_export ?C ts) = Ok ts" "trust_store_root ts = r"
      "trust_store_get ts (cert_spki server) = Some server"
    using init_trust_store [OF assms(3,4) _ p(2)] p(3) c(2) by auto
  ultimately show thesis using that p(4-7) r by simp
qed

section \<open>Properties\<close>

text \<open>C29. A client and a fresh server come to the same end in every order of steps: the client has its root
  credential and a trust store, the server has the same trust store, a credential for the key
  pair it drew, whose certificate is in that trust store, and exactly one user, the root user.\<close>

theorem init_agrees:
  assumes "signed_by_ok (lib_crypto L) (lib_rcgen L)" "use_as_root (as_unverified (cred_certificate (in_root client))) = Ok r"
    "root_ok (lib_crypto L) r" "issuer (root_as_unverified r) = spki_hash (root_as_unverified r)"
    "init_prepare L N client (export_public_key keypair) = Ok (request, ts)"
    "carries (ic_public_key J) (export_public_key keypair)" "carries (ic_request J) request" "carries (ic_result J) (Some ())"
    "carries (ic_unit J) ()" "encode (ic_user J) (init_user_of request) = Ok user_data" "is_channel self" "is_users self = []"
  shows "\<exists>cred. (\<forall>n. net_runs X (net_of (init_dispatch L J N client) (init_handle L J keypair self) [] []) n \<longrightarrow>
        net_runs X n (net_of (Finish (Ok (in_root client, ts)))
          (Finish (Ok (), self \<lparr> is_users := [\<lparr> ur_spki = spki_bytes (spki_hash (root_as_unverified r)),
             ur_username = in_username client, ur_data = user_data \<rparr>], is_channel := False, is_success := Some (cred, ts) \<rparr>)) [] []))
    \<and> cred_keypair cred = keypair \<and> trust_store_get ts (cert_spki (cred_certificate cred)) = Some (cred_certificate cred)
    \<and> trust_store_root ts = r"
proof -
  let ?users = "[\<lparr> ur_spki = spki_bytes (spki_hash (root_as_unverified r)), ur_username = in_username client, ur_data = user_data \<rparr>]"
  from init_request_accepted [OF assms(1-5)] obtain server where p:
      "upgrade (lib_crypto L) (lib_rcgen L) keypair (ir_server_cert request) = Ok \<lparr> cred_keypair = keypair, cred_certificate = server \<rparr>"
      "trust_store_import (lib_crypto L) (ir_trust_store request) = Ok ts" "trust_store_root ts = r"
      "trust_store_get ts (cert_spki server) = Some server"
      "enc_certificate (ir_encrypted_credential request) = root_as_unverified r" "ir_username request = in_username client" .
  have root_type: "certificate_type (root_as_unverified r) = Root" using assms(3) by (simp add: root_ok_def)
  have stored: "add_root_user (ic_user J) (init_user_of request) (is_users self) = (Ok (), ?users)"
    using assms(10,12) p(5,6) root_type by (simp add: add_root_user_def init_user_of_def)
  obtain bk bq br bu where k: "encode (ic_public_key J) (export_public_key keypair) = Ok bk"
      "decode (ic_public_key J) bk = Ok (export_public_key keypair)"
      "encode (ic_request J) request = Ok bq" "decode (ic_request J) bq = Ok request"
      "encode (ic_result J) (Some ()) = Ok br" "decode (ic_result J) br = Ok (Some ())"
      "encode (ic_unit J) () = Ok bu" "decode (ic_unit J) bu = Ok ()"
    using assms(6-9) by (auto simp: carries_def)
  have run: "net_runs X (net_of (init_dispatch L J N client) (then_script (init_receive L J keypair) (init_keep J self)) [] [])
      (net_of (Finish (Ok (in_root client, ts))) (Finish (Ok (Ok (), self \<lparr> is_users := ?users, is_channel := False,
         is_success := Some (\<lparr> cred_keypair = keypair, cred_certificate = server \<rparr>, ts) \<rparr>))) [] [])"
    unfolding init_dispatch_def init_receive_def init_keep_def
    by (simp add: assms(5) p stored lift_result_def Let_def cert_eq_def
      | rule pake_steps, simp add: k | rule right_put_bind, simp add: k | rule right_get_bind, simp add: k)+
  then have fin: "net_runs X (net_of (init_dispatch L J N client) (init_handle L J keypair self) [] [])
      (net_of (Finish (Ok (in_root client, ts))) (Finish (Ok (), self \<lparr> is_users := ?users, is_channel := False,
         is_success := Some (\<lparr> cred_keypair = keypair, cred_certificate = server \<rparr>, ts) \<rparr>)) [] [])"
    using net_runs_map [OF run, of "init_outcome self"] by (simp add: init_handle_map [OF assms(11)] init_outcome_def)
  show ?thesis
    by (rule exI [of _ "\<lparr> cred_keypair = keypair, cred_certificate = server \<rparr>"]) (use net_confluent [OF fin _ net_finished] p in simp)
qed

lemma add_root_user_exists: "users \<noteq> [] \<Longrightarrow> add_root_user P user users = (Err RootUserExists, users)"
  by (simp add: add_root_user_def Let_def)

lemma add_root_user_adds: "add_root_user P user users = (Ok (), users') \<Longrightarrow> users' \<noteq> []"
  by (auto simp: add_root_user_def Let_def result_simps split: if_splits)

text \<open>Once there is a user, no request changes anything.\<close>

lemma init_handle_users:
  assumes "may_end (init_handle L J keypair self) (r, self')" "is_users self \<noteq> []"
  shows "\<not> is_ok r \<and> self' = self"
  using assms
  by (auto simp: init_handle_def may_end_bind may_end_case_result may_end_prod add_root_user_exists split: if_splits)

text \<open>C30. If the client is gone when the server answers, the root user is stored, but the server never gets
  its credential and its trust store. From then on every request fails and changes nothing,
  on this server and, since the user table stays, on every server that is started on it: it
  can never be initialised.\<close>

theorem init_interrupted:
  assumes "may_end (init_receive L J keypair) (Ok (request, cred, ts))"
    "add_root_user (ic_user J) (init_user_of request) (is_users self) = (Ok (), users)"
    "is_channel self" "is_success self = None" "is_ok (encode (ic_result J) (Some ()))"
  shows "may_end (init_handle L J keypair self) (Err (IhWrite ObjectIo), self \<lparr> is_users := users, is_channel := False \<rparr>)
    \<and> (\<forall>keypair' channel r self'.
        may_end (init_handle L J keypair' (self \<lparr> is_users := users, is_channel := channel \<rparr>)) (r, self')
        \<longrightarrow> \<not> is_ok r \<and> is_users self' = users \<and> is_success self' = None)"
proof -
  have "may_end (put_object IhWrite (ic_result J) (Some ())) (Err (IhWrite ObjectIo))"
    using assms(5) by (auto simp: put_object_def is_ok_iff)
  then have "may_end (init_handle L J keypair self) (Err (IhWrite ObjectIo), self \<lparr> is_users := users, is_channel := False \<rparr>)"
    unfolding init_handle_def using assms(1-3)
    by (auto simp: may_end_bind may_end_case_result Let_def intro!: exI [of _ "Ok (request, cred, ts)"])
  moreover have "\<not> is_ok r \<and> is_users self' = users \<and> is_success self' = None"
    if "may_end (init_handle L J keypair' (self \<lparr> is_users := users, is_channel := channel \<rparr>)) (r, self')" for keypair' channel r self'
    using init_handle_users [OF that] add_root_user_adds [OF assms(2)] assms(4) by simp
  ultimately show ?thesis by blast
qed

section \<open>A sample\<close>

definition sample_init_libs :: tls_libs where
  "sample_init_libs = sample_tls_libs \<lparr> lib_rcgen := sample_temp_rcgen \<lparr> signed_by := \<lambda>p pk ca kp.
     if p = leaf_params 0 0 Server (SpkiHash (sample_pad 32 [5])) \<and> epk_der pk = [5] then Ok [4, 5, 7, 0] else Err ''unsupported'' \<rparr> \<rparr>"

definition sample_init_client :: init_client where
  "sample_init_client = \<lparr> in_root = sample_root_credential, in_username = [117], in_password = [4], in_totp = [5] \<rparr>"

definition sample_init_env :: "(bytes, unit, unit) init_env" where
  "sample_init_env = \<lparr> ie_register = sample_strong_register, ie_argon2 = (\<lambda>_ _ secret. Ok secret),
     ie_state_codec = \<lparr> encode = (\<lambda>_. Ok []), decode = (\<lambda>_. Ok persistent_empty) \<rparr>,
     ie_memory_codec = \<lparr> encode = (\<lambda>_. Ok []), decode = (\<lambda>_. Ok storage_new_memory) \<rparr>,
     ie_saved_codec = sample_saved_codec, ie_digest_codec = sample_codec, ie_now1 = 0, ie_now2 = 0, ie_now3 = 1, ie_rand = [],
     ie_salt = [], ie_masks = (\<lambda>_. replicate 12 9) \<rparr>"

definition sample_server_keypair :: keypair where
  "sample_server_keypair = \<lparr> kp_serialized_der = [5], kp_public_der = [5] \<rparr>"

lemma sample_init_root:
  "use_as_root (as_unverified (cred_certificate (in_root sample_init_client))) = Ok sample_root"
  "issuer (root_as_unverified sample_root) = spki_hash (root_as_unverified sample_root)"
  by (simp_all add: use_as_root_def sample_init_client_def sample_root_credential_def sample_root_def sample_cert_def)

lemma sample_init_store:
  "\<exists>block ts. trust_store_add sample_crypto 1 (trust_store_initialize sample_root) (Certificate (sample_cert Server 4 5 7 0))
      sample_root_credential = (Ok block, trust_store_initialize sample_root)
    \<and> trust_store_apply sample_crypto (trust_store_initialize sample_root) block = Some ts"
proof -
  have wf: "cert_wf sample_crypto (sample_cert Server 4 5 7 0)" by code_simp
  have st: "chain_st (trust_store_initialize sample_root) = state_initialize sample_root"
    by (simp add: trust_store_initialize_def chain_initialize_def)
  have "state_check sample_crypto (state_initialize sample_root) (cert_spki (cred_certificate sample_root_credential)) 1
      (Add (sample_cert Server 4 5 7 0)) = Ok ()" by code_simp
  then obtain block where "trust_store_add sample_crypto 1 (trust_store_initialize sample_root) (Certificate (sample_cert Server 4 5 7 0))
      sample_root_credential = (Ok block, trust_store_initialize sample_root)"
    using chain_package_OkI [of sample_crypto "trust_store_initialize sample_root" "Add (sample_cert Server 4 5 7 0)" sample_root_credential 1]
      wf state_initialize_inv [OF sample_root_ok] by (auto simp: trust_store_add_def transaction_ok_def st)
  with init_trust_store [OF sample_root_ok sample_init_root(2) _ this] wf show ?thesis by auto
qed

lemma sample_init_prepare:
  obtains request ts where
    "init_prepare sample_init_libs sample_init_env sample_init_client (export_public_key sample_server_keypair) = Ok (request, ts)"
proof -
  have libs: "lib_crypto sample_init_libs = sample_crypto" "lib_aead sample_init_libs = sample_aead"
    by (simp_all add: sample_init_libs_def sample_tls_libs_def)
  have der: "from_der sample_crypto [4, 5, 7, 0] = Ok (sample_cert Server 4 5 7 0)" by code_simp
  have cert: "create_server_certificate_for_key sample_crypto (lib_rcgen sample_init_libs) 0 0 sample_root_credential
      (export_public_key sample_server_keypair) = Ok (Certificate (sample_cert Server 4 5 7 0))"
    by (simp add: create_server_certificate_for_key_def create_certificate_for_key_def sample_init_libs_def sample_temp_rcgen_def
        sample_rcgen_def sample_spki der mark_as_trusted_def export_public_key_def sample_server_keypair_def)
  obtain block ts where ts: "trust_store_add sample_crypto 1 (trust_store_initialize sample_root) (Certificate (sample_cert Server 4 5 7 0))
      sample_root_credential = (Ok block, trust_store_initialize sample_root)"
      "trust_store_apply sample_crypto (trust_store_initialize sample_root) block = Some ts" using sample_init_store by blast
  have sel: "in_root sample_init_client = sample_root_credential" "ie_now1 sample_init_env = 0" "ie_now2 sample_init_env = 0"
    "ie_now3 sample_init_env = 1" "ie_masks sample_init_env n = replicate 12 9" "ie_saved_codec sample_init_env = sample_saved_codec"
    "ie_digest_codec sample_init_env = sample_codec" for n
    by (simp_all add: sample_init_client_def sample_init_env_def)
  let ?key = "EncryptionKey [4] :: encryption_key"
  obtain e1 where e1: "encrypt_object sample_aead (ie_state_codec sample_init_env) (replicate 12 9) persistent_empty ?key = Ok e1"
    using sample_encrypts [of "ie_state_codec sample_init_env" persistent_empty] by (auto simp: sample_init_env_def)
  obtain e2 where e2: "encrypt_object sample_aead (ie_memory_codec sample_init_env) (replicate 12 9) storage_new_memory ?key = Ok e2"
    using sample_encrypts [of "ie_memory_codec sample_init_env" storage_new_memory] by (auto simp: sample_init_env_def)
  obtain e3 where e3: "credential_export sample_aead sample_saved_codec (replicate 12 9) sample_root_credential ?key = Ok e3"
    using sample_encrypts [of sample_saved_codec "\<lparr> saved_der = [7], saved_alg = PkcsEd25519 \<rparr>" _ ?key]
    by (auto simp: credential_export_def keypair_encrypt_def sample_root_credential_def sample_keypair_def sample_saved_codec_def)
  obtain e4 where e4: "encrypt_object sample_aead sample_codec (replicate 12 9) (trust_store_digest sample_crypto ts) ?key = Ok e4"
    using sample_encrypts [of sample_codec "trust_store_digest sample_crypto ts"] by (auto simp: sample_codec_def)
  have key: "derive_encryption_key (ie_argon2 sample_init_env) (strong_with_salt (ie_salt sample_init_env)) (in_password sample_init_client) = Ok ?key"
    by (simp add: derive_encryption_key_def derive_key_def sample_init_env_def sample_init_client_def)
  have reg: "init_register sample_init_env sample_init_client = Ok ((), params_of_cost argon_cost_strong, [4])"
    by (simp add: init_register_def sample_init_env_def sample_init_client_def sample_strong_register_def)
  show thesis
    by (rule that, unfold init_prepare_def Let_def libs sel storage_export_def)
      (simp add: cert sample_init_root(1) [unfolded sel] reg key e1 e2 e3 ts e4)
qed

definition sample_init_codecs :: "(bytes, unit, unit) init_request \<Rightarrow> (bytes, unit, unit) init_codecs" where
  "sample_init_codecs request = \<lparr>
     ic_public_key = \<lparr> encode = (\<lambda>k. Ok (epk_der k)), decode = (\<lambda>b. Ok \<lparr> epk_der = b, epk_alg = PkcsEd25519 \<rparr>) \<rparr>,
     ic_request = \<lparr> encode = (\<lambda>_. Ok []), decode = (\<lambda>_. Ok request) \<rparr>,
     ic_result = unary_codec id id, ic_unit = unit_codec,
     ic_user = \<lparr> encode = (\<lambda>_. Ok [1]), decode = (\<lambda>_. Ok (init_user_of request)) \<rparr> \<rparr>"

definition sample_fresh :: init_state where
  "sample_fresh = \<lparr> is_users = [], is_channel = True, is_success = None \<rparr>"

lemma sample_init_carries:
  "carries (ic_public_key (sample_init_codecs request)) (export_public_key sample_server_keypair)"
  "carries (ic_request (sample_init_codecs request)) request" "carries (ic_result (sample_init_codecs request)) (Some ())"
  "carries (ic_unit (sample_init_codecs request)) ()"
  "encode (ic_user (sample_init_codecs request)) u = Ok [1]"
  by (simp_all add: carries_def sample_init_codecs_def export_public_key_def sample_server_keypair_def unit_codec_def)
    (simp add: unary_codec_def)

lemma sample_init_signed: "signed_by_ok (lib_crypto sample_init_libs) (lib_rcgen sample_init_libs)"
  unfolding signed_by_ok_def encodes_params_def
  by (auto simp: sample_init_libs_def sample_tls_libs_def sample_temp_rcgen_def sample_rcgen_def sample_crypto_def sample_name_def sample_type_def
      leaf_params_def not_after_ns_def spki_to_string_def split: if_splits)

lemma sample_init_root': "root_ok (lib_crypto sample_init_libs) sample_root"
  by (simp add: sample_init_libs_def sample_tls_libs_def)

theorem init_agrees_witness:
  "\<exists>request ts cred. net_runs (\<lambda>_ _ _ _. Ok [])
      (net_of (init_dispatch sample_init_libs (sample_init_codecs request) sample_init_env sample_init_client)
        (init_handle sample_init_libs (sample_init_codecs request) sample_server_keypair sample_fresh) [] [])
      (net_of (Finish (Ok (sample_root_credential, ts)))
        (Finish (Ok (), \<lparr> is_users = [\<lparr> ur_spki = sample_pad 32 [7], ur_username = [117], ur_data = [1] \<rparr>], is_channel = False,
           is_success = Some (cred, ts) \<rparr>)) [] [])"
proof -
  obtain request ts where p: "init_prepare sample_init_libs sample_init_env sample_init_client (export_public_key sample_server_keypair) = Ok (request, ts)"
    by (rule sample_init_prepare)
  have fresh: "is_channel sample_fresh" "is_users sample_fresh = []" by (simp_all add: sample_fresh_def)
  show ?thesis
    using init_agrees [where X = "\<lambda>_ _ _ _. Ok []", OF sample_init_signed sample_init_root(1) sample_init_root' sample_init_root(2) p
        sample_init_carries fresh]
    by (auto simp: sample_fresh_def sample_init_client_def sample_root_def sample_cert_def)
qed

theorem init_interrupted_witness:
  "\<exists>request users. may_end (init_handle sample_init_libs (sample_init_codecs request) sample_server_keypair sample_fresh)
      (Err (IhWrite ObjectIo), \<lparr> is_users = users, is_channel = False, is_success = None \<rparr>)
    \<and> length users = 1"
proof -
  obtain request ts where p: "init_prepare sample_init_libs sample_init_env sample_init_client (export_public_key sample_server_keypair) = Ok (request, ts)"
    by (rule sample_init_prepare)
  let ?J = "sample_init_codecs request"
  from init_request_accepted [OF sample_init_signed sample_init_root(1) sample_init_root' sample_init_root(2) p] obtain server where a:
      "upgrade (lib_crypto sample_init_libs) (lib_rcgen sample_init_libs) sample_server_keypair (ir_server_cert request)
        = Ok \<lparr> cred_keypair = sample_server_keypair, cred_certificate = server \<rparr>"
      "trust_store_import (lib_crypto sample_init_libs) (ir_trust_store request) = Ok ts" "trust_store_root ts = sample_root"
      "enc_certificate (ir_encrypted_credential request) = root_as_unverified sample_root" by metis
  obtain users where users: "add_root_user (ic_user ?J) (init_user_of request) (is_users sample_fresh) = (Ok (), users)" "length users = 1"
    using a(4) sample_init_carries(5) by (simp add: add_root_user_def init_user_of_def sample_fresh_def sample_root_def sample_cert_def)
  have received: "may_end (init_receive sample_init_libs ?J sample_server_keypair)
      (Ok (request, \<lparr> cred_keypair = sample_server_keypair, cred_certificate = server \<rparr>, ts))"
    using a sample_init_carries(1,2) [of request]
    by (auto simp: init_receive_def may_end_ok may_end_lift_Ok carries_def is_ok_iff cert_eq_def)
  have "is_channel sample_fresh" "is_success sample_fresh = None" "is_ok (encode (ic_result ?J) (Some ()))"
    using sample_init_carries(3) [of request] by (auto simp: sample_fresh_def carries_def)
  from init_interrupted [OF received users(1) this] users(2) show ?thesis by (auto simp: sample_fresh_def)
qed

end
