(* ===== verification/UserUpdate.thy ===== *)
theory UserUpdate
  imports InitServer
begin

text \<open>
  The groups of a user (\<^verbatim>\<open>svalin/src/shared/commands/update_user_mls.rs\<close>). A user is a member of groups
  beside the devices of the user, with a state that the server keeps encrypted. A session of the
  user decrypts it, handles the messages that wait for the user, and sends back the new state with
  the messages it has taken in. The memory storage is the storage of the groups of the user here.
\<close>

section \<open>Messages\<close>

text \<open>\<^verbatim>\<open>Update\<close>, from the server.\<close>

datatype user_update =
    UserMessage uuid message_to_member_transport
  | KeyPackageCount u64
  | YieldRequest
  | UpdateGoodbye

type_synonym ('k, 'y) user_state_update = "('k, memory_storage encrypted_object, 'y persistent_data) state_update"

datatype ('k, 'y) to_server = StateUpdate "('k, 'y) user_state_update" | ToServerGoodbye

record 'y saved_state =
  sv_mls_store :: "memory_storage encrypted_object"
  sv_persistent_data :: "'y persistent_data"

section \<open>The server\<close>

text \<open>What the loop of the handler waits for, one after the other.\<close>

datatype ('k, 'y) handler_event =
    StreamReceived uuid message_to_member_transport
  | StreamClosed
  | HandlerCancelled
  | FromUser "('k, 'y) to_server"
  | FromUserFailed
  | KeyPackageTimer

datatype user_mls_error = UmPeer | UmUserStore user_store_error | UmUserNotFound | UmRead | UmUpdate update_error

text \<open>What the server has to know to handle a state update.\<close>

record ('x, 'k, 'c, 'g, 't, 'a, 'y) user_mls_handler =
  um_mls :: "('x, 'k, 'c, 'g, 't) public_mls"
  um_env :: mls_env
  um_package_codec :: "'k codec"
  um_user_codec :: "('a, memory_storage encrypted_object, 'y persistent_data) stored_user codec"
  um_message_codec :: "message_to_member_transport codec"
  um_package_ids :: "nat \<Rightarrow> uuid"
  um_message_ids :: "nat \<Rightarrow> nat \<Rightarrow> uuid"

definition user_handle_response ::
  "('x, 'k, 'c, 'g, 't, 'a, 'y) user_mls_handler \<Rightarrow> spki_hash \<Rightarrow> ('k, 'y) to_server \<Rightarrow> ('g, 't) server_state
    \<Rightarrow> (unit, user_mls_error) result \<times> ('g, 't) server_state" where
  "user_handle_response H user_hash response self =
    (case response of
       StateUpdate update \<Rightarrow>
         map_err_st UmUpdate (handle_state_update (um_mls H) (um_env H) (um_package_codec H) (um_user_codec H)
           (um_message_codec H) (um_package_ids H) (um_message_ids H) user_hash update self)
     | ToServerGoodbye \<Rightarrow> (Panicked, self))"

text \<open>The loop; the second result are the updates and answers that are written.\<close>

datatype user_reply = ReplyUpdate user_update | ReplyResult bool

fun user_mls_loop ::
  "('x, 'k, 'c, 'g, 't, 'a, 'y) user_mls_handler \<Rightarrow> spki_hash \<Rightarrow> ('k, 'y) handler_event list \<Rightarrow> ('g, 't) server_state
    \<Rightarrow> (unit, user_mls_error) result option \<times> user_reply list \<times> ('g, 't) server_state" where
  "user_mls_loop H user_hash [] self = (None, [], self)"
| "user_mls_loop H user_hash (event # events) self =
    (case event of
       StreamReceived i message \<Rightarrow>
         (case user_mls_loop H user_hash events self of (r, out, self) \<Rightarrow> (r, ReplyUpdate (UserMessage i message) # out, self))
     | StreamClosed \<Rightarrow> (Some (Ok ()), [ReplyUpdate UpdateGoodbye], self)
     | HandlerCancelled \<Rightarrow> (Some (Ok ()), [ReplyUpdate UpdateGoodbye], self)
     | FromUser ToServerGoodbye \<Rightarrow> (Some (Ok ()), [ReplyUpdate UpdateGoodbye], self)
     | FromUserFailed \<Rightarrow> (Some (Err UmRead), [], self)
     | FromUser (StateUpdate update) \<Rightarrow>
         (case user_handle_response H user_hash (StateUpdate update) self of
            (Ok _, self) \<Rightarrow>
              (case user_mls_loop H user_hash events self of (r, out, self) \<Rightarrow> (r, ReplyResult True # out, self))
          | (Err e, self) \<Rightarrow> (Some (Err e), [ReplyResult False], self)
          | (Panicked, self) \<Rightarrow> (Some Panicked, [], self))
     | KeyPackageTimer \<Rightarrow>
         (case user_mls_loop H user_hash events self of (r, out, self') \<Rightarrow>
            (r, ReplyUpdate (KeyPackageCount (count_key_packages user_hash (ss_key_packages self))) # out, self')))"

text \<open>The start of the handler: only a session of a known user gets a saved state.\<close>

definition user_mls_start ::
  "('x, 'k, 'c, 'g, 't, 'a, 'y) user_mls_handler \<Rightarrow> peer \<Rightarrow> ('g, 't) server_state
    \<Rightarrow> (spki_hash \<times> 'y saved_state, user_mls_error) result" where
  "user_mls_start H peer self =
    and_then (map_err (\<lambda>_. UmPeer) (peer_certificate peer)) (\<lambda>peer.
    if cert_type peer \<noteq> UserSession then Err UmPeer
    else
      let user_hash = issuer (as_unverified peer) in
      and_then (map_err UmUserStore (get_user (um_user_codec H) user_hash (ss_users self))) (\<lambda>found.
      and_then (ok_or UmUserNotFound found) (\<lambda>user.
      Ok (user_hash, \<lparr> sv_mls_store = su_mls_store user, sv_persistent_data = su_persistent_data user \<rparr>))))"

section \<open>The session of the user\<close>

record ('g, 'y) user_session =
  us_client :: "('g, memory_storage) mls_processor"
  us_persistent :: "'y persistent_state"
  us_aknowledge :: "uuid list"
  us_messages :: "message_to_server_transport list"
  us_timeout :: nat

text \<open>\<^verbatim>\<open>ue_masks\<close> gives the nonce masks that are drawn, two for every update that is sent.\<close>

record ('x, 'k, 'c, 'g, 'w, 'r, 'y) user_env =
  ue_mls :: "('x, 'k, 'c, 'g, memory_storage, 'w) member_mls"
  ue_message_codec :: "('y svalin_report, svalin_meta_info) svalin_message codec"
  ue_harness :: "('k, 'r) harness_env"
  ue_me :: certificate
  ue_aead :: aead
  ue_store_codec :: "memory_storage codec"
  ue_persistent_codec :: "'y persistent_state codec"
  ue_key :: encryption_key
  ue_masks :: "nat \<Rightarrow> bytes"

datatype 'r user_session_error =
    UsImport decrypt_error
  | UsPersistent decrypt_error
  | UsWrongType certificate_type
  | UsRead
  | UsHandle "'r handle_error"
  | UsKeyPackage member_error
  | UsExport encrypt_error
  | UsEncrypt encrypt_error

definition user_session_open ::
  "('x, 'k, 'c, 'g, 'w, 'r, 'y) user_env \<Rightarrow> 'y saved_state \<Rightarrow> (('g, 'y) user_session, 'r user_session_error) result" where
  "user_session_open U state =
    and_then (map_err UsImport (storage_import (ue_aead U) (ue_store_codec U) (sv_mls_store state) (ue_key U))) (\<lambda>mls_store.
    and_then (map_err UsPersistent (decrypt_object (ue_aead U) (ue_persistent_codec U) (sv_persistent_data state) (ue_key U)))
      (\<lambda>persistent_data.
    and_then (map_err UsWrongType (client_new (ue_me U))) (\<lambda>_.
    Ok \<lparr> us_client = \<lparr> mp_cache = Map.empty, mp_storage = mls_store \<rparr>, us_persistent = persistent_data,
         us_aknowledge = [], us_messages = [], us_timeout = 3 \<rparr>)))"

definition handled_update :: "('y svalin_report, svalin_meta_info) message_data_content \<Rightarrow> 'y persistent_state \<Rightarrow> 'y persistent_state" where
  "handled_update content persistent_data =
    (case content of
       DataReport device report \<Rightarrow> persistent_update (UpdateSystemReport device report) persistent_data
     | DataMetaInfo device meta_info \<Rightarrow> persistent_update (UpdateMetaInfo device meta_info) persistent_data
     | DataInternal \<Rightarrow> persistent_data)"

definition WANTED_KEY_PACKAGES :: u64 where
  "WANTED_KEY_PACKAGES = 100"

text \<open>The loop that makes key packages, over the number that is missing.\<close>

fun create_key_packages ::
  "('x, 'k, 'c, 'g, 't, 'w) member_mls \<Rightarrow> certificate \<Rightarrow> nat \<Rightarrow> ('g, 't) mls_processor
    \<Rightarrow> ('k list, member_error) result \<times> ('g, 't) mls_processor" where
  "create_key_packages L me 0 self = (Ok [], self)"
| "create_key_packages L me (Suc n) self =
    bind_st (mp_create_key_package L me self) (\<lambda>key_package self.
    bind_st (create_key_packages L me n self) (\<lambda>key_packages self.
    (Ok (kp_package key_package # key_packages), self)))"

definition missing_key_packages :: "u64 \<Rightarrow> nat" where
  "missing_key_packages key_package_count =
    (if key_package_count < WANTED_KEY_PACKAGES then unat (WANTED_KEY_PACKAGES - key_package_count) else 0)"

text \<open>What a session waits for: an update, a time-out, a failing read, or the end of the program.\<close>

datatype user_event = UpdateReceived user_update | UpdateTimeout | UpdateFailed | UpdateCancelled

text \<open>What follows an event: whether the state is sent, with the new key packages, and whether the loop
  is left after that, or the session ends, with or without a goodbye.\<close>

datatype 'k user_flow = GoOn | SendUpdate bool "'k list" | EndSession bool

definition user_event_step ::
  "('x, 'k, 'c, 'g, 'w, 'r, 'y) user_env \<Rightarrow> user_event \<Rightarrow> ('g, 'y) user_session
    \<Rightarrow> ('k user_flow, 'r user_session_error) result \<times> ('g, 'y) user_session" where
  "user_event_step U event self =
    (case event of
       UpdateCancelled \<Rightarrow> (Ok (EndSession True), self)
     | UpdateFailed \<Rightarrow> (Err UsRead, self)
     | UpdateTimeout \<Rightarrow>
        (Ok (if us_aknowledge self \<noteq> [] \<or> us_messages self \<noteq> [] then SendUpdate False [] else GoOn),
         self \<lparr> us_timeout := 60 \<rparr>)
     | UpdateReceived update \<Rightarrow>
        (let self = self \<lparr> us_timeout := 3 \<rparr> in
         case update of
           UserMessage i message \<Rightarrow>
            (case client_handle_message (ue_mls U) (ue_message_codec U) (ue_harness U) message (us_client self) of
               (Err e, client) \<Rightarrow> (Err (UsHandle e), self \<lparr> us_client := client \<rparr>)
             | (Panicked, client) \<Rightarrow> (Panicked, self \<lparr> us_client := client \<rparr>)
             | (Ok handled, client) \<Rightarrow>
                (let aknowledge = us_aknowledge self @ [i] in
                 (Ok (if 10 \<le> length aknowledge then SendUpdate False [] else GoOn),
                  self \<lparr> us_client := client, us_persistent := handled_update (md_content handled) (us_persistent self),
                    us_aknowledge := aknowledge \<rparr>)))
         | KeyPackageCount key_package_count \<Rightarrow>
            (case create_key_packages (ue_mls U) (ue_me U) (missing_key_packages key_package_count) (us_client self) of
               (Err e, client) \<Rightarrow> (Err (UsKeyPackage e), self \<lparr> us_client := client \<rparr>)
             | (Panicked, client) \<Rightarrow> (Panicked, self \<lparr> us_client := client \<rparr>)
             | (Ok key_packages, client) \<Rightarrow>
                (Ok (if key_package_count < WANTED_KEY_PACKAGES then SendUpdate False key_packages else GoOn),
                 self \<lparr> us_client := client \<rparr>))
         | YieldRequest \<Rightarrow> (Ok (SendUpdate True []), self)
         | UpdateGoodbye \<Rightarrow> (Ok (EndSession False), self)))"

text \<open>The update that is sent, the \<^verbatim>\<open>n\<close>th one. The answer of the server is read and not looked at.\<close>

definition user_state_update ::
  "('x, 'k, 'c, 'g, 'w, 'r, 'y) user_env \<Rightarrow> nat \<Rightarrow> 'k list \<Rightarrow> ('g, 'y) user_session
    \<Rightarrow> (('k, 'y) user_state_update, 'r user_session_error) result" where
  "user_state_update U n key_packages self =
    and_then (map_err UsExport (storage_export (ue_aead U) (ue_store_codec U) (ue_masks U (2 * n))
      (mp_storage (us_client self)) (ue_key U))) (\<lambda>mls_store.
    and_then (map_err UsEncrypt (encrypt_object (ue_aead U) (ue_persistent_codec U) (ue_masks U (2 * n + 1))
      (us_persistent self) (ue_key U))) (\<lambda>persistent_data.
    Ok \<lparr> upd_mls_store = mls_store, upd_persistent_data = persistent_data, upd_key_packages = key_packages,
         upd_aknowledged = us_aknowledge self, upd_messages = us_messages self \<rparr>))"

definition user_session_sent :: "('g, 'y) user_session \<Rightarrow> ('g, 'y) user_session" where
  "user_session_sent self = self \<lparr> us_aknowledge := [], us_messages := [] \<rparr>"

text \<open>The inner loop. A result of \<^verbatim>\<open>None\<close> is a session that waits; one that was asked to yield gives the
  events that are left to the next round of the outer loop.\<close>

datatype user_end = SessionEnded | SessionYielded "user_event list"

fun user_session_loop ::
  "('x, 'k, 'c, 'g, 'w, 'r, 'y) user_env \<Rightarrow> nat \<Rightarrow> user_event list \<Rightarrow> ('g, 'y) user_session
    \<Rightarrow> (user_end, 'r user_session_error) result option \<times> ('k, 'y) to_server list \<times> ('g, 'y) user_session" where
  "user_session_loop U n [] self = (None, [], self)"
| "user_session_loop U n (event # events) self =
    (case user_event_step U event self of
       (Err e, self) \<Rightarrow> (Some (Err e), [], self)
     | (Panicked, self) \<Rightarrow> (Some Panicked, [], self)
     | (Ok flow, self) \<Rightarrow>
        (case flow of
           GoOn \<Rightarrow> user_session_loop U n events self
         | EndSession goodbye \<Rightarrow> (Some (Ok SessionEnded), if goodbye then [ToServerGoodbye] else [], self)
         | SendUpdate should_yield key_packages \<Rightarrow>
            (case user_state_update U n key_packages self of
               Err e \<Rightarrow> (Some (Err e), [], self)
             | Panicked \<Rightarrow> (Some Panicked, [], self)
             | Ok update \<Rightarrow>
                (if should_yield then (Some (Ok (SessionYielded events)), [StateUpdate update], user_session_sent self)
                 else
                   (case user_session_loop U (Suc n) events (user_session_sent self) of
                      (r, sent, self) \<Rightarrow> (r, StateUpdate update # sent, self))))))"

section \<open>What a session has taken in\<close>

text \<open>The effect of events on the groups of the user and the devices the user knows, without time-outs,
  acknowledgements and updates; \<^verbatim>\<open>None\<close> if something of it fails.\<close>

fun user_replay ::
  "('x, 'k, 'c, 'g, 'w, 'r, 'y) user_env \<Rightarrow> user_event list \<Rightarrow> ('g, memory_storage) mls_processor \<times> 'y persistent_state
    \<Rightarrow> (('g, memory_storage) mls_processor \<times> 'y persistent_state) option" where
  "user_replay U [] st = Some st"
| "user_replay U (UpdateReceived (UserMessage i message) # es) (client, p) =
    (case client_handle_message (ue_mls U) (ue_message_codec U) (ue_harness U) message client of
       (Ok handled, client) \<Rightarrow> user_replay U es (client, handled_update (md_content handled) p)
     | _ \<Rightarrow> None)"
| "user_replay U (UpdateReceived (KeyPackageCount n) # es) (client, p) =
    (case create_key_packages (ue_mls U) (ue_me U) (missing_key_packages n) client of
       (Ok _, client) \<Rightarrow> user_replay U es (client, p)
     | _ \<Rightarrow> None)"
| "user_replay U (_ # es) st = user_replay U es st"

fun message_ids :: "user_event list \<Rightarrow> uuid list" where
  "message_ids [] = []"
| "message_ids (UpdateReceived (UserMessage i _) # es) = i # message_ids es"
| "message_ids (_ # es) = message_ids es"

fun acknowledged :: "('k, 'y) to_server \<Rightarrow> uuid list" where
  "acknowledged (StateUpdate update) = upd_aknowledged update"
| "acknowledged ToServerGoodbye = []"

lemma user_event_step_Ok:
  assumes "user_event_step U e s = (Ok flow, s')"
  shows "user_replay U (e # es) (us_client s, us_persistent s) = user_replay U es (us_client s', us_persistent s')"
    "us_aknowledge s' = us_aknowledge s @ message_ids [e]" "message_ids (e # es) = message_ids [e] @ message_ids es"
    "us_messages s' = us_messages s"
proof -
  have "user_replay U (e # es) (us_client s, us_persistent s) = user_replay U es (us_client s', us_persistent s')
    \<and> us_aknowledge s' = us_aknowledge s @ message_ids [e] \<and> message_ids (e # es) = message_ids [e] @ message_ids es
    \<and> us_messages s' = us_messages s"
  proof (cases e)
    case (UpdateReceived update)
    then show ?thesis
      using assms by (cases update) (auto simp: user_event_step_def Let_def split: prod.splits result.splits)
  qed (use assms in \<open>auto simp: user_event_step_def\<close>)
  then show "user_replay U (e # es) (us_client s, us_persistent s) = user_replay U es (us_client s', us_persistent s')"
    "us_aknowledge s' = us_aknowledge s @ message_ids [e]" "message_ids (e # es) = message_ids [e] @ message_ids es"
    "us_messages s' = us_messages s" by blast+
qed

lemma user_state_update_Ok:
  assumes "user_state_update U n ks s = Ok u"
  shows "storage_export (ue_aead U) (ue_store_codec U) (ue_masks U (2 * n)) (mp_storage (us_client s)) (ue_key U) = Ok (upd_mls_store u)"
    "encrypt_object (ue_aead U) (ue_persistent_codec U) (ue_masks U (2 * n + 1)) (us_persistent s) (ue_key U) = Ok (upd_persistent_data u)"
    "upd_aknowledged u = us_aknowledge s" "upd_messages u = us_messages s" "upd_key_packages u = ks"
  using assms by (auto simp: user_state_update_def result_simps)

definition user_env_ok :: "('x, 'k, 'c, 'g, 'w, 'r, 'y) user_env \<Rightarrow> bool" where
  "user_env_ok U \<longleftrightarrow> aead_ok (ue_aead U) \<and> codec_ok (ue_store_codec U) \<and> codec_ok (ue_persistent_codec U)"

text \<open>What an update says: the encrypted state is that after some of the events.\<close>

definition update_holds ::
  "('x, 'k, 'c, 'g, 'w, 'r, 'y) user_env \<Rightarrow> ('k, 'y) user_state_update
    \<Rightarrow> ('g, memory_storage) mls_processor \<times> 'y persistent_state \<Rightarrow> bool" where
  "update_holds U u st \<longleftrightarrow>
    storage_import (ue_aead U) (ue_store_codec U) (upd_mls_store u) (ue_key U) = Ok (mp_storage (fst st))
    \<and> decrypt_object (ue_aead U) (ue_persistent_codec U) (upd_persistent_data u) (ue_key U) = Ok (snd st)
    \<and> upd_messages u = []"

lemma user_session_loop_sent:
  assumes "user_env_ok U" "us_messages s = []" "user_session_loop U n es s = (r, sent, s')"
    "i < length sent" "sent ! i = StateUpdate u"
  shows "\<exists>past later st. es = past @ later \<and> user_replay U past (us_client s, us_persistent s) = Some st
    \<and> update_holds U u st \<and> us_aknowledge s @ message_ids past = concat (map acknowledged (take (Suc i) sent))"
  using assms(2-)
proof (induction es arbitrary: n s r sent s' i)
  case (Cons e es)
  obtain q s1 where step: "user_event_step U e s = (q, s1)" by fastforce
  show ?case
  proof (cases q)
    case (Ok flow)
    note ev = user_event_step_Ok [OF step [unfolded Ok]]
    show ?thesis
    proof (cases flow)
      case GoOn
      then have "user_session_loop U n es s1 = (r, sent, s')" using Cons.prems(2) step Ok by simp
      from Cons.IH [OF _ this Cons.prems(3,4)] ev(4) Cons.prems(1) obtain past later st where
        p: "es = past @ later" "user_replay U past (us_client s1, us_persistent s1) = Some st" "update_holds U u st"
          "us_aknowledge s1 @ message_ids past = concat (map acknowledged (take (Suc i) sent))" by auto
      then show ?thesis
        using ev(1) [of past] ev(2) ev(3) [of past]
        by (intro exI [of _ "e # past"] exI [of _ later] exI [of _ st]) simp
    next
      case (SendUpdate should_yield ks)
      obtain u1 where u1: "user_state_update U n ks s1 = Ok u1"
        using Cons.prems(2,3) step Ok SendUpdate by (cases "user_state_update U n ks s1") auto
      note o = user_state_update_Ok [OF u1]
      have first: "update_holds U u1 (us_client s1, us_persistent s1)"
        using assms(1) o ev(4) Cons.prems(1)
        by (auto simp: update_holds_def user_env_ok_def storage_export_def storage_import_def dest: encrypted_object_opens)
      obtain sent' s2 r2 where rest: "sent = StateUpdate u1 # sent'"
          "sent' = [] \<or> user_session_loop U (Suc n) es (user_session_sent s1) = (r2, sent', s2)"
        using Cons.prems(2) step Ok SendUpdate u1
        by (auto split: if_splits prod.splits)
      show ?thesis
      proof (cases i)
        case 0
        then show ?thesis
          using rest(1) Cons.prems(4) first o(3) ev(1) [of "[]"] ev(2)
          by (intro exI [of _ "[e]"] exI [of _ es]) auto
      next
        case (Suc j)
        then have "user_session_loop U (Suc n) es (user_session_sent s1) = (r2, sent', s2)" "j < length sent'" "sent' ! j = StateUpdate u"
          using rest Cons.prems(3,4) by auto
        from Cons.IH [OF _ this] obtain past later st where
          p: "es = past @ later" "user_replay U past (us_client s1, us_persistent s1) = Some st" "update_holds U u st"
            "message_ids past = concat (map acknowledged (take (Suc j) sent'))"
          by (auto simp: user_session_sent_def)
        then show ?thesis
          using ev(1) [of past] ev(2) ev(3) [of past] rest(1) o(3) Suc
          by (intro exI [of _ "e # past"] exI [of _ later] exI [of _ st]) simp
      qed
    next
      case (EndSession goodbye)
      then show ?thesis using Cons.prems(2-4) step Ok by (auto split: if_splits)
    qed
  qed (use Cons.prems step in auto)
qed simp

section \<open>What the server has stored\<close>

fun from_user :: "('k, 'y) handler_event list \<Rightarrow> ('k, 'y) to_server list" where
  "from_user [] = []"
| "from_user (FromUser m # es) = m # from_user es"
| "from_user (_ # es) = from_user es"

text \<open>The user after state updates.\<close>

fun stored_update ::
  "('k, 'y) to_server \<Rightarrow> ('a, memory_storage encrypted_object, 'y persistent_data) stored_user
    \<Rightarrow> ('a, memory_storage encrypted_object, 'y persistent_data) stored_user" where
  "stored_update (StateUpdate u) user = user \<lparr> su_mls_store := upd_mls_store u, su_persistent_data := upd_persistent_data u \<rparr>"
| "stored_update ToServerGoodbye user = user"

fun no_messages :: "('k, 'y) to_server \<Rightarrow> bool" where
  "no_messages (StateUpdate u) \<longleftrightarrow> upd_messages u = []"
| "no_messages ToServerGoodbye \<longleftrightarrow> True"

definition server_holds ::
  "('x, 'k, 'c, 'g, 't, 'a, 'y) user_mls_handler \<Rightarrow> spki_hash
    \<Rightarrow> ('a, memory_storage encrypted_object, 'y persistent_data) stored_user \<Rightarrow> message_row list \<Rightarrow> ('g, 't) server_state \<Rightarrow> bool" where
  "server_holds H h user rows self \<longleftrightarrow> get_user (um_user_codec H) h (ss_users self) = Ok (Some user)
    \<and> db_wf (ms_db (ss_messages self)) \<and> mailbox_rows h (ms_db (ss_messages self)) = rows"

lemma user_handle_response_Ok:
  assumes "user_handle_response H h (StateUpdate u) self = (Ok v, self')" "upd_messages u = []"
    "codec_ok (um_user_codec H)" "server_holds H h user rows self"
  shows "server_holds H h (stored_update (StateUpdate u) user) (filter (\<lambda>row. row_id row \<notin> set (upd_aknowledged u)) rows) self'"
proof -
  have "handle_state_update (um_mls H) (um_env H) (um_package_codec H) (um_user_codec H) (um_message_codec H)
      (um_package_ids H) (um_message_ids H) h u self = (Ok v, self')"
    using assms(1) by (simp add: user_handle_response_def result_simps)
  then obtain packages users w where
      "update_mls_data (um_user_codec H) h (upd_mls_store u) (upd_persistent_data u) (ss_users self) = (Ok w, users)"
      and self': "self' = self \<lparr> ss_key_packages := packages, ss_users := users,
        ss_messages := on_db (aknowledge_messages h (upd_aknowledged u)) (ss_messages self) \<rparr>"
    using assms(2) by (auto simp: handle_state_update_def result_simps Let_def split: prod.splits)
  from update_mls_data_Ok [OF assms(3) this(1)] show ?thesis
    using assms(4) db.ack_all [of "ms_db (ss_messages self)" h "upd_aknowledged u" h]
    by (auto simp: server_holds_def self' aknowledge_messages_def)
qed

lemma user_mls_loop_holds:
  assumes "codec_ok (um_user_codec H)" "user_mls_loop H h hs self = (None, out, self')"
    "server_holds H h user rows self" "\<forall>m \<in> set (from_user hs). no_messages m"
  shows "server_holds H h (fold stored_update (from_user hs) user)
      (filter (\<lambda>row. row_id row \<notin> set (concat (map acknowledged (from_user hs)))) rows) self'"
  using assms(2-)
proof (induction hs arbitrary: self out user rows)
  case (Cons e hs)
  show ?case
  proof (cases e)
    case (FromUser m)
    then obtain u where m: "m = StateUpdate u" using Cons.prems(1) by (cases m) auto
    obtain r self1 where r: "user_handle_response H h (StateUpdate u) self = (r, self1)" by fastforce
    then obtain v out' where ok: "r = Ok v" "user_mls_loop H h hs self1 = (None, out', self')"
      using Cons.prems(1) FromUser m by (cases r) (auto split: prod.splits)
    have "server_holds H h (stored_update (StateUpdate u) user)
        (filter (\<lambda>row. row_id row \<notin> set (upd_aknowledged u)) rows) self1"
      by (rule user_handle_response_Ok [OF r [unfolded ok(1)] _ assms(1) Cons.prems(2)])
        (use Cons.prems(3) FromUser m in simp)
    from Cons.IH [OF ok(2) this] Cons.prems(3) FromUser m show ?thesis
      by (simp add: conj_commute)
  next
    case (StreamReceived i message)
    then obtain out' where "user_mls_loop H h hs self = (None, out', self')"
      using Cons.prems(1) by (auto split: prod.splits)
    from Cons.IH [OF this Cons.prems(2)] Cons.prems(3) StreamReceived show ?thesis by simp
  next
    case KeyPackageTimer
    then obtain out' where "user_mls_loop H h hs self = (None, out', self')"
      using Cons.prems(1) by (auto split: prod.splits)
    from Cons.IH [OF this Cons.prems(2)] Cons.prems(3) KeyPackageTimer show ?thesis by simp
  qed (use Cons.prems(1) in auto)
qed (simp add: server_holds_def)

lemma user_mls_loop_updates:
  assumes "user_mls_loop H h hs self = (None, out, self')" "m \<in> set (from_user hs)"
  shows "\<exists>u. m = StateUpdate u"
  using assms
proof (induction hs arbitrary: self out)
  case (Cons e hs)
  show ?case
  proof (cases e)
    case (FromUser m')
    then show ?thesis
      using Cons.prems Cons.IH by (cases m') (auto split: prod.splits result.splits)
  qed (use Cons in \<open>auto split: prod.splits\<close>)
qed simp

text \<open>The session and the handler together.\<close>

lemma user_session_stored:
  assumes "user_env_ok U" "codec_ok (um_user_codec H)" "db_wf (ms_db (ss_messages self))"
    "user_mls_start H peer self = Ok (user_hash, saved)" "user_session_open U saved = Ok s"
    "user_session_loop U 0 es s = (r, sent, s')"
    "user_mls_loop H user_hash hs self = (None, out, self')" "from_user hs = take k sent"
  shows "\<exists>past later client p saved'. es = past @ later
    \<and> user_replay U past (us_client s, us_persistent s) = Some (client, p)
    \<and> mailbox_rows user_hash (ms_db (ss_messages self'))
      = filter (\<lambda>row. row_id row \<notin> set (message_ids past)) (mailbox_rows user_hash (ms_db (ss_messages self)))
    \<and> user_mls_start H peer self' = Ok (user_hash, saved')
    \<and> user_session_open U saved' = Ok (s \<lparr> us_client := \<lparr> mp_cache = Map.empty, mp_storage = mp_storage client \<rparr>, us_persistent := p \<rparr>)"
proof -
  let ?rows = "mailbox_rows user_hash (ms_db (ss_messages self))" and ?in = "take k sent"
  from assms(4) obtain user where user: "get_user (um_user_codec H) user_hash (ss_users self) = Ok (Some user)"
      "saved = \<lparr> sv_mls_store = su_mls_store user, sv_persistent_data = su_persistent_data user \<rparr>"
    by (auto simp: user_mls_start_def result_simps Let_def split: if_splits option.splits)
  have s: "us_messages s = []" "us_aknowledge s = []" "us_timeout s = 3"
      "storage_import (ue_aead U) (ue_store_codec U) (su_mls_store user) (ue_key U) = Ok (mp_storage (us_client s))"
      "decrypt_object (ue_aead U) (ue_persistent_codec U) (su_persistent_data user) (ue_key U) = Ok (us_persistent s)"
      "mp_cache (us_client s) = Map.empty" "is_ok (client_new (ue_me U))"
    using assms(5) user(2) by (auto simp: user_session_open_def result_simps)
  have sent: "\<exists>u past later st. m = StateUpdate u \<and> es = past @ later \<and> user_replay U past (us_client s, us_persistent s) = Some st
      \<and> update_holds U u st \<and> message_ids past = concat (map acknowledged (take (Suc i) sent))"
    if "i < length ?in" "?in ! i = m" for i m
  proof -
    have "m \<in> set (from_user hs)" using that assms(8) nth_mem [of i "take k sent"] by simp
    from user_mls_loop_updates [OF assms(7) this] obtain u where u: "m = StateUpdate u" by blast
    have "i < length sent" "sent ! i = StateUpdate u" using that u by auto
    from user_session_loop_sent [OF assms(1) s(1) assms(6) this] u s(2) show ?thesis by auto
  qed
  have "no_messages m" if "m \<in> set ?in" for m
    using that sent by (fastforce simp: in_set_conv_nth update_holds_def)
  then have holds: "server_holds H user_hash (fold stored_update ?in user)
      (filter (\<lambda>row. row_id row \<notin> set (concat (map acknowledged ?in))) ?rows) self'"
    using user_mls_loop_holds [OF assms(2,7), of user ?rows] user(1) assms(3,8) by (simp add: server_holds_def)
  obtain past later st where p: "es = past @ later" "user_replay U past (us_client s, us_persistent s) = Some st"
      "message_ids past = concat (map acknowledged ?in)"
      "storage_import (ue_aead U) (ue_store_codec U) (su_mls_store (fold stored_update ?in user)) (ue_key U) = Ok (mp_storage (fst st))"
      "decrypt_object (ue_aead U) (ue_persistent_codec U) (su_persistent_data (fold stored_update ?in user)) (ue_key U) = Ok (snd st)"
  proof (cases "?in" rule: rev_cases)
    case Nil
    show ?thesis using that [of "[]" es "(us_client s, us_persistent s)"] s(4,5) unfolding Nil by simp
  next
    case (snoc ms m)
    from sent [of "length ms" m] snoc obtain u past later st where
      "m = StateUpdate u" "es = past @ later" "user_replay U past (us_client s, us_persistent s) = Some st"
      "update_holds U u st" "message_ids past = concat (map acknowledged (take (Suc (length ms)) sent))"
      by (auto simp: nth_append)
    moreover have "take (Suc (length ms)) sent = ?in"
      using snoc by (metis length_append_singleton length_take min.absorb_iff2 min.cobounded1 take_all_iff take_take)
    ultimately show ?thesis using that [of past later st] snoc by (simp add: update_holds_def)
  qed
  let ?saved = "\<lparr> sv_mls_store = su_mls_store (fold stored_update ?in user),
    sv_persistent_data = su_persistent_data (fold stored_update ?in user) \<rparr>"
  have "user_mls_start H peer self' = Ok (user_hash, ?saved)"
    using assms(4) holds by (auto simp: user_mls_start_def server_holds_def result_simps Let_def split: if_splits)
  moreover have "user_session_open U ?saved
      = Ok (s \<lparr> us_client := \<lparr> mp_cache = Map.empty, mp_storage = mp_storage (fst st) \<rparr>, us_persistent := snd st \<rparr>)"
    using p(4,5) s by (cases s) (auto simp: user_session_open_def is_ok_iff)
  moreover have "mailbox_rows user_hash (ms_db (ss_messages self')) = filter (\<lambda>row. row_id row \<notin> set (message_ids past)) ?rows"
    using holds p(3) by (simp add: server_holds_def)
  ultimately show ?thesis using p(1,2) by (cases st) fastforce
qed

text \<open>The messages among the events.\<close>

fun user_messages :: "user_event list \<Rightarrow> (uuid \<times> message_to_member_transport) list" where
  "user_messages [] = []"
| "user_messages (UpdateReceived (UserMessage i m) # es) = (i, m) # user_messages es"
| "user_messages (_ # es) = user_messages es"

lemma user_replay_unreadable:
  assumes "user_messages (past @ later) = (i, m) # rest" "\<not> is_ok (unpack_to_member (ue_mls U) m)"
    "user_replay U past st = Some st'"
  shows "message_ids past = []"
  using assms
proof (induction U past st rule: user_replay.induct)
  case (2 U j message es client p)
  have "\<not> is_ok (fst (client_handle_message (ue_mls U) (ue_message_codec U) (ue_harness U) m client))"
    using 2(3) by (cases "unpack_to_member (ue_mls U) m") (simp_all add: client_handle_message_def is_ok_iff)
  then show ?case using 2 by (auto split: prod.splits result.splits)
next
  case (3 U n es client p)
  then show ?case by (auto split: prod.splits result.splits)
qed auto

section \<open>A sample\<close>

definition two_codec :: "'t \<Rightarrow> 't \<Rightarrow> 't codec" where
  "two_codec a b = \<lparr> encode = (\<lambda>x. if x = a then Ok [0] else if x = b then Ok [1] else Err ''unused''),
     decode = (\<lambda>bs. Ok (if bs = [0] then a else b)) \<rparr>"

lemma two_codec_sel [simp]:
  "codec_ok (two_codec a b)" "encode (two_codec a b) a = Ok [0]" "is_ok (encode (two_codec a b) b)"
  "decode (two_codec a b) [0] = Ok a"
  by (auto simp: two_codec_def codec_ok_def split: if_splits)

definition sample_seal :: "'t codec \<Rightarrow> 't \<Rightarrow> 't encrypted_object" where
  "sample_seal K x = the_ok (encrypt_object sample_aead K (replicate 12 9) x (EncryptionKey [4]))"

lemma sample_seal:
  assumes "is_ok (encode K x)"
  shows "encrypt_object sample_aead K (replicate 12 9) x (EncryptionKey [4]) = Ok (sample_seal K x)"
    "codec_ok K \<Longrightarrow> decrypt_object sample_aead K (sample_seal K x) (EncryptionKey [4]) = Ok x"
proof -
  obtain e where e: "encrypt_object sample_aead K (replicate 12 9) x (EncryptionKey [4]) = Ok e"
    using assms sample_encrypts by (metis is_ok_iff)
  then show "encrypt_object sample_aead K (replicate 12 9) x (EncryptionKey [4]) = Ok (sample_seal K x)"
    by (simp add: sample_seal_def)
  then show "decrypt_object sample_aead K (sample_seal K x) (EncryptionKey [4]) = Ok x" if "codec_ok K"
    by (rule encrypted_object_opens [OF sample_aead_ok that])
qed

text \<open>A library whose groups have no content; every private message is a report of the sample device.\<close>

definition sample_user_mls :: "(unit, leaf_node, unit, unit, memory_storage, unit) member_mls" where
  "sample_user_mls = \<lparr>
     message_in = \<lambda>raw. Ok (if raw = [] then PublicBody () else PrivateBody ()),
     message_out = \<lambda>_. Ok [1], welcome_in = \<lambda>_. Ok (), welcome_out = \<lambda>_. Ok [], group_info_in = \<lambda>raw. Ok (),
     group_info_out = \<lambda>_. Ok [], message_group_id = \<lambda>_. fst sample_info, credential_spki = \<lambda>b. Ok (SpkiHash b),
     spki_credential = spki_bytes, validate_key_package = Ok, key_package_leaf = \<lambda>k. k, credentials_to_verify = \<lambda>_. [],
     remove_proposals = \<lambda>_. [], add_proposals = \<lambda>_. [], kp_build = \<lambda>t. (Ok (sample_leaf sample_device), t),
     mg_new = \<lambda>t gid. (Ok (), t), mg_export_info = Ok, mg_commit_adds = \<lambda>t g ks. (Ok (Some g, Some g), g, t),
     mg_add_members = \<lambda>t g ks. (Ok (PublicBody g, WelcomeBody g), g, t), mg_merge_pending = \<lambda>t g. (Ok (), g, t),
     mg_load = \<lambda>t k. Ok (Some ()), mg_stage_welcome = \<lambda>t w. (Ok w, t), staged_group_id = \<lambda>_. [], staged_members = \<lambda>_. [],
     mg_into_group = \<lambda>t w. (Ok w, t), mg_group_id = \<lambda>_. [], mg_members = \<lambda>_. [], mg_leaf = \<lambda>g i. Some (sample_leaf sample_device),
     mg_create_message = \<lambda>t g bs. (Ok (PrivateBody g), g, t),
     mg_process = \<lambda>t g m. (Ok (SenderMember 1, ApplicationMessage [7]), g, t([1] \<mapsto> [2])),
     commit_group_id = \<lambda>_. [], mg_merge_staged = \<lambda>t g c. (Ok (), g, t) \<rparr>"

abbreviation sample_ratchet :: memory_storage where
  "sample_ratchet \<equiv> [[1] \<mapsto> [2]]"

abbreviation sample_reported :: "unit persistent_state" where
  "sample_reported \<equiv> persistent_update (UpdateSystemReport (spki_hash sample_device) (sample_report 5)) persistent_empty"

abbreviation sample_store_codec :: "memory_storage codec" where
  "sample_store_codec \<equiv> two_codec storage_new_memory sample_ratchet"

abbreviation sample_devices_codec :: "unit persistent_state codec" where
  "sample_devices_codec \<equiv> two_codec persistent_empty sample_reported"

definition sample_user_env :: "(unit, leaf_node, unit, unit, unit, remote_retriever_error, unit) user_env" where
  "sample_user_env = \<lparr> ue_mls = sample_user_mls,
     ue_message_codec = \<lparr> encode = \<lambda>_. Err ''unused'', decode = \<lambda>_. Ok (ReportMessage (sample_report 5)) \<rparr>,
     ue_harness = sample_harness, ue_me = Certificate TrustStore.sample_user, ue_aead = sample_aead,
     ue_store_codec = sample_store_codec, ue_persistent_codec = sample_devices_codec,
     ue_key = EncryptionKey [4], ue_masks = \<lambda>_. replicate 12 9 \<rparr>"

definition sample_stored :: "memory_storage \<Rightarrow> unit persistent_state
    \<Rightarrow> (unit, memory_storage encrypted_object, unit persistent_data) stored_user" where
  "sample_stored m p = \<lparr> su_credential = su_credential ServerStores.sample_user, su_login = (), su_username = [1],
     su_mls_store = sample_seal sample_store_codec m, su_persistent_data = sample_seal sample_devices_codec p \<rparr>"

definition sample_user_handler :: "(sample_group, leaf_node, leaf_node list, sample_group, bytes \<rightharpoonup> sample_group, unit, unit) user_mls_handler" where
  "sample_user_handler = \<lparr> um_mls = sample_mls, um_env = sample_env (trust_store_initialize sample_root),
     um_package_codec = sample_leaf_codec,
     um_user_codec = two_codec (sample_stored storage_new_memory persistent_empty) (sample_stored sample_ratchet sample_reported),
     um_message_codec = sample_message_codec, um_package_ids = id, um_message_ids = \<lambda>_. id \<rparr>"

definition sample_user_server :: "(sample_group, bytes \<rightharpoonup> sample_group) server_state" where
  "sample_user_server = \<lparr> ss_key_packages = [],
     ss_users = [\<lparr> ur_spki = sample_pad 32 [7], ur_username = [1], ur_data = [0] \<rparr>],
     ss_messages = message_store_open \<lparr> mls_messages = [\<lparr> row_id = 3, row_data = [], row_received_at = 0 \<rparr>],
       mls_message_receivers = [\<lparr> rr_message = 3, rr_spki = sample_pad 32 [7] \<rparr>] \<rparr>,
     ss_groups = sample_start \<rparr>"

abbreviation sample_user_peer :: peer where
  "sample_user_peer \<equiv> PeerCertificate (Certificate (sample_cert UserSession 5 20 7 0))"

definition sample_saved :: "unit saved_state" where
  "sample_saved = \<lparr> sv_mls_store = sample_seal sample_store_codec storage_new_memory,
     sv_persistent_data = sample_seal sample_devices_codec persistent_empty \<rparr>"

abbreviation sample_opened :: "(unit, unit) user_session" where
  "sample_opened \<equiv> \<lparr> us_client = \<lparr> mp_cache = Map.empty, mp_storage = storage_new_memory \<rparr>,
     us_persistent = persistent_empty, us_aknowledge = [], us_messages = [], us_timeout = 3 \<rparr>"

abbreviation sample_taken :: "(unit, unit) user_session" where
  "sample_taken \<equiv> \<lparr> us_client = \<lparr> mp_cache = [fst sample_info \<mapsto> ()], mp_storage = sample_ratchet \<rparr>,
     us_persistent = sample_reported, us_aknowledge = [3], us_messages = [], us_timeout = 3 \<rparr>"

abbreviation sample_user_update :: "(leaf_node, unit) user_state_update" where
  "sample_user_update \<equiv> \<lparr> upd_mls_store = sample_seal sample_store_codec sample_ratchet,
     upd_persistent_data = sample_seal sample_devices_codec sample_reported, upd_key_packages = [], upd_aknowledged = [3],
     upd_messages = [] \<rparr>"

abbreviation sample_user_events :: "user_event list" where
  "sample_user_events \<equiv> [UpdateReceived (UserMessage 3 (MemberGroupMessageTransport [1])), UpdateTimeout]"

lemma sample_user_env_ok: "user_env_ok sample_user_env"
  by (simp add: user_env_ok_def sample_user_env_def)

lemma sample_user_started:
  "user_mls_start sample_user_handler sample_user_peer sample_user_server = Ok (SpkiHash (sample_pad 32 [7]), sample_saved)"
  by (simp add: user_mls_start_def peer_certificate_def sample_cert_def get_user_def decode_user_def sample_user_server_def
      sample_user_handler_def sample_stored_def sample_saved_def Let_def)

lemma sample_user_opened: "user_session_open sample_user_env sample_saved = Ok sample_opened"
  using sample_seal(2) [of sample_store_codec storage_new_memory] sample_seal(2) [of sample_devices_codec persistent_empty]
  by (simp add: user_session_open_def sample_user_env_def storage_import_def sample_saved_def client_new_def TrustStore.sample_user_def
      sample_cert_def)

lemma sample_user_handled:
  "user_event_step sample_user_env (UpdateReceived (UserMessage 3 (MemberGroupMessageTransport [1]))) sample_opened
    = (Ok GoOn, sample_taken)"
  by (simp add: user_event_step_def sample_user_env_def client_handle_message_def client_handle_group_message_def
      sample_user_mls_def mp_process_message_def mp_get_group_def on_group_def Let_def map_err_st_def sample_leaf_def
      client_data_def sample_harness_def sample_info_id handled_update_def storage_new_memory_def)

lemma sample_user_ran:
  "user_session_loop sample_user_env 0 sample_user_events sample_opened
    = (None, [StateUpdate sample_user_update], user_session_sent (sample_taken \<lparr> us_timeout := 60 \<rparr>))"
proof -
  have "user_state_update sample_user_env 0 [] (sample_taken \<lparr> us_timeout := 60 \<rparr>) = Ok sample_user_update"
    using sample_seal(1) [of sample_store_codec sample_ratchet] sample_seal(1) [of sample_devices_codec sample_reported]
    by (simp add: user_state_update_def sample_user_env_def storage_export_def)
  then show ?thesis by (simp add: sample_user_handled) (simp add: user_event_step_def)
qed

lemma sample_user_served:
  "\<exists>self'. user_mls_loop sample_user_handler (SpkiHash (sample_pad 32 [7])) [FromUser (StateUpdate sample_user_update)] sample_user_server
    = (None, [ReplyResult True], self')"
  by (auto simp: user_handle_response_def handle_state_update_def sample_user_handler_def sample_user_server_def Let_def
      update_mls_data_def get_user_def decode_user_def sample_stored_def map_err_st_def two_codec_def)

section \<open>Properties\<close>

text \<open>C16. The stored state of a user and the mailbox stay in step. At any point of a session at which the
  server has handled some of the updates, whatever it streamed in between, the messages that left
  the mailbox are exactly the ones of some first part of what the session received, and the next
  session that opens the stored state continues with the groups and devices as they were after
  exactly this part: no message is lost and none is handled twice.\<close>

theorem user_state_in_step:
  assumes "user_env_ok U" "codec_ok (um_user_codec H)" "db_wf (ms_db (ss_messages self))"
    "user_mls_start H peer self = Ok (user_hash, saved)" "user_session_open U saved = Ok s"
    "user_session_loop U 0 es s = (r, sent, s')"
    "user_mls_loop H user_hash hs self = (None, out, self')" "from_user hs = take k sent"
  shows "\<exists>past later client p saved'. es = past @ later
    \<and> user_replay U past (us_client s, us_persistent s) = Some (client, p)
    \<and> mailbox_rows user_hash (ms_db (ss_messages self'))
      = filter (\<lambda>row. row_id row \<notin> set (message_ids past)) (mailbox_rows user_hash (ms_db (ss_messages self)))
    \<and> user_mls_start H peer self' = Ok (user_hash, saved')
    \<and> user_session_open U saved' = Ok (s \<lparr> us_client := \<lparr> mp_cache = Map.empty, mp_storage = mp_storage client \<rparr>, us_persistent := p \<rparr>)"
  by (rule user_session_stored [OF assms])


theorem user_state_in_step_witness:
  "\<exists>hs out self' past later client p saved'.
    user_mls_loop sample_user_handler (SpkiHash (sample_pad 32 [7])) hs sample_user_server = (None, out, self')
    \<and> sample_user_events = past @ later
    \<and> user_replay sample_user_env past (us_client sample_opened, us_persistent sample_opened) = Some (client, p)
    \<and> mailbox_rows (SpkiHash (sample_pad 32 [7])) (ms_db (ss_messages self')) = filter (\<lambda>row. row_id row \<notin> set (message_ids past))
        (mailbox_rows (SpkiHash (sample_pad 32 [7])) (ms_db (ss_messages sample_user_server)))
    \<and> user_mls_start sample_user_handler sample_user_peer self' = Ok (SpkiHash (sample_pad 32 [7]), saved')"
proof -
  obtain self' where served: "user_mls_loop sample_user_handler (SpkiHash (sample_pad 32 [7]))
      [FromUser (StateUpdate sample_user_update)] sample_user_server = (None, [ReplyResult True], self')"
    using sample_user_served by blast
  have ok: "codec_ok (um_user_codec sample_user_handler)" "db_wf (ms_db (ss_messages sample_user_server))"
    by (simp_all add: sample_user_handler_def sample_user_server_def message_store_open_def db_wf_def)
  have "from_user [FromUser (StateUpdate sample_user_update)] = take 1 [StateUpdate sample_user_update]" by simp
  from user_state_in_step [OF sample_user_env_ok ok sample_user_started sample_user_opened sample_user_ran served this]
  show ?thesis using served by (elim exE conjE) (intro exI conjI)
qed

text \<open>A message that cannot be unpacked stops a user for good. If it is the first one that waits, a
  session that receives it ends with an error, and whatever came before and however often sessions
  are started, no update ever acknowledges anything: the mailbox stays as it is.\<close>

theorem unreadable_message_blocks:
  assumes "user_env_ok U" "codec_ok (um_user_codec H)" "db_wf (ms_db (ss_messages self))"
    "user_mls_start H peer self = Ok (user_hash, saved)" "user_session_open U saved = Ok s"
    "user_session_loop U 0 es s = (r, sent, s')"
    "user_mls_loop H user_hash hs self = (None, out, self')" "from_user hs = take k sent"
    "user_messages es = (i, m) # rest" "\<not> is_ok (unpack_to_member (ue_mls U) m)"
  shows "mailbox_rows user_hash (ms_db (ss_messages self')) = mailbox_rows user_hash (ms_db (ss_messages self))"
proof -
  from user_session_stored [OF assms(1-8)] obtain past later st where
    p: "es = past @ later" "user_replay U past (us_client s, us_persistent s) = Some st"
      "mailbox_rows user_hash (ms_db (ss_messages self'))
        = filter (\<lambda>row. row_id row \<notin> set (message_ids past)) (mailbox_rows user_hash (ms_db (ss_messages self)))"
    by blast
  from user_replay_unreadable [OF _ assms(10) p(2)] assms(9) p(1) have "message_ids past = []" by blast
  with p(3) show ?thesis by simp
qed

theorem unreadable_message_blocks_witness:
  "user_session_loop sample_user_env 0 [UpdateReceived (UserMessage 3 (MemberGroupMessageTransport []))] sample_opened
    = (Some (Err (UsHandle (HeUnpack WrongMessageType))), [], sample_opened)
  \<and> (\<exists>self'. user_mls_loop sample_user_handler (SpkiHash (sample_pad 32 [7])) [StreamReceived 3 (MemberGroupMessageTransport [])] sample_user_server
      = (None, [ReplyUpdate (UserMessage 3 (MemberGroupMessageTransport []))], self')
    \<and> mailbox_rows (SpkiHash (sample_pad 32 [7])) (ms_db (ss_messages self'))
      = mailbox_rows (SpkiHash (sample_pad 32 [7])) (ms_db (ss_messages sample_user_server)))"
proof -
  let ?m = "MemberGroupMessageTransport []"
  have un: "unpack_to_member (ue_mls sample_user_env) ?m = Err WrongMessageType"
    by (simp add: sample_user_env_def sample_user_mls_def)
  have run: "user_session_loop sample_user_env 0 [UpdateReceived (UserMessage 3 ?m)] sample_opened
      = (Some (Err (UsHandle (HeUnpack WrongMessageType))), [], sample_opened)"
    using un by (simp add: user_event_step_def client_handle_message_def)
  have "codec_ok (um_user_codec sample_user_handler)" "db_wf (ms_db (ss_messages sample_user_server))"
    by (simp_all add: sample_user_handler_def sample_user_server_def message_store_open_def db_wf_def)
  from unreadable_message_blocks [OF sample_user_env_ok this sample_user_started sample_user_opened run,
      of "[StreamReceived 3 ?m]" "[ReplyUpdate (UserMessage 3 ?m)]" sample_user_server 0 3 ?m "[]"] un run
  show ?thesis by auto
qed

end
