(* ===== verification/TrustSync.thy ===== *)
theory TrustSync
  imports TransactionStore
begin

text \<open>
  Replication of the trust store: a client's block on the server
  (\<^verbatim>\<open>svalin/src/message_streaming/with_client.rs\<close>, the trust store branch of \<^verbatim>\<open>handle\<close>), the update
  command on both sides (\<^verbatim>\<open>svalin/src/shared/commands/update_trust_store.rs\<close>) and loading a
  replica from its file and table (\<^verbatim>\<open>svalin/src/util/trust_store.rs\<close>). Files and JSON are not
  modelled: a file's content is the exported trust store.
\<close>

section \<open>A block arrives at the server\<close>

record server_replica =
  sr_trust_store :: trust_store
  sr_transactions :: server_tx_store

datatype submit_error =
    SubmitCheckFailed "ts_error check_block_error"
  | SubmitStoreFailed transaction_store_error

definition handle_trust_store_block ::
  "crypto \<Rightarrow> ts_block codec \<Rightarrow> u64 \<Rightarrow> server_replica \<Rightarrow> ts_block
    \<Rightarrow> (bool, submit_error) result \<times> server_replica" where
  "handle_trust_store_block C P now self block =
    (case trust_store_check C now (sr_trust_store self) block of
       (Err e, ts) \<Rightarrow> (Err (SubmitCheckFailed e), self \<lparr> sr_trust_store := ts \<rparr>)
     | (Panicked, ts) \<Rightarrow> (Panicked, self \<lparr> sr_trust_store := ts \<rparr>)
     | (Ok checked, ts) \<Rightarrow>
        (case add_and_broadcast P (sr_transactions self) checked of
           (Err e, tx) \<Rightarrow> (Err (SubmitStoreFailed e), self \<lparr> sr_trust_store := ts, sr_transactions := tx \<rparr>)
         | (Panicked, tx) \<Rightarrow> (Panicked, self \<lparr> sr_trust_store := ts, sr_transactions := tx \<rparr>)
         | (Ok _, tx) \<Rightarrow>
            (case trust_store_apply C ts checked of
               None \<Rightarrow> (Panicked, self \<lparr> sr_trust_store := ts, sr_transactions := tx \<rparr>)
             | Some ts' \<Rightarrow> (Ok False, self \<lparr> sr_trust_store := ts', sr_transactions := tx \<rparr>))))"

section \<open>The update command\<close>

datatype trust_store_update = UpdateTransaction ts_block | UpToDate chain_digest | CloseUpdate

text \<open>What the server sends before it waits for live blocks: the blocks loaded, the blocks
  that are already waiting in the receiver, and its digest.\<close>

definition initial_updates ::
  "crypto \<Rightarrow> trust_store \<Rightarrow> ts_block list \<times> ts_block list \<Rightarrow> trust_store_update list" where
  "initial_updates C ts loaded =
    (case loaded of (current, queued) \<Rightarrow>
       map UpdateTransaction current @ map UpdateTransaction queued @ [UpToDate (trust_store_digest C ts)])"

record client_replica =
  cr_trust_store :: trust_store
  cr_transactions :: client_tx_store

datatype update_error =
    UpdateCheckFailed "ts_error check_block_error"
  | UpdateStoreFailed client_store_error
  | WrongDigest
  | ServerClosed
  | AlreadyUpToDate
  | UpdateReadError

definition apply_block ::
  "crypto \<Rightarrow> ts_block codec \<Rightarrow> u64 \<Rightarrow> client_replica \<Rightarrow> ts_block
    \<Rightarrow> (unit, update_error) result \<times> client_replica" where
  "apply_block C P now self block =
    (case trust_store_check C now (cr_trust_store self) block of
       (Err e, ts) \<Rightarrow> (Err (UpdateCheckFailed e), self \<lparr> cr_trust_store := ts \<rparr>)
     | (Panicked, ts) \<Rightarrow> (Panicked, self \<lparr> cr_trust_store := ts \<rparr>)
     | (Ok checked, ts) \<Rightarrow>
        (case client_add C P (cr_transactions self) checked of
           (Err e, tx) \<Rightarrow> (Err (UpdateStoreFailed e), self \<lparr> cr_trust_store := ts, cr_transactions := tx \<rparr>)
         | (Panicked, tx) \<Rightarrow> (Panicked, self \<lparr> cr_trust_store := ts, cr_transactions := tx \<rparr>)
         | (Ok _, tx) \<Rightarrow>
            (case trust_store_apply C ts checked of
               None \<Rightarrow> (Panicked, self \<lparr> cr_trust_store := ts, cr_transactions := tx \<rparr>)
             | Some ts' \<Rightarrow> (Ok (), self \<lparr> cr_trust_store := ts', cr_transactions := tx \<rparr>))))"

text \<open>The first loop of \<^verbatim>\<open>dispatch\<close>, over the updates that arrive and the times at which they
  are processed; it returns the updates left for the second loop. The stream may end.\<close>

fun receive_old ::
  "crypto \<Rightarrow> ts_block codec \<Rightarrow> client_replica \<Rightarrow> (u64 \<times> trust_store_update) list
    \<Rightarrow> ((u64 \<times> trust_store_update) list, update_error) result \<times> client_replica" where
  "receive_old C P self [] = (Err UpdateReadError, self)"
| "receive_old C P self ((now, UpdateTransaction block) # updates) =
    (case apply_block C P now self block of
       (Ok _, self') \<Rightarrow> receive_old C P self' updates
     | (Err e, self') \<Rightarrow> (Err e, self')
     | (Panicked, self') \<Rightarrow> (Panicked, self'))"
| "receive_old C P self ((now, UpToDate server_digest) # updates) =
    (if server_digest \<noteq> trust_store_digest C (cr_trust_store self) then (Err WrongDigest, self)
     else (Ok updates, self))"
| "receive_old C P self ((now, CloseUpdate) # updates) = (Err ServerClosed, self)"

text \<open>The second loop, until the server closes or the command is cancelled.\<close>

fun receive_live ::
  "crypto \<Rightarrow> ts_block codec \<Rightarrow> client_replica \<Rightarrow> (u64 \<times> trust_store_update) list
    \<Rightarrow> (unit, update_error) result \<times> client_replica" where
  "receive_live C P self [] = (Err UpdateReadError, self)"
| "receive_live C P self ((now, UpdateTransaction block) # updates) =
    (case apply_block C P now self block of
       (Ok _, self') \<Rightarrow> receive_live C P self' updates
     | (Err e, self') \<Rightarrow> (Err e, self')
     | (Panicked, self') \<Rightarrow> (Panicked, self'))"
| "receive_live C P self ((now, UpToDate server_digest) # updates) = (Err AlreadyUpToDate, self)"
| "receive_live C P self ((now, CloseUpdate) # updates) = (Ok (), self)"

section \<open>Loading a replica\<close>

datatype load_error =
    LoadImportFailed "inner_import_error chain_import_error"
  | LoadRowsFailed string
  | LoadCheckFailed "ts_error check_block_error"

text \<open>The loop over the blocks loaded from the table.\<close>

fun replay_blocks ::
  "crypto \<Rightarrow> u64 \<Rightarrow> trust_store \<Rightarrow> ts_block list \<Rightarrow> (trust_store, load_error) result" where
  "replay_blocks C now ts [] = Ok ts"
| "replay_blocks C now ts (block # blocks) =
    (case trust_store_check C now ts block of
       (Err e, ts') \<Rightarrow> Err (LoadCheckFailed e)
     | (Panicked, ts') \<Rightarrow> Panicked
     | (Ok checked, ts') \<Rightarrow>
        (case trust_store_apply C ts' checked of
           None \<Rightarrow> Panicked
         | Some ts'' \<Rightarrow> replay_blocks C now ts'' blocks))"

definition load_trust_store ::
  "crypto \<Rightarrow> ts_block codec \<Rightarrow> u64 \<Rightarrow> (exported_trust_state, ts_transaction) exported_chain \<Rightarrow> tx_row list
    \<Rightarrow> (trust_store, load_error) result" where
  "load_trust_store C P now exported rows =
    and_then (map_err LoadImportFailed (trust_store_import C exported)) (\<lambda>ts.
    and_then (map_err LoadRowsFailed (load_rows_after P rows (trust_store_sequence ts))) (\<lambda>transactions.
    replay_blocks C now ts transactions))"

section \<open>Lemmas\<close>

lemma ts_run_unique:
  assumes "root_ok C r" "ts_run C r bs ts" "ts_run C r bs ts'"
  shows "ts = ts'"
  using ts_run_last [OF assms(1,2)] ts_run_last [OF assms(1,3)]
    ts_run_replay [OF assms(1,2)] ts_run_replay [OF assms(1,3)]
  by (intro chain.equality) auto

inductive_cases ts_run_snocE: "ts_run C r (bs @ [x]) ts"

text \<open>A block of a history passes the check of every replica that has its predecessors, as
  soon as the replica's clock has reached the block's time.\<close>

lemma ts_run_recheck:
  assumes "root_ok C r" "ts_run C r bs ts" "ts_run C r (bs @ [(b, cert)]) ts'" "block_time b \<le> now"
  shows "trust_store_check C now ts b = (Ok (CheckedBlock b), ts)
    \<and> trust_store_apply C ts (CheckedBlock b) = Some ts'"
proof -
  from assms(3) obtain ts0 now0 cb ts1 where
    S: "ts_run C r bs ts0" "transaction_ok C (block_transaction b)"
      "trust_store_check C now0 ts0 b = (Ok cb, ts1)" "trust_store_apply C ts1 cb = Some ts'"
      "fmlookup (ts_certificates (chain_st ts0)) (block_signer b) = Some cert"
    by (elim ts_run_snocE) auto
  then have "ts0 = ts" using ts_run_unique [OF assms(1)] assms(2) by blast
  note S = S [unfolded this]
  note inv = ts_run_inv [OF assms(1,2)]
  note chk = trust_store_check_OkD [OF S(3,5)]
  have "fst (chain_check (trust_state_ops C) C now0 ts b cert) = Ok cb" using chk by simp
  then have cb: "cb = CheckedBlock b" and "fst (chain_check (trust_state_ops C) C now ts b cert) = Ok cb"
    using assms(4) unfolding ts.chain_check_Ok_iff by blast+
  moreover have "snd (chain_check (trust_state_ops C) C n ts b cert) = ts" for n
    using ts.chain_check_unchanged [OF inv S(2)] by blast
  ultimately have "trust_store_check C now ts b = (Ok cb, ts)" "ts1 = ts"
    using S(5) chk by (simp_all add: trust_store_check_def prod_eq_iff)
  then show ?thesis using S(4) cb by simp
qed

lemma ts_run_prefix:
  "ts_run C r (bs @ bs') ts \<Longrightarrow> \<exists>ts0. ts_run C r bs ts0"
proof (induction bs' arbitrary: ts rule: rev_induct)
  case (snoc x bs')
  then have "ts_run C r ((bs @ bs') @ [x]) ts" by simp
  then show ?case using snoc.IH by (elim ts_run_snocE) auto
qed auto

lemma ts_run_sequence:
  assumes "root_ok C r" "ts_run C r (bs @ [(b, cert)]) ts"
  shows "block_sequence b = of_nat (Suc (length bs))"
  using ts_run_log [OF assms, of "length bs"] by (simp add: log_entry_ok_def Let_def)

lemma client_add_next:
  assumes "client_store_inv P base log st" "block_sequence b = of_nat (base + Suc (length log))"
    "base + Suc (length log) < 2 ^ 63" "encode P b = Ok data"
  obtains st' where "client_add C P st (CheckedBlock b) = (Ok (), st')"
    "client_store_inv P base (log @ [b]) st'"
proof -
  have t: "table_of P base log (client_rows st)" "client_current st = of_nat (base + length log)"
    using assms(1) by (simp_all add: client_store_inv_def)
  note tab = table_snoc [OF t(1) assms(2-4)]
  have seq: "block_sequence b = client_current st + 1" using assms(2) t(2) by simp
  have "\<not> block_sequence b \<le> client_current st"
    using assms(2,3) t(2) of_nat_u64_le [of "base + Suc (length log)" "base + length log"] by simp
  then have "client_add C P st (CheckedBlock b) = (Ok (), st
      \<lparr> client_rows := client_rows st @ [\<lparr> tx_sequence = as_i64 (block_sequence b), tx_data = data \<rparr>],
        client_current := block_sequence b \<rparr>)"
    using tab(2) assms(4) seq by (simp add: client_add_def client_insert_def Let_def)
  then show thesis
    by (rule that) (use tab(1) assms(2) in \<open>simp add: client_store_inv_def\<close>)
qed

text \<open>One block of the history, on a replica that has its predecessors.\<close>

lemma apply_block_next:
  assumes "root_ok C r" "ts_run C r bs ts" "ts_run C r (bs @ [(b, cert)]) ts'" "block_time b \<le> now"
    "client_store_inv P base log st" "base + length log = length bs" "Suc (length bs) < 2 ^ 63"
    "encode P b = Ok data"
  obtains st' where
    "apply_block C P now \<lparr> cr_trust_store = ts, cr_transactions = st \<rparr> b
      = (Ok (), \<lparr> cr_trust_store = ts', cr_transactions = st' \<rparr>)"
    "client_store_inv P base (log @ [b]) st'"
proof -
  have "block_sequence b = of_nat (base + Suc (length log))"
    using ts_run_sequence [OF assms(1,3)] assms(6) by simp
  then obtain st' where st': "client_add C P st (CheckedBlock b) = (Ok (), st')"
      "client_store_inv P base (log @ [b]) st'"
    using client_add_next [OF assms(5) _ _ assms(8)] assms(6,7) by auto
  show thesis
    by (rule that [OF _ st'(2)])
      (use ts_run_recheck [OF assms(1-4)] st'(1) in \<open>simp add: apply_block_def\<close>)
qed

lemma receive_old_blocks:
  assumes "root_ok C r" "ts_run C r bs ts" "ts_run C r (bs @ bs') ts'"
    "client_store_inv P base log st" "base + length log = length bs" "length bs + length bs' < 2 ^ 63"
    "list_all2 (\<lambda>u x. snd u = UpdateTransaction (fst x) \<and> block_time (fst x) \<le> fst u) us bs'"
    "\<forall>x \<in> set bs'. \<exists>data. encode P (fst x) = Ok data"
  shows "\<exists>st'. receive_old C P \<lparr> cr_trust_store = ts, cr_transactions = st \<rparr> (us @ vs)
      = receive_old C P \<lparr> cr_trust_store = ts', cr_transactions = st' \<rparr> vs
    \<and> client_store_inv P base (log @ map fst bs') st'"
  using assms(2-)
proof (induction bs' arbitrary: bs ts log st us)
  case Nil
  then have "ts = ts'" using ts_run_unique [OF assms(1)] by simp
  with Nil show ?case by auto
next
  case (Cons x bs')
  obtain b cert where x: "x = (b, cert)" by fastforce
  from Cons.prems(6) x obtain now us' where us: "us = (now, UpdateTransaction b) # us'" "block_time b \<le> now"
      "list_all2 (\<lambda>u x. snd u = UpdateTransaction (fst x) \<and> block_time (fst x) \<le> fst u) us' bs'"
    by (auto simp: list_all2_Cons2)
  have run: "ts_run C r ((bs @ [x]) @ bs') ts'" using Cons.prems(2) by simp
  then obtain ts1 where ts1: "ts_run C r (bs @ [(b, cert)]) ts1" using ts_run_prefix x by blast
  obtain data where data: "encode P b = Ok data" using Cons.prems(7) x by auto
  have bound: "Suc (length bs) < 2 ^ 63" using Cons.prems(5) by simp
  obtain st1 where st1: "apply_block C P now \<lparr> cr_trust_store = ts, cr_transactions = st \<rparr> b
      = (Ok (), \<lparr> cr_trust_store = ts1, cr_transactions = st1 \<rparr>)" "client_store_inv P base (log @ [b]) st1"
    by (rule apply_block_next [OF assms(1) Cons.prems(1) ts1 us(2) Cons.prems(3,4) bound data])
  from Cons.IH [OF ts1 [folded x] run st1(2) _ _ us(3)] Cons.prems(4,5,7)
  show ?case using us(1) st1(1) x by simp
qed

lemma replay_blocks_run:
  assumes "root_ok C r" "ts_run C r bs ts" "ts_run C r (bs @ bs') ts'"
    "\<forall>x \<in> set bs'. block_time (fst x) \<le> now"
  shows "replay_blocks C now ts (map fst bs') = Ok ts'"
  using assms(2-)
proof (induction bs' arbitrary: bs ts)
  case Nil
  then show ?case using ts_run_unique [OF assms(1)] by simp
next
  case (Cons x bs')
  obtain b cert where x: "x = (b, cert)" by fastforce
  have run: "ts_run C r ((bs @ [x]) @ bs') ts'" using Cons.prems(2) by simp
  then obtain ts1 where ts1: "ts_run C r (bs @ [(b, cert)]) ts1" using ts_run_prefix x by blast
  then show ?case
    using ts_run_recheck [OF assms(1) Cons.prems(1) ts1, of now] Cons.IH [OF ts1 [folded x] run] Cons.prems(3) x
    by simp
qed

lemma trust_store_import_exported:
  assumes "root_ok C r" "ts_run C r bs ts" "issuers_present (chain_st ts)"
  shows "trust_store_import C (trust_store_export C ts) = Ok ts"
  unfolding trust_store_import_def trust_store_export_def
  by (rule ts.chain_import_export)
    (use state_import_export [OF ts_run_inv [OF assms(1,2)] assms(3)] ts_run_resulting_state [OF assms(1,2)]
      in simp_all)

text \<open>A checked block has the number after the trust store's.\<close>

lemma trust_store_check_sequence:
  assumes "trust_store_check C now ts b = (Ok cb, ts')"
  shows "block_sequence b = trust_store_sequence ts + 1"
proof -
  obtain cert where "fmlookup (ts_certificates (chain_st ts)) (block_signer b) = Some cert"
    using assms by (auto simp: trust_store_check_def split: option.splits)
  note chk = trust_store_check_OkD [OF assms this]
  have "fst (chain_check (trust_state_ops C) C now ts b cert) = Ok cb" using chk by simp
  then have "check_position (trust_state_ops C) C (last_block ts) b = Ok ()"
    unfolding ts.chain_check_Ok_iff by blast
  then show ?thesis
    by (auto simp: check_position_def trust_store_sequence_def chain_sequence_def split: option.splits if_splits)
qed

text \<open>Checking and applying a block on a reachable store.\<close>

lemma trust_store_check_cases:
  assumes "root_ok C r" "ts_run C r bs ts" "transaction_ok C (block_transaction b)"
  shows "snd (trust_store_check C now ts b) = ts"
    "trust_store_check C now ts b = (Ok cb, ts) \<Longrightarrow>
      cb = CheckedBlock b \<and> (\<exists>cert ts'. trust_store_apply C ts cb = Some ts' \<and> ts_run C r (bs @ [(b, cert)]) ts')"
proof -
  note inv = ts_run_inv [OF assms(1,2)]
  show "snd (trust_store_check C now ts b) = ts"
    using ts.chain_check_unchanged [OF inv assms(3)] by (auto simp: trust_store_check_def split: option.splits)
  assume chk: "trust_store_check C now ts b = (Ok cb, ts)"
  then obtain cert where cert: "fmlookup (ts_certificates (chain_st ts)) (block_signer b) = Some cert"
    by (auto simp: trust_store_check_def split: option.splits)
  note D = trust_store_check_OkD [OF chk cert]
  obtain ts' where "trust_store_apply C ts cb = Some ts'"
    using ts.chain_apply_checked [OF inv assms(3) D] by (auto simp: trust_store_apply_def)
  moreover have "cb = CheckedBlock b"
  proof -
    have "fst (chain_check (trust_state_ops C) C now ts b cert) = Ok cb" using D by simp
    then show ?thesis unfolding ts.chain_check_Ok_iff by blast
  qed
  ultimately show "cb = CheckedBlock b
      \<and> (\<exists>cert ts'. trust_store_apply C ts cb = Some ts' \<and> ts_run C r (bs @ [(b, cert)]) ts')"
    using ts_step [OF assms(2,3) chk _ cert] by blast
qed

text \<open>The server's replica is in step: its table ends where its trust store is.\<close>

definition replica_inv ::
  "crypto \<Rightarrow> root_certificate \<Rightarrow> ts_block codec \<Rightarrow> nat \<Rightarrow> (ts_block \<times> certificate) list
    \<Rightarrow> ts_block list \<Rightarrow> server_replica \<Rightarrow> bool" where
  "replica_inv C r P base bs log s \<longleftrightarrow> ts_run C r bs (sr_trust_store s)
    \<and> server_store_inv P base log (sr_transactions s) \<and> base + length log = length bs"

section \<open>A sample history\<close>

lemma sample_three_blocks:
  "\<exists>x1 x2 x3 ts1 ts2 ts3. ts_run sample_crypto sample_root [x1] ts1
    \<and> ts_run sample_crypto sample_root ([x1] @ [x2]) ts2
    \<and> ts_run sample_crypto sample_root ([x1, x2] @ [x3]) ts3"
proof -
  let ?ts = "trust_store_initialize sample_root"
  let ?root = "cred_certificate sample_root_credential" and ?user = "cred_certificate sample_user_credential"
  have st: "chain_st ?ts = state_initialize sample_root" "last_block ?ts = None"
    by (simp_all add: trust_store_initialize_def chain_initialize_def)
  obtain b1 ts1 where b1: "ts_run sample_crypto sample_root ([] @ [(b1, ?root)]) ts1"
      "state_apply sample_crypto (state_initialize sample_root) (cert_spki ?root) 10 (Add sample_user)
        = Some (chain_st ts1)"
      "last_block ts1 = Some (CheckedBlock b1)" "block_time b1 = 10"
    using ts_run_package [OF sample_root_ok ts_init sample_transactions(1) sample_signs(1), of 10]
      sample_checks(1) sample_signers(1) st by auto
  then have st1: "chain_st ts1 = sample_state1"
    using state_apply_AddD [OF state_initialize_inv [OF sample_root_ok] sample_checks(1)]
    by (simp add: sample_state1_def)
  then obtain b2 ts2 where b2: "ts_run sample_crypto sample_root (([] @ [(b1, ?root)]) @ [(b2, ?user)]) ts2"
      "state_apply sample_crypto sample_state1 (cert_spki ?user) 34560000 (Add sample_agent) = Some (chain_st ts2)"
      "last_block ts2 = Some (CheckedBlock b2)" "block_time b2 = 34560000"
    using ts_run_package [OF sample_root_ok b1(1) sample_transactions(2) sample_signs(2), of 34560000]
      sample_checks(2) sample_signers(2) b1(3,4) by auto
  then have "chain_st ts2 = sample_state2"
    using state_apply_AddD [OF ts_run_inv [OF sample_root_ok b1(1), unfolded st1] sample_checks(2)]
    by (simp add: sample_state2_def)
  then obtain b3 ts3 where
    "ts_run sample_crypto sample_root ((([] @ [(b1, ?root)]) @ [(b2, ?user)]) @ [(b3, ?root)]) ts3"
    using ts_run_package [OF sample_root_ok b2(1) sample_transactions(3) sample_signs(1), of 34560001]
      sample_checks(3) sample_signers(3) b2(3,4) by auto
  then have "ts_run sample_crypto sample_root [(b1, ?root)] ts1
      \<and> ts_run sample_crypto sample_root ([(b1, ?root)] @ [(b2, ?user)]) ts2
      \<and> ts_run sample_crypto sample_root ([(b1, ?root), (b2, ?user)] @ [(b3, ?root)]) ts3"
    using b1(1) b2(1) by simp
  then show ?thesis by blast
qed

text \<open>A serializer that can only encode is enough where nothing is read back.\<close>

definition sink_codec :: "ts_block codec" where
  "sink_codec = \<lparr> encode = (\<lambda>_. Ok []), decode = (\<lambda>_. Err ''unused'') \<rparr>"

section \<open>Properties\<close>



text \<open>Recovery after a restart. A replica that starts from any earlier export of its trust
  store and a table that holds the later blocks of the same history comes back with the
  trust store after all these blocks, provided the export is complete (every stored
  certificate's issuer is stored) and the clock is not behind the blocks' times.\<close>

theorem load_trust_store_recovers:
  assumes "root_ok C r" "ts_run C r bs ts" "ts_run C r (bs @ bs') ts'"
    "issuers_present (chain_st ts)" "codec_ok P" "table_of P base log rows"
    "length bs < 2 ^ 63" "drop (length bs - base) log = map fst bs'"
    "\<forall>x \<in> set bs'. block_time (fst x) \<le> now"
  shows "load_trust_store C P now (trust_store_export C ts) rows = Ok ts'"
proof -
  have "load_rows_after P rows (trust_store_sequence ts) = Ok (map fst bs')"
    using load_rows_after_table [OF assms(6,5,7)] trust_store_sequence_run [OF assms(1,2)] assms(8) by simp
  then show ?thesis
    using trust_store_import_exported [OF assms(1,2,4)] replay_blocks_run [OF assms(1-3,9)]
    by (simp add: load_trust_store_def)
qed

theorem load_trust_store_recovers_witness:
  "load_trust_store sample_crypto sample_block_codec 0
     (trust_store_export sample_crypto (trust_store_initialize sample_root)) []
    = Ok (trust_store_initialize sample_root)"
proof -
  have "issuers_present (chain_st (trust_store_initialize sample_root))"
    by (simp add: issuers_present_def trust_store_initialize_def chain_initialize_def
        state_initialize_def sample_root_def sample_cert_def)
  moreover have "table_of sample_block_codec 1 [] []" by (simp add: table_of_def numbered_from_def)
  ultimately show ?thesis
    using load_trust_store_recovers [OF sample_root_ok ts_init, of "[]"] ts_init sample_block_codec_ok by simp
qed

text \<open>A block that a client submits. On a replica in step, a block that fails the check
  changes nothing. A block that passes it is stored under the next number and applied, if
  some replica is listening. If none is, the block is stored but not applied and the
  caller gets an error; from then on no block is accepted any more, because the check
  asks for the number of the stored block and the table for the one after it.\<close>

theorem submitted_block:
  assumes "root_ok C r" "replica_inv C r P base bs log s" "Suc (length bs) < 2 ^ 63"
    "transaction_ok C (block_transaction b)" "encode P b = Ok data"
  shows "(case fst (trust_store_check C now (sr_trust_store s) b) of
      Err e \<Rightarrow> handle_trust_store_block C P now s b = (Err (SubmitCheckFailed e), s)
    | Panicked \<Rightarrow> handle_trust_store_block C P now s b = (Panicked, s)
    | Ok cb \<Rightarrow>
        (if receivers (sr_transactions s) \<noteq> [] then
           \<exists>cert s'. handle_trust_store_block C P now s b = (Ok False, s')
             \<and> replica_inv C r P base (bs @ [(b, cert)]) (log @ [b]) s'
         else
           \<exists>s'. handle_trust_store_block C P now s b = (Err (SubmitStoreFailed BroadcastError), s')
             \<and> sr_trust_store s' = sr_trust_store s
             \<and> (\<forall>b' now' rs. transaction_ok C (block_transaction b') \<longrightarrow>
                 (let stuck = s' \<lparr> sr_transactions := (sr_transactions s') \<lparr> receivers := rs \<rparr> \<rparr> in
                  \<not> is_ok (fst (handle_trust_store_block C P now' stuck b'))
                  \<and> snd (handle_trust_store_block C P now' stuck b') = stuck))))"
proof -
  have run: "ts_run C r bs (sr_trust_store s)" and inv: "server_store_inv P base log (sr_transactions s)"
    and len: "base + length log = length bs"
    using assms(2) by (auto simp: replica_inv_def)
  have same: "snd (trust_store_check C now (sr_trust_store s) b) = sr_trust_store s"
    by (rule trust_store_check_cases [OF assms(1) run assms(4)])
  show ?thesis
  proof (cases "fst (trust_store_check C now (sr_trust_store s) b)")
    case (Ok cb)
    then have chk: "trust_store_check C now (sr_trust_store s) b = (Ok cb, sr_trust_store s)"
      using same by (simp add: prod_eq_iff)
    obtain cert ts' where cb: "cb = CheckedBlock b" "trust_store_apply C (sr_trust_store s) cb = Some ts'"
        "ts_run C r (bs @ [(b, cert)]) ts'"
      using trust_store_check_cases(2) [OF assms(1) run assms(4) chk] by blast
    have seq: "block_sequence b = of_nat (base + Suc (length log))"
      using trust_store_check_sequence [OF chk] trust_store_sequence_run [OF assms(1) run] len by simp
    obtain tx where tx: "add_and_broadcast P (sr_transactions s) (CheckedBlock b) =
        (if receivers (sr_transactions s) = [] then Err BroadcastError else Ok (), tx)"
        "server_store_inv P base (log @ [b]) tx"
      using add_and_broadcast_next [OF inv seq _ assms(5)] len assms(3) by auto
    show ?thesis
    proof (cases "receivers (sr_transactions s) = []")
      case False
      let ?s' = "s \<lparr> sr_trust_store := ts', sr_transactions := tx \<rparr>"
      have "handle_trust_store_block C P now s b = (Ok False, ?s')"
        using chk cb tx(1) False by (simp add: handle_trust_store_block_def)
      moreover have "replica_inv C r P base (bs @ [(b, cert)]) (log @ [b]) ?s'"
        using cb(3) tx(2) len by (simp add: replica_inv_def)
      ultimately show ?thesis using Ok False by auto
    next
      case True
      let ?s' = "s \<lparr> sr_transactions := tx \<rparr>"
      have h: "handle_trust_store_block C P now s b = (Err (SubmitStoreFailed BroadcastError), ?s')"
        using chk cb tx(1) True by (simp add: handle_trust_store_block_def)
      have "\<not> is_ok (fst (handle_trust_store_block C P now' stuck b'))
          \<and> snd (handle_trust_store_block C P now' stuck b') = stuck"
        if tx': "transaction_ok C (block_transaction b')"
          and stuck: "stuck = ?s' \<lparr> sr_transactions := (sr_transactions ?s') \<lparr> receivers := rs \<rparr> \<rparr>" for b' now' rs stuck
      proof -
        have st: "sr_trust_store stuck = sr_trust_store s" "server_store_inv P base (log @ [b]) (sr_transactions stuck)"
          using stuck tx(2) by (simp_all add: server_store_inv_def)
        have same': "snd (trust_store_check C now' (sr_trust_store stuck) b') = sr_trust_store stuck"
          unfolding st(1) by (rule trust_store_check_cases [OF assms(1) run tx'])
        show ?thesis
        proof (cases "fst (trust_store_check C now' (sr_trust_store stuck) b')")
          case (Ok cb')
          then have chk': "trust_store_check C now' (sr_trust_store s) b' = (Ok cb', sr_trust_store s)"
            using same' st(1) by (simp add: prod_eq_iff)
          have "block_sequence b' = of_nat (base + Suc (length log))"
            using trust_store_check_sequence [OF chk'] trust_store_sequence_run [OF assms(1) run] len by simp
          then have "block_sequence b' \<noteq> of_nat (base + Suc (length (log @ [b])))" by simp
          from add_and_broadcast_other [OF st(2) this] obtain e where
            "add_and_broadcast P (sr_transactions stuck) cb' = (Err e, sr_transactions stuck)"
            using trust_store_check_cases(2) [OF assms(1) run tx' chk'] by auto
          then show ?thesis
            using chk' st(1) by (simp add: handle_trust_store_block_def)
        qed (use same' in \<open>simp_all add: handle_trust_store_block_def prod_eq_iff split: prod.splits\<close>)
      qed
      then show ?thesis using Ok True h by (simp add: Let_def)
    qed
  qed (use same in \<open>simp_all add: handle_trust_store_block_def prod_eq_iff split: prod.splits\<close>)
qed

theorem submitted_block_witness:
  "\<exists>ts b. ts_run sample_crypto sample_root [b] ts \<and> (\<exists>b' now s'.
    handle_trust_store_block sample_crypto sink_codec now
      \<lparr> sr_trust_store = ts, sr_transactions = server_open [] \<rparr> b'
    = (Err (SubmitStoreFailed BroadcastError), s'))"
proof -
  obtain x1 b2 c2 ts1 ts2 where run: "ts_run sample_crypto sample_root [x1] ts1"
      "ts_run sample_crypto sample_root ([x1] @ [(b2, c2)]) ts2"
    using sample_three_blocks by (metis prod.exhaust)
  let ?s = "\<lparr> sr_trust_store = ts1, sr_transactions = server_open [] \<rparr>"
  have "replica_inv sample_crypto sample_root sink_codec 1 [x1] [] ?s"
    using run(1) by (simp add: replica_inv_def server_store_inv_def server_open_def table_of_def
        numbered_from_def select_max_sequence_def)
  moreover have "transaction_ok sample_crypto (block_transaction b2)"
    using run(2) by (elim ts_run_snocE) auto
  moreover have "trust_store_check sample_crypto (block_time b2) ts1 b2 = (Ok (CheckedBlock b2), ts1)"
    using ts_run_recheck [OF sample_root_ok run] by simp
  ultimately have "\<exists>s'. handle_trust_store_block sample_crypto sink_codec (block_time b2) ?s b2
      = (Err (SubmitStoreFailed BroadcastError), s')"
    using submitted_block [OF sample_root_ok, of sink_codec 1 "[x1]" "[]" ?s b2 "[]" "block_time b2"]
    by (auto simp: sink_codec_def server_open_def)
  then show ?thesis using run(1) by blast
qed

text \<open>A replica that joins late cannot follow. An agent that received a trust store with two
  or more blocks starts with an empty table, which is opened at number 1: the next block
  passes the check but the table refuses its number, so the agent never applies it.\<close>

theorem late_replica_blocked:
  assumes "root_ok C r" "ts_run C r bs ts" "2 \<le> length bs" "Suc (length bs) < 2 ^ 63"
    "transaction_ok C (block_transaction b)" "is_ok (fst (trust_store_check C now ts b))"
  shows "apply_block C P now \<lparr> cr_trust_store = ts, cr_transactions = client_open [] \<rparr> b
    = (Err (UpdateStoreFailed CtxSequenceMismatch),
       \<lparr> cr_trust_store = ts, cr_transactions = client_open [] \<rparr>)"
proof -
  obtain cb where chk: "trust_store_check C now ts b = (Ok cb, ts)"
    using assms(6) trust_store_check_cases(1) [OF assms(1,2,5), of now]
    by (auto simp: is_ok_iff prod_eq_iff)
  have "cb = CheckedBlock b" using trust_store_check_cases(2) [OF assms(1,2,5) chk] by blast
  moreover have "block_sequence b = of_nat (Suc (length bs))"
    using trust_store_check_sequence [OF chk] trust_store_sequence_run [OF assms(1,2)] by simp
  then have "block_sequence b > client_current (client_open []) + 1"
    using assms(3,4) of_nat_u64_less [of 2 "Suc (length bs)"]
    by (simp add: client_open_def select_max_sequence_def)
  ultimately show ?thesis using chk by (simp add: apply_block_def client_add_def Let_def)
qed

theorem late_replica_blocked_witness:
  "\<exists>ts b now. apply_block sample_crypto sink_codec now
      \<lparr> cr_trust_store = ts, cr_transactions = client_open [] \<rparr> b
    = (Err (UpdateStoreFailed CtxSequenceMismatch),
       \<lparr> cr_trust_store = ts, cr_transactions = client_open [] \<rparr>)"
proof -
  obtain x1 x2 b3 c3 ts2 ts3 where run: "ts_run sample_crypto sample_root ([x1] @ [x2]) ts2"
      "ts_run sample_crypto sample_root ([x1, x2] @ [(b3, c3)]) ts3"
    using sample_three_blocks by (metis prod.exhaust)
  have run2: "ts_run sample_crypto sample_root [x1, x2] ts2" using run(1) by simp
  have "transaction_ok sample_crypto (block_transaction b3)" using run(2) by (elim ts_run_snocE) auto
  moreover have "is_ok (fst (trust_store_check sample_crypto (block_time b3) ts2 b3))"
    using ts_run_recheck [OF sample_root_ok run2 run(2)] by simp
  ultimately show ?thesis
    using late_replica_blocked [OF sample_root_ok run2, of b3 "block_time b3" sink_codec] by auto
qed

end
