(* ===== verification/JoinAgent.thy ===== *)
theory JoinAgent
  imports AucPace TrustSync
begin

text \<open>
  Enrolling an agent (\<^verbatim>\<open>svalin/src/shared/join_agent.rs\<close>, \<^verbatim>\<open>join_agent/request_handler.rs\<close>,
  \<^verbatim>\<open>join_agent/accept_handler.rs\<close>, \<^verbatim>\<open>svalin/src/client/add_agent.rs\<close>): the sessions that wait on the
  server under a join code, the side of the agent, and the side of the client that certifies
  its key. After the server has connected the two, its forwarding is the network of
  \<^verbatim>\<open>Script\<close>.
\<close>

section \<open>Codes\<close>

text \<open>Decimal digits of a number, and with leading zeros (\<^verbatim>\<open>{:08}\<close>).\<close>

fun dec_digits :: "nat \<Rightarrow> str" where
  "dec_digits n = (if n < 10 then [of_nat (48 + n)] else dec_digits (n div 10) @ [of_nat (48 + n mod 10)])"

declare dec_digits.simps [simp del]

definition create_join_code :: "nat \<Rightarrow> str" where
  "create_join_code random = dec_digits random"

definition generate_short_code :: "nat \<Rightarrow> str" where
  "generate_short_code random = (let s = dec_digits random in replicate (8 - length s) 48 @ s)"

section \<open>Sessions that wait on the server\<close>

text \<open>Every waiting session has a timer, a task of the \<^verbatim>\<open>JoinSet\<close> known by its number, that removes the
  join code after five minutes.\<close>

record join_manager =
  session_map :: "(str, session \<times> nat) fmap"
  joinset :: "(nat \<times> str) list"
  next_task :: nat

definition join_manager_new :: join_manager where
  "join_manager_new = \<lparr> session_map = fmempty, joinset = [], next_task = 0 \<rparr>"

text \<open>The join code is written to the session before the map is looked at; a failed write panics. A
  code that is taken gives the session back.\<close>

definition join_add_session ::
  "str codec \<Rightarrow> str \<Rightarrow> session \<Rightarrow> join_manager \<Rightarrow> (unit, session) result \<times> join_manager" where
  "join_add_session K join_code sess self =
    (case write_object K join_code (s_transport sess) of
       (Ok _, t) \<Rightarrow>
         let sess = sess \<lparr> s_transport := t \<rparr> in
         if join_code |\<in>| fmdom (session_map self) then (Err sess, self)
         else (Ok (), self \<lparr> joinset := joinset self @ [(next_task self, join_code)], next_task := Suc (next_task self),
           session_map := fmupd join_code (sess, next_task self) (session_map self) \<rparr>)
     | _ \<Rightarrow> (Panicked, self))"

definition join_get_session :: "str \<Rightarrow> join_manager \<Rightarrow> session option \<times> join_manager" where
  "join_get_session join_code self =
    (case fmlookup (session_map self) join_code of
       Some (sess, task) \<Rightarrow>
         (Some sess, self \<lparr> session_map := fmdrop join_code (session_map self),
            joinset := filter (\<lambda>(n, _). n \<noteq> task) (joinset self) \<rparr>)
     | None \<Rightarrow> (None, self))"

text \<open>A timer that goes off.\<close>

definition join_timeout :: "nat \<Rightarrow> join_manager \<Rightarrow> join_manager" where
  "join_timeout n self =
    (case map_of (joinset self) n of
       None \<Rightarrow> self
     | Some join_code \<Rightarrow> self \<lparr> session_map := fmdrop join_code (session_map self),
         joinset := filter (\<lambda>(m, _). m \<noteq> n) (joinset self) \<rparr>)"

text \<open>The loop of the request handler, on the numbers that are drawn; \<^verbatim>\<open>None\<close> is a handler that is
  still looping.\<close>

fun join_request ::
  "str codec \<Rightarrow> nat list \<Rightarrow> session \<Rightarrow> join_manager \<Rightarrow> (unit, unit) result option \<times> join_manager" where
  "join_request K [] sess self = (None, self)"
| "join_request K (random # randoms) sess self =
    (case join_add_session K (create_join_code random) sess self of
       (Ok _, self) \<Rightarrow> (Some (Ok ()), self)
     | (Err sess, self) \<Rightarrow> join_request K randoms sess self
     | (Panicked, self) \<Rightarrow> (Some Panicked, self))"

text \<open>The accept handler up to the answer to the client; the session of the agent is what the rest
  of the client's session is connected with.\<close>

definition join_accept ::
  "str codec \<Rightarrow> unit option codec \<Rightarrow> session \<Rightarrow> join_manager
    \<Rightarrow> (session option, rpc_error) result \<times> session \<times> join_manager" where
  "join_accept K U sess self =
    (case read_object K (s_transport sess) of
       (Err e, t) \<Rightarrow> (Err (SessionReadError e), sess \<lparr> s_transport := t \<rparr>, self)
     | (Panicked, t) \<Rightarrow> (Panicked, sess \<lparr> s_transport := t \<rparr>, self)
     | (Ok join_code, t) \<Rightarrow>
        (case join_get_session join_code self of (agent_session, self) \<Rightarrow>
         (case write_object U (map_option (\<lambda>_. ()) agent_session) t of
            (Err e, t) \<Rightarrow> (Err (SessionWriteError e), sess \<lparr> s_transport := t \<rparr>, self)
          | (Panicked, t) \<Rightarrow> (Panicked, sess \<lparr> s_transport := t \<rparr>, self)
          | (Ok _, t) \<Rightarrow> (Ok agent_session, sess \<lparr> s_transport := t \<rparr>, self))))"

section \<open>The agent\<close>

record join_codecs =
  string_codec :: "str codec"
  found_codec :: "unit option codec"
  exported_key_codec :: "exported_public_key codec"
  certificate_codec :: "unverified_certificate codec"
  exported_store_codec :: "exported_store codec"

datatype request_join_error =
    JoinCodeReadError object_error
  | ChannelSendError
  | RjAucPaceError aucpace_error
  | SendRequestError object_error
  | ReadCertificateError object_error
  | UpgradeError create_credentials_error
  | ReadRootCertError object_error
  | UseRootError use_as_root_error
  | ReadUpstreamCertError object_error
  | VerifyUpstreamCertError signature_verification_error
  | ReadTrustStoreError object_error
  | ImportTrustStoreError "inner_import_error chain_import_error"
  | RjSessionReadError object_error
  | UploadToServerError

record agent_init_payload =
  aip_address :: str
  aip_credentials :: credential
  aip_root :: root_certificate
  aip_upstream :: certificate
  aip_trust_store :: exported_store

text \<open>What the agent draws, its clock, and whether its user interface still listens for the codes.\<close>

record join_draws =
  jd_confirm :: nat
  jd_pake :: pake_draws
  jd_keypair :: keypair
  jd_now :: u64
  jd_shows_join_code :: bool
  jd_shows_confirm_code :: bool

definition request_join_certified ::
  "tls_libs \<Rightarrow> join_codecs \<Rightarrow> join_draws \<Rightarrow> str \<Rightarrow> (agent_init_payload, request_join_error) result script" where
  "request_join_certified L J d address =
    then_script (put_object SendRequestError (exported_key_codec J) (export_public_key (jd_keypair d))) (\<lambda>_.
    then_script (get_object ReadCertificateError (certificate_codec J)) (\<lambda>my_cert.
    then_script (lift_result (map_err UpgradeError (upgrade (lib_crypto L) (lib_rcgen L) (jd_keypair d) my_cert))) (\<lambda>my_credentials.
    then_script (get_object ReadRootCertError (certificate_codec J)) (\<lambda>root.
    then_script (lift_result (map_err UseRootError (use_as_root root))) (\<lambda>root.
    then_script (get_object ReadUpstreamCertError (certificate_codec J)) (\<lambda>upstream.
    then_script (lift_result (map_err VerifyUpstreamCertError
      (verify_signature (lib_crypto L) upstream (as_certificate root) (jd_now d)))) (\<lambda>upstream.
    then_script (get_object ReadTrustStoreError (exported_store_codec J)) (\<lambda>exported.
    then_script (lift_result (map_err ImportTrustStoreError (trust_store_import (lib_crypto L) exported))) (\<lambda>_.
    then_script (get_object RjSessionReadError (found_codec J)) (\<lambda>upload_to_server_result.
    then_script (lift_result (ok_or UploadToServerError upload_to_server_result)) (\<lambda>_.
    lift_result (Ok \<lparr> aip_address = address, aip_credentials = my_credentials, aip_root = root, aip_upstream = upstream,
      aip_trust_store = exported \<rparr>))))))))))))"

definition request_join ::
  "('s, 'c, 'pt, 'sc) pake \<Rightarrow> tls_libs \<Rightarrow> 'pt pake_codecs \<Rightarrow> join_codecs \<Rightarrow> join_draws \<Rightarrow> str
    \<Rightarrow> (agent_init_payload, request_join_error) result script" where
  "request_join P L K J d address =
    then_script (get_object JoinCodeReadError (string_codec J)) (\<lambda>join_code.
    then_script (lift_result (ensure (jd_shows_join_code d) ChannelSendError)) (\<lambda>_.
    let confirm_code = generate_short_code (jd_confirm d) in
    then_script (lift_result (if jd_shows_confirm_code d then Ok () else Panicked)) (\<lambda>_.
    then_script (map_err_script RjAucPaceError (aucpace_server P L K (jd_pake d) confirm_code)) (\<lambda>_.
    request_join_certified L J d address))))"

section \<open>The client\<close>

datatype 't accept_join_error =
    AjSessionRead object_error
  | AjSessionWrite object_error
  | AgentNotFound
  | Aborted
  | AjAucPaceError aucpace_error
  | AjCreateCertificateError create_certificate_error
  | AddToTrustStoreError 't

text \<open>What the enrolment uses of the client, and what it draws. \<^verbatim>\<open>ac_add\<close> is the effect of
  \<^verbatim>\<open>add_cert_to_trust_store\<close>, which goes through other connections.\<close>

record ('t) accepting_client =
  ac_user_credential :: credential
  ac_root :: root_certificate
  ac_upstream :: certificate
  ac_trust_store :: trust_store
  ac_add :: "certificate \<Rightarrow> (unit, 't) result"
  ac_now1 :: int
  ac_now2 :: int
  ac_pake :: pake_draws

definition handle_agent_enroll ::
  "tls_libs \<Rightarrow> join_codecs \<Rightarrow> 't accepting_client \<Rightarrow> (certificate, 't accept_join_error) result script" where
  "handle_agent_enroll L J cl =
    then_script (get_object AjSessionRead (exported_key_codec J)) (\<lambda>pubkey.
    then_script (lift_result (map_err AjCreateCertificateError
      (create_agent_certificate_for_key (lib_crypto L) (lib_rcgen L) (ac_now1 cl) (ac_now2 cl) (ac_user_credential cl) pubkey))) (\<lambda>agent_cert.
    then_script (put_object AjSessionWrite (certificate_codec J) (as_unverified agent_cert)) (\<lambda>_.
    then_script (put_object AjSessionWrite (certificate_codec J) (root_as_unverified (ac_root cl))) (\<lambda>_.
    then_script (put_object AjSessionWrite (certificate_codec J) (as_unverified (ac_upstream cl))) (\<lambda>_.
    then_script (put_object AjSessionWrite (exported_store_codec J) (trust_store_export (lib_crypto L) (ac_trust_store cl))) (\<lambda>_.
    case ac_add cl agent_cert of
      Ok _ \<Rightarrow>
        then_script (put_object AjSessionWrite (found_codec J) (Some ())) (\<lambda>_.
        lift_result (Ok agent_cert))
    | Err e \<Rightarrow> bind_script (put_object (AjSessionWrite :: object_error \<Rightarrow> 't accept_join_error) (found_codec J) None) (\<lambda>_. Finish (Err (AddToTrustStoreError e)))
    | Panicked \<Rightarrow> Finish Panicked))))))"

text \<open>\<^verbatim>\<open>confirm\<close> is what the user does when asked for the confirm code: the dialog is gone, it is closed,
  or a code is entered.\<close>

definition accept_join_found ::
  "('s, 'c, 'pt, 'sc) pake \<Rightarrow> tls_libs \<Rightarrow> 'pt pake_codecs \<Rightarrow> join_codecs \<Rightarrow> str option option \<Rightarrow> 't accepting_client
    \<Rightarrow> (certificate, 't accept_join_error) result script" where
  "accept_join_found P L K J confirm cl =
    then_script (lift_result (ok_or Aborted confirm)) (\<lambda>entered.
    then_script (lift_result (ok_or Aborted entered)) (\<lambda>confirm_code.
    then_script (map_err_script AjAucPaceError (aucpace_client P L K (ac_pake cl) confirm_code)) (\<lambda>_.
    handle_agent_enroll L J cl)))"

definition accept_join ::
  "('s, 'c, 'pt, 'sc) pake \<Rightarrow> tls_libs \<Rightarrow> 'pt pake_codecs \<Rightarrow> join_codecs \<Rightarrow> str \<Rightarrow> str option option \<Rightarrow> 't accepting_client
    \<Rightarrow> (certificate, 't accept_join_error) result script" where
  "accept_join P L K J join_code confirm cl =
    then_script (put_object AjSessionWrite (string_codec J) join_code) (\<lambda>_.
    then_script (get_object AjSessionRead (found_codec J)) (\<lambda>found.
    then_script (lift_result (ok_or AgentNotFound found)) (\<lambda>_.
    accept_join_found P L K J confirm cl)))"

text \<open>\<^verbatim>\<open>add_cert_to_trust_store\<close>: a block is made, sent to the server, stored and applied; \<^verbatim>\<open>upload\<close> is the
  answer of the server.\<close>

datatype add_to_trust_store_error =
    CreateBlockError "ts_error create_block_error"
  | AddUploadToServerError
  | AddTransactionStoreError client_store_error

definition add_cert_to_trust_store ::
  "crypto \<Rightarrow> ts_block codec \<Rightarrow> u64 \<Rightarrow> (ts_block \<Rightarrow> bool) \<Rightarrow> credential \<Rightarrow> certificate \<Rightarrow> client_replica
    \<Rightarrow> (unit, add_to_trust_store_error) result \<times> client_replica" where
  "add_cert_to_trust_store C P now upload user_credential cert self =
    (case trust_store_add C now (cr_trust_store self) cert user_credential of
       (Err e, ts) \<Rightarrow> (Err (CreateBlockError e), self \<lparr> cr_trust_store := ts \<rparr>)
     | (Panicked, ts) \<Rightarrow> (Panicked, self \<lparr> cr_trust_store := ts \<rparr>)
     | (Ok block, ts) \<Rightarrow>
        if \<not> upload (as_unchecked block) then (Err AddUploadToServerError, self \<lparr> cr_trust_store := ts \<rparr>)
        else
          (case client_add C P (cr_transactions self) block of
             (Err e, tx) \<Rightarrow> (Err (AddTransactionStoreError e), self \<lparr> cr_trust_store := ts, cr_transactions := tx \<rparr>)
           | (Panicked, tx) \<Rightarrow> (Panicked, self \<lparr> cr_trust_store := ts, cr_transactions := tx \<rparr>)
           | (Ok _, tx) \<Rightarrow>
              (case trust_store_apply C ts block of
                 None \<Rightarrow> (Panicked, self \<lparr> cr_trust_store := ts, cr_transactions := tx \<rparr>)
               | Some ts \<Rightarrow> (Ok (), self \<lparr> cr_trust_store := ts, cr_transactions := tx \<rparr>))))"


section \<open>Lemmas on the join manager\<close>

lemma join_manager_new_simps [simp]:
  "session_map join_manager_new = fmempty" "joinset join_manager_new = []" "next_task join_manager_new = 0"
  by (simp_all add: join_manager_new_def)

inductive join_manager_reachable :: "str codec \<Rightarrow> join_manager \<Rightarrow> bool" for K where
  new: "join_manager_reachable K join_manager_new"
| add: "join_manager_reachable K m \<Longrightarrow> join_manager_reachable K (snd (join_add_session K code sess m))"
| get: "join_manager_reachable K m \<Longrightarrow> join_manager_reachable K (snd (join_get_session code m))"
| timeout: "join_manager_reachable K m \<Longrightarrow> join_manager_reachable K (join_timeout n m)"

definition join_manager_inv :: "join_manager \<Rightarrow> bool" where
  "join_manager_inv m \<longleftrightarrow> distinct (map fst (joinset m)) \<and> (\<forall>n code. (n, code) \<in> set (joinset m) \<longrightarrow> n < next_task m)
    \<and> (\<forall>n code. (n, code) \<in> set (joinset m) \<longleftrightarrow> (\<exists>sess. fmlookup (session_map m) code = Some (sess, n)))"

lemma join_manager_invD:
  assumes "join_manager_inv m"
  shows "(n, code) \<in> set (joinset m) \<longleftrightarrow> (\<exists>sess. fmlookup (session_map m) code = Some (sess, n))"
    and "(n, code) \<in> set (joinset m) \<Longrightarrow> n < next_task m"
    and "distinct (map fst (joinset m))"
    and "(n, code) \<in> set (joinset m) \<Longrightarrow> (n, code') \<in> set (joinset m) \<Longrightarrow> code = code'"
  using assms unfolding join_manager_inv_def by (blast intro: eq_key_imp_eq_value)+

lemma distinct_map_fst_filter: "distinct (map fst xs) \<Longrightarrow> distinct (map fst (filter P xs))"
  by (simp add: distinct_map inj_on_def)

text \<open>Dropping a session with its timer.\<close>

lemma join_manager_inv_drop:
  assumes inv: "join_manager_inv m" and n: "(n, code) \<in> set (joinset m)"
  shows "join_manager_inv (m \<lparr> session_map := fmdrop code (session_map m), joinset := filter (\<lambda>(k, _). k \<noteq> n) (joinset m) \<rparr>)"
proof -
  have "(k, c) \<in> set (joinset m) \<and> k \<noteq> n \<longleftrightarrow> c \<noteq> code \<and> (\<exists>sess. fmlookup (session_map m) c = Some (sess, k))" for k c
    using join_manager_invD(1) [OF inv] join_manager_invD(4) [OF inv] n by fastforce
  moreover have "k < next_task m" if "fmlookup (session_map m) c = Some (sess, k)" for k c sess
    using join_manager_invD(1,2) [OF inv] that by blast
  ultimately show ?thesis
    using inv unfolding join_manager_inv_def by (auto simp: distinct_map_fst_filter)
qed

lemma join_add_session_inv:
  assumes "join_manager_inv m"
  shows "join_manager_inv (snd (join_add_session K code sess m))"
proof -
  obtain r t where w: "write_object K code (s_transport sess) = (r, t)" by fastforce
  show ?thesis
  proof (cases "is_ok r \<and> code |\<notin>| fmdom (session_map m)")
    case True
    then have fresh: "fmlookup (session_map m) code = None" by (simp add: fmdom_notD)
    have lt: "(k, c) \<in> set (joinset m) \<Longrightarrow> k < next_task m" for k c by (rule join_manager_invD(2) [OF assms])
    have "join_manager_inv (m \<lparr> joinset := joinset m @ [(next_task m, code)], next_task := Suc (next_task m),
        session_map := fmupd code (sess \<lparr> s_transport := t \<rparr>, next_task m) (session_map m) \<rparr>)"
      using assms fresh lt unfolding join_manager_inv_def by (auto simp: less_Suc_eq) fastforce+
    with True w show ?thesis by (cases r) (simp_all add: join_add_session_def Let_def)
  next
    case False
    then have "snd (join_add_session K code sess m) = m"
      by (cases r) (auto simp: join_add_session_def Let_def w)
    with assms show ?thesis by simp
  qed
qed

lemma join_get_session_inv:
  assumes "join_manager_inv m"
  shows "join_manager_inv (snd (join_get_session code m))"
proof (cases "fmlookup (session_map m) code")
  case None
  with assms show ?thesis by (simp add: join_get_session_def)
next
  case (Some st)
  obtain sess n where st: "st = (sess, n)" by fastforce
  with Some have "(n, code) \<in> set (joinset m)" using join_manager_invD(1) [OF assms] by blast
  from join_manager_inv_drop [OF assms this] show ?thesis by (simp add: join_get_session_def Some st)
qed

lemma join_timeout_inv:
  assumes "join_manager_inv m"
  shows "join_manager_inv (join_timeout n m)"
proof (cases "map_of (joinset m) n")
  case None
  with assms show ?thesis by (simp add: join_timeout_def)
next
  case (Some code)
  then have "(n, code) \<in> set (joinset m)" by (rule map_of_SomeD)
  from join_manager_inv_drop [OF assms this] show ?thesis by (simp add: join_timeout_def Some)
qed

lemma join_manager_reachable_inv: "join_manager_reachable K m \<Longrightarrow> join_manager_inv m"
  by (induction rule: join_manager_reachable.induct)
    (simp_all add: join_add_session_inv join_get_session_inv join_timeout_inv, simp add: join_manager_inv_def)

section \<open>Client and agent together\<close>

text \<open>What the client and the agent need to come to an end with each other: the messages can be encoded,
  the key of the agent is certified, the root is a root that has issued the upstream
  certificate, which is valid when the agent looks at it, and the exported trust store can be
  imported.\<close>

definition enrolment_ready :: "tls_libs \<Rightarrow> join_codecs \<Rightarrow> 't accepting_client \<Rightarrow> join_draws \<Rightarrow> certificate \<Rightarrow> bool" where
  "enrolment_ready L J cl d agent_cert \<longleftrightarrow>
    signed_by_ok (lib_crypto L) (lib_rcgen L)
    \<and> create_agent_certificate_for_key (lib_crypto L) (lib_rcgen L) (ac_now1 cl) (ac_now2 cl) (ac_user_credential cl)
        (export_public_key (jd_keypair d)) = Ok agent_cert
    \<and> use_as_root (root_as_unverified (ac_root cl)) = Ok (ac_root cl)
    \<and> verify_signature (lib_crypto L) (as_unverified (ac_upstream cl)) (as_certificate (ac_root cl)) (jd_now d) = Ok (ac_upstream cl)
    \<and> is_ok (trust_store_import (lib_crypto L) (trust_store_export (lib_crypto L) (ac_trust_store cl)))
    \<and> carries (exported_key_codec J) (export_public_key (jd_keypair d))
    \<and> carries (certificate_codec J) (as_unverified agent_cert)
    \<and> carries (certificate_codec J) (root_as_unverified (ac_root cl))
    \<and> carries (certificate_codec J) (as_unverified (ac_upstream cl))
    \<and> carries (exported_store_codec J) (trust_store_export (lib_crypto L) (ac_trust_store cl))
    \<and> codec_total (found_codec J)"

definition enrolled :: "tls_libs \<Rightarrow> 't accepting_client \<Rightarrow> join_draws \<Rightarrow> str \<Rightarrow> certificate \<Rightarrow> agent_init_payload" where
  "enrolled L cl d address agent_cert = \<lparr> aip_address = address,
     aip_credentials = \<lparr> cred_keypair = jd_keypair d, cred_certificate = agent_cert \<rparr>, aip_root = ac_root cl,
     aip_upstream = ac_upstream cl, aip_trust_store = trust_store_export (lib_crypto L) (ac_trust_store cl) \<rparr>"

text \<open>The results that fit together after the certificate was uploaded, or not.\<close>

definition enrol_results ::
  "tls_libs \<Rightarrow> 't accepting_client \<Rightarrow> join_draws \<Rightarrow> str \<Rightarrow> certificate
    \<Rightarrow> (certificate, 't accept_join_error) result \<times> (agent_init_payload, request_join_error) result" where
  "enrol_results L cl d address agent_cert =
    (case ac_add cl agent_cert of
       Ok _ \<Rightarrow> (Ok agent_cert, Ok (enrolled L cl d address agent_cert))
     | Err e \<Rightarrow> (Err (AddToTrustStoreError e), Err UploadToServerError)
     | Panicked \<Rightarrow> (Panicked, Err (RjSessionReadError ObjectIo)))"

lemma enrol_over_tunnel:
  assumes "enrolment_ready L J cl d agent_cert"
  shows "net_runs X (net_of (handle_agent_enroll L J cl) (request_join_certified L J d address) [] [])
    (net_of (Finish (fst (enrol_results L cl d address agent_cert))) (Finish (snd (enrol_results L cl d address agent_cert))) [] [])"
proof -
  obtain c where c: "create_certificate_for_key (lib_crypto L) (lib_rcgen L) (ac_now1 cl) (ac_now2 cl) (ac_user_credential cl)
      (export_public_key (jd_keypair d)) Agent = Ok c" "agent_cert = Certificate c"
    using assms by (auto simp: enrolment_ready_def create_agent_certificate_for_key_def mark_as_trusted_def result_simps)
  have up: "upgrade (lib_crypto L) (lib_rcgen L) (jd_keypair d) c
      = Ok \<lparr> cred_keypair = jd_keypair d, cred_certificate = agent_cert \<rparr>"
    using certificate_for_key_upgrades [OF _ c(1)] assms c(2) by (simp add: enrolment_ready_def)
  obtain ts where ts: "trust_store_import (lib_crypto L) (trust_store_export (lib_crypto L) (ac_trust_store cl)) = Ok ts"
    using assms by (auto simp: enrolment_ready_def is_ok_iff)
  obtain bk bc br bu bs enc where k: "encode (exported_key_codec J) (export_public_key (jd_keypair d)) = Ok bk"
      "decode (exported_key_codec J) bk = Ok (export_public_key (jd_keypair d))"
      "encode (certificate_codec J) c = Ok bc" "decode (certificate_codec J) bc = Ok c"
      "encode (certificate_codec J) (root_as_unverified (ac_root cl)) = Ok br"
      "decode (certificate_codec J) br = Ok (root_as_unverified (ac_root cl))"
      "encode (certificate_codec J) (as_unverified (ac_upstream cl)) = Ok bu"
      "decode (certificate_codec J) bu = Ok (as_unverified (ac_upstream cl))"
      "encode (exported_store_codec J) (trust_store_export (lib_crypto L) (ac_trust_store cl)) = Ok bs"
      "decode (exported_store_codec J) bs = Ok (trust_store_export (lib_crypto L) (ac_trust_store cl))"
      "\<And>x. encode (found_codec J) x = Ok (enc x)" "\<And>x. decode (found_codec J) (enc x) = Ok x"
    using assms c(2) codec_total_enc [of "found_codec J"] by (auto simp: enrolment_ready_def carries_def)
  note ok = assms [unfolded enrolment_ready_def]
  show ?thesis
    unfolding handle_agent_enroll_def request_join_certified_def enrol_results_def enrolled_def
    by (cases "ac_add cl agent_cert"; simp only: c(2))
      ((simp add: ok [unfolded c(2)] up [unfolded c(2)] ts k lift_result_def
        | rule pake_steps, simp add: k | rule left_put_bind, simp add: k | rule right_get_closed)+)
qed

section \<open>Properties\<close>

text \<open>A timer of the join manager only ever removes the session it was started for: when the timer
  of a waiting session goes off, that session is gone and every other one is still found under
  its code. A timer that is not pending changes nothing.\<close>

theorem join_timeout_own_session:
  assumes "join_manager_reachable K m"
  shows "fst (join_get_session code (join_timeout n m)) =
    (case fmlookup (session_map m) code of Some (sess, k) \<Rightarrow> (if k = n then None else Some sess) | None \<Rightarrow> None)"
proof -
  note inv = join_manager_invD [OF join_manager_reachable_inv [OF assms]]
  show ?thesis
  proof (cases "map_of (joinset m) n")
    case None
    then have "(n, code) \<notin> set (joinset m)" by (auto simp: map_of_eq_None_iff image_iff)
    then show ?thesis using inv(1) by (auto simp: join_timeout_def None join_get_session_def split: option.splits)
  next
    case (Some code')
    then have "(n, code') \<in> set (joinset m)" by (rule map_of_SomeD)
    then show ?thesis
      using inv(1) inv(4) by (fastforce simp: join_timeout_def Some join_get_session_def split: option.splits)
  qed
qed

lemma join_timeout_own_session_witness:
  "fst (join_get_session [49] (join_timeout 0
     (snd (join_add_session sample_codec [49] \<lparr> s_transport = sample_transport [], s_peer = Anonymous \<rparr> join_manager_new)))) = None"
proof -
  have r: "join_manager_reachable sample_codec
      (snd (join_add_session sample_codec [49] \<lparr> s_transport = sample_transport [], s_peer = Anonymous \<rparr> join_manager_new))"
    by (intro join_manager_reachable.intros)
  have "write_object sample_codec [49] (sample_transport []) = (Ok (), sample_transport [] \<lparr> outgoing := chunk_frame [49] \<rparr>)"
    by (subst write_object_intact [where e = "[49]"]) (simp_all add: sample_codec_def sample_transport_def)
  then show ?thesis
    using join_timeout_own_session [OF r, of "[49]" 0] by (simp add: join_add_session_def Let_def)
qed

text \<open>The join code is written to the agent before the manager looks whether it is taken. So an agent
  whose first code is taken is stored under its second code, but the code that it reads, and
  shows, is the first one, under which the session of another agent is found.\<close>

theorem join_code_taken:
  assumes "codec_ok K" "encode K (create_join_code r1) = Ok e1" "encode K (create_join_code r2) = Ok e2"
    "length e1 < 2 ^ 31" "length e2 < 2 ^ 31" "\<not> broken (s_transport sess)" "outgoing (s_transport sess) = []"
    "fmlookup (session_map m) (create_join_code r1) = Some (other, n)"
    "fmlookup (session_map m) (create_join_code r2) = None"
  shows "\<exists>m' sess'. join_request K (r1 # r2 # rs) sess m = (Some (Ok ()), m')
    \<and> fmlookup (session_map m') (create_join_code r2) = Some (sess', next_task m)
    \<and> (\<forall>agent. incoming agent = outgoing (s_transport sess') \<longrightarrow> fst (read_object K agent) = Ok (create_join_code r1))
    \<and> fst (join_get_session (create_join_code r1) m') = Some other"
proof -
  let ?t = "s_transport sess"
  have w1: "write_object K (create_join_code r1) ?t = (Ok (), ?t \<lparr> outgoing := chunk_frame e1 \<rparr>)"
    using write_object_intact [OF assms(2), of ?t] assms(4,6,7) by simp
  have w2: "write_object K (create_join_code r2) (?t \<lparr> outgoing := chunk_frame e1 \<rparr>)
      = (Ok (), ?t \<lparr> outgoing := chunk_frame e1 @ chunk_frame e2 \<rparr>)"
    using write_object_intact [OF assms(3), of "?t \<lparr> outgoing := chunk_frame e1 \<rparr>"] assms(5,6) by simp
  have "fst (read_object K agent) = Ok (create_join_code r1)" if "incoming agent = chunk_frame e1 @ chunk_frame e2" for agent
    using read_object_frame [OF assms(1,2,4) that] by simp
  moreover have "create_join_code r1 |\<in>| fmdom (session_map m)" "create_join_code r2 |\<notin>| fmdom (session_map m)"
    using assms(8,9) by (auto intro: fmdomI dest: fmdom_notI)
  moreover have "create_join_code r1 \<noteq> create_join_code r2" using assms(8,9) by auto
  ultimately show ?thesis
    using assms(8) by (simp add: join_add_session_def w1 w2 Let_def join_get_session_def)
qed

definition sample_waiting :: join_manager where
  "sample_waiting = \<lparr> session_map = fmupd [49] (\<lparr> s_transport = sample_transport [], s_peer = Anonymous \<rparr>, 0) fmempty,
     joinset = [(0, [49])], next_task = 1 \<rparr>"

lemma join_code_taken_witness:
  "\<exists>m'. join_request sample_codec [1, 2] \<lparr> s_transport = sample_transport [], s_peer = Anonymous \<rparr> sample_waiting = (Some (Ok ()), m')
    \<and> fst (join_get_session [49] m') = Some \<lparr> s_transport = sample_transport [], s_peer = Anonymous \<rparr>"
proof -
  have d: "create_join_code 1 = [49]" "create_join_code 2 = [50]"
    by (simp_all add: create_join_code_def dec_digits.simps [of "Suc 0"] dec_digits.simps [of 2])
  have d' [simp]: "create_join_code (Suc 0) = [49]" using d(1) by simp
  have c: "codec_ok sample_codec" "encode sample_codec b = Ok b" for b
    by (simp_all add: codec_ok_def sample_codec_def)
  have "\<exists>m' sess'. join_request sample_codec (1 # 2 # []) \<lparr> s_transport = sample_transport [], s_peer = Anonymous \<rparr> sample_waiting = (Some (Ok ()), m')
      \<and> fmlookup (session_map m') (create_join_code 2) = Some (sess', next_task sample_waiting)
      \<and> (\<forall>agent. incoming agent = outgoing (s_transport sess') \<longrightarrow> fst (read_object sample_codec agent) = Ok (create_join_code 1))
      \<and> fst (join_get_session (create_join_code 1) m') = Some \<lparr> s_transport = sample_transport [], s_peer = Anonymous \<rparr>"
    by (rule join_code_taken [OF c(1) c(2) c(2)]) (simp_all add: d sample_transport_def sample_waiting_def)
  then show ?thesis by (auto simp: d)
qed


text \<open>A sample enrolment.\<close>

definition sample_join_libs :: tls_libs where
  "sample_join_libs = sample_tls_libs \<lparr> lib_rcgen := sample_temp_rcgen \<lparr> signed_by := \<lambda>p pk ca kp.
     if p = leaf_params 0 0 Agent (SpkiHash (sample_pad 32 [9])) \<and> epk_der pk = [9] then Ok [3, 9, 8, 0] else Err ''unsupported'' \<rparr> \<rparr>"

definition sample_join_codecs :: join_codecs where
  "sample_join_codecs = \<lparr> string_codec = sample_codec, found_codec = unary_codec id id,
     exported_key_codec = \<lparr> encode = (\<lambda>k. Ok (epk_der k)), decode = (\<lambda>b. Ok \<lparr> epk_der = b, epk_alg = PkcsEd25519 \<rparr>) \<rparr>,
     certificate_codec = sample_cert_codec,
     exported_store_codec = \<lparr> encode = (\<lambda>_. Ok []), decode = (\<lambda>_. Ok (trust_store_export sample_crypto (trust_store_initialize sample_root))) \<rparr> \<rparr>"

definition sample_join_draws :: join_draws where
  "sample_join_draws = \<lparr> jd_confirm = 42,
     jd_pake = \<lparr> pd_nonce = [3], pd_rand1 = [], pd_rand2 = [], pd_tls_nonce = [4], pd_temp = sample_temp_draws 2 \<rparr>,
     jd_keypair = \<lparr> kp_serialized_der = [9], kp_public_der = [9] \<rparr>, jd_now = 1, jd_shows_join_code = True, jd_shows_confirm_code = True \<rparr>"

definition sample_accepting :: "unit accepting_client" where
  "sample_accepting = \<lparr> ac_user_credential = sample_user_credential, ac_root = sample_root,
     ac_upstream = Certificate (sample_cert Server 4 5 7 0), ac_trust_store = trust_store_initialize sample_root,
     ac_add = (\<lambda>_. Ok ()), ac_now1 = 0, ac_now2 = 0,
     ac_pake = \<lparr> pd_nonce = [1], pd_rand1 = [], pd_rand2 = [], pd_tls_nonce = [2], pd_temp = sample_temp_draws 1 \<rparr> \<rparr>"

lemma sample_join_temp:
  "temp_ready sample_join_libs d time key cred b = temp_ready sample_tls_libs d time key cred b"
  by (simp add: temp_ready_def sample_join_libs_def sample_tls_libs_def generate_temporary_def credential_new_def)

lemma sample_enrolment_ready:
  "enrolment_ready sample_join_libs sample_join_codecs sample_accepting sample_join_draws (Certificate (sample_cert Agent 3 9 8 0))"
proof -
  have s: "signed_by_ok sample_crypto (lib_rcgen sample_join_libs)"
    unfolding signed_by_ok_def encodes_params_def
    by (auto simp: sample_join_libs_def sample_temp_rcgen_def sample_rcgen_def sample_crypto_def sample_name_def sample_type_def
        leaf_params_def not_after_ns_def spki_to_string_def split: if_splits)
  have der: "from_der sample_crypto [3, 9, 8, 0] = Ok (sample_cert Agent 3 9 8 0)"
    "from_der sample_crypto [0, 7, 7, 0] = Ok (sample_cert Root 0 7 7 0)"
    "from_der sample_crypto [4, 5, 7, 0] = Ok (sample_cert Server 4 5 7 0)" by code_simp+
  have c: "lib_crypto sample_join_libs = sample_crypto" by (simp add: sample_join_libs_def sample_tls_libs_def)
  have up: "verify_signature sample_crypto (sample_cert Server 4 5 7 0) (as_certificate sample_root) 1
      = Ok (Certificate (sample_cert Server 4 5 7 0))" by code_simp
  have imp: "is_ok (trust_store_import sample_crypto (trust_store_export sample_crypto (trust_store_initialize sample_root)))"
    by code_simp
  have codecs: "carries sample_cert_codec (sample_cert Agent 3 9 8 0)" "carries sample_cert_codec (sample_cert Root 0 7 7 0)"
    "carries sample_cert_codec (sample_cert Server 4 5 7 0)"
    using der by (simp_all add: carries_def sample_cert_codec_def sample_cert_def)
  have cert: "create_agent_certificate_for_key sample_crypto (lib_rcgen sample_join_libs) 0 0 sample_user_credential
      \<lparr> epk_der = [9], epk_alg = PkcsEd25519 \<rparr> = Ok (Certificate (sample_cert Agent 3 9 8 0))"
    by (simp add: create_agent_certificate_for_key_def create_certificate_for_key_def sample_join_libs_def
        sample_temp_rcgen_def sample_rcgen_def sample_spki der mark_as_trusted_def)
  show ?thesis
    unfolding enrolment_ready_def c
    using s cert up imp codecs
    by (simp add: sample_accepting_def sample_join_draws_def sample_join_codecs_def export_public_key_def
        unary_codec_total [unfolded codec_total_def] codec_total_def sample_root_def use_as_root_def carries_def sample_cert_def)
qed


end
