(* ===== verification/Profiles.thy ===== *)
theory Profiles
  imports Login TrustSync
begin

text \<open>
  The profiles of a client on disk (\<^verbatim>\<open>svalin/src/client/profile.rs\<close>, \<^verbatim>\<open>svalin/src/util/trust_store.rs\<close>): what
  a login leaves behind and what opening a profile reads, up to the first connection, and the
  user credential that the server hands out then (\<^verbatim>\<open>svalin/src/shared/commands/get_user_credentials.rs\<close>).
  The disk is a map from the names of the profile folders to the files this code writes. Reading
  and writing succeed; a file that is not there is a read error.
\<close>

section \<open>Profiles\<close>

record profile =
  pr_username :: str
  pr_upstream_address :: str
  pr_upstream_certificate :: unverified_certificate
  pr_root_certificate :: unverified_certificate
  pr_local_credential_params :: argon_params
  pr_device_credential :: encrypted_credential

definition profile_new ::
  "str \<Rightarrow> str \<Rightarrow> certificate \<Rightarrow> root_certificate \<Rightarrow> argon_params \<Rightarrow> encrypted_credential \<Rightarrow> profile" where
  "profile_new username upstream_address upstream_certificate root_certificate local_credential_params device_credential =
    \<lparr> pr_username = username, pr_upstream_address = upstream_address,
      pr_upstream_certificate = as_unverified upstream_certificate,
      pr_root_certificate = root_as_unverified root_certificate,
      pr_local_credential_params = local_credential_params, pr_device_credential = device_credential \<rparr>"

definition profile_name :: "profile \<Rightarrow> str" where
  "profile_name self = pr_username self @ utf8 ''@'' @ pr_upstream_address self"

text \<open>\<^verbatim>\<open>replace(":", "+")\<close>: the name of the folder.\<close>

definition profile_folder :: "str \<Rightarrow> str" where
  "profile_folder name = map (\<lambda>b. if b = 58 then 43 else b) name"

record profile_files =
  profile_json :: "bytes option"
  trust_store_json :: "bytes option"

type_synonym disk = "(str, profile_files) fmap"

definition profile_files_at :: "str \<Rightarrow> disk \<Rightarrow> profile_files" where
  "profile_files_at folder disk =
    (case fmlookup disk folder of Some files \<Rightarrow> files | None \<Rightarrow> \<lparr> profile_json = None, trust_store_json = None \<rparr>)"

text \<open>The names of the folders.\<close>

definition list_profiles :: "disk \<Rightarrow> str fset" where
  "list_profiles disk = fmdom disk"

section \<open>Adding a profile\<close>

datatype profile_error =
    PfDeriveKey derive_key_error
  | PfExport encrypt_error
  | PfAlreadyExists
  | PfJson string
  | PfNotFound
  | PfEmpty
  | PfDecrypt decode_credentials_error
  | PfRoot use_as_root_error
  | PfUpstream signature_verification_error
  | PfTrustStore load_error

text \<open>What the code uses: the libraries, the serializers, and the salt and the nonce mask that are drawn.\<close>

record profile_env =
  pe_crypto :: crypto
  pe_aead :: aead
  pe_rcgen :: rcgen
  pe_argon2 :: argon2
  pe_saved_codec :: "saved_keypair codec"
  pe_profile_codec :: "profile codec"
  pe_store_codec :: "exported_store codec"
  pe_block_codec :: "ts_block codec"
  pe_salt :: bytes
  pe_mask :: bytes

definition save_profile :: "profile_env \<Rightarrow> profile \<Rightarrow> disk \<Rightarrow> (unit, profile_error) result \<times> disk" where
  "save_profile N profile disk =
    (let folder = profile_folder (profile_name profile) in
     bind_st (map_err PfJson (encode (pe_profile_codec N) profile), disk) (\<lambda>json disk.
     (Ok (), fmupd folder ((profile_files_at folder disk) \<lparr> profile_json := Some json \<rparr>) disk)))"

definition save_trust_store :: "profile_env \<Rightarrow> str \<Rightarrow> exported_store \<Rightarrow> disk \<Rightarrow> (unit, profile_error) result \<times> disk" where
  "save_trust_store N folder exported disk =
    bind_st (map_err PfJson (encode (pe_store_codec N) exported), disk) (\<lambda>json disk.
    (Ok (), fmupd folder ((profile_files_at folder disk) \<lparr> trust_store_json := Some json \<rparr>) disk))"

definition add_profile ::
  "profile_env \<Rightarrow> str \<Rightarrow> str \<Rightarrow> certificate \<Rightarrow> root_certificate \<Rightarrow> credential \<Rightarrow> bytes \<Rightarrow> trust_store \<Rightarrow> disk
    \<Rightarrow> (str, profile_error) result \<times> disk" where
  "add_profile N username upstream_address upstream_certificate root_certificate device_credentials password trust_store disk =
    (let local_credential_params = strong_with_salt (pe_salt N) in
     bind_st (map_err PfDeriveKey (derive_encryption_key (pe_argon2 N) local_credential_params password), disk) (\<lambda>key disk.
     bind_st (map_err PfExport (credential_export (pe_aead N) (pe_saved_codec N) (pe_mask N) device_credentials key), disk)
       (\<lambda>encrypted_device_credential disk.
     let profile = profile_new username upstream_address upstream_certificate root_certificate local_credential_params
       encrypted_device_credential in
     if profile_name profile |\<in>| list_profiles disk then (Err PfAlreadyExists, disk)
     else
       bind_st (save_profile N profile disk) (\<lambda>_ disk.
       bind_st (save_trust_store N (profile_folder (profile_name profile)) (trust_store_export (pe_crypto N) trust_store) disk)
         (\<lambda>_ disk. (Ok (profile_name profile), disk))))))"

definition remove_profile :: "str \<Rightarrow> disk \<Rightarrow> (unit, profile_error) result \<times> disk" where
  "remove_profile name disk =
    (if profile_folder name |\<in>| fmdom disk then (Ok (), fmdrop (profile_folder name) disk) else (Err PfNotFound, disk))"

section \<open>Opening a profile\<close>

definition get_profile :: "profile_env \<Rightarrow> str \<Rightarrow> disk \<Rightarrow> (profile option, profile_error) result" where
  "get_profile N name disk =
    (case profile_json (profile_files_at (profile_folder name) disk) of
       None \<Rightarrow> Ok None
     | Some json \<Rightarrow> map_ok Some (map_err PfJson (decode (pe_profile_codec N) json)))"

text \<open>\<^verbatim>\<open>load_trust_store\<close> with its file: the state after all stored blocks is written back.\<close>

definition load_trust_store_file ::
  "profile_env \<Rightarrow> u64 \<Rightarrow> str \<Rightarrow> tx_row list \<Rightarrow> disk \<Rightarrow> (trust_store, profile_error) result \<times> disk" where
  "load_trust_store_file N now folder rows disk =
    bind_st (ok_or PfNotFound (trust_store_json (profile_files_at folder disk)), disk) (\<lambda>json disk.
    bind_st (map_err PfJson (decode (pe_store_codec N) json), disk) (\<lambda>exported disk.
    bind_st (map_err PfTrustStore (load_trust_store (pe_crypto N) (pe_block_codec N) now exported rows), disk) (\<lambda>trust_store disk.
    bind_st (save_trust_store N folder (trust_store_export (pe_crypto N) trust_store) disk) (\<lambda>_ disk.
    (Ok trust_store, disk)))))"

record opened_profile =
  op_device_credential :: credential
  op_root_certificate :: root_certificate
  op_upstream_certificate :: certificate
  op_trust_store :: trust_store

text \<open>\<^verbatim>\<open>rows\<close> is the block table of the client database in the profile folder.\<close>

definition open_profile ::
  "profile_env \<Rightarrow> u64 \<Rightarrow> str \<Rightarrow> bytes \<Rightarrow> tx_row list \<Rightarrow> disk \<Rightarrow> (opened_profile, profile_error) result \<times> disk" where
  "open_profile N now profile_key password rows disk =
    bind_st (get_profile N profile_key disk, disk) (\<lambda>found disk.
    bind_st (ok_or PfEmpty found, disk) (\<lambda>profile disk.
    bind_st (map_err PfDeriveKey (derive_encryption_key (pe_argon2 N) (pr_local_credential_params profile) password), disk) (\<lambda>key disk.
    bind_st (map_err PfDecrypt (credential_decrypt (pe_crypto N) (pe_aead N) (pe_saved_codec N) (pe_rcgen N)
      (pr_device_credential profile) key), disk) (\<lambda>device_credential disk.
    bind_st (map_err PfRoot (use_as_root (pr_root_certificate profile)), disk) (\<lambda>root_certificate disk.
    bind_st (map_err PfUpstream (verify_signature (pe_crypto N) (pr_upstream_certificate profile)
      (as_certificate root_certificate) now), disk) (\<lambda>upstream_certificate disk.
    bind_st (load_trust_store_file N now (profile_folder (profile_name profile)) rows disk) (\<lambda>trust_store disk.
    (Ok \<lparr> op_device_credential = device_credential, op_root_certificate = root_certificate,
       op_upstream_certificate = upstream_certificate, op_trust_store = trust_store \<rparr>, disk))))))))"

section \<open>The user credential\<close>

record user_credential =
  uc_credential :: encrypted_credential
  uc_params :: argon_params

datatype user_credential_error = UcInvalidPeer | UcInvalidType | UcUserStore user_store_error | UcUserNotFound

definition get_user_credential ::
  "(('pt, 'sc) login_data, 'm, 's) stored_user codec \<Rightarrow> peer \<Rightarrow> user_row list \<Rightarrow> (user_credential, user_credential_error) result" where
  "get_user_credential P peer users =
    (case peer of
       Anonymous \<Rightarrow> Err UcInvalidPeer
     | PeerCertificate cert \<Rightarrow>
        if cert_type cert \<noteq> UserSession then Err UcInvalidType
        else
          and_then (map_err UcUserStore (get_user P (issuer (as_unverified cert)) users)) (\<lambda>found.
          and_then (ok_or UcUserNotFound found) (\<lambda>user.
          Ok \<lparr> uc_credential = su_credential user, uc_params = ld_key_params (su_login user) \<rparr>)))"

text \<open>What the client does with it.\<close>

definition open_user_credential :: "profile_env \<Rightarrow> bytes \<Rightarrow> user_credential \<Rightarrow> (credential, profile_error) result" where
  "open_user_credential N password answer =
    and_then (map_err PfDeriveKey (derive_encryption_key (pe_argon2 N) (uc_params answer) password)) (\<lambda>key.
    map_err PfDecrypt (credential_decrypt (pe_crypto N) (pe_aead N) (pe_saved_codec N) (pe_rcgen N) (uc_credential answer) key))"

section \<open>Lemmas\<close>

lemma profile_folder_simps [simp]:
  "profile_folder (profile_folder name) = profile_folder name"
  "58 \<notin> set (profile_folder name)"
  by (auto simp: profile_folder_def)

lemma profile_files_at_upd [simp]: "profile_files_at folder (fmupd folder files disk) = files"
  by (simp add: profile_files_at_def)

lemma profile_files_replaced [simp]:
  "(files :: profile_files) \<lparr> profile_json := a, trust_store_json := b \<rparr> = \<lparr> profile_json = a, trust_store_json = b \<rparr>"
  by (cases files) simp

lemma profile_folder_same: "profile_folder name = name \<longleftrightarrow> 58 \<notin> set name"
  by (induction name) (auto simp: profile_folder_def)

lemma add_profile_Ok:
  assumes "add_profile N username address upstream root device password ts disk = (Ok name, disk')"
  shows "\<exists>key e json store_json.
      derive_encryption_key (pe_argon2 N) (strong_with_salt (pe_salt N)) password = Ok key
    \<and> credential_export (pe_aead N) (pe_saved_codec N) (pe_mask N) device key = Ok e
    \<and> encode (pe_profile_codec N) (profile_new username address upstream root (strong_with_salt (pe_salt N)) e) = Ok json
    \<and> encode (pe_store_codec N) (trust_store_export (pe_crypto N) ts) = Ok store_json
    \<and> name = username @ utf8 ''@'' @ address \<and> name |\<notin>| fmdom disk
    \<and> disk' = fmupd (profile_folder name) \<lparr> profile_json = Some json, trust_store_json = Some store_json \<rparr> disk"
  using assms
  by (auto simp: add_profile_def save_profile_def save_trust_store_def list_profiles_def profile_name_def profile_new_def
      Let_def result_simps split: if_splits)

lemma imported_as_exported:
  assumes "root_ok C r" "ts_run C r bs ts" "issuers_present (chain_st ts)"
  shows "trust_store_import C (trust_store_export C ts) = Ok ts"
  unfolding trust_store_import_def trust_store_export_def
  by (rule ts.chain_import_export)
    (use state_import_export [OF ts_run_inv [OF assms(1,2)] assms(3)] ts_run_resulting_state [OF assms(1,2)] in simp_all)

section \<open>A sample\<close>

definition single_codec :: "'t \<Rightarrow> 't codec" where
  "single_codec x = \<lparr> encode = (\<lambda>y. if y = x then Ok [1] else Err ''unused''), decode = (\<lambda>_. Ok x) \<rparr>"

lemma single_codec_sel [simp]: "codec_ok (single_codec x)" "encode (single_codec x) x = Ok [1]"
  by (simp_all add: single_codec_def codec_ok_def)

definition sample_exported_credential :: encrypted_credential where
  "sample_exported_credential = the_ok (credential_export sample_aead sample_saved_codec (replicate 12 9) sample_root_credential
     (EncryptionKey [4]))"

abbreviation sample_address :: str where
  "sample_address \<equiv> utf8 ''h:1''"

abbreviation sample_upstream :: certificate where
  "sample_upstream \<equiv> Certificate (sample_cert Server 4 5 7 0)"

definition sample_profile_env :: profile_env where
  "sample_profile_env = \<lparr> pe_crypto = sample_crypto, pe_aead = sample_aead, pe_rcgen = sample_rcgen,
     pe_argon2 = (\<lambda>_ _ secret. Ok secret), pe_saved_codec = sample_saved_codec,
     pe_profile_codec = single_codec (profile_new [117] sample_address sample_upstream sample_root (strong_with_salt [])
       sample_exported_credential),
     pe_store_codec = single_codec (trust_store_export sample_crypto (trust_store_initialize sample_root)),
     pe_block_codec = sample_block_codec, pe_salt = [], pe_mask = replicate 12 9 \<rparr>"

lemma sample_profile_key:
  "derive_encryption_key (pe_argon2 sample_profile_env) (strong_with_salt (pe_salt sample_profile_env)) [4] = Ok (EncryptionKey [4])"
  by (simp add: derive_encryption_key_def derive_key_def sample_profile_env_def)

lemma sample_profile_export:
  "credential_export (pe_aead sample_profile_env) (pe_saved_codec sample_profile_env) (pe_mask sample_profile_env)
    sample_root_credential (EncryptionKey [4]) = Ok sample_exported_credential"
proof -
  have "is_ok (credential_export sample_aead sample_saved_codec (replicate 12 9) sample_root_credential (EncryptionKey [4]))"
    by code_simp
  then show ?thesis by (auto simp: sample_profile_env_def sample_exported_credential_def is_ok_iff)
qed

lemma sample_profile_encoded:
  "encode (pe_profile_codec sample_profile_env) (profile_new [117] sample_address sample_upstream sample_root
    (strong_with_salt (pe_salt sample_profile_env)) sample_exported_credential) = Ok [1]"
  "encode (pe_store_codec sample_profile_env) (trust_store_export (pe_crypto sample_profile_env) (trust_store_initialize sample_root)) = Ok [1]"
  by (simp_all add: sample_profile_env_def)

section \<open>Properties\<close>



text \<open>The check for an existing profile only works for names without a colon: folders are called after
  the name with every colon replaced, and the check looks for the name itself. Adding a profile
  whose address has a port replaces the files of an existing one.\<close>

theorem existing_profile_replaced:
  assumes "\<forall>folder. folder |\<in>| fmdom disk \<longrightarrow> (\<exists>name. folder = profile_folder name)"
    "name = username @ utf8 ''@'' @ address" "profile_folder name |\<in>| fmdom disk"
    "derive_encryption_key (pe_argon2 N) (strong_with_salt (pe_salt N)) password = Ok key"
    "credential_export (pe_aead N) (pe_saved_codec N) (pe_mask N) device key = Ok e"
    "encode (pe_profile_codec N) (profile_new username address upstream root (strong_with_salt (pe_salt N)) e) = Ok json"
    "encode (pe_store_codec N) (trust_store_export (pe_crypto N) ts) = Ok store_json"
  shows "add_profile N username address upstream root device password ts disk =
    (if 58 \<in> set name
     then (Ok name, fmupd (profile_folder name) \<lparr> profile_json = Some json, trust_store_json = Some store_json \<rparr> disk)
     else (Err PfAlreadyExists, disk))"
proof -
  have name: "profile_name (profile_new username address upstream root params e') = name" for params e'
    by (simp add: profile_name_def profile_new_def assms(2))
  have "name |\<in>| fmdom disk \<longleftrightarrow> 58 \<notin> set name"
  proof
    assume "name |\<in>| fmdom disk"
    then show "58 \<notin> set name" using assms(1) profile_folder_simps(2) by metis
  next
    assume "58 \<notin> set name"
    then show "name |\<in>| fmdom disk" using assms(3) profile_folder_same [of name] by simp
  qed
  then show ?thesis
    using assms(4-7) by (simp add: add_profile_def save_profile_def save_trust_store_def list_profiles_def name Let_def)
qed

theorem existing_profile_replaced_witness:
  "\<exists>disk'. add_profile sample_profile_env [117] sample_address sample_upstream sample_root sample_root_credential [4]
      (trust_store_initialize sample_root)
      (fmupd (profile_folder ([117] @ utf8 ''@'' @ sample_address)) \<lparr> profile_json = Some [9], trust_store_json = Some [9] \<rparr> fmempty)
    = (Ok ([117] @ utf8 ''@'' @ sample_address), disk')
    \<and> profile_json (profile_files_at (profile_folder ([117] @ utf8 ''@'' @ sample_address)) disk') = Some [1]"
proof -
  let ?name = "[117] @ utf8 ''@'' @ sample_address" and ?old = "\<lparr> profile_json = Some [9], trust_store_json = Some [9] \<rparr> :: profile_files"
  have "58 \<in> set ?name" by (simp add: utf8_def)
  moreover have "\<forall>folder. folder |\<in>| fmdom (fmupd (profile_folder ?name) ?old fmempty) \<longrightarrow> (\<exists>name. folder = profile_folder name)" by auto
  ultimately show ?thesis
    using existing_profile_replaced [OF _ refl _ sample_profile_key sample_profile_export sample_profile_encoded,
        of "fmupd (profile_folder ?name) ?old fmempty"] by simp
qed

end
