(* ===== verification/MessageLoops.thy ===== *)
theory MessageLoops
  imports ClientState Rpc MessageStore TrustSync "HOL-Library.Sublist"
begin

text \<open>
  The connections that carry messages between the server and its clients and agents
  (\<^verbatim>\<open>svalin/src/message_streaming\<close>: \<^verbatim>\<open>with_client.rs\<close>, \<^verbatim>\<open>with_agent.rs\<close>, \<^verbatim>\<open>client.rs\<close>, \<^verbatim>\<open>agent.rs\<close>). Each has a side that
  sends from a queue and waits for an answer to every message, and a side that handles messages and
  answers. Both sides are functions of what arrives: the messages or the answers, a failing read or
  write, and the cancellation. A result of \<^verbatim>\<open>None\<close> is a side that still waits.
\<close>

section \<open>The side that handles messages\<close>

text \<open>A message arrives with what its handler draws; the flag says whether the answer can be written.\<close>

datatype ('d, 'm) loop_event = MessageRead 'd 'm bool | MessageReadFailed | LoopCancelled

datatype loop_error = LoopPeer | LoopRead | LoopWrite

text \<open>A handler gives whether the loop ends after it.\<close>

fun receive_loop ::
  "('d \<Rightarrow> 'm \<Rightarrow> 's \<Rightarrow> (bool, 'e) result \<times> 's) \<Rightarrow> ('d, 'm) loop_event list \<Rightarrow> 's
    \<Rightarrow> (unit, loop_error) result option \<times> bool list \<times> 's" where
  "receive_loop handle [] self = (None, [], self)"
| "receive_loop handle (LoopCancelled # events) self = (Some (Ok ()), [], self)"
| "receive_loop handle (MessageReadFailed # events) self = (Some (Err LoopRead), [], self)"
| "receive_loop handle (MessageRead draws message written # events) self =
    (case handle draws message self of
       (Panicked, self) \<Rightarrow> (Some Panicked, [], self)
     | (Ok ends, self) \<Rightarrow>
        if \<not> written then (Some (Err LoopWrite), [], self)
        else if ends then (Some (Ok ()), [True], self)
        else (case receive_loop handle events self of (r, answers, self) \<Rightarrow> (r, True # answers, self))
     | (Err _, self) \<Rightarrow>
        if \<not> written then (Some (Err LoopWrite), [], self)
        else (case receive_loop handle events self of (r, answers, self) \<Rightarrow> (r, False # answers, self)))"

text \<open>Who may open such a connection.\<close>

definition message_peer :: "certificate_type \<Rightarrow> peer \<Rightarrow> (certificate, loop_error) result" where
  "message_peer expected peer =
    (case peer of
       Anonymous \<Rightarrow> Err LoopPeer
     | PeerCertificate cert \<Rightarrow> if cert_type cert \<noteq> expected then Err LoopPeer else Ok cert)"

subsection \<open>The server, from clients\<close>

datatype message_from_client =
    FromClientMls message_to_server_transport
  | FromClientTrustStore ts_block
  | FromClientGoodbye

text \<open>What the handlers of the server share: the public groups, the mailboxes, the trust store and its
  table. The verifier reads the same trust store.\<close>

record ('g, 't) server_messages =
  sm_groups :: "('g, 't) public_processor"
  sm_mailboxes :: message_store
  sm_replica :: server_replica

record ('x, 'k, 'c, 'g, 't) server_message_env =
  se_mls :: "('x, 'k, 'c, 'g, 't) public_mls"
  se_message_codec :: "message_to_member_transport codec"
  se_block_codec :: "ts_block codec"

text \<open>The clock and the identifiers that handling one message draws.\<close>

record message_draws =
  md_env :: mls_env
  md_ids :: "nat \<Rightarrow> uuid"

datatype message_error = MeMls mls_handler_error | MeTrustStore submit_error

definition handle_mls_message ::
  "('x, 'k, 'c, 'g, 't) server_message_env \<Rightarrow> certificate \<Rightarrow> message_draws \<Rightarrow> message_to_server_transport \<Rightarrow> ('g, 't) server_messages
    \<Rightarrow> (unit, mls_handler_error) result \<times> ('g, 't) server_messages" where
  "handle_mls_message S sender draws mls self =
    (case mls_handle (se_mls S) ((md_env draws) \<lparr> env_trust_store := sr_trust_store (sm_replica self) \<rparr>) (se_message_codec S)
        (md_ids draws) sender mls (sm_groups self, sm_mailboxes self) of
       (r, groups, mailboxes) \<Rightarrow> (r, self \<lparr> sm_groups := groups, sm_mailboxes := mailboxes \<rparr>))"

definition handle_client_message ::
  "('x, 'k, 'c, 'g, 't) server_message_env \<Rightarrow> certificate \<Rightarrow> message_draws \<Rightarrow> message_from_client \<Rightarrow> ('g, 't) server_messages
    \<Rightarrow> (bool, message_error) result \<times> ('g, 't) server_messages" where
  "handle_client_message S session draws message self =
    (case message of
       FromClientMls mls \<Rightarrow>
        (case handle_mls_message S session draws mls self of (r, self) \<Rightarrow> (map_ok (\<lambda>_. False) (map_err MeMls r), self))
     | FromClientTrustStore block \<Rightarrow>
        (case handle_trust_store_block (env_crypto (md_env draws)) (se_block_codec S) (env_now (md_env draws)) (sm_replica self) block of
           (r, replica) \<Rightarrow> (map_err MeTrustStore r, self \<lparr> sm_replica := replica \<rparr>))
     | FromClientGoodbye \<Rightarrow> (Ok True, self))"

definition serve_client_messages ::
  "('x, 'k, 'c, 'g, 't) server_message_env \<Rightarrow> peer \<Rightarrow> (message_draws, message_from_client) loop_event list
    \<Rightarrow> ('g, 't) server_messages \<Rightarrow> (unit, loop_error) result option \<times> bool list \<times> ('g, 't) server_messages" where
  "serve_client_messages S peer events self =
    (case message_peer UserSession peer of
       Ok session \<Rightarrow> receive_loop (handle_client_message S session) events self
     | Err e \<Rightarrow> (Some (Err e), [], self)
     | Panicked \<Rightarrow> (Some Panicked, [], self))"

subsection \<open>The server, from agents\<close>

datatype message_from_agent = FromAgentMls message_to_server_transport | FromAgentGoodbye

definition handle_agent_message ::
  "('x, 'k, 'c, 'g, 't) server_message_env \<Rightarrow> certificate \<Rightarrow> message_draws \<Rightarrow> message_from_agent \<Rightarrow> ('g, 't) server_messages
    \<Rightarrow> (bool, mls_handler_error) result \<times> ('g, 't) server_messages" where
  "handle_agent_message S agent draws message self =
    (case message of
       FromAgentMls mls \<Rightarrow>
        (case handle_mls_message S agent draws mls self of (r, self) \<Rightarrow> (map_ok (\<lambda>_. False) r, self))
     | FromAgentGoodbye \<Rightarrow> (Ok True, self))"

definition serve_agent_messages ::
  "('x, 'k, 'c, 'g, 't) server_message_env \<Rightarrow> peer \<Rightarrow> (message_draws, message_from_agent) loop_event list
    \<Rightarrow> ('g, 't) server_messages \<Rightarrow> (unit, loop_error) result option \<times> bool list \<times> ('g, 't) server_messages" where
  "serve_agent_messages S peer events self =
    (case message_peer Agent peer of
       Ok agent \<Rightarrow> receive_loop (handle_agent_message S agent) events self
     | Err e \<Rightarrow> (Some (Err e), [], self)
     | Panicked \<Rightarrow> (Some Panicked, [], self))"

subsection \<open>Clients and agents, from the server\<close>

text \<open>The state of a client is its groups and the updates that went to the task that owns the rest.\<close>

definition client_receiver ::
  "('x, 'k, 'c, 'g, 't, 'w) member_mls \<Rightarrow> ('y svalin_report, svalin_meta_info) svalin_message codec
    \<Rightarrow> (('k, 'r) harness_env, message_to_client) loop_event list
    \<Rightarrow> ('g, 't) mls_processor \<times> 'y client_state_update list
    \<Rightarrow> (unit, loop_error) result option \<times> bool list \<times> ('g, 't) mls_processor \<times> 'y client_state_update list" where
  "client_receiver L P = receive_loop (\<lambda>E message (mls, updates).
    (case client_receive L P E message mls of
       (Ok (ends, new), mls) \<Rightarrow> (Ok ends, mls, updates @ new)
     | (Err e, mls) \<Rightarrow> (Err e, mls, updates)
     | (Panicked, mls) \<Rightarrow> (Panicked, mls, updates)))"

datatype message_to_agent = AgentMls message_to_member_transport | AgentGoodbye

definition agent_receive ::
  "('x, 'k, 'c, 'g, 't, 'w) member_mls \<Rightarrow> certificate \<Rightarrow> ('k, 'r) harness_env \<Rightarrow> message_to_agent \<Rightarrow> ('g, 't) mls_processor
    \<Rightarrow> (bool, 'r handle_error) result \<times> ('g, 't) mls_processor" where
  "agent_receive L me E message mls =
    (case message of
       AgentMls message \<Rightarrow> bind_st (agent_handle_message L E me message mls) (\<lambda>_ mls. (Ok False, mls))
     | AgentGoodbye \<Rightarrow> (Ok True, mls))"

definition agent_receiver ::
  "('x, 'k, 'c, 'g, 't, 'w) member_mls \<Rightarrow> certificate \<Rightarrow> (('k, 'r) harness_env, message_to_agent) loop_event list
    \<Rightarrow> ('g, 't) mls_processor \<Rightarrow> (unit, loop_error) result option \<times> bool list \<times> ('g, 't) mls_processor" where
  "agent_receiver L me = receive_loop (agent_receive L me)"

section \<open>The side that sends messages\<close>

text \<open>A queued message comes with a flag that says whether somebody waits for the answer; the queue closes
  when all its senders are gone.\<close>

datatype 'm queue_event = Queued 'm bool | QueueClosed

datatype answer_event = Answered bool | AnswerFailed | WriteFailed

text \<open>How a loop over the queue ends: it waits for the queue or for an answer, something failed, or it is
  done, with the answers that are left. It also gives the messages written and what was told to those
  who wait.\<close>

datatype send_end = SendWaits | SendFailed loop_error | SendDone "answer_event list"

fun send_loop ::
  "('m \<Rightarrow> bool) \<Rightarrow> 'm queue_event list \<Rightarrow> answer_event list \<Rightarrow> send_end \<times> 'm list \<times> bool list" where
  "send_loop stop [] answers = (SendWaits, [], [])"
| "send_loop stop (QueueClosed # queue) answers = (SendDone answers, [], [])"
| "send_loop stop (Queued message feedback # queue) answers =
    (if stop message then (SendDone answers, [], [])
     else
       (case answers of
          [] \<Rightarrow> (SendWaits, [message], [])
        | WriteFailed # _ \<Rightarrow> (SendFailed LoopWrite, [], [])
        | AnswerFailed # _ \<Rightarrow> (SendFailed LoopRead, [message], [])
        | Answered response # answers \<Rightarrow>
            (case send_loop stop queue answers of
               (r, sent, told) \<Rightarrow> (r, message # sent, (if feedback then [response] else []) @ told))))"

text \<open>The goodbye after the loop; its answer is read and not looked at.\<close>

definition send_goodbye :: "'m \<Rightarrow> send_end \<times> 'm list \<times> bool list \<Rightarrow> (unit, loop_error) result option \<times> 'm list \<times> bool list" where
  "send_goodbye goodbye looped =
    (case looped of (r, sent, told) \<Rightarrow>
      (case r of
         SendWaits \<Rightarrow> (None, sent, told)
       | SendFailed e \<Rightarrow> (Some (Err e), sent, told)
       | SendDone [] \<Rightarrow> (None, sent @ [goodbye], told)
       | SendDone (WriteFailed # _) \<Rightarrow> (Some (Err LoopWrite), sent, told)
       | SendDone (AnswerFailed # _) \<Rightarrow> (Some (Err LoopRead), sent @ [goodbye], told)
       | SendDone (Answered _ # _) \<Rightarrow> (Some (Ok ()), sent @ [goodbye], told)))"

definition client_dispatcher ::
  "message_from_client queue_event list \<Rightarrow> answer_event list \<Rightarrow> (unit, loop_error) result option \<times> message_from_client list \<times> bool list" where
  "client_dispatcher queue answers = send_goodbye FromClientGoodbye (send_loop (\<lambda>message. message = FromClientGoodbye) queue answers)"

definition agent_dispatcher ::
  "message_from_agent queue_event list \<Rightarrow> answer_event list \<Rightarrow> (unit, loop_error) result option \<times> message_from_agent list \<times> bool list" where
  "agent_dispatcher queue answers = send_goodbye FromAgentGoodbye (send_loop (\<lambda>_. False) queue answers)"

text \<open>The connection of a \<^verbatim>\<open>MessageSender\<close> of the server has no goodbye.\<close>

definition sender_connection :: "'m queue_event list \<Rightarrow> answer_event list \<Rightarrow> (unit, loop_error) result option \<times> 'm list \<times> bool list" where
  "sender_connection queue answers =
    (case send_loop (\<lambda>_. False) queue answers of (r, sent, told) \<Rightarrow>
      ((case r of SendWaits \<Rightarrow> None | SendFailed e \<Rightarrow> Some (Err e) | SendDone _ \<Rightarrow> Some (Ok ())), sent, told))"

text \<open>The senders of the server by receiver: one channel for the connection that came last.\<close>

type_synonym 'ch senders = "(spki_hash, 'ch) fmap"

definition sender_connected :: "certificate_type \<Rightarrow> peer \<Rightarrow> 'ch \<Rightarrow> 'ch senders \<Rightarrow> (certificate, loop_error) result \<times> 'ch senders" where
  "sender_connected expected peer sender channels =
    bind_st (message_peer expected peer, channels) (\<lambda>cert channels. (Ok cert, fmupd (cert_spki cert) sender channels))"

definition sender_disconnected :: "certificate \<Rightarrow> 'ch senders \<Rightarrow> 'ch senders" where
  "sender_disconnected cert channels = fmdrop (cert_spki cert) channels"

definition get_sender :: "spki_hash \<Rightarrow> 'ch senders \<Rightarrow> 'ch option" where
  "get_sender hash channels = fmlookup channels hash"

section \<open>Lemmas\<close>

text \<open>What the server has done after some messages, one after the other.\<close>

fun handled :: "('d \<Rightarrow> 'm \<Rightarrow> 's \<Rightarrow> 'r \<times> 's) \<Rightarrow> ('d \<times> 'm) list \<Rightarrow> 's \<Rightarrow> 's" where
  "handled handle [] self = self"
| "handled handle ((draws, message) # messages) self = handled handle messages (snd (handle draws message self))"

abbreviation arrivals :: "('d \<times> 'm) list \<Rightarrow> ('d, 'm) loop_event list" where
  "arrivals messages \<equiv> map (\<lambda>(draws, message). MessageRead draws message True) messages"

definition answer_to :: "('d \<Rightarrow> 'm \<Rightarrow> 's \<Rightarrow> ('a, 'e) result \<times> 's) \<Rightarrow> ('d \<times> 'm) list \<Rightarrow> 's \<Rightarrow> nat \<Rightarrow> bool" where
  "answer_to handle messages self i =
    is_ok (fst (handle (fst (messages ! i)) (snd (messages ! i)) (handled handle (take i messages) self)))"

lemma answer_to_Suc [simp]:
  "answer_to handle ((d, m) # messages) self (Suc i) = answer_to handle messages (snd (handle d m self)) i"
  "answer_to handle ((d, m) # messages) self 0 = is_ok (fst (handle d m self))"
  by (simp_all add: answer_to_def)

lemma receive_loop_arrivals:
  "receive_loop handle (arrivals messages) self = (r, answers, self') \<Longrightarrow>
    \<exists>n \<le> length messages. self' = handled handle (take n messages) self \<and> length answers \<le> n \<and> n \<le> Suc (length answers)
      \<and> (r \<noteq> Some Panicked \<longrightarrow> n = length answers) \<and> (\<forall>i < length answers. answers ! i = answer_to handle messages self i)"
proof (induction messages arbitrary: self answers)
  case Nil
  then show ?case by simp
next
  case (Cons dm messages)
  obtain d m where dm: "dm = (d, m)" by fastforce
  obtain h self1 where h: "handle d m self = (h, self1)" by fastforce
  show ?case
  proof (cases "h = Panicked \<or> h = Ok True")
    case True
    then show ?thesis
      using Cons.prems h by (intro exI [of _ 1]) (auto simp: dm)
  next
    case False
    then obtain answers1 where a: "receive_loop handle (arrivals messages) self1 = (r, answers1, self')"
        "answers = is_ok h # answers1"
      using Cons.prems h by (cases h) (auto simp: dm split: prod.splits)
    from Cons.IH [OF a(1)] obtain n where n: "n \<le> length messages" "self' = handled handle (take n messages) self1"
        "length answers1 \<le> n" "n \<le> Suc (length answers1)" "r \<noteq> Some Panicked \<longrightarrow> n = length answers1"
        "\<forall>i < length answers1. answers1 ! i = answer_to handle messages self1 i" by blast
    have "answers ! i = answer_to handle ((d, m) # messages) self i" if "i < length answers" for i
      using that n(6) h by (cases i) (simp_all add: a(2))
    then show ?thesis
      using n h by (intro exI [of _ "Suc n"]) (simp add: dm a(2))
  qed
qed

text \<open>What is sent and who is told, of the messages in front of the end of the queue.\<close>

fun queued :: "('m \<Rightarrow> bool) \<Rightarrow> 'm queue_event list \<Rightarrow> ('m \<times> bool) list" where
  "queued stop (Queued message feedback # queue) = (if stop message then [] else (message, feedback) # queued stop queue)"
| "queued stop _ = []"

fun queue_ends :: "('m \<Rightarrow> bool) \<Rightarrow> 'm queue_event list \<Rightarrow> bool" where
  "queue_ends stop (Queued message feedback # queue) \<longleftrightarrow> stop message \<or> queue_ends stop queue"
| "queue_ends stop (QueueClosed # queue) \<longleftrightarrow> True"
| "queue_ends stop [] \<longleftrightarrow> False"

definition told_of :: "('m \<times> bool) list \<Rightarrow> bool list \<Rightarrow> bool list" where
  "told_of messages responses = map snd (filter fst (zip (map snd messages) responses))"

lemma send_loop_answers:
  "send_loop stop queue (map Answered responses) =
    (if queue_ends stop queue \<and> length (queued stop queue) \<le> length responses
     then SendDone (map Answered (drop (length (queued stop queue)) responses)) else SendWaits,
     map fst (take (Suc (length responses)) (queued stop queue)), told_of (queued stop queue) responses)"
proof (induction stop queue "map Answered responses" arbitrary: responses rule: send_loop.induct)
  case (3 stop message feedback queue)
  then show ?case
    by (cases responses) (auto simp: told_of_def)
qed (simp_all add: told_of_def)

lemma client_dispatcher_answers:
  assumes "client_dispatcher queue (map Answered responses) = (r, sent, told)"
  shows "\<exists>more. map fst (queued (\<lambda>m. m = FromClientGoodbye) queue) @ [FromClientGoodbye] = sent @ more
      \<or> map fst (queued (\<lambda>m. m = FromClientGoodbye) queue) = sent @ more"
    "length sent \<le> Suc (length responses)" "told = told_of (queued (\<lambda>m. m = FromClientGoodbye) queue) responses"
proof -
  let ?q = "queued (\<lambda>m. m = FromClientGoodbye) queue"
  have sent: "sent = map fst (take (Suc (length responses)) ?q) \<or>
      length ?q \<le> length responses \<and> sent = map fst ?q @ [FromClientGoodbye]"
    and told: "told = told_of ?q responses"
    using assms unfolding client_dispatcher_def send_loop_answers
    by (auto simp: send_goodbye_def neq_Nil_conv split: if_splits list.splits)
  show "told = told_of ?q responses" by (rule told)
  show "length sent \<le> Suc (length responses)" using sent by auto
  show "\<exists>more. map fst ?q @ [FromClientGoodbye] = sent @ more \<or> map fst ?q = sent @ more"
    using sent by (metis append_Nil2 append_take_drop_id map_append)
qed

text \<open>When a receiver has connected again and the connection before ends, the sender of the new one is
  gone.\<close>

lemma reconnect_loses_sender:
  assumes "cert_type cert = expected"
  shows "get_sender (cert_spki cert) (sender_disconnected cert (snd (sender_connected expected (PeerCertificate cert) new
    (snd (sender_connected expected (PeerCertificate cert) old channels))))) = None"
  using assms by (simp add: sender_connected_def sender_disconnected_def get_sender_def message_peer_def)

section \<open>Invariants of handlers\<close>

locale loop_invariant =
  fixes handle :: "'d \<Rightarrow> 'm \<Rightarrow> 's \<Rightarrow> 'r \<times> 's"
    and fine :: "'d \<Rightarrow> 'm \<Rightarrow> bool"
    and I :: "'s \<Rightarrow> bool"
  assumes handle_inv: "I self \<Longrightarrow> fine d m \<Longrightarrow> I (snd (handle d m self))"
begin

lemma handled_inv: "I self \<Longrightarrow> \<forall>(d, m) \<in> set messages. fine d m \<Longrightarrow> I (handled handle messages self)"
  by (induction messages arbitrary: self) (auto simp: handle_inv)

end

text \<open>The chain of the server, with the certificates of the signers, and a block in it.\<close>

definition server_chain :: "crypto \<Rightarrow> root_certificate \<Rightarrow> ts_block set \<Rightarrow> server_replica \<Rightarrow> bool" where
  "server_chain C r known s \<longleftrightarrow> root_ok C r \<and> (\<exists>bs. ts_run C r bs (sr_trust_store s) \<and> known \<subseteq> fst ` set bs)"

definition client_message_ok :: "crypto \<Rightarrow> message_draws \<Rightarrow> message_from_client \<Rightarrow> bool" where
  "client_message_ok C draws message \<longleftrightarrow> env_crypto (md_env draws) = C
    \<and> (\<forall>b. message = FromClientTrustStore b \<longrightarrow> transaction_ok C (block_transaction b))"

lemma handle_trust_store_block_chain:
  assumes "server_chain C r known s" "transaction_ok C (block_transaction b)" "handle_trust_store_block C P now s b = (res, s')"
  shows "server_chain C r (if is_ok res then insert b known else known) s'"
proof -
  obtain bs where run: "root_ok C r" "ts_run C r bs (sr_trust_store s)" "known \<subseteq> fst ` set bs"
    using assms(1) by (auto simp: server_chain_def)
  note cases = trust_store_check_cases [OF run(1,2) assms(2)]
  show ?thesis
  proof (cases "fst (trust_store_check C now (sr_trust_store s) b)")
    case (Ok cb)
    then have chk: "trust_store_check C now (sr_trust_store s) b = (Ok cb, sr_trust_store s)"
      using cases(1) by (simp add: prod_eq_iff)
    obtain cert ts' where cb: "trust_store_apply C (sr_trust_store s) cb = Some ts'" "ts_run C r (bs @ [(b, cert)]) ts'"
      using cases(2) [OF chk] by blast
    have "insert b known \<subseteq> fst ` set (bs @ [(b, cert)])" using run(3) by auto
    then have "server_chain C r (insert b known) \<lparr> sr_trust_store = ts', sr_transactions = tx \<rparr>" for tx
      using cb(2) run(1) by (simp only: server_chain_def server_replica.simps) blast
    moreover have "server_chain C r known \<lparr> sr_trust_store = sr_trust_store s, sr_transactions = tx \<rparr>" for tx
      using run by (auto simp: server_chain_def)
    ultimately show ?thesis
      using assms(3) chk cb(1)
      by (cases s) (auto simp: handle_trust_store_block_def split: prod.splits result.splits)
  qed (use assms(3) cases(1) run in \<open>auto simp: handle_trust_store_block_def server_chain_def prod_eq_iff split: prod.splits\<close>)
qed

lemma handle_mls_message_replica [simp]: "sm_replica (snd (handle_mls_message S sender d m self)) = sm_replica self"
  by (simp add: handle_mls_message_def split: prod.split)

lemma handle_client_message_chain:
  assumes "server_chain C r known (sm_replica self)" "client_message_ok C d m"
  shows "server_chain C r (if is_ok (fst (handle_client_message S session d m self)) then known \<union> {b. m = FromClientTrustStore b} else known)
    (sm_replica (snd (handle_client_message S session d m self)))"
proof (cases m)
  case (FromClientMls mls)
  then have "sm_replica (snd (handle_client_message S session d m self)) = sm_replica self"
    using handle_mls_message_replica [of S session d mls self]
    by (cases "handle_mls_message S session d mls self") (simp add: handle_client_message_def)
  then show ?thesis using assms(1) FromClientMls by simp
next
  case (FromClientTrustStore b)
  obtain res1 s1 where h: "handle_trust_store_block C (se_block_codec S) (env_now (md_env d)) (sm_replica self) b = (res1, s1)"
    by fastforce
  have "transaction_ok C (block_transaction b)" using assms(2) FromClientTrustStore by (simp add: client_message_ok_def)
  from handle_trust_store_block_chain [OF assms(1) this h] show ?thesis
    using assms(2) h FromClientTrustStore
    by (cases res1) (auto simp: handle_client_message_def client_message_ok_def)
qed (use assms in \<open>auto simp: handle_client_message_def\<close>)

interpretation client_chain: loop_invariant "handle_client_message S session" "client_message_ok C"
    "\<lambda>self. server_chain C r known (sm_replica self)" for S session C r known
proof (unfold_locales, goal_cases)
  case (1 self d m)
  then show ?case using handle_client_message_chain [OF 1, of S session] by (auto simp: server_chain_def split: if_splits)
qed

section \<open>A sample\<close>

text \<open>A trust store with one block, and a block that follows it.\<close>

lemma sample_next_block:
  "\<exists>b1 c1 b2 c2 ts ts2. ts_run sample_crypto sample_root [(b1, c1)] ts \<and> issuers_present (chain_st ts)
    \<and> transaction_ok sample_crypto (block_transaction b2) \<and> block_sequence b2 = of_nat (length [(b1, c1)] + Suc (length ([] :: ts_block list)))
    \<and> trust_store_check sample_crypto (block_time b2) ts b2 = (Ok (CheckedBlock b2), ts)
    \<and> trust_store_apply sample_crypto ts (CheckedBlock b2) = Some ts2
    \<and> ts_run sample_crypto sample_root ([(b1, c1)] @ [(b2, c2)]) ts2"
proof -
  let ?ts = "trust_store_initialize sample_root"
  let ?root = "cred_certificate sample_root_credential" and ?user = "cred_certificate sample_user_credential"
  have st: "chain_st ?ts = state_initialize sample_root" "last_block ?ts = None"
    by (simp_all add: trust_store_initialize_def chain_initialize_def)
  obtain b1 ts1 where b1: "ts_run sample_crypto sample_root ([] @ [(b1, ?root)]) ts1"
      "state_apply sample_crypto (state_initialize sample_root) (cert_spki ?root) 10 (Add TrustStore.sample_user) = Some (chain_st ts1)"
      "last_block ts1 = Some (CheckedBlock b1)" "block_time b1 = 10"
    using ts_run_package [OF sample_root_ok ts_init sample_transactions(1) sample_signs(1), of 10]
      sample_checks(1) sample_signers(1) st by auto
  then have st1: "chain_st ts1 = sample_state1"
    using state_apply_AddD [OF state_initialize_inv [OF sample_root_ok] sample_checks(1)] by (simp add: sample_state1_def)
  then obtain b2 ts2 where b2: "ts_run sample_crypto sample_root ([(b1, ?root)] @ [(b2, ?user)]) ts2"
    using ts_run_package [OF sample_root_ok b1(1) sample_transactions(2) sample_signs(2), of 34560000]
      sample_checks(2) sample_signers(2) b1(3,4) by auto
  have run1: "ts_run sample_crypto sample_root [(b1, ?root)] ts1" using b1(1) by simp
  have chk: "trust_store_check sample_crypto (block_time b2) ts1 b2 = (Ok (CheckedBlock b2), ts1)"
    using ts_run_recheck [OF sample_root_ok run1 b2] by simp
  have tx: "transaction_ok sample_crypto (block_transaction b2)" using b2 by (elim ts_run_snocE) auto
  obtain cert ts' where "trust_store_apply sample_crypto ts1 (CheckedBlock b2) = Some ts'"
      "ts_run sample_crypto sample_root ([(b1, ?root)] @ [(b2, cert)]) ts'"
    using trust_store_check_cases(2) [OF sample_root_ok run1 tx chk] by auto
  moreover have "block_sequence b2 = of_nat (length [(b1, ?root)] + Suc (length ([] :: ts_block list)))"
    using trust_store_check_sequence [OF chk] trust_store_sequence_run [OF sample_root_ok run1] by simp
  moreover have "issuers_present (chain_st ts1)"
    unfolding st1 by (simp add: issuers_present_def sample_state1_def state_initialize_def sample_root_def sample_cert_def
        TrustStore.sample_user_def)
  ultimately show ?thesis using run1 chk tx by blast
qed

lemma sample_server_table: "server_store_inv sink_codec (length [x]) [] (server_open [])"
  by (simp add: server_store_inv_def server_open_def table_of_def numbered_from_def select_max_sequence_def)

definition sample_message_env ::
  "(sample_group, leaf_node, leaf_node list, sample_group, bytes \<rightharpoonup> sample_group) server_message_env" where
  "sample_message_env = \<lparr> se_mls = sample_mls, se_message_codec = sample_message_codec, se_block_codec = sink_codec \<rparr>"

definition sample_draws :: "u64 \<Rightarrow> message_draws" where
  "sample_draws now = \<lparr> md_env = (sample_env (trust_store_initialize sample_root)) \<lparr> env_now := now \<rparr>, md_ids = id \<rparr>"

definition sample_message_server :: "trust_store \<Rightarrow> (sample_group, bytes \<rightharpoonup> sample_group) server_messages" where
  "sample_message_server ts = \<lparr> sm_groups = sample_start, sm_mailboxes = message_store_open empty_db,
     sm_replica = \<lparr> sr_trust_store = ts, sr_transactions = server_subscribe (server_open []) \<rparr> \<rparr>"

lemma sample_block_accepted:
  assumes "block_sequence b = of_nat (length [x] + Suc (length ([] :: ts_block list)))"
    "trust_store_check sample_crypto (block_time b) ts b = (Ok (CheckedBlock b), ts)"
    "trust_store_apply sample_crypto ts (CheckedBlock b) = Some ts'"
  shows "\<exists>self'. handle_client_message sample_message_env session (sample_draws (block_time b)) (FromClientTrustStore b) (sample_message_server ts)
    = (Ok False, self')"
proof -
  have "server_store_inv sink_codec (length [x]) [] (server_subscribe (server_open []))"
    using sample_server_table [of x] by (simp add: server_store_inv_def server_subscribe_def)
  from add_and_broadcast_next [OF this assms(1), of "[]"] obtain tx where
    "add_and_broadcast sink_codec (server_subscribe (server_open [])) (CheckedBlock b) = (Ok (), tx)"
    by (auto simp: sink_codec_def server_subscribe_def)
  then show ?thesis
    using assms(2,3) by (simp add: handle_client_message_def sample_draws_def sample_env_def sample_message_env_def sample_message_server_def
        handle_trust_store_block_def)
qed

abbreviation sample_peer :: certificate where
  "sample_peer \<equiv> Certificate (sample_cert UserSession 4 5 7 0)"

section \<open>Properties\<close>

text \<open>C14. What a client is told of its messages is true. Whatever it has queued and wherever the connection
  stands, the server has handled a first part of the queue, every message once and in order, at most
  one more than the client has an answer to; the answer to a message is whether handling it, after
  all the ones before, succeeded, and those who wait for an answer get just that one.\<close>

theorem message_feedback_exact:
  assumes "client_dispatcher queue (map Answered responses) = (r, sent, told)"
    "serve_client_messages S (PeerCertificate session) (arrivals messages) self = (r', answers, self')"
    "cert_type session = UserSession" "map snd messages = take k sent" "responses = take j answers"
  shows "\<exists>n more. self' = handled (handle_client_message S session) (take n messages) self
    \<and> map fst (queued (\<lambda>m. m = FromClientGoodbye) queue) @ [FromClientGoodbye] = map snd (take n messages) @ more
    \<and> length responses \<le> n \<and> n \<le> Suc (length responses)
    \<and> (\<forall>i < length responses. responses ! i = answer_to (handle_client_message S session) messages self i)
    \<and> told = told_of (queued (\<lambda>m. m = FromClientGoodbye) queue) responses"
proof -
  let ?q = "map fst (queued (\<lambda>m. m = FromClientGoodbye) queue)"
  have loop: "receive_loop (handle_client_message S session) (arrivals messages) self = (r', answers, self')"
    using assms(2,3) by (simp add: serve_client_messages_def message_peer_def)
  from receive_loop_arrivals [OF loop] obtain n where n: "n \<le> length messages"
      "self' = handled (handle_client_message S session) (take n messages) self" "length answers \<le> n"
      "\<forall>i < length answers. answers ! i = answer_to (handle_client_message S session) messages self i" by blast
  have sent: "\<exists>more. ?q @ [FromClientGoodbye] = sent @ more" "length sent \<le> Suc (length responses)"
      "told = told_of (queued (\<lambda>m. m = FromClientGoodbye) queue) responses"
    using client_dispatcher_answers [OF assms(1)] by (metis append_assoc)+
  have "length messages \<le> length sent" using assms(4) by (metis length_map length_take min.cobounded1)
  then have "n \<le> Suc (length responses)" using n(1) sent(2) by simp
  moreover have "\<exists>more. ?q @ [FromClientGoodbye] = map snd (take n messages) @ more"
    using sent(1) assms(4) by (metis append_assoc append_take_drop_id take_map)
  moreover have "length responses \<le> n" using n(3) assms(5) by simp
  moreover have "\<forall>i < length responses. responses ! i = answer_to (handle_client_message S session) messages self i"
    using n(4) assms(5) by simp
  ultimately show ?thesis using n(2) sent(3) by blast
qed

theorem message_feedback_exact_witness:
  "\<exists>b ts r r' self'. client_dispatcher [Queued (FromClientTrustStore b) True, Queued FromClientGoodbye False] (map Answered [True])
      = (r, [FromClientTrustStore b, FromClientGoodbye], [True])
    \<and> serve_client_messages sample_message_env (PeerCertificate sample_peer)
        (arrivals [(sample_draws (block_time b), FromClientTrustStore b)]) (sample_message_server ts) = (r', [True], self')
    \<and> self' = snd (handle_client_message sample_message_env sample_peer (sample_draws (block_time b)) (FromClientTrustStore b) (sample_message_server ts))
    \<and> answer_to (handle_client_message sample_message_env sample_peer) [(sample_draws (block_time b), FromClientTrustStore b)] (sample_message_server ts) 0"
proof -
  obtain b1 c1 b ts ts2 where b: "block_sequence b = of_nat (length [(b1 :: ts_block, c1 :: certificate)] + Suc (length ([] :: ts_block list)))"
      "trust_store_check sample_crypto (block_time b) ts b = (Ok (CheckedBlock b), ts)"
      "trust_store_apply sample_crypto ts (CheckedBlock b) = Some ts2"
    using sample_next_block by blast
  let ?handle = "handle_client_message sample_message_env sample_peer" and ?ms = "[(sample_draws (block_time b), FromClientTrustStore b)]"
  let ?queue = "[Queued (FromClientTrustStore b) True, Queued FromClientGoodbye False]"
  obtain self' where h: "?handle (sample_draws (block_time b)) (FromClientTrustStore b) (sample_message_server ts) = (Ok False, self')"
    using sample_block_accepted [OF b] by blast
  have session: "cert_type sample_peer = UserSession" by (simp add: sample_cert_def)
  have client: "client_dispatcher ?queue (map Answered [True]) = (None, [FromClientTrustStore b, FromClientGoodbye], [True])"
    by (simp add: client_dispatcher_def send_goodbye_def)
  have server: "serve_client_messages sample_message_env (PeerCertificate sample_peer) (arrivals ?ms) (sample_message_server ts) = (None, [True], self')"
    using h session by (simp add: serve_client_messages_def message_peer_def)
  have "map snd ?ms = take 1 [FromClientTrustStore b, FromClientGoodbye]" "[True] = take 1 [True]" by simp_all
  from message_feedback_exact [OF client server session this]
  have "answer_to ?handle ?ms (sample_message_server ts) 0" by auto
  with client server show ?thesis
    by (intro exI [of _ b] exI [of _ ts] exI [of _ None] exI [of _ self'] conjI) (simp_all add: h)
qed

text \<open>C12. A block that a client was told to be accepted is in the chain of the server and stays there, whatever
  this client and any others send afterwards.\<close>

theorem accepted_block_stays:
  assumes "server_chain C r {} (sm_replica self)" "\<forall>(d, m) \<in> set messages. client_message_ok C d m"
    "serve_client_messages S (PeerCertificate session) (arrivals messages) self = (r', answers, self')"
    "i < length answers" "answers ! i" "snd (messages ! i) = FromClientTrustStore b"
    "\<forall>(session', later) \<in> set others. \<forall>(d, m) \<in> set later. client_message_ok C d m"
  shows "server_chain C r {b}
    (sm_replica (fold (\<lambda>(session', later). handled (handle_client_message S session') later) others self'))"
proof -
  let ?handle = "handle_client_message S session"
  have loop: "receive_loop ?handle (arrivals messages) self = (r', answers, self')"
    using assms(3,4) by (cases "cert_type session = UserSession") (simp_all add: serve_client_messages_def message_peer_def)
  from receive_loop_arrivals [OF loop] obtain n where n: "n \<le> length messages"
      "self' = handled ?handle (take n messages) self" "length answers \<le> n"
      "\<forall>i < length answers. answers ! i = answer_to ?handle messages self i" by blast
  have i: "i < length messages" "i < n" using assms(4) n(1,3) by simp_all
  obtain d where d: "messages ! i = (d, FromClientTrustStore b)" using assms(6) by (cases "messages ! i") simp
  have ok: "client_message_ok C d (FromClientTrustStore b)" using bspec [OF assms(2) nth_mem [OF i(1)]] d by simp
  let ?before = "handled ?handle (take i messages) self"
  have "server_chain C r {} (sm_replica ?before)"
    by (rule client_chain.handled_inv [OF assms(1)]) (use assms(2) in \<open>meson in_set_takeD\<close>)
  moreover have "is_ok (fst (?handle d (FromClientTrustStore b) ?before))"
    using n(4) assms(4,5) d by (simp add: answer_to_def)
  ultimately have "server_chain C r {b} (sm_replica (snd (?handle d (FromClientTrustStore b) ?before)))"
    using handle_client_message_chain [OF _ ok, of r "{}" ?before S session] by simp
  moreover have "self' = handled ?handle (take (n - Suc i) (drop (Suc i) messages)) (snd (?handle d (FromClientTrustStore b) ?before))"
  proof -
    have "take n messages = take i messages @ (messages ! i) # take (n - Suc i) (drop (Suc i) messages)"
      using take_add [of i "Suc (n - Suc i)" messages] i Cons_nth_drop_Suc [OF i(1), symmetric] by simp
    moreover have "handled ?handle (xs @ ys) s = handled ?handle ys (handled ?handle xs s)" for xs ys s
      by (induction xs arbitrary: s) auto
    ultimately show ?thesis using n(2) d by simp
  qed
  moreover have "\<forall>(d, m) \<in> set (take (n - Suc i) (drop (Suc i) messages)). client_message_ok C d m"
    using assms(2) by (meson in_set_dropD in_set_takeD)
  ultimately have "server_chain C r {b} (sm_replica self')"
    using client_chain.handled_inv [of C r "{b}" _ "take (n - Suc i) (drop (Suc i) messages)" S session] by simp
  then show ?thesis using assms(7)
  proof (induction others arbitrary: self')
    case (Cons other others)
    then show ?case
      using client_chain.handled_inv [OF Cons.prems(1), of "snd other" S "fst other"] by (cases other) simp
  qed simp
qed

theorem accepted_block_stays_witness:
  "\<exists>b ts r' self'. serve_client_messages sample_message_env (PeerCertificate sample_peer)
      (arrivals [(sample_draws (block_time b), FromClientTrustStore b)]) (sample_message_server ts) = (r', [True], self')
    \<and> server_chain sample_crypto sample_root {b} (sm_replica self')"
proof -
  obtain b1 c1 b ts ts2 where run: "ts_run sample_crypto sample_root [(b1, c1)] ts" "transaction_ok sample_crypto (block_transaction b)"
      "block_sequence b = of_nat (length [(b1, c1)] + Suc (length ([] :: ts_block list)))"
      "trust_store_check sample_crypto (block_time b) ts b = (Ok (CheckedBlock b), ts)"
      "trust_store_apply sample_crypto ts (CheckedBlock b) = Some ts2"
    using sample_next_block by blast
  let ?ms = "[(sample_draws (block_time b), FromClientTrustStore b)]"
  obtain self' where h: "handle_client_message sample_message_env sample_peer (sample_draws (block_time b)) (FromClientTrustStore b)
      (sample_message_server ts) = (Ok False, self')"
    using sample_block_accepted [OF run(3-5)] by blast
  have session: "cert_type sample_peer = UserSession" by (simp add: sample_cert_def)
  have server: "serve_client_messages sample_message_env (PeerCertificate sample_peer) (arrivals ?ms) (sample_message_server ts) = (None, [True], self')"
    using h session by (simp add: serve_client_messages_def message_peer_def)
  have "server_chain sample_crypto sample_root {} (sm_replica (sample_message_server ts))"
    using run(1) sample_root_ok by (auto simp: server_chain_def sample_message_server_def)
  moreover have "\<forall>(d, m) \<in> set ?ms. client_message_ok sample_crypto d m"
    using run(2) by (simp add: client_message_ok_def sample_draws_def sample_env_def)
  ultimately show ?thesis
    using accepted_block_stays [OF _ _ server, of sample_crypto sample_root 0 b "[]"] server by auto
qed

end
