(* ===== verification/Configuration.thy ===== *)
theory Configuration
  imports JoinAgent Profiles MessageLoops
begin

text \<open>
  What a server and an agent keep on the disk beside their databases
  (\<^verbatim>\<open>svalin/src/server.rs\<close>, \<^verbatim>\<open>svalin/src/agent.rs\<close>, \<^verbatim>\<open>svalin/src/util/key_storage.rs\<close>), and what they make of it
  when they start. Reading and writing succeed; a file that is not there is a read error. Sockets,
  connections and background tasks of the start are not modelled.
\<close>

section \<open>Where the key comes from\<close>

datatype key_source = BuiltIn bytes

definition key_source_to_key :: "key_source \<Rightarrow> encryption_key" where
  "key_source_to_key self = (case self of BuiltIn k \<Rightarrow> EncryptionKey k)"

text \<open>\<^verbatim>\<open>key\<close> is the key that is drawn.\<close>

definition generate_builtin :: "encryption_key \<Rightarrow> key_source" where
  "generate_builtin key = BuiltIn (key_bytes key)"

record ('agent, 'server) config_env =
  ce_crypto :: crypto
  ce_aead :: aead
  ce_rcgen :: rcgen
  ce_saved_codec :: "saved_keypair codec"
  ce_agent_codec :: "'agent codec"
  ce_server_codec :: "'server codec"
  ce_store_codec :: "exported_store codec"
  ce_block_codec :: "ts_block codec"
  ce_key :: encryption_key
  ce_mask :: bytes

definition encrypt_with_source ::
  "('a, 'b) config_env \<Rightarrow> key_source \<Rightarrow> credential \<Rightarrow> (encrypted_credential, encrypt_error) result" where
  "encrypt_with_source N self credentials =
    credential_export (ce_aead N) (ce_saved_codec N) (ce_mask N) credentials (key_source_to_key self)"

definition decrypt_with_source ::
  "('a, 'b) config_env \<Rightarrow> key_source \<Rightarrow> encrypted_credential \<Rightarrow> (credential, decode_credentials_error) result" where
  "decrypt_with_source N self encrypted_credentials =
    credential_decrypt (ce_crypto N) (ce_aead N) (ce_saved_codec N) (ce_rcgen N) encrypted_credentials (key_source_to_key self)"

section \<open>Agents\<close>

record agent_config =
  acf_upstream_address :: str
  acf_upstream_certificate :: unverified_certificate
  acf_root_certificate :: unverified_certificate
  acf_encrypted_credentials :: encrypted_credential
  acf_key_source :: key_source

datatype config_error =
    CfgEncrypt encrypt_error
  | CfgDecrypt decode_credentials_error
  | CfgJson string
  | CfgNotFound
  | CfgAlreadyExists
  | CfgNotInitialized
  | CfgRoot use_as_root_error
  | CfgUpstream signature_verification_error
  | CfgImport "inner_import_error chain_import_error"
  | CfgLoad load_error

text \<open>\<^verbatim>\<open>config.json\<close> and \<^verbatim>\<open>trust-store.json\<close>.\<close>

record config_files =
  cf_config :: "bytes option"
  cf_trust_store :: "bytes option"

definition get_config :: "(agent_config, 'b) config_env \<Rightarrow> config_files \<Rightarrow> (agent_config option, config_error) result" where
  "get_config N files =
    (case cf_config files of
       None \<Rightarrow> Ok None
     | Some config \<Rightarrow> map_ok Some (map_err CfgJson (decode (ce_agent_codec N) config)))"

definition save_config ::
  "(agent_config, 'b) config_env \<Rightarrow> agent_config \<Rightarrow> config_files \<Rightarrow> (unit, config_error) result \<times> config_files" where
  "save_config N config files =
    bind_st (map_err CfgJson (encode (ce_agent_codec N) config), files) (\<lambda>json files.
    (Ok (), files \<lparr> cf_config := Some json \<rparr>))"

text \<open>\<^verbatim>\<open>save_trust_store\<close> at the place of the agent or the server.\<close>

definition save_store_file ::
  "('a, 'b) config_env \<Rightarrow> exported_store \<Rightarrow> config_files \<Rightarrow> (unit, config_error) result \<times> config_files" where
  "save_store_file N exported files =
    bind_st (map_err CfgJson (encode (ce_store_codec N) exported), files) (\<lambda>json files.
    (Ok (), files \<lparr> cf_trust_store := Some json \<rparr>))"

definition init_with ::
  "(agent_config, 'b) config_env \<Rightarrow> agent_init_payload \<Rightarrow> config_files \<Rightarrow> (unit, config_error) result \<times> config_files" where
  "init_with N data files =
    (let key_source = generate_builtin (ce_key N) in
     bind_st (map_err CfgEncrypt (encrypt_with_source N key_source (aip_credentials data)), files) (\<lambda>encrypted files.
     let config = \<lparr> acf_upstream_address = aip_address data, acf_upstream_certificate = as_unverified (aip_upstream data),
       acf_root_certificate = root_as_unverified (aip_root data), acf_encrypted_credentials = encrypted,
       acf_key_source = key_source \<rparr> in
     bind_st (get_config N files, files) (\<lambda>found files.
     if found \<noteq> None then (Err CfgAlreadyExists, files)
     else
       bind_st (save_config N config files) (\<lambda>_ files.
       save_store_file N (aip_trust_store data) files))))"

text \<open>\<^verbatim>\<open>load_trust_store\<close> at the place of the agent.\<close>

definition load_store_file ::
  "('a, 'b) config_env \<Rightarrow> u64 \<Rightarrow> tx_row list \<Rightarrow> config_files \<Rightarrow> (trust_store, config_error) result \<times> config_files" where
  "load_store_file N now rows files =
    bind_st (ok_or CfgNotFound (cf_trust_store files), files) (\<lambda>json files.
    bind_st (map_err CfgJson (decode (ce_store_codec N) json), files) (\<lambda>exported files.
    bind_st (map_err CfgLoad (load_trust_store (ce_crypto N) (ce_block_codec N) now exported rows), files) (\<lambda>trust_store files.
    bind_st (save_store_file N (trust_store_export (ce_crypto N) trust_store) files) (\<lambda>_ files.
    (Ok trust_store, files)))))"

record started_agent =
  sa_address :: str
  sa_credentials :: credential
  sa_root :: root_certificate
  sa_upstream :: certificate
  sa_trust_store :: trust_store

text \<open>The start of an agent; \<^verbatim>\<open>rows\<close> is the block table of its database.\<close>

definition agent_start ::
  "(agent_config, 'b) config_env \<Rightarrow> u64 \<Rightarrow> tx_row list \<Rightarrow> config_files \<Rightarrow> (started_agent, config_error) result \<times> config_files" where
  "agent_start N now rows files =
    bind_st (get_config N files, files) (\<lambda>found files.
    bind_st (ok_or CfgNotInitialized found, files) (\<lambda>config files.
    bind_st (map_err CfgDecrypt (decrypt_with_source N (acf_key_source config) (acf_encrypted_credentials config)), files)
      (\<lambda>credentials files.
    bind_st (map_err CfgRoot (use_as_root (acf_root_certificate config)), files) (\<lambda>root_certificate files.
    bind_st (map_err CfgUpstream (verify_signature (ce_crypto N) (acf_upstream_certificate config)
      (as_certificate root_certificate) now), files) (\<lambda>upstream_certificate files.
    bind_st (load_store_file N now rows files) (\<lambda>trust_store files.
    (Ok \<lparr> sa_address = acf_upstream_address config, sa_credentials = credentials, sa_root = root_certificate,
       sa_upstream = upstream_certificate, sa_trust_store = trust_store \<rparr>, files)))))))"

section \<open>Servers\<close>

record server_config =
  scf_credential :: encrypted_credential
  scf_key_source :: key_source
  scf_pseudo_data_seed :: bytes

record base_config =
  bc_trust_store :: trust_store
  bc_credential :: credential
  bc_pseudo_data_seed :: bytes

definition save_base_config ::
  "('a, server_config) config_env \<Rightarrow> base_config \<Rightarrow> config_files \<Rightarrow> (unit, config_error) result \<times> config_files" where
  "save_base_config N config files =
    (let key_source = generate_builtin (ce_key N); trust_store = trust_store_export (ce_crypto N) (bc_trust_store config) in
     bind_st (map_err CfgEncrypt (encrypt_with_source N key_source (bc_credential config)), files) (\<lambda>credential files.
     bind_st (map_err CfgJson (encode (ce_server_codec N) \<lparr> scf_credential = credential, scf_key_source = key_source,
       scf_pseudo_data_seed = bc_pseudo_data_seed config \<rparr>), files) (\<lambda>json files.
     save_store_file N trust_store (files \<lparr> cf_config := Some json \<rparr>))))"

definition get_base_config ::
  "('a, server_config) config_env \<Rightarrow> config_files \<Rightarrow> (base_config option, config_error) result" where
  "get_base_config N files =
    (case cf_config files of
       None \<Rightarrow> Ok None
     | Some json \<Rightarrow>
        and_then (map_err CfgJson (decode (ce_server_codec N) json)) (\<lambda>config.
        and_then (map_err CfgDecrypt (decrypt_with_source N (scf_key_source config) (scf_credential config))) (\<lambda>credential.
        and_then (ok_or CfgNotFound (cf_trust_store files)) (\<lambda>json.
        and_then (map_err CfgJson (decode (ce_store_codec N) json)) (\<lambda>exported.
        and_then (map_err CfgImport (trust_store_import (ce_crypto N) exported)) (\<lambda>trust_store.
        Ok (Some \<lparr> bc_trust_store = trust_store, bc_credential = credential,
          bc_pseudo_data_seed = scf_pseudo_data_seed config \<rparr>)))))))"

text \<open>The trust store that a starting server serves, with the block table of its database. If there is no
  configuration, the server is initialised first; \<^verbatim>\<open>init\<close> is what that gives, the trust store and the
  credential, and \<^verbatim>\<open>seed\<close> what is drawn.\<close>

definition server_start ::
  "('a, server_config) config_env \<Rightarrow> (credential \<times> trust_store) option \<Rightarrow> bytes \<Rightarrow> tx_row list \<Rightarrow> config_files
    \<Rightarrow> (base_config \<times> server_replica, config_error) result \<times> config_files" where
  "server_start N init seed rows files =
    bind_st (get_base_config N files, files) (\<lambda>found files.
    bind_st
      (case found of
         Some conf \<Rightarrow> (Ok conf, files)
       | None \<Rightarrow>
          bind_st (ok_or CfgNotInitialized init, files) (\<lambda>(credential, trust_store) files.
          let conf = \<lparr> bc_trust_store = trust_store, bc_credential = credential, bc_pseudo_data_seed = seed \<rparr> in
          bind_st (save_base_config N conf files) (\<lambda>_ files. (Ok conf, files))))
      (\<lambda>conf files.
    (Ok (conf, \<lparr> sr_trust_store = bc_trust_store conf, sr_transactions = server_open rows \<rparr>), files)))"

section \<open>Lemmas\<close>

lemma source_round_trip:
  assumes "aead_ok (ce_aead N)" "codec_ok (ce_saved_codec N)"
    "from_der_and_sign_algo (ce_rcgen N) (kp_serialized_der (cred_keypair c)) PkcsEd25519 = Ok (cred_keypair c)"
    "credential_new (ce_crypto N) (ce_rcgen N) (cred_keypair c) (as_unverified (cred_certificate c)) = Ok c"
    "encrypt_with_source N source c = Ok e"
  shows "decrypt_with_source N source e = Ok c"
  using credential_export_round_trip [OF assms(1-4)] assms(5)
  by (simp add: encrypt_with_source_def decrypt_with_source_def)

lemma server_open_table:
  assumes "table_of P base log rows" "log \<noteq> []"
  shows "server_store_inv P base log (server_open rows)"
proof -
  from table_sequences [OF assms(1)] have rows: "map tx_sequence rows = map int [Suc base ..< Suc (base + length log)]" .
  then have "rows \<noteq> []" using assms(2) by (auto simp del: upt_Suc)
  have "tx_sequence ` set rows = int ` {Suc base ..< Suc (base + length log)}"
    using arg_cong [OF rows, of set] by (simp del: upt_Suc)
  moreover have "base + length log \<in> {Suc base ..< Suc (base + length log)}" using assms(2) by (cases log) auto
  then have "int (base + length log) \<in> int ` {Suc base ..< Suc (base + length log)}" by (rule imageI)
  ultimately have "Max (tx_sequence ` set rows) = int (base + length log)"
    by (intro Max_eqI) auto
  then show ?thesis
    using assms(1) \<open>rows \<noteq> []\<close> by (simp add: server_store_inv_def server_open_def select_max_sequence_def)
qed


lemma saved_base_config:
  assumes "aead_ok (ce_aead N)" "codec_ok (ce_saved_codec N)" "codec_ok (ce_server_codec N)" "codec_ok (ce_store_codec N)"
    "from_der_and_sign_algo (ce_rcgen N) (kp_serialized_der (cred_keypair (bc_credential conf))) PkcsEd25519
      = Ok (cred_keypair (bc_credential conf))"
    "credential_new (ce_crypto N) (ce_rcgen N) (cred_keypair (bc_credential conf))
      (as_unverified (cred_certificate (bc_credential conf))) = Ok (bc_credential conf)"
    "trust_store_import (ce_crypto N) (trust_store_export (ce_crypto N) (bc_trust_store conf)) = Ok (bc_trust_store conf)"
    "save_base_config N conf files = (Ok (), files')"
  shows "get_base_config N files' = Ok (Some conf)"
proof -
  from assms(8) obtain e json store where p: "encrypt_with_source N (generate_builtin (ce_key N)) (bc_credential conf) = Ok e"
      "encode (ce_server_codec N) \<lparr> scf_credential = e, scf_key_source = generate_builtin (ce_key N),
        scf_pseudo_data_seed = bc_pseudo_data_seed conf \<rparr> = Ok json"
      "encode (ce_store_codec N) (trust_store_export (ce_crypto N) (bc_trust_store conf)) = Ok store"
      "files' = files \<lparr> cf_config := Some json, cf_trust_store := Some store \<rparr>"
    by (auto simp: save_base_config_def save_store_file_def Let_def result_simps)
  have "decode (ce_server_codec N) json = Ok \<lparr> scf_credential = e, scf_key_source = generate_builtin (ce_key N),
      scf_pseudo_data_seed = bc_pseudo_data_seed conf \<rparr>"
    "decode (ce_store_codec N) store = Ok (trust_store_export (ce_crypto N) (bc_trust_store conf))"
    using assms(3,4) p(2,3) unfolding codec_ok_def by blast+
  then show ?thesis
    using source_round_trip [OF assms(1,2,5,6) p(1)] assms(7) by (simp add: get_base_config_def p(4))
qed

lemma behind_table_refuses:
  assumes "root_ok C r" "ts_run C r bs ts" "server_store_inv P (length bs) log tx" "log \<noteq> []" "length bs + length log < 2 ^ 63"
    "transaction_ok C (block_transaction b)"
  shows "\<not> is_ok (fst (handle_trust_store_block C P now \<lparr> sr_trust_store = ts, sr_transactions = tx \<rparr> b))
    \<and> snd (handle_trust_store_block C P now \<lparr> sr_trust_store = ts, sr_transactions = tx \<rparr> b)
        = \<lparr> sr_trust_store = ts, sr_transactions = tx \<rparr>"
proof -
  have same: "snd (trust_store_check C now ts b) = ts" by (rule trust_store_check_cases [OF assms(1,2,6)])
  show ?thesis
  proof (cases "fst (trust_store_check C now ts b)")
    case (Ok cb)
    then have chk: "trust_store_check C now ts b = (Ok cb, ts)" using same by (simp add: prod_eq_iff)
    have "block_sequence b = of_nat (Suc (length bs))"
      using trust_store_check_sequence [OF chk] trust_store_sequence_run [OF assms(1,2)] by simp
    moreover have "(of_nat (Suc (length bs)) :: u64) < of_nat (length bs + Suc (length log))"
      using assms(4,5) by (subst of_nat_u64_less) auto
    ultimately have "block_sequence b \<noteq> of_nat (length bs + Suc (length log))" by (metis less_irrefl)
    from add_and_broadcast_other [OF assms(3) this] obtain e where
      "add_and_broadcast P tx cb = (Err e, tx)"
      using trust_store_check_cases(2) [OF assms(1,2,6) chk] by auto
    then show ?thesis using chk by (simp add: handle_trust_store_block_def)
  qed (use same in \<open>simp_all add: handle_trust_store_block_def prod_eq_iff split: prod.splits\<close>)
qed

section \<open>A sample\<close>

definition sample_config_env :: "'a \<Rightarrow> 'b \<Rightarrow> exported_store \<Rightarrow> ('a, 'b) config_env" where
  "sample_config_env agent server exported = \<lparr> ce_crypto = sample_crypto, ce_aead = sample_aead, ce_rcgen = sample_rcgen,
     ce_saved_codec = sample_saved_codec, ce_agent_codec = single_codec agent, ce_server_codec = single_codec server,
     ce_store_codec = single_codec exported, ce_block_codec = sink_codec, ce_key = EncryptionKey [4], ce_mask = replicate 12 9 \<rparr>"

lemma sample_config_env_sel [simp]:
  "ce_crypto (sample_config_env a b e) = sample_crypto" "ce_aead (sample_config_env a b e) = sample_aead"
  "ce_rcgen (sample_config_env a b e) = sample_rcgen" "ce_saved_codec (sample_config_env a b e) = sample_saved_codec"
  "ce_agent_codec (sample_config_env a b e) = single_codec a" "ce_server_codec (sample_config_env a b e) = single_codec b"
  "ce_store_codec (sample_config_env a b e) = single_codec e" "ce_block_codec (sample_config_env a b e) = sink_codec"
  "ce_key (sample_config_env a b e) = EncryptionKey [4]"
  by (simp_all add: sample_config_env_def)

lemma sample_encrypted:
  "encrypt_with_source (sample_config_env a b e) (BuiltIn [4]) sample_root_credential = Ok sample_exported_credential"
  using sample_profile_export
  by (simp add: encrypt_with_source_def key_source_to_key_def sample_config_env_def sample_profile_env_def)

lemma sample_credential_stored:
  "from_der_and_sign_algo sample_rcgen (kp_serialized_der (cred_keypair sample_root_credential)) PkcsEd25519
    = Ok (cred_keypair sample_root_credential)"
  "credential_new sample_crypto sample_rcgen (cred_keypair sample_root_credential)
    (as_unverified (cred_certificate sample_root_credential)) = Ok sample_root_credential"
  by (simp add: sample_rcgen_def sample_root_credential_def sample_keypair_def) code_simp

definition sample_payload :: agent_init_payload where
  "sample_payload = \<lparr> aip_address = [104], aip_credentials = sample_root_credential, aip_root = sample_root,
     aip_upstream = sample_upstream, aip_trust_store = trust_store_export sample_crypto (trust_store_initialize sample_root) \<rparr>"

definition sample_agent_env :: "(agent_config, unit) config_env" where
  "sample_agent_env = sample_config_env \<lparr> acf_upstream_address = [104], acf_upstream_certificate = as_unverified sample_upstream,
     acf_root_certificate = root_as_unverified sample_root, acf_encrypted_credentials = sample_exported_credential,
     acf_key_source = BuiltIn [4] \<rparr> () (trust_store_export sample_crypto (trust_store_initialize sample_root))"

definition sample_server_env :: "trust_store \<Rightarrow> (unit, server_config) config_env" where
  "sample_server_env ts = sample_config_env () \<lparr> scf_credential = sample_exported_credential, scf_key_source = BuiltIn [4],
     scf_pseudo_data_seed = [] \<rparr> (trust_store_export sample_crypto ts)"

text \<open>A server with the block of its initialisation that has stored another one.\<close>

lemma sample_second_block:
  "\<exists>x1 x2 ts s. ts_run sample_crypto sample_root [x1] ts \<and> issuers_present (chain_st ts)
    \<and> replica_inv sample_crypto sample_root sink_codec (length [x1]) ([x1] @ [x2]) [fst x2] s"
proof -
  obtain b1 c1 b2 c2 ts ts2 where run: "ts_run sample_crypto sample_root [(b1, c1)] ts" "issuers_present (chain_st ts)"
      "block_sequence b2 = of_nat (length [(b1, c1)] + Suc (length ([] :: ts_block list)))"
      "ts_run sample_crypto sample_root ([(b1, c1)] @ [(b2, c2)]) ts2"
    using sample_next_block by blast
  from add_and_broadcast_next [OF sample_server_table run(3), of "[]"] obtain tx where
    "server_store_inv sink_codec (length [(b1, c1)]) [b2] tx"
    by (auto simp: sink_codec_def)
  then have "replica_inv sample_crypto sample_root sink_codec (length [(b1, c1)]) ([(b1, c1)] @ [(b2, c2)]) [fst (b2, c2)]
      \<lparr> sr_trust_store = ts2, sr_transactions = tx \<rparr>"
    using run(4) by (simp add: replica_inv_def)
  then show ?thesis using run(1,2) by blast
qed

section \<open>Properties\<close>



text \<open>C26. A server does not remember the blocks it has accepted. It saves its trust store only when it is
  initialised, and reads just this file when it starts: whatever blocks it has stored since, after
  a restart it serves the trust store of the beginning. And it accepts no block any more: one that
  follows the trust store does not follow the table.\<close>

theorem server_restart_forgets:
  assumes "aead_ok (ce_aead N)" "codec_ok (ce_saved_codec N)" "codec_ok (ce_server_codec N)" "codec_ok (ce_store_codec N)"
    "from_der_and_sign_algo (ce_rcgen N) (kp_serialized_der (cred_keypair (bc_credential conf))) PkcsEd25519
      = Ok (cred_keypair (bc_credential conf))"
    "credential_new (ce_crypto N) (ce_rcgen N) (cred_keypair (bc_credential conf))
      (as_unverified (cred_certificate (bc_credential conf))) = Ok (bc_credential conf)"
    "root_ok (ce_crypto N) r" "ts_run (ce_crypto N) r bs (bc_trust_store conf)" "issuers_present (chain_st (bc_trust_store conf))"
    "save_base_config N conf files = (Ok (), files')"
    "replica_inv (ce_crypto N) r (ce_block_codec N) (length bs) (bs @ new) log s" "new \<noteq> []"
  shows "\<exists>s'. server_start N init seed (server_rows (sr_transactions s)) files' = (Ok (conf, s'), files')
    \<and> sr_trust_store s' = bc_trust_store conf
    \<and> (\<forall>now b waiting. transaction_ok (ce_crypto N) (block_transaction b) \<longrightarrow>
        (let s'' = s' \<lparr> sr_transactions := (sr_transactions s') \<lparr> receivers := waiting \<rparr> \<rparr> in
         \<not> is_ok (fst (handle_trust_store_block (ce_crypto N) (ce_block_codec N) now s'' b))
         \<and> snd (handle_trust_store_block (ce_crypto N) (ce_block_codec N) now s'' b) = s''))"
proof -
  let ?C = "ce_crypto N" and ?P = "ce_block_codec N"
  let ?tx = "server_open (server_rows (sr_transactions s))"
  have table: "table_of ?P (length bs) log (server_rows (sr_transactions s))" "length log = length new"
    using assms(11) by (auto simp: replica_inv_def server_store_inv_def)
  then have log: "log \<noteq> []" "length bs + length log < 2 ^ 63"
    using assms(12) by (auto simp: table_of_def numbered_from_def)
  have "get_base_config N files' = Ok (Some conf)"
    by (rule saved_base_config [OF assms(1-6) imported_as_exported [OF assms(7-9)] assms(10)])
  then have start: "server_start N init seed (server_rows (sr_transactions s)) files'
      = (Ok (conf, \<lparr> sr_trust_store = bc_trust_store conf, sr_transactions = ?tx \<rparr>), files')"
    by (simp add: server_start_def)
  have "server_store_inv ?P (length bs) log (?tx \<lparr> receivers := waiting \<rparr>)" for waiting
    using server_open_table [OF table(1) log(1)] by (simp add: server_store_inv_def)
  then show ?thesis
    using start behind_table_refuses [OF assms(7,8) _ log] by (simp add: Let_def)
qed

theorem server_restart_forgets_witness:
  "\<exists>x ts (s :: server_replica) files' s'. ts_run sample_crypto sample_root [x] ts
    \<and> server_start (sample_server_env ts) None [] (server_rows (sr_transactions s)) files'
      = (Ok (\<lparr> bc_trust_store = ts, bc_credential = sample_root_credential, bc_pseudo_data_seed = [] \<rparr>, s'), files')
    \<and> sr_trust_store s' = ts"
proof -
  obtain x1 x2 ts s where run: "ts_run sample_crypto sample_root [x1] ts" "issuers_present (chain_st ts)"
      "replica_inv sample_crypto sample_root sink_codec (length [x1]) ([x1] @ [x2]) [fst x2] s"
    using sample_second_block by blast
  let ?conf = "\<lparr> bc_trust_store = ts, bc_credential = sample_root_credential, bc_pseudo_data_seed = [] \<rparr>"
  obtain files' where saved: "save_base_config (sample_server_env ts) ?conf \<lparr> cf_config = None, cf_trust_store = None \<rparr> = (Ok (), files')"
    by (simp add: save_base_config_def save_store_file_def Let_def sample_server_env_def generate_builtin_def sample_encrypted)
  have env: "aead_ok (ce_aead (sample_server_env ts))" "codec_ok (ce_saved_codec (sample_server_env ts))"
      "codec_ok (ce_server_codec (sample_server_env ts))" "codec_ok (ce_store_codec (sample_server_env ts))"
      "ce_crypto (sample_server_env ts) = sample_crypto" "ce_rcgen (sample_server_env ts) = sample_rcgen"
      "ce_block_codec (sample_server_env ts) = sink_codec" "bc_credential ?conf = sample_root_credential" "bc_trust_store ?conf = ts"
    by (simp_all add: sample_server_env_def sample_aead_ok sample_saved_codec_ok)
  have new: "[x2] \<noteq> []" by simp
  note forgets = server_restart_forgets [OF env(1-4), of ?conf sample_root "[x1]" _ _ "[x2]" "[fst x2]" s None "[]",
      unfolded env(5-9), OF sample_credential_stored sample_root_ok run(1,2) saved run(3) new]
  then obtain s' where "server_start (sample_server_env ts) None [] (server_rows (sr_transactions s)) files' = (Ok (?conf, s'), files')"
      "sr_trust_store s' = ts"
    by (elim exE conjE)
  then show ?thesis using run(1) by blast
qed

end
