(* ===== verification/Installer.thy ===== *)
theory Installer
  imports Prelude
begin

text \<open>
  Installing and updating an agent (\<^verbatim>\<open>svalin/src/installer/agent.rs\<close>, \<^verbatim>\<open>svalin/src/installer/agent/update.rs\<close>).
  Executables live in folders called a to z, numbered from 0 here; an installation takes the first
  free one, points the service at it and restarts the service if it runs, and an agent that starts
  from such a folder deletes the others. What the service manager answers is given; file operations
  succeed. The entry in the Windows registry and the removal of an agent are not modelled.
\<close>

section \<open>The machine\<close>

datatype platform = Linux | Windows

text \<open>Where an executable runs from: a folder of the installation, or anywhere else.\<close>

datatype exe_location = Elsewhere | Slot nat

text \<open>The installed executables, the folder that the service starts, and the one it has been started from.\<close>

record 'exe machine =
  installed :: "nat \<rightharpoonup> 'exe"
  service_path :: "nat option"
  service_running :: "nat option"

definition slots :: "nat list" where
  "slots = [0..<26]"

text \<open>The answers of the service manager: whether it is there, the exit code of the question whether the
  service is active, or that it exists and whether it runs, and the exit code of the last command.\<close>

record service_manager =
  systemd_available :: bool
  is_active_code :: "int option"
  last_code :: "int option"

datatype install_error =
    NoAvailableLocation
  | SystemdNotAvailable
  | StatusCodeMissing
  | ServiceInstallationFailed
  | UnknownStatus int
  | RestartFailed "int option"
  | CreateFailed "int option"

section \<open>Operations\<close>

definition get_agent_install_location :: "'exe machine \<Rightarrow> (nat, install_error) result" where
  "get_agent_install_location self = ok_or NoAvailableLocation (find (\<lambda>c. installed self c = None) slots)"

definition restart_service :: "'exe machine \<Rightarrow> 'exe machine" where
  "restart_service self = self \<lparr> service_running := service_path self \<rparr>"

definition create_systemd_service :: "service_manager \<Rightarrow> nat \<Rightarrow> 'exe machine \<Rightarrow> (unit, install_error) result \<times> 'exe machine" where
  "create_systemd_service M executable self =
    (let self = self \<lparr> service_path := Some executable \<rparr> in
     case is_active_code M of
       None \<Rightarrow> (Err StatusCodeMissing, self)
     | Some status \<Rightarrow>
        if status = 0 then
          (if last_code M = Some 0 then (Ok (), restart_service self) else (Err (RestartFailed (last_code M)), self))
        else if status = 3 then (Ok (), self)
        else if status = 4 then (Err ServiceInstallationFailed, self)
        else (Err (UnknownStatus status), self))"

text \<open>The command that would change the path of an existing service on Windows is put together, and then
  not run.\<close>

definition create_windows_service :: "service_manager \<Rightarrow> nat \<Rightarrow> 'exe machine \<Rightarrow> (unit, install_error) result \<times> 'exe machine" where
  "create_windows_service M executable self =
    (if service_path self \<noteq> None then
       (if service_running self \<noteq> None then
          (if last_code M = Some 0 then (Ok (), restart_service self) else (Err (RestartFailed (last_code M)), self))
        else (Ok (), self))
     else if last_code M = Some 0 then (Ok (), self \<lparr> service_path := Some executable \<rparr>)
     else (Err (CreateFailed (last_code M)), self))"

definition create_service :: "platform \<Rightarrow> service_manager \<Rightarrow> nat \<Rightarrow> 'exe machine \<Rightarrow> (unit, install_error) result \<times> 'exe machine" where
  "create_service platform M executable self =
    (case platform of
       Windows \<Rightarrow> create_windows_service M executable self
     | Linux \<Rightarrow> if \<not> systemd_available M then (Err SystemdNotAvailable, self) else create_systemd_service M executable self)"

text \<open>\<^verbatim>\<open>exe\<close> is the executable that is running, the installer itself.\<close>

definition install_agent :: "platform \<Rightarrow> service_manager \<Rightarrow> 'exe \<Rightarrow> 'exe machine \<Rightarrow> (unit, install_error) result \<times> 'exe machine" where
  "install_agent platform M exe self =
    bind_st (get_agent_install_location self, self) (\<lambda>install_to self.
    create_service platform M install_to (self \<lparr> installed := (installed self)(install_to \<mapsto> exe) \<rparr>))"

fun remove_other_slots :: "exe_location \<Rightarrow> nat list \<Rightarrow> (nat \<rightharpoonup> 'exe) \<Rightarrow> (nat \<rightharpoonup> 'exe)" where
  "remove_other_slots current [] files = files"
| "remove_other_slots current (c # cs) files =
    remove_other_slots current cs (if files c \<noteq> None \<and> current \<noteq> Slot c then files(c := None) else files)"

definition cleanup_old_installations :: "exe_location \<Rightarrow> 'exe machine \<Rightarrow> 'exe machine" where
  "cleanup_old_installations current self =
    (if current = Elsewhere then self
     else self \<lparr> installed := remove_other_slots current slots (installed self) \<rparr>)"

text \<open>An update: the download gives an executable, which is run as installer, and its exit code is the
  result.\<close>

datatype update_agent_error = DownloadFailed | InstallerFailed install_error

definition update_agent ::
  "platform \<Rightarrow> service_manager \<Rightarrow> 'exe option \<Rightarrow> 'exe machine \<Rightarrow> (unit, update_agent_error) result \<times> 'exe machine" where
  "update_agent platform M download self =
    bind_st (ok_or DownloadFailed download, self) (\<lambda>exe self. map_err_st InstallerFailed (install_agent platform M exe self))"

text \<open>A start of the service.\<close>

definition agent_started :: "'exe machine \<Rightarrow> 'exe machine" where
  "agent_started self =
    (case service_running self of None \<Rightarrow> self | Some c \<Rightarrow> cleanup_old_installations (Slot c) self)"

section \<open>Lemmas\<close>

lemma remove_other_slots_exact:
  "remove_other_slots current cs files = (\<lambda>c. if c \<in> set cs \<and> current \<noteq> Slot c then None else files c)"
  by (induction cs arbitrary: files) (auto simp: fun_eq_iff)

lemma install_location_Ok:
  assumes "get_agent_install_location self = Ok c"
  shows "installed self c = None" "c < 26" "\<And>c'. c' < c \<Longrightarrow> installed self c' \<noteq> None"
proof -
  have f: "find (\<lambda>c. installed self c = None) slots = Some c"
    using assms by (simp add: get_agent_install_location_def result_simps)
  then obtain i where i: "i < 26" "c = i" "installed self i = None" "\<forall>j<i. installed self j \<noteq> None"
    by (auto simp: find_Some_iff slots_def)
  then show "installed self c = None" "c < 26" "\<And>c'. c' < c \<Longrightarrow> installed self c' \<noteq> None" by auto
qed

text \<open>An agent that runs from the only installation.\<close>

definition settled :: "nat \<Rightarrow> 'exe \<Rightarrow> 'exe machine \<Rightarrow> bool" where
  "settled c exe self \<longleftrightarrow> c < 26 \<and> installed self = [c \<mapsto> exe] \<and> service_path self = Some c \<and> service_running self = Some c"

lemma settled_install_location:
  assumes "settled c exe self"
  shows "\<exists>c'. get_agent_install_location self = Ok c' \<and> c' \<noteq> c \<and> c' < 26"
proof -
  have "(if c = 0 then 1 else 0) \<in> set slots" "installed self (if c = 0 then 1 else 0) = None"
    using assms by (simp_all add: slots_def settled_def)
  then have "find (\<lambda>c. installed self c = None) slots \<noteq> None" unfolding find_None_iff by blast
  then obtain c' where "get_agent_install_location self = Ok c'" by (auto simp: get_agent_install_location_def)
  with install_location_Ok [OF this] show ?thesis using assms by (auto simp: settled_def)
qed

section \<open>Properties\<close>



text \<open>An installation never touches the ones that are there: it takes the first free folder, whatever
  the service manager answers, and fails with nothing changed if all 26 are taken. The cleanup of
  an agent deletes everything but the folder it runs from, and an executable that runs from
  elsewhere deletes nothing.\<close>

theorem installs_beside:
  "(case install_agent platform M exe self of (r, self') \<Rightarrow>
      (\<exists>c < 26. installed self c = None \<and> (\<forall>c' < c. installed self c' \<noteq> None) \<and> installed self' = (installed self)(c \<mapsto> exe))
      \<or> (r = Err NoAvailableLocation \<and> self' = self \<and> (\<forall>c < 26. installed self c \<noteq> None)))"
  "installed (cleanup_old_installations current self) c =
    (if current \<noteq> Elsewhere \<and> current \<noteq> Slot c \<and> c < 26 then None else installed self c)"
proof -
  show "(case install_agent platform M exe self of (r, self') \<Rightarrow>
      (\<exists>c < 26. installed self c = None \<and> (\<forall>c' < c. installed self c' \<noteq> None) \<and> installed self' = (installed self)(c \<mapsto> exe))
      \<or> (r = Err NoAvailableLocation \<and> self' = self \<and> (\<forall>c < 26. installed self c \<noteq> None)))"
  proof (cases "get_agent_install_location self")
    case (Ok c)
    have "installed (snd (create_service platform M c m)) = installed m" for m :: "'a machine"
      by (auto simp: create_service_def create_systemd_service_def create_windows_service_def restart_service_def Let_def
          split: platform.split option.split)
    then have "installed (snd (install_agent platform M exe self)) = (installed self)(c \<mapsto> exe)"
      using Ok by (simp add: install_agent_def)
    then show ?thesis using install_location_Ok [OF Ok] by (auto split: prod.split)
  next
    case (Err e)
    then have "find (\<lambda>c. installed self c = None) slots = None" "e = NoAvailableLocation"
      by (cases "find (\<lambda>c. installed self c = None) slots", simp_all add: get_agent_install_location_def)+
    then show ?thesis using Err by (auto simp: install_agent_def find_None_iff slots_def)
  next
    case Panicked
    then show ?thesis
      by (cases "find (\<lambda>c. installed self c = None) slots") (simp_all add: get_agent_install_location_def)
  qed
  show "installed (cleanup_old_installations current self) c =
      (if current \<noteq> Elsewhere \<and> current \<noteq> Slot c \<and> c < 26 then None else installed self c)"
    by (simp add: cleanup_old_installations_def remove_other_slots_exact slots_def)
qed

theorem installs_beside_witness:
  "let self = \<lparr> installed = [0 \<mapsto> 1], service_path = None, service_running = None \<rparr> :: nat machine;
       M = \<lparr> systemd_available = False, is_active_code = None, last_code = None \<rparr> in
   installed (snd (install_agent Linux M 2 self)) = [0 \<mapsto> 1, 1 \<mapsto> 2]"
proof -
  let ?self = "\<lparr> installed = [0 \<mapsto> 1], service_path = None, service_running = None \<rparr> :: nat machine"
    and ?M = "\<lparr> systemd_available = False, is_active_code = None, last_code = None \<rparr>"
  obtain r self' where i: "install_agent Linux ?M 2 ?self = (r, self')" by fastforce
  from installs_beside(1) [where platform = Linux and M = ?M and exe = 2 and self = ?self]
  have "(\<exists>c < 26. installed ?self c = None \<and> (\<forall>c' < c. installed ?self c' \<noteq> None) \<and> installed self' = (installed ?self)(c \<mapsto> 2))
      \<or> (\<forall>c < 26. installed ?self c \<noteq> None)"
    unfolding i prod.case by blast
  moreover have "installed ?self 1 = None" by simp
  then have "\<not> (\<forall>c < 26. installed ?self c \<noteq> None)" by (metis one_less_numeral_iff semiring_norm(76))
  ultimately obtain c where c: "installed ?self c = None" "\<forall>c' < c. installed ?self c' \<noteq> None" "installed self' = (installed ?self)(c \<mapsto> 2)"
    by blast
  have "c = 1"
  proof (rule antisym)
    show "c \<le> 1" using c(2) \<open>installed ?self 1 = None\<close> by (meson not_less)
    show "1 \<le> c" using c(1) by (cases c) simp_all
  qed
  then show ?thesis using c(3) i by (simp add: Let_def)
qed

end
