(* ===== verification/Connections.thy ===== *)
theory Connections
  imports ClientState Rpc
begin

text \<open>
  Who is connected to a server (\<^verbatim>\<open>svalin_rpc/src/rpc/server/mod.rs\<close>, \<^verbatim>\<open>rpc/connection/direct_connection.rs\<close>)
  and how clients learn of it (\<^verbatim>\<open>stream_agent_online_status\<close> in
  \<^verbatim>\<open>svalin/src/message_streaming/with_client.rs\<close>). A connection is its stable id and its peer. The broadcast
  channel is the list of everything sent, and a receiver is its position in that list.
\<close>

section \<open>The broadcast channel\<close>

text \<open>A channel keeps its latest \<^verbatim>\<open>cap\<close> values. A receiver that missed some is told so once and goes on
  with the oldest value that is kept.\<close>

datatype 'a receive_outcome = Received 'a | Lagged | NothingYet

definition receive_broadcast :: "nat \<Rightarrow> 'a list \<Rightarrow> nat \<Rightarrow> 'a receive_outcome \<times> nat" where
  "receive_broadcast cap sent position =
    (if position + cap < length sent then (Lagged, length sent - cap)
     else if position < length sent then (Received (sent ! position), Suc position)
     else (NothingYet, position))"

section \<open>The server\<close>

record direct_connection =
  stable_id :: nat
  dc_peer :: peer

definition connection_eq :: "direct_connection \<Rightarrow> direct_connection \<Rightarrow> bool" where
  "connection_eq a b \<longleftrightarrow> stable_id a = stable_id b"

record rpc_server =
  latest_connections :: "(spki_hash, direct_connection) fmap"
  client_status_broadcast :: "(certificate \<times> bool) list"

definition rpc_server_create :: rpc_server where
  "rpc_server_create = \<lparr> latest_connections = fmempty, client_status_broadcast = [] \<rparr>"

definition note_connection :: "direct_connection \<Rightarrow> rpc_server \<Rightarrow> rpc_server" where
  "note_connection conn self =
    (case dc_peer conn of
       Anonymous \<Rightarrow> self
     | PeerCertificate cert \<Rightarrow>
         \<lparr> latest_connections = fmupd (cert_spki cert) conn (latest_connections self),
           client_status_broadcast = client_status_broadcast self @ [(cert, True)] \<rparr>)"

definition update_connection_data_on_close :: "direct_connection \<Rightarrow> rpc_server \<Rightarrow> rpc_server" where
  "update_connection_data_on_close conn self =
    (case dc_peer conn of
       Anonymous \<Rightarrow> self
     | PeerCertificate cert \<Rightarrow>
        (case fmlookup (latest_connections self) (cert_spki cert) of
           None \<Rightarrow> self
         | Some latest_peer_conn \<Rightarrow>
            if connection_eq latest_peer_conn conn
            then \<lparr> latest_connections = fmdrop (cert_spki cert) (latest_connections self),
                   client_status_broadcast = client_status_broadcast self @ [(cert, False)] \<rparr>
            else self))"

datatype 'e open_session_error = NoConnection | OpenRawSession 'e

text \<open>\<^verbatim>\<open>open_raw_session\<close> is what opening a stream on that connection gives.\<close>

definition open_session_with ::
  "(direct_connection \<Rightarrow> (transport, 'e) result) \<Rightarrow> spki_hash \<Rightarrow> rpc_server \<Rightarrow> (session, 'e open_session_error) result" where
  "open_session_with open_raw_session peer self =
    and_then (ok_or NoConnection (fmlookup (latest_connections self) peer)) (\<lambda>conn.
    map_ok (\<lambda>transport. session_new transport (dc_peer conn)) (map_err OpenRawSession (open_raw_session conn)))"

definition subscribe_to_connection_status :: "rpc_server \<Rightarrow> nat" where
  "subscribe_to_connection_status self = length (client_status_broadcast self)"

fun connected_certificates :: "direct_connection list \<Rightarrow> certificate list" where
  "connected_certificates [] = []"
| "connected_certificates (conn # conns) =
    (case dc_peer conn of PeerCertificate cert \<Rightarrow> cert # connected_certificates conns | Anonymous \<Rightarrow> connected_certificates conns)"

text \<open>\<^verbatim>\<open>values\<close> gives the connections in the order of the hash map.\<close>

definition get_current_connected_clients ::
  "((spki_hash, direct_connection) fmap \<Rightarrow> direct_connection list) \<Rightarrow> rpc_server \<Rightarrow> certificate list" where
  "get_current_connected_clients values self = connected_certificates (values (latest_connections self))"

definition is_client_connected :: "certificate \<Rightarrow> rpc_server \<Rightarrow> bool" where
  "is_client_connected client self \<longleftrightarrow> fmlookup (latest_connections self) (cert_spki client) \<noteq> None"

section \<open>The stream of online states\<close>

text \<open>The task behind a client: where its receiver stands, what it has handed to the connection of the
  client, and whether it still runs.\<close>

record online_stream =
  os_position :: nat
  os_sent :: "message_to_client list"
  os_running :: bool

fun agent_status :: "certificate \<times> bool \<Rightarrow> message_to_client list" where
  "agent_status (cert, online) =
    (if cert_type cert \<noteq> Agent then [] else [ClientAgentOnlineStatus (cert_spki cert) online])"

definition stream_snapshot :: "certificate list \<Rightarrow> online_stream \<Rightarrow> online_stream" where
  "stream_snapshot connected self =
    self \<lparr> os_sent := os_sent self @ concat (map (\<lambda>cert. agent_status (cert, True)) connected) \<rparr>"

definition stream_receive :: "nat \<Rightarrow> rpc_server \<Rightarrow> online_stream \<Rightarrow> online_stream" where
  "stream_receive cap server self =
    (if \<not> os_running self then self
     else
       (case receive_broadcast cap (client_status_broadcast server) (os_position self) of
          (Received status, position) \<Rightarrow>
            self \<lparr> os_position := position, os_sent := os_sent self @ agent_status status \<rparr>
        | (Lagged, position) \<Rightarrow> self \<lparr> os_position := position, os_running := False \<rparr>
        | (NothingYet, position) \<Rightarrow> self))"

section \<open>Runs\<close>

text \<open>What happened to the connections of a server: stable ids are unique, and every connection closes at
  most once, after it was established.\<close>

datatype connection_event = Established direct_connection | Closed direct_connection

fun connection_step :: "connection_event \<Rightarrow> rpc_server \<Rightarrow> rpc_server" where
  "connection_step (Established conn) = note_connection conn"
| "connection_step (Closed conn) = update_connection_data_on_close conn"

fun event_possible :: "connection_event list \<Rightarrow> connection_event \<Rightarrow> bool" where
  "event_possible past (Established conn) \<longleftrightarrow> (\<forall>other. Established other \<in> set past \<longrightarrow> stable_id other \<noteq> stable_id conn)"
| "event_possible past (Closed conn) \<longleftrightarrow> Established conn \<in> set past \<and> Closed conn \<notin> set past"

inductive served :: "connection_event list \<Rightarrow> rpc_server \<Rightarrow> bool" where
  served_start: "served [] rpc_server_create"
| served_event: "served past s \<Longrightarrow> event_possible past e \<Longrightarrow> served (past @ [e]) (connection_step e s)"

text \<open>A stream beside a server: it subscribes, takes a snapshot later, and receives; connections come and
  go in between at any time. \<^verbatim>\<open>None\<close> is a stream before its snapshot, with the position it subscribed at.\<close>

inductive online_run :: "nat \<Rightarrow> connection_event list \<Rightarrow> rpc_server \<Rightarrow> nat \<Rightarrow> online_stream option \<Rightarrow> bool" for cap where
  online_subscribe: "served past s \<Longrightarrow> online_run cap past s (subscribe_to_connection_status s) None"
| online_event: "online_run cap past s start st \<Longrightarrow> event_possible past e
    \<Longrightarrow> online_run cap (past @ [e]) (connection_step e s) start st"
| online_snapshot: "online_run cap past s start None
    \<Longrightarrow> set (values (latest_connections s)) = fmran' (latest_connections s)
    \<Longrightarrow> online_run cap past s start (Some (stream_snapshot (get_current_connected_clients values s)
          \<lparr> os_position = start, os_sent = [], os_running = True \<rparr>))"
| online_receive: "online_run cap past s start (Some st) \<Longrightarrow> online_run cap past s start (Some (stream_receive cap s st))"

inductive_cases served_snocE: "served (past @ [e]) s"

text \<open>What a client makes of the messages.\<close>

fun online_updates :: "message_to_client list \<Rightarrow> 'x client_state_update list" where
  "online_updates [] = []"
| "online_updates (ClientAgentOnlineStatus hash online # ms) = AgentOnlineStatus hash online # online_updates ms"
| "online_updates (_ # ms) = online_updates ms"

definition told_online :: "message_to_client list \<Rightarrow> spki_hash \<Rightarrow> bool" where
  "told_online ms hash \<longleftrightarrow> agent_online (fold apply_client_update (online_updates ms)
    (client_state_new persistent_empty :: unit client_state)) hash"

section \<open>Lemmas\<close>

text \<open>The keys that are online after a list of states.\<close>

fun replay_status :: "(certificate \<times> bool) list \<Rightarrow> spki_hash set \<Rightarrow> spki_hash set" where
  "replay_status [] A = A"
| "replay_status ((cert, online) # xs) A =
    replay_status xs (if online then insert (cert_spki cert) A else A - {cert_spki cert})"

lemma replay_status_append [simp]: "replay_status (xs @ ys) A = replay_status ys (replay_status xs A)"
  by (induction xs A rule: replay_status.induct) auto

lemma mem_replay_status:
  "k \<in> replay_status xs A \<longleftrightarrow>
    (case map_of (rev (map (\<lambda>(c, b). (cert_spki c, b)) xs)) k of Some b \<Rightarrow> b | None \<Rightarrow> k \<in> A)"
proof (induction xs rule: rev_induct)
  case (snoc x xs)
  then show ?case by (cases x; cases "snd x") auto
qed simp

text \<open>States that were seen already do no harm when they are seen again, as long as all later ones follow.\<close>

lemma replay_status_again: "replay_status (xs @ ys) (replay_status xs A) = replay_status (xs @ ys) A"
proof (rule set_eqI)
  fix k
  show "k \<in> replay_status (xs @ ys) (replay_status xs A) \<longleftrightarrow> k \<in> replay_status (xs @ ys) A"
    unfolding mem_replay_status [of k "xs @ ys"] unfolding mem_replay_status [of k xs A]
    by (auto split: option.splits)
qed

lemma replay_status_mem: "k \<in> replay_status xs A \<Longrightarrow> k \<in> A \<or> (\<exists>c. (c, True) \<in> set xs \<and> cert_spki c = k)"
  by (induction xs A rule: replay_status.induct) (auto split: if_splits)

lemma served_domain: "served past s \<Longrightarrow> {k. fmlookup (latest_connections s) k \<noteq> None} = replay_status (client_status_broadcast s) {}"
proof (induction rule: served.induct)
  case served_start
  show ?case by (simp add: rpc_server_create_def)
next
  case (served_event past s e)
  then show ?case
    by (cases e) (auto simp: note_connection_def update_connection_data_on_close_def split: peer.splits option.splits if_splits)
qed

lemma served_peer:
  "served past s \<Longrightarrow> fmlookup (latest_connections s) k = Some conn
    \<Longrightarrow> \<exists>c. dc_peer conn = PeerCertificate c \<and> cert_spki c = k \<and> (c, True) \<in> set (client_status_broadcast s) \<and> Established conn \<in> set past"
proof (induction rule: served.induct)
  case served_start
  then show ?case by (simp add: rpc_server_create_def)
next
  case (served_event past s e)
  then show ?case
    by (cases e) (auto simp: note_connection_def update_connection_data_on_close_def split: peer.splits option.splits if_splits)
qed

fun established :: "connection_event list \<Rightarrow> direct_connection list" where
  "established [] = []"
| "established (Established conn # es) = conn # established es"
| "established (Closed conn # es) = established es"

lemma established_append [simp]: "established (xs @ ys) = established xs @ established ys"
  by (induction xs rule: established.induct) auto

lemma set_established [simp]: "conn \<in> set (established es) \<longleftrightarrow> Established conn \<in> set es"
  by (induction es rule: established.induct) auto

definition has_hash :: "spki_hash \<Rightarrow> direct_connection \<Rightarrow> bool" where
  "has_hash k conn \<longleftrightarrow> (case dc_peer conn of Anonymous \<Rightarrow> False | PeerCertificate c \<Rightarrow> cert_spki c = k)"

definition last_established :: "spki_hash \<Rightarrow> connection_event list \<Rightarrow> direct_connection option" where
  "last_established k past = find (has_hash k) (rev (established past))"

lemma last_established_simps [simp]:
  "last_established k [] = None"
  "last_established k (past @ [Established conn]) = (if has_hash k conn then Some conn else last_established k past)"
  "last_established k (past @ [Closed conn]) = last_established k past"
  by (simp_all add: last_established_def)

lemma find_Some_mem: "find P xs = Some x \<Longrightarrow> x \<in> set xs \<and> P x"
  by (induction xs) (auto split: if_splits)

lemma last_established_mem: "last_established k past = Some conn \<Longrightarrow> Established conn \<in> set past \<and> has_hash k conn"
  by (auto simp: last_established_def dest: find_Some_mem)

lemma served_ids:
  "served past s \<Longrightarrow> Established a \<in> set past \<Longrightarrow> Established b \<in> set past \<Longrightarrow> stable_id a = stable_id b \<Longrightarrow> a = b"
  "served past s \<Longrightarrow> Closed a \<in> set past \<Longrightarrow> Established a \<in> set past"
proof (induction arbitrary: a b rule: served.induct)
  case (served_event past s e)
  { case 1 then show ?case using served_event.IH(1) served_event.hyps(2) by (cases e) (auto dest: sym) }
  { case 2 then show ?case using served_event.IH(2) served_event.hyps(2) by (cases e) auto }
qed auto

lemma served_run: "online_run cap past s start st \<Longrightarrow> served past s"
  by (induction rule: online_run.induct) (auto intro: served_event)

lemma connection_step_status:
  "\<exists>new. client_status_broadcast (connection_step e s) = client_status_broadcast s @ new"
  by (cases e) (auto simp: note_connection_def update_connection_data_on_close_def split: peer.splits option.splits)

lemma online_updates_append [simp]: "online_updates (xs @ ys) = online_updates xs @ online_updates ys"
  by (induction xs rule: online_updates.induct) auto

lemma told_online_append:
  "told_online (xs @ ys) k \<longleftrightarrow> k \<in> cs_agents_online (fold apply_client_update (online_updates ys)
    (fold apply_client_update (online_updates xs) (client_state_new persistent_empty :: unit client_state)))"
  by (simp add: told_online_def agent_online_def)

lemma told_online_Nil [simp]: "\<not> told_online [] k"
  by (simp add: told_online_def agent_online_def client_state_new_def)

lemma told_online_status:
  assumes "cert_spki c = k \<longrightarrow> cert_type c = Agent"
  shows "told_online (xs @ agent_status (c, b)) k \<longleftrightarrow> (if cert_spki c = k then b else told_online xs k)"
  using assms by (auto simp: told_online_append) (auto simp: told_online_def agent_online_def)

lemma told_online_snapshot:
  assumes "\<forall>c \<in> set cs. cert_spki c = k \<longrightarrow> cert_type c = Agent"
  shows "told_online (concat (map (\<lambda>cert. agent_status (cert, True)) cs)) k \<longleftrightarrow> (\<exists>c \<in> set cs. cert_spki c = k)"
  using assms
proof (induction cs rule: rev_induct)
  case (snoc c cs)
  then show ?case using told_online_status [of c k "concat (map (\<lambda>cert. agent_status (cert, True)) cs)" True] by auto
qed simp

lemma set_peer_certificates: "set (connected_certificates conns) = {c. \<exists>conn \<in> set conns. dc_peer conn = PeerCertificate c}"
  by (induction conns rule: connected_certificates.induct) (auto split: peer.splits)

text \<open>\<^verbatim>\<open>only_agents\<close>: the key was only ever used by agents.\<close>

definition only_agents :: "spki_hash \<Rightarrow> rpc_server \<Rightarrow> bool" where
  "only_agents k s \<longleftrightarrow> (\<forall>(c, b) \<in> set (client_status_broadcast s). cert_spki c = k \<longrightarrow> cert_type c = Agent)"

text \<open>What a running stream has sent says which keys were online when it took its snapshot, at some
  length \<^verbatim>\<open>n\<close> of the broadcast, overlaid with all states from its start to its position.\<close>

definition stream_view :: "nat \<Rightarrow> rpc_server \<Rightarrow> online_stream \<Rightarrow> bool" where
  "stream_view start s st \<longleftrightarrow> (let log = client_status_broadcast s in
    start \<le> os_position st \<and> os_position st \<le> length log
    \<and> (os_running st \<longrightarrow> (\<exists>n. start \<le> n \<and> n \<le> length log
        \<and> (\<forall>k. only_agents k s \<longrightarrow> (told_online (os_sent st) k
          \<longleftrightarrow> k \<in> replay_status (drop start (take (os_position st) log)) (replay_status (take n log) {}))))))"

lemma stream_view_event:
  assumes "stream_view start s st"
  shows "stream_view start (connection_step e s) st"
proof -
  obtain new where new: "client_status_broadcast (connection_step e s) = client_status_broadcast s @ new"
    using connection_step_status by blast
  let ?log = "client_status_broadcast s"
  have agents: "only_agents k (connection_step e s) \<Longrightarrow> only_agents k s" for k
    using new by (auto simp: only_agents_def)
  have p: "start \<le> os_position st" "os_position st \<le> length ?log"
    using assms by (simp_all add: stream_view_def Let_def)
  have "\<exists>n. start \<le> n \<and> n \<le> length (?log @ new) \<and> (\<forall>k. only_agents k (connection_step e s) \<longrightarrow> (told_online (os_sent st) k
      \<longleftrightarrow> k \<in> replay_status (drop start (take (os_position st) (?log @ new))) (replay_status (take n (?log @ new)) {})))"
    if run: "os_running st"
  proof -
    obtain n where n: "start \<le> n" "n \<le> length ?log" "\<forall>k. only_agents k s \<longrightarrow> (told_online (os_sent st) k
        \<longleftrightarrow> k \<in> replay_status (drop start (take (os_position st) ?log)) (replay_status (take n ?log) {}))"
      using assms run by (auto simp: stream_view_def Let_def)
    then show ?thesis using p(2) agents by (intro exI [of _ n]) simp
  qed
  then show ?thesis using p unfolding stream_view_def Let_def new by simp
qed

lemma stream_view_snapshot:
  assumes "served past s" "start \<le> length (client_status_broadcast s)"
    "set (values (latest_connections s)) = fmran' (latest_connections s)"
  shows "stream_view start s (stream_snapshot (get_current_connected_clients values s)
      \<lparr> os_position = start, os_sent = [], os_running = True \<rparr>)"
proof -
  let ?cs = "get_current_connected_clients values s"
  have conn: "\<exists>k. fmlookup (latest_connections s) k = Some conn" if "conn \<in> set (values (latest_connections s))" for conn
    using that assms(3) by (auto simp: fmran'_alt_def ran_def fmran'I elim: fmran'E)
  have "(\<exists>c \<in> set ?cs. cert_spki c = k) \<longleftrightarrow> fmlookup (latest_connections s) k \<noteq> None" for k
  proof
    assume "\<exists>c \<in> set ?cs. cert_spki c = k"
    then obtain c conn where c: "cert_spki c = k" "conn \<in> set (values (latest_connections s))" "dc_peer conn = PeerCertificate c"
      by (auto simp: get_current_connected_clients_def set_peer_certificates)
    then obtain k' where "fmlookup (latest_connections s) k' = Some conn" using conn by blast
    with served_peer [OF assms(1) this] c show "fmlookup (latest_connections s) k \<noteq> None" by auto
  next
    assume "fmlookup (latest_connections s) k \<noteq> None"
    then obtain conn where "fmlookup (latest_connections s) k = Some conn" by blast
    with served_peer [OF assms(1) this] assms(3) fmran'I [OF this]
    show "\<exists>c \<in> set ?cs. cert_spki c = k"
      by (auto simp: get_current_connected_clients_def set_peer_certificates)
  qed
  moreover have "c \<in> set ?cs \<Longrightarrow> (c, True) \<in> set (client_status_broadcast s)" for c
    using conn served_peer [OF assms(1)]
    by (fastforce simp: get_current_connected_clients_def set_peer_certificates)
  ultimately have "told_online (concat (map (\<lambda>cert. agent_status (cert, True)) ?cs)) k
      \<longleftrightarrow> k \<in> replay_status (client_status_broadcast s) {}" if "only_agents k s" for k
    using told_online_snapshot [of ?cs k] that served_domain [OF assms(1)] by (fastforce simp: only_agents_def)
  then show ?thesis
    using assms(2) by (auto simp: stream_view_def stream_snapshot_def Let_def intro!: exI [of _ "length (client_status_broadcast s)"])
qed

lemma stream_view_receive:
  assumes "stream_view start s st"
  shows "stream_view start s (stream_receive cap s st)"
proof -
  let ?log = "client_status_broadcast s" and ?p = "os_position st"
  show ?thesis
  proof (cases "os_running st \<and> \<not> ?p + cap < length ?log \<and> ?p < length ?log")
    case True
    obtain c b where x: "?log ! ?p = (c, b)" by fastforce
    have d: "drop start (take (Suc ?p) ?log) = drop start (take ?p ?log) @ [(c, b)]"
      using True assms x by (simp add: take_Suc_conv_app_nth stream_view_def Let_def)
    have "only_agents k s \<Longrightarrow> cert_spki c = k \<longrightarrow> cert_type c = Agent" for k
      using True x nth_mem [of ?p ?log] by (auto simp: only_agents_def)
    then show ?thesis
      using True assms x
      by (fastforce simp: stream_view_def stream_receive_def receive_broadcast_def d told_online_status Let_def
        simp del: agent_status.simps)
  next
    case False
    then show ?thesis
      using assms by (auto simp: stream_view_def stream_receive_def receive_broadcast_def Let_def)
  qed
qed

lemma online_run_view:
  "online_run cap past s start st \<Longrightarrow> start \<le> length (client_status_broadcast s)
    \<and> (\<forall>x. st = Some x \<longrightarrow> stream_view start s x)"
proof (induction rule: online_run.induct)
  case (online_subscribe past s)
  show ?case by (simp add: subscribe_to_connection_status_def)
next
  case (online_event past s start st e)
  then show ?case using connection_step_status [of e s] by (auto simp: stream_view_event)
next
  case (online_snapshot past s start vs)
  then show ?case using stream_view_snapshot [OF served_run] by blast
next
  case (online_receive past s start st)
  then show ?case by (simp add: stream_view_receive)
qed

lemma replay_overlay:
  assumes "start \<le> n" "n \<le> length log"
  shows "replay_status (drop start log) (replay_status (take n log) A) = replay_status log A"
proof -
  let ?X = "drop start (take n log)" and ?Y = "drop n log"
  have "drop start log = ?X @ ?Y" using assms by (simp add: drop_take)
    (metis append_take_drop_id drop_drop le_add_diff_inverse2)
  moreover have "take n log = take start log @ ?X"
    using assms by (metis append_take_drop_id min.absorb1 take_take)
  moreover have "take start log @ ?X @ ?Y = log" by (metis append_assoc append_take_drop_id calculation(2))
  ultimately show ?thesis
    using replay_status_again [of ?X ?Y "replay_status (take start log) A"] by (metis replay_status_append)
qed

definition sample_connection :: "nat \<Rightarrow> direct_connection" where
  "sample_connection n = \<lparr> stable_id = n, dc_peer = PeerCertificate (Certificate sample_agent) \<rparr>"

section \<open>Properties\<close>

text \<open>C17. The registry holds for every key the connection that was established last, unless that one is
  closed: then the key counts as not connected, even if an older connection is still open. The
  close of a connection that was replaced changes nothing.\<close>

theorem connection_registry_exact:
  assumes "served past s"
  shows "fmlookup (latest_connections s) k =
    (case last_established k past of None \<Rightarrow> None | Some conn \<Rightarrow> if Closed conn \<in> set past then None else Some conn)"
  using assms
proof (induction rule: served.induct)
  case served_start
  show ?case by (simp add: rpc_server_create_def)
next
  case (served_event past s e)
  show ?case
  proof (cases e)
    case (Established conn)
    have "Closed conn \<notin> set past"
      using served_ids(2) [OF served_event.hyps(1)] served_event.hyps(2) Established by fastforce
    then show ?thesis
      using served_event.IH Established by (auto simp: note_connection_def has_hash_def split: peer.splits option.splits)
  next
    case (Closed conn)
    have est: "Established conn \<in> set past" using served_event.hyps(2) Closed by simp
    have same: "a = conn" if "last_established j past = Some a" "stable_id a = stable_id conn" for a j
      using served_ids(1) [OF served_event.hyps(1) _ est that(2)] last_established_mem [OF that(1)] by blast
    show ?thesis
    proof (cases "has_hash k conn")
      case True
      then obtain c where c: "dc_peer conn = PeerCertificate c" "cert_spki c = k"
        by (auto simp: has_hash_def split: peer.splits)
      show ?thesis
      proof (cases "last_established k past")
        case None
        then show ?thesis using served_event.IH Closed c by (simp add: update_connection_data_on_close_def)
      next
        case (Some a)
        then show ?thesis
          using served_event.IH Closed c same [OF Some]
          by (auto simp: update_connection_data_on_close_def connection_eq_def)
      qed
    next
      case False
      then have "fmlookup (latest_connections (connection_step e s)) k = fmlookup (latest_connections s) k"
        using Closed
        by (auto simp: update_connection_data_on_close_def has_hash_def split: peer.splits option.splits)
      moreover have "last_established k past \<noteq> Some conn" using False last_established_mem by blast
      ultimately show ?thesis using served_event.IH Closed by (auto split: option.splits)
    qed
  qed
qed

theorem connection_registry_exact_witness:
  "\<exists>s. served [Established (sample_connection 1), Established (sample_connection 2), Closed (sample_connection 2)] s
    \<and> fmlookup (latest_connections s) (spki_hash sample_agent) = None"
proof -
  have "\<exists>s. served ((([] @ [Established (sample_connection 1)]) @ [Established (sample_connection 2)]) @ [Closed (sample_connection 2)]) s"
    by (intro exI, (rule served_event)+, rule served_start) (auto simp: sample_connection_def)
  then obtain s where s: "served [Established (sample_connection 1), Established (sample_connection 2), Closed (sample_connection 2)] s"
    by auto
  from connection_registry_exact [OF s, of "spki_hash sample_agent"] have "fmlookup (latest_connections s) (spki_hash sample_agent) = None"
    by (simp add: last_established_def has_hash_def sample_connection_def)
  with s show ?thesis by blast
qed

text \<open>C18. A client that applies what the stream sends knows who is online: whenever the stream has taken
  its snapshot and caught up, an agent is online for the client exactly when the server has a
  connection to it, whatever connected and disconnected between the subscription, the snapshot
  and now, and although states between subscription and snapshot are reported again.\<close>

theorem online_status_correct:
  assumes "online_run cap past s start (Some st)" "os_running st"
    "os_position st = length (client_status_broadcast s)" "only_agents (cert_spki agent) s"
  shows "told_online (os_sent st) (cert_spki agent) \<longleftrightarrow> is_client_connected agent s"
proof -
  from online_run_view [OF assms(1)] assms(2-4) obtain n where
      "start \<le> n" "n \<le> length (client_status_broadcast s)"
      "told_online (os_sent st) (cert_spki agent) \<longleftrightarrow> cert_spki agent
        \<in> replay_status (drop start (client_status_broadcast s)) (replay_status (take n (client_status_broadcast s)) {})"
    by (auto simp: stream_view_def Let_def)
  then show ?thesis
    using replay_overlay [of start n] served_domain [OF served_run [OF assms(1)]]
    by (auto simp: is_client_connected_def)
qed

lemma sample_fmran: "fmran' (fmupd k x fmempty) = {x}"
  by (auto intro: fmran'I elim!: fmran'E split: if_splits)

theorem online_status_correct_witness:
  "\<exists>s st. online_run 10 [Established (sample_connection 2)] s 1 (Some st)
    \<and> told_online (os_sent st) (spki_hash sample_agent)"
proof -
  let ?s = "connection_step (Established (sample_connection 2)) rpc_server_create"
  let ?st = "stream_snapshot (get_current_connected_clients (\<lambda>_. [sample_connection 2]) ?s)
    \<lparr> os_position = 1, os_sent = [], os_running = True \<rparr>"
  have s: "latest_connections ?s = fmupd (spki_hash sample_agent) (sample_connection 2) fmempty"
      "client_status_broadcast ?s = [(Certificate sample_agent, True)]"
    by (simp_all add: note_connection_def sample_connection_def rpc_server_create_def)
  note s' = s [unfolded connection_step.simps]
  have "served ([] @ [Established (sample_connection 2)]) ?s"
    by (rule served_event [OF served_start]) simp
  from online_subscribe [OF this, of 10] have "online_run 10 [Established (sample_connection 2)] ?s 1 None"
    by (simp add: subscribe_to_connection_status_def s')
  from online_snapshot [OF this, of "\<lambda>_. [sample_connection 2]"]
  have run: "online_run 10 [Established (sample_connection 2)] ?s 1 (Some ?st)"
    by (simp add: s' sample_fmran)
  have "only_agents (cert_spki (Certificate sample_agent)) ?s" by (simp add: only_agents_def s' sample_agent_def sample_cert_def)
  from online_status_correct [OF run _ _ this] have "told_online (os_sent ?st) (spki_hash sample_agent)"
    by (simp add: s' stream_snapshot_def is_client_connected_def)
  with run show ?thesis by blast
qed

text \<open>A stream that falls behind by more states than the channel keeps ends at its next receive,
  without a word to the client: from then on nothing is sent, whatever happens on the server. So
  an agent that the client was told to be offline stays offline for it, although it is connected.\<close>

theorem lagging_stream_ends:
  assumes "os_running st" "os_position st + cap < length (client_status_broadcast s)"
    "\<not> told_online (os_sent st) (cert_spki agent)"
  shows "\<not> told_online (os_sent (fold (stream_receive cap) servers (stream_receive cap s st))) (cert_spki agent)"
proof -
  let ?st = "stream_receive cap s st"
  have st: "os_sent ?st = os_sent st" "\<not> os_running ?st"
    using assms(1,2) by (simp_all add: stream_receive_def receive_broadcast_def)
  have "fold (stream_receive cap) servers ?st = ?st"
    using st(2) by (induction servers) (simp_all add: stream_receive_def)
  then show ?thesis using st(1) assms(3) by simp
qed

theorem lagging_stream_ends_witness:
  "let s = \<lparr> latest_connections = fmupd (spki_hash sample_agent) (sample_connection 2) fmempty,
      client_status_broadcast = replicate 11 (Certificate sample_agent, True) \<rparr>
   in is_client_connected (Certificate sample_agent) s
    \<and> \<not> told_online (os_sent (fold (stream_receive 10) [s, s] (stream_receive 10 s
        \<lparr> os_position = 0, os_sent = [], os_running = True \<rparr>))) (spki_hash sample_agent)"
proof -
  let ?s = "\<lparr> latest_connections = fmupd (spki_hash sample_agent) (sample_connection 2) fmempty,
      client_status_broadcast = replicate 11 (Certificate sample_agent, True) \<rparr>"
  have "\<not> told_online (os_sent (fold (stream_receive 10) [?s, ?s] (stream_receive 10 ?s
        \<lparr> os_position = 0, os_sent = [], os_running = True \<rparr>))) (cert_spki (Certificate sample_agent))"
    by (rule lagging_stream_ends) simp_all
  then show ?thesis by (simp add: is_client_connected_def Let_def)
qed

end
