(* ===== verification/Forward.thy ===== *)
theory Forward
  imports Connections Script
begin

text \<open>
  Sessions with a device through the server (\<^verbatim>\<open>svalin_rpc/src/commands/forward.rs\<close>, the dispatchers of
  \<^verbatim>\<open>commands/deauthenticate.rs\<close> and \<^verbatim>\<open>commands/e2e.rs\<close>, \<^verbatim>\<open>Session::dispatch\<close>): the server opens a session with
  the device, drops its own identity there and copies bytes from then on; inside, the client and
  the device set up TLS with each other. The client is a script here, since the server may
  send it anything; the handler of the server works on the two streams.
\<close>

section \<open>Dispatching over a session\<close>

datatype 'e command_failure =
    CfWriteHeader object_error
  | CfWriteRequest object_error
  | CfReadResponse object_error
  | CfDeclined u32 str
  | CfDispatcher 'e

text \<open>The exchange in front of every command.\<close>

definition dispatch_header ::
  "rpc_codecs \<Rightarrow> str \<Rightarrow> 'r codec \<Rightarrow> 'r \<Rightarrow> (unit, 'e command_failure) result script" where
  "dispatch_header K key R request =
    then_script (put_object CfWriteHeader (request_header_codec K) \<lparr> command_key = key \<rparr>) (\<lambda>_.
    then_script (put_object CfWriteRequest R request) (\<lambda>_.
    then_script (get_object CfReadResponse (response_header_codec K)) (\<lambda>response.
    lift_result (case response of Decline code message \<Rightarrow> Err (CfDeclined code message) | Accept \<Rightarrow> Ok ()))))"

definition dispatch_command ::
  "rpc_codecs \<Rightarrow> str \<Rightarrow> 'r codec \<Rightarrow> 'r \<Rightarrow> ('o, 'e) result script \<Rightarrow> ('o, 'e command_failure) result script" where
  "dispatch_command K key R request dispatcher =
    then_script (dispatch_header K key R request) (\<lambda>_. map_err_script CfDispatcher dispatcher)"

section \<open>The server\<close>

datatype forward_error = TargetNotConnected | DeauthFailure

text \<open>\<^verbatim>\<open>Result<(), ForwardError>\<close>, as it is sent.\<close>

type_synonym forward_signal = "forward_error option"

text \<open>The dispatcher takes the session and gives it back.\<close>

definition deauthenticate_dispatch ::
  "session \<Rightarrow> ((session, unit dispatcher_error) result \<times> transport) \<times> bool" where
  "deauthenticate_dispatch session = ((Ok session, s_transport session), True)"

datatype 'e forward_handler_error =
    FhOpen "'e open_session_error"
  | FhDeauth "unit session_dispatch_error"
  | FhWrite object_writer_error
  | FhCopy

text \<open>What one side of the copy does is given by \<^verbatim>\<open>copy\<close>, \<^verbatim>\<open>tokio::io::copy_bidirectional\<close>. The result has the
  streams of the client and of the device, if one was opened, after the handler.\<close>

definition forward_handle ::
  "rpc_codecs \<Rightarrow> unit codec \<Rightarrow> forward_signal codec \<Rightarrow> (direct_connection \<Rightarrow> (transport, 'e) result)
    \<Rightarrow> (transport \<Rightarrow> transport \<Rightarrow> bool \<times> transport \<times> transport) \<Rightarrow> rpc_server \<Rightarrow> session \<Rightarrow> spki_hash
    \<Rightarrow> (unit, 'e forward_handler_error) result \<times> transport \<times> transport option" where
  "forward_handle K U F open_raw_session copy server session target =
    (case open_session_with open_raw_session target server of
       Ok forward_session \<Rightarrow>
        (case session_dispatch K (utf8 ''deauthenticate'') U () deauthenticate_dispatch forward_session of
           (Ok forward_session, t2) \<Rightarrow>
            (case write_object F None (s_transport session) of
               (Ok _, t1) \<Rightarrow>
                (case copy t1 (s_transport forward_session) of (copied, t1, t2) \<Rightarrow>
                  if copied then (Ok (), shutdown t1, Some (shutdown t2)) else (Err FhCopy, t1, Some t2))
             | (Err e, t1) \<Rightarrow> (Err (FhWrite e), t1, Some (s_transport forward_session))
             | (Panicked, t1) \<Rightarrow> (Panicked, t1, Some (s_transport forward_session)))
         | (Err err, t2) \<Rightarrow>
            (case write_object F (Some DeauthFailure) (s_transport session) of
               (Ok _, t1) \<Rightarrow> (Err (FhDeauth err), t1, Some t2)
             | (Err e, t1) \<Rightarrow> (Err (FhWrite e), t1, Some t2)
             | (Panicked, t1) \<Rightarrow> (Panicked, t1, Some t2))
         | (Panicked, t2) \<Rightarrow> (Panicked, s_transport session, Some t2))
     | Err err \<Rightarrow>
        (case write_object F (Some TargetNotConnected) (s_transport session) of
           (Ok _, t1) \<Rightarrow> (Err (FhOpen err), t1, None)
         | (Err e, t1) \<Rightarrow> (Err (FhWrite e), t1, None)
         | (Panicked, t1) \<Rightarrow> (Panicked, t1, None))
     | Panicked \<Rightarrow> (Panicked, s_transport session, None))"

section \<open>The client\<close>

datatype forward_dispatch_error = AwaitForwardError object_error | ForwardRefused forward_error

definition forward_dispatch :: "forward_signal codec \<Rightarrow> (unit, forward_dispatch_error) result script" where
  "forward_dispatch F =
    then_script (get_object AwaitForwardError F) (\<lambda>signal.
    lift_result (case signal of None \<Rightarrow> Ok () | Some e \<Rightarrow> Err (ForwardRefused e)))"

definition e2e_dispatch ::
  "crypto \<Rightarrow> u64 \<Rightarrow> certificate \<Rightarrow> credential \<Rightarrow> (certificate \<times> tls_channel, tls_setup_error) result script" where
  "e2e_dispatch C now peer credentials =
    tls_client C (\<lambda>end_entity. verify_cert C (exact_verifier peer) end_entity now) credentials"

record forward_connection =
  fc_credentials :: credential
  fc_target :: certificate

datatype open_forward_error =
    OfForward "forward_dispatch_error command_failure"
  | OfE2E "tls_setup_error command_failure"

text \<open>\<^verbatim>\<open>open_raw_session\<close> on a session of the connection to the server.\<close>

definition forward_open_raw_session ::
  "crypto \<Rightarrow> rpc_codecs \<Rightarrow> spki_hash codec \<Rightarrow> unit codec \<Rightarrow> forward_signal codec \<Rightarrow> u64 \<Rightarrow> forward_connection
    \<Rightarrow> (certificate \<times> tls_channel, open_forward_error) result script" where
  "forward_open_raw_session C K H U F now self =
    then_script (map_err_script OfForward
      (dispatch_command K (utf8 ''forward'') H (cert_spki (fc_target self)) (forward_dispatch F))) (\<lambda>_.
    map_err_script OfE2E
      (dispatch_command K (utf8 ''e2e'') U () (e2e_dispatch C now (fc_target self) (fc_credentials self))))"

definition forward_peer :: "forward_connection \<Rightarrow> peer" where
  "forward_peer self = PeerCertificate (fc_target self)"

section \<open>Lemmas\<close>

lemma verify_cert_exact:
  assumes "verify_cert C (exact_verifier expected) d now = Ok ()"
  shows "\<exists>c. from_der C d = Ok c \<and> der c = cert_der expected
    \<and> is_ok (check_validity_at (as_unverified expected) now)"
proof -
  from assms obtain c where c: "from_der C d = Ok c"
    by (auto simp: verify_cert_def result_simps)
  moreover from assms c have "is_ok (verify_known_certificate (exact_verifier expected) c now)"
    by (auto simp: verify_cert_def is_ok_iff split: result.splits verify_error.splits)
  then have "cert_eq c (as_unverified expected) \<and> is_ok (check_validity_at (as_unverified expected) now)"
    by (auto simp: exact_verifier_def default_verify_known_certificate_def Let_def is_ok_iff result_simps split: if_splits)
  ultimately show ?thesis by (auto simp: cert_eq_def)
qed

definition sample_signal_codec :: "forward_signal codec" where
  "sample_signal_codec = \<lparr>
     encode = (\<lambda>x. Ok [case x of None \<Rightarrow> 0 | Some TargetNotConnected \<Rightarrow> 1 | Some DeauthFailure \<Rightarrow> 2]),
     decode = (\<lambda>b. Ok (if b = [0] then None else if b = [1] then Some TargetNotConnected else Some DeauthFailure)) \<rparr>"

lemma sample_signal_codec_ok [simp]: "codec_ok sample_signal_codec"
  by (auto simp: codec_ok_def sample_signal_codec_def split: option.splits forward_error.splits)

definition sample_spki_codec :: "spki_hash codec" where
  "sample_spki_codec = \<lparr> encode = (\<lambda>h. Ok (spki_bytes h)), decode = (\<lambda>b. Ok (SpkiHash b)) \<rparr>"

definition sample_forward :: forward_connection where
  "sample_forward = \<lparr> fc_credentials = sample_root_credential, fc_target = Certificate sample_agent \<rparr>"

definition sample_forward_channel :: tls_channel where
  "sample_forward_channel = \<lparr> peer_certificates = Some [der sample_agent], export_keying_material = (\<lambda>_ _. Err ''unused'') \<rparr>"

lemma sample_forward_wf: "cert_wf sample_crypto (as_unverified (fc_target sample_forward))"
  by code_simp

lemma sample_forward_ends:
  "may_end (forward_open_raw_session sample_crypto sample_codecs sample_spki_codec unit_codec sample_signal_codec 34560000 sample_forward)
    (Ok (Certificate sample_agent, sample_forward_channel))"
proof -
  have "verify_cert sample_crypto (exact_verifier (Certificate sample_agent)) (der sample_agent) 34560000 = Ok ()" by code_simp
  moreover have "dangerous_from_already_verified_der sample_crypto (der sample_agent) = Ok (Certificate sample_agent)" by code_simp
  ultimately have e2e: "may_end (e2e_dispatch sample_crypto 34560000 (Certificate sample_agent) sample_root_credential)
      (Ok (Certificate sample_agent, sample_forward_channel))"
    unfolding e2e_dispatch_def tls_client_def may_end_tls_Ok by (simp add: sample_forward_channel_def)
  have accept: "\<exists>b. decode (response_header_codec sample_codecs) b = Ok Accept"
    by (intro exI [of _ "[]"]) (simp add: sample_codecs_def)
  have header: "may_end (dispatch_header sample_codecs key R request) (Ok ())" if "is_ok (encode R request)" for key and R :: "'r codec" and request
    unfolding dispatch_header_def may_end_then_Ok may_end_put_Ok may_end_get_Ok
    using that accept by (auto simp: sample_codecs_def intro!: exI [of _ Accept])
  have "\<exists>b. decode sample_signal_codec b = Ok None" by (intro exI [of _ "[0]"]) (simp add: sample_signal_codec_def)
  then have "may_end (forward_dispatch sample_signal_codec) (Ok ())"
    unfolding forward_dispatch_def may_end_then_Ok may_end_get_Ok by (auto intro!: exI [of _ None])
  then show ?thesis
    unfolding forward_open_raw_session_def dispatch_command_def may_end_then_Ok may_end_map_err_Ok
    using e2e header [of sample_spki_codec] header [of unit_codec]
    by (auto simp: sample_forward_def sample_spki_codec_def)
qed

section \<open>Properties\<close>



text \<open>C35. What the handler does for a target that is connected: the device gets one request to drop the
  identity of the server and nothing else before the client is told that it can start, and then
  the streams are copied from exactly where they stand. For a target that is not connected, the
  client reads just that, and no stream is opened.\<close>

theorem forward_connects:
  assumes "rpc_codecs_ok K" "request_on_wire K (utf8 ''deauthenticate'') U () bs" "codec_ok F"
    "encode F (if connected then None else Some TargetNotConnected) = Ok e" "length e < 2 ^ 31"
    "connected \<longrightarrow> (\<exists>conn. fmlookup (latest_connections server) target = Some conn \<and> open_raw_session conn = Ok device)"
    "\<not> connected \<longrightarrow> fmlookup (latest_connections server) target = None"
    "\<not> broken device" "incoming device = response_frame K Accept @ rest" "\<not> broken (s_transport session)"
    "copy ((s_transport session) \<lparr> outgoing := outgoing (s_transport session) @ chunk_frame e \<rparr>)
      (device \<lparr> outgoing := outgoing device @ bs, incoming := rest \<rparr>) = (True, client', device')"
  shows "forward_handle K U F open_raw_session copy server session target =
    (if connected then (Ok (), shutdown client', Some (shutdown device'))
     else (Err (FhOpen NoConnection), (s_transport session) \<lparr> outgoing := outgoing (s_transport session) @ chunk_frame e \<rparr>, None))"
proof -
  note w = write_object_intact [OF assms(4) less_imp_le [OF assms(5)] assms(10)]
  show ?thesis
  proof (cases connected)
    case True
    then obtain conn where conn: "fmlookup (latest_connections server) target = Some conn" "open_raw_session conn = Ok device"
      using assms(6) by blast
    have sent: "(dispatch_send K (utf8 ''deauthenticate'') U () device :: (unit, unit session_dispatch_error) result \<times> transport)
        = (Ok (), device \<lparr> outgoing := outgoing device @ bs \<rparr>)"
      by (rule dispatch_send_wire [OF assms(2,8)])
    have "read_object (response_header_codec K) (device \<lparr> outgoing := outgoing device @ bs \<rparr>)
        = (Ok Accept, device \<lparr> outgoing := outgoing device @ bs, incoming := rest \<rparr>)"
      using read_response [OF assms(1), of Accept "device \<lparr> outgoing := outgoing device @ bs \<rparr>" rest] assms(9) by simp
    then show ?thesis
      using True conn sent w assms(11)
      by (simp add: forward_handle_def open_session_with_def session_dispatch_def dispatch_response_def
          deauthenticate_dispatch_def map_err_st_def session_new_def)
  next
    case False
    then show ?thesis using w assms(7) by (simp add: forward_handle_def open_session_with_def)
  qed
qed

theorem forward_connects_witness:
  "let device = sample_transport (response_frame sample_codecs Accept);
     server = \<lparr> latest_connections = fmupd (spki_hash sample_agent) (sample_connection 2) fmempty, client_status_broadcast = [] \<rparr>
   in forward_handle sample_codecs unit_codec sample_signal_codec (\<lambda>_. Ok device :: (transport, unit) result) (\<lambda>a b. (True, a, b)) server
      (session_new (sample_transport []) Anonymous) (spki_hash sample_agent)
    = (Ok (), shutdown ((sample_transport []) \<lparr> outgoing := chunk_frame [0] \<rparr>),
       Some (shutdown ((sample_transport []) \<lparr> outgoing := chunk_frame (utf8 ''deauthenticate'') @ chunk_frame [] \<rparr>)))"
proof -
  let ?device = "sample_transport (response_frame sample_codecs Accept)"
  let ?server = "\<lparr> latest_connections = fmupd (spki_hash sample_agent) (sample_connection 2) fmempty, client_status_broadcast = [] \<rparr>"
  have wire: "request_on_wire sample_codecs (utf8 ''deauthenticate'') unit_codec () (chunk_frame (utf8 ''deauthenticate'') @ chunk_frame [])"
    by (rule sample_request_on_wire) (simp add: utf8_def)
  have "forward_handle sample_codecs unit_codec sample_signal_codec (\<lambda>_. Ok ?device :: (transport, unit) result) (\<lambda>a b. (True, a, b)) ?server
      (session_new (sample_transport []) Anonymous) (spki_hash sample_agent)
    = (if True then (Ok (), shutdown ((sample_transport []) \<lparr> outgoing := chunk_frame [0] \<rparr>),
       Some (shutdown ((sample_transport []) \<lparr> outgoing := chunk_frame (utf8 ''deauthenticate'') @ chunk_frame [] \<rparr>)))
       else (Err (FhOpen NoConnection), sample_transport [] \<lparr> outgoing := chunk_frame [0] \<rparr>, None))"
    using forward_connects [OF sample_codecs_ok wire sample_signal_codec_ok, of True "[0]" ?server "spki_hash sample_agent"
        "\<lambda>_. Ok ?device :: (transport, unit) result" ?device "[]" "session_new (sample_transport []) Anonymous" "\<lambda>a b. (True, a, b)"]
    by (simp add: sample_signal_codec_def sample_transport_def session_new_def)
  then show ?thesis by (simp add: Let_def)
qed

end
