(* ===== verification/Tunnels.thy ===== *)
theory Tunnels
  imports Forward MessageStore
begin

text \<open>
  Tunnels of TCP connections from a client to a device (\<^verbatim>\<open>svalin/src/client/tunnel_manager.rs\<close> and
  \<^verbatim>\<open>tunnel_manager/tcp.rs, tcp/dispatcher.rs, tcp/handler.rs\<close>). The manager lists the open tunnels by the
  certificate of the device, which the hash map takes by its encoding, and the identifier of the
  tunnel; a task per tunnel waits for its end. Sockets are what they give: whether a port could be
  bound, the connections accepted, and what copying the bytes between two streams does.
\<close>

section \<open>One tunnel\<close>

record tcp_tunnel_config =
  local_port :: "16 word"
  remote_host :: str

datatype tunnel_create_error = NoPeerOnConnection | TcpBindError "16 word"

text \<open>\<^verbatim>\<open>tn_active\<close> is the last value of the watch channel, \<^verbatim>\<open>tn_result\<close> whether the result is still to be taken.\<close>

record tunnel =
  tn_id :: uuid
  tn_config :: tcp_tunnel_config
  tn_result :: bool
  tn_active :: bool
  tn_peer :: peer

text \<open>\<^verbatim>\<open>bind\<close> is whether the local port can be bound.\<close>

definition tunnel_open ::
  "(16 word \<Rightarrow> bool) \<Rightarrow> uuid \<Rightarrow> peer \<Rightarrow> tcp_tunnel_config \<Rightarrow> (tunnel, tunnel_create_error) result" where
  "tunnel_open bind new_id peer config =
    (if \<not> bind (local_port config) then Err (TcpBindError (local_port config))
     else Ok \<lparr> tn_id = new_id, tn_config = config, tn_result = True, tn_active = True, tn_peer = peer \<rparr>)"

definition take_result :: "tunnel \<Rightarrow> bool \<times> tunnel" where
  "take_result self = (tn_result self, self \<lparr> tn_result := False \<rparr>)"

definition tunnel_close :: "tunnel \<Rightarrow> tunnel" where
  "tunnel_close self = self \<lparr> tn_active := False \<rparr>"

text \<open>The loop that accepts connections: an accepted stream or an error of the socket, with what the watch
  channel says then, or a change of the channel. It gives the streams that were dispatched, and how
  it ended: with an error, or without a word, which the waiting task takes as a normal end.\<close>

datatype 's listen_event = Accepted bool 's | AcceptFailed bool | ActiveChanged bool

datatype listen_end = ListenEnded | AcceptConnectionError

fun tcp_listen :: "'s listen_event list \<Rightarrow> listen_end option \<times> 's list" where
  "tcp_listen [] = (None, [])"
| "tcp_listen (Accepted active stream # events) =
    (if \<not> active then (Some ListenEnded, [])
     else (case tcp_listen events of (r, streams) \<Rightarrow> (r, stream # streams)))"
| "tcp_listen (AcceptFailed active # events) =
    (if \<not> active then (Some ListenEnded, []) else (Some AcceptConnectionError, []))"
| "tcp_listen (ActiveChanged active # events) = (if \<not> active then (Some ListenEnded, []) else tcp_listen events)"

section \<open>The manager\<close>

type_synonym tunnels = "(bytes, (uuid, tunnel) fmap) fmap"

text \<open>The tasks wait for the end of a tunnel of a device.\<close>

record tunnel_manager =
  active_tunnels :: tunnels
  tunnel_tasks :: "(bytes \<times> uuid) list"

definition tunnel_manager_new :: tunnel_manager where
  "tunnel_manager_new = \<lparr> active_tunnels = fmempty, tunnel_tasks = [] \<rparr>"

definition insert_tunnel :: "bytes \<Rightarrow> tunnel \<Rightarrow> tunnels \<Rightarrow> tunnels" where
  "insert_tunnel certificate tunnel tunnels =
    (case fmlookup tunnels certificate of
       Some peer_tunnels \<Rightarrow> fmupd certificate (fmupd (tn_id tunnel) tunnel peer_tunnels) tunnels
     | None \<Rightarrow> fmupd certificate (fmupd (tn_id tunnel) tunnel fmempty) tunnels)"

definition manager_open ::
  "(16 word \<Rightarrow> bool) \<Rightarrow> uuid \<Rightarrow> peer \<Rightarrow> tcp_tunnel_config \<Rightarrow> tunnel_manager \<Rightarrow> (unit, tunnel_create_error) result \<times> tunnel_manager" where
  "manager_open bind new_id peer config self =
    (case peer of
       Anonymous \<Rightarrow> (Err NoPeerOnConnection, self)
     | PeerCertificate certificate \<Rightarrow>
        bind_st (tunnel_open bind new_id peer config, self) (\<lambda>tunnel self.
        case take_result tunnel of (result, tunnel) \<Rightarrow>
          if \<not> result then (Panicked, self)
          else (Ok (), \<lparr> active_tunnels = insert_tunnel (cert_der certificate) tunnel (active_tunnels self),
                         tunnel_tasks = tunnel_tasks self @ [(cert_der certificate, tn_id tunnel)] \<rparr>)))"

text \<open>What a task does when its tunnel has ended.\<close>

definition remove_tunnel :: "bytes \<Rightarrow> uuid \<Rightarrow> tunnels \<Rightarrow> tunnels" where
  "remove_tunnel certificate i tunnels =
    (case fmlookup tunnels certificate of
       None \<Rightarrow> tunnels
     | Some peer_tunnels \<Rightarrow>
        (let peer_tunnels = fmdrop i peer_tunnels in
         if peer_tunnels = fmempty then fmdrop certificate tunnels else fmupd certificate peer_tunnels tunnels))"

definition tunnel_ended :: "bytes \<times> uuid \<Rightarrow> tunnel_manager \<Rightarrow> tunnel_manager" where
  "tunnel_ended task self =
    \<lparr> active_tunnels = remove_tunnel (fst task) (snd task) (active_tunnels self), tunnel_tasks = remove1 task (tunnel_tasks self) \<rparr>"

text \<open>Closing goes through the devices in the order of the hash map, \<^verbatim>\<open>order\<close>, up to the first that has such
  a tunnel.\<close>

fun close_first :: "bytes list \<Rightarrow> uuid \<Rightarrow> tunnels \<Rightarrow> tunnels" where
  "close_first [] i tunnels = tunnels"
| "close_first (certificate # certificates) i tunnels =
    (case fmlookup tunnels certificate of
       None \<Rightarrow> close_first certificates i tunnels
     | Some peer_tunnels \<Rightarrow>
        (case fmlookup peer_tunnels i of
           None \<Rightarrow> close_first certificates i tunnels
         | Some tunnel \<Rightarrow> fmupd certificate (fmupd i (tunnel_close tunnel) peer_tunnels) tunnels))"

definition close_tunnel :: "(tunnels \<Rightarrow> bytes list) \<Rightarrow> uuid \<Rightarrow> tunnel_manager \<Rightarrow> tunnel_manager" where
  "close_tunnel order i self = self \<lparr> active_tunnels := close_first (order (active_tunnels self)) i (active_tunnels self) \<rparr>"

section \<open>The connections inside\<close>

datatype tcp_forward_error = TcpForwardGeneric

type_synonym tcp_forward_signal = "tcp_forward_error option"

datatype tcp_dispatch_error = ReadAnswerError object_error | TcpForwardRefused tcp_forward_error | TcpCopyError

text \<open>The side of the client, up to the copying of bytes, whose outcome is \<^verbatim>\<open>copied\<close>; closing the tunnel
  ends it as well.\<close>

definition tcp_forward_dispatch :: "tcp_forward_signal codec \<Rightarrow> bool \<Rightarrow> (unit, tcp_dispatch_error) result script" where
  "tcp_forward_dispatch F copied =
    then_script (get_object ReadAnswerError F) (\<lambda>answer.
    lift_result (case answer of
        Some e \<Rightarrow> Err (TcpForwardRefused e)
      | None \<Rightarrow> if copied then Ok () else Err TcpCopyError))"

datatype tcp_handler_error = TcpWrite object_error | TcpConnect | TcpHandlerCopy

definition tcp_forward_handle :: "tcp_forward_signal codec \<Rightarrow> bool \<Rightarrow> bool \<Rightarrow> (unit, tcp_handler_error) result script" where
  "tcp_forward_handle F connected copied =
    (if \<not> connected then
       then_script (put_object TcpWrite F (Some TcpForwardGeneric)) (\<lambda>_. lift_result (Err TcpConnect))
     else
       then_script (put_object TcpWrite F None) (\<lambda>_. lift_result (if copied then Ok () else Err TcpHandlerCopy)))"

section \<open>Lemmas\<close>

definition tunnel_at :: "tunnels \<Rightarrow> bytes \<times> uuid \<Rightarrow> tunnel option" where
  "tunnel_at tunnels key = Option.bind (fmlookup tunnels (fst key)) (\<lambda>peer_tunnels. fmlookup peer_tunnels (snd key))"

definition no_empty :: "tunnels \<Rightarrow> bool" where
  "no_empty tunnels \<longleftrightarrow> (\<forall>c peer_tunnels. fmlookup tunnels c = Some peer_tunnels \<longrightarrow> peer_tunnels \<noteq> fmempty)"

lemma fmupd_not_empty [simp]: "fmupd k v m \<noteq> fmempty"
  by (metis fmempty_lookup fmupd_lookup option.distinct(1))

lemma insert_tunnel_at:
  "tunnel_at (insert_tunnel c t ts) = (tunnel_at ts)((c, tn_id t) \<mapsto> t)"
  "no_empty ts \<Longrightarrow> no_empty (insert_tunnel c t ts)"
  by (auto simp: tunnel_at_def insert_tunnel_def no_empty_def fun_eq_iff split: option.split)

lemma remove_tunnel_at:
  "tunnel_at (remove_tunnel c i ts) = (tunnel_at ts)((c, i) := None)"
  "no_empty ts \<Longrightarrow> no_empty (remove_tunnel c i ts)"
proof -
  have "fmlookup m k = None" if "fmdrop i m = fmempty" "k \<noteq> i" for m :: "(uuid, tunnel) fmap" and k
    using that fmlookup_drop [of i m k] by simp
  then show "tunnel_at (remove_tunnel c i ts) = (tunnel_at ts)((c, i) := None)"
    by (auto simp: tunnel_at_def remove_tunnel_def fun_eq_iff Let_def split: option.split)
  show "no_empty ts \<Longrightarrow> no_empty (remove_tunnel c i ts)"
    by (auto simp: remove_tunnel_def no_empty_def Let_def split: option.split)
qed

lemma close_first_at:
  assumes "\<And>c c' t t'. tunnel_at ts (c, i) = Some t \<Longrightarrow> tunnel_at ts (c', i) = Some t' \<Longrightarrow> c = c'"
  shows "tunnel_at (close_first cs i ts) =
    (\<lambda>k. if snd k = i \<and> fst k \<in> set cs then map_option tunnel_close (tunnel_at ts k) else tunnel_at ts k)"
  using assms
proof (induction cs)
  case (Cons c cs)
  show ?case
  proof (cases "tunnel_at ts (c, i)")
    case None
    then have "close_first (c # cs) i ts = close_first cs i ts"
      by (auto simp: tunnel_at_def split: option.splits)
    then show ?thesis using Cons None by (auto simp: fun_eq_iff)
  next
    case (Some t)
    then obtain m where m: "fmlookup ts c = Some m" "fmlookup m i = Some t"
      by (auto simp: tunnel_at_def bind_eq_Some_conv)
    have "tunnel_at ts (c', i) = None" if "c' \<noteq> c" for c'
      using Cons.prems [OF Some] that by (cases "tunnel_at ts (c', i)") auto
    then show ?thesis
      using m by (auto simp: tunnel_at_def fun_eq_iff)
  qed
qed simp

lemma close_first_no_empty: "no_empty ts \<Longrightarrow> no_empty (close_first cs i ts)"
  by (induction cs) (auto simp: no_empty_def split: option.split)

text \<open>The runs of a manager. A random identifier is not one that is in use.\<close>

inductive tunnels_reachable :: "tunnel_manager \<Rightarrow> bool" where
  tunnels_new: "tunnels_reachable tunnel_manager_new"
| tunnels_open: "tunnels_reachable m \<Longrightarrow> new_id \<notin> snd ` set (tunnel_tasks m) \<Longrightarrow>
    tunnels_reachable (snd (manager_open bind new_id peer config m))"
| tunnels_ended: "tunnels_reachable m \<Longrightarrow> task \<in> set (tunnel_tasks m) \<Longrightarrow> tunnels_reachable (tunnel_ended task m)"
| tunnels_close: "tunnels_reachable m \<Longrightarrow> tunnels_reachable (close_tunnel order i m)"

definition tunnels_inv :: "tunnel_manager \<Rightarrow> bool" where
  "tunnels_inv m \<longleftrightarrow> no_empty (active_tunnels m)
    \<and> (\<forall>k. tunnel_at (active_tunnels m) k \<noteq> None \<longleftrightarrow> k \<in> set (tunnel_tasks m))
    \<and> distinct (map snd (tunnel_tasks m))"

lemma tunnels_inv_unique:
  assumes "tunnels_inv m" "tunnel_at (active_tunnels m) (c, i) = Some t" "tunnel_at (active_tunnels m) (c', i) = Some t'"
  shows "c = c'"
proof -
  have "(c, i) \<in> set (tunnel_tasks m)" "(c', i) \<in> set (tunnel_tasks m)" "inj_on snd (set (tunnel_tasks m))"
    using assms by (auto simp: tunnels_inv_def distinct_map)
  then show ?thesis by (metis inj_onD prod.inject snd_conv)
qed

lemma manager_open_cases:
  obtains (failed) e where "manager_open bind new_id peer config m = (Err e, m)"
  | (opened) certificate where "peer = PeerCertificate certificate"
      "manager_open bind new_id peer config m = (Ok (), \<lparr> active_tunnels = insert_tunnel (cert_der certificate)
          \<lparr> tn_id = new_id, tn_config = config, tn_result = False, tn_active = True, tn_peer = peer \<rparr> (active_tunnels m),
        tunnel_tasks = tunnel_tasks m @ [(cert_der certificate, new_id)] \<rparr>)"
  by (cases peer; cases "bind (local_port config)") (auto simp: manager_open_def tunnel_open_def take_result_def)

lemma tunnels_reachable_inv: "tunnels_reachable m \<Longrightarrow> tunnels_inv m"
proof (induction rule: tunnels_reachable.induct)
  case tunnels_new
  show ?case by (simp add: tunnels_inv_def tunnel_manager_new_def no_empty_def tunnel_at_def)
next
  case (tunnels_open m new_id bind peer config)
  show ?case
  proof (cases rule: manager_open_cases [of bind new_id peer config m])
    case failed
    then show ?thesis using tunnels_open.IH by simp
  next
    case (opened certificate)
    then show ?thesis
      using tunnels_open.IH tunnels_open.hyps(2) by (auto simp: tunnels_inv_def insert_tunnel_at)
  qed
next
  case (tunnels_ended m task)
  have "distinct (tunnel_tasks m)" using tunnels_ended.IH by (auto simp: tunnels_inv_def distinct_map)
  moreover have "distinct (map snd (remove1 task (tunnel_tasks m)))"
    using tunnels_ended.IH by (auto simp: tunnels_inv_def distinct_map intro: inj_on_subset dest: notin_set_remove1)
  ultimately show ?case
    using tunnels_ended.IH by (cases task) (auto simp: tunnels_inv_def tunnel_ended_def remove_tunnel_at)
next
  case (tunnels_close m order i)
  have "tunnel_at (active_tunnels (close_tunnel order i m)) k = None \<longleftrightarrow> tunnel_at (active_tunnels m) k = None" for k
    using close_first_at [OF tunnels_inv_unique [OF tunnels_close.IH]] by (simp add: close_tunnel_def)
  then show ?case
    using tunnels_close.IH close_first_no_empty by (simp add: tunnels_inv_def close_tunnel_def)
qed

text \<open>After a tunnel was closed, the listening task ends at the next thing that happens, and nothing that was
  accepted then is forwarded.\<close>

fun event_active :: "'s listen_event \<Rightarrow> bool" where
  "event_active (Accepted active _) = active"
| "event_active (AcceptFailed active) = active"
| "event_active (ActiveChanged active) = active"

lemma closed_listener_ends:
  "\<not> event_active e \<Longrightarrow> fst (tcp_listen (events @ e # later)) \<noteq> None
    \<and> snd (tcp_listen (events @ e # later)) = snd (tcp_listen events)"
proof (induction events)
  case Nil
  then show ?case by (cases e) simp_all
next
  case (Cons e' events)
  then show ?case by (cases e') (auto split: prod.splits)
qed

section \<open>Properties\<close>

text \<open>C31. The list of tunnels of a client is right at every moment: it has exactly the tunnels whose end is
  still waited for, no device without a tunnel, and no identifier twice. The end of a tunnel takes
  out just this one, and closing one by its identifier tells just this one to end.\<close>

theorem tunnel_registry_exact:
  assumes "tunnels_reachable m"
  shows "no_empty (active_tunnels m) \<and> distinct (map snd (tunnel_tasks m))
    \<and> (\<forall>k. tunnel_at (active_tunnels m) k \<noteq> None \<longleftrightarrow> k \<in> set (tunnel_tasks m))
    \<and> tunnel_at (active_tunnels (tunnel_ended task m)) = (tunnel_at (active_tunnels m))(task := None)
    \<and> (set (order (active_tunnels m)) = fset (fmdom (active_tunnels m)) \<longrightarrow>
      tunnel_at (active_tunnels (close_tunnel order i m)) k =
        (if snd k = i then map_option tunnel_close (tunnel_at (active_tunnels m) k) else tunnel_at (active_tunnels m) k))"
proof -
  note inv = tunnels_reachable_inv [OF assms]
  have "tunnel_at (active_tunnels (tunnel_ended task m)) = (tunnel_at (active_tunnels m))(task := None)"
    by (cases task) (simp add: tunnel_ended_def remove_tunnel_at)
  moreover have "tunnel_at (active_tunnels (close_tunnel order i m)) k =
      (if snd k = i then map_option tunnel_close (tunnel_at (active_tunnels m) k) else tunnel_at (active_tunnels m) k)"
    if order: "set (order (active_tunnels m)) = fset (fmdom (active_tunnels m))"
  proof -
    have "tunnel_at (active_tunnels m) k = None" if "fst k \<notin> set (order (active_tunnels m))"
      using that order by (simp add: tunnel_at_def fmdom_notD)
    then show ?thesis using close_first_at [OF tunnels_inv_unique [OF inv]] by (auto simp: close_tunnel_def)
  qed
  ultimately show ?thesis using inv by (simp add: tunnels_inv_def)
qed

theorem tunnel_registry_exact_witness:
  "\<exists>m. tunnels_reachable m \<and> tunnel_tasks m = [([1], 7)]
    \<and> (\<forall>k. tunnel_at (active_tunnels m) k \<noteq> None \<longleftrightarrow> k = ([1], 7))
    \<and> tunnel_at (active_tunnels (tunnel_ended ([1], 7) m)) ([1], 7) = None"
proof -
  let ?cert = "Certificate ((sample_cert Agent 4 5 7 0) \<lparr> der := [1] \<rparr>)" and ?config = "\<lparr> local_port = 80, remote_host = [] \<rparr>"
  let ?m = "snd (manager_open (\<lambda>_. True) 7 (PeerCertificate ?cert) ?config tunnel_manager_new)"
  have m: "tunnels_reachable ?m"
    by (rule tunnels_open [OF tunnels_new]) (simp add: tunnel_manager_new_def)
  have tasks: "tunnel_tasks ?m = [([1], 7)]"
    by (simp add: manager_open_def tunnel_open_def take_result_def tunnel_manager_new_def)
  have "\<forall>k. tunnel_at (active_tunnels ?m) k \<noteq> None \<longleftrightarrow> k = ([1], 7)"
    using tunnel_registry_exact [OF m] unfolding tasks by simp
  moreover have "tunnel_at (active_tunnels (tunnel_ended ([1], 7) ?m)) ([1], 7) = None"
    using tunnel_registry_exact [OF m, of "([1], 7)"] by simp
  ultimately show ?thesis using m tasks by blast
qed

end
