(* ===== verification/Spec2Isabelle.thy ===== *)
theory Spec2Isabelle
  imports Permissions Provider Processor UserUpdate Configuration Installer Tunnels
begin

text \<open>
  Verification of svalin, a system for managing devices remotely: agents run on the devices,
  clients are used by people, a server connects them. Trust comes from a root certificate, a
  replicated log of certificates and MLS groups; the server is not trusted with the content.

  \<^bold>\<open>Parts, from the bottom up, with the theory that models each.\<close>

  \<^item> Certificates and keys (\<^verbatim>\<open>svalin_pki/src\<close>): Certificate (\<^verbatim>\<open>certificate.rs\<close>), CertificateChain
    (\<^verbatim>\<open>certificate_chain.rs\<close>), Credential (\<^verbatim>\<open>keypair.rs, credential.rs\<close>), Encrypt (\<^verbatim>\<open>encrypt.rs, argon.rs\<close>).
    Structs are records, enums are datatypes, every \<^verbatim>\<open>Result\<close> is a \<^verbatim>\<open>result\<close> with the extra case
    \<^verbatim>\<open>Panicked\<close> (Prelude), machine integers are words.
  \<^item> The trust store: SecureChain (\<^verbatim>\<open>secure_chain.rs\<close>, the signed block chain over an abstract state, a
    locale for the laws of that state), TrustStore (\<^verbatim>\<open>trust_store.rs\<close>, its interpretation by the set of
    certificates), TransactionStore and TrustSync (the block tables of server and replicas and the
    command that keeps replicas up to date), Verifier (\<^verbatim>\<open>verifier.rs\<close>, what TLS accepts).
  \<^item> The RPC library (\<^verbatim>\<open>svalin_rpc/src\<close>): Transport (chunks and objects on a byte stream), Rpc (sessions,
    command handlers, permission checks), Script (programs that exchange objects and start TLS
    handshakes, run against a stream or against each other), AucPace (password tunnels), Permissions
    (\<^verbatim>\<open>svalin/src/permissions\<close> and the nested command collections of an agent).
  \<^item> Groups: GroupId, MlsCommon (message formats, the rules for changing groups), MlsServer (public
    groups on the server), MlsMember (\<^verbatim>\<open>processor.rs, agent.rs, client.rs\<close>), RequestTask and Processor
    (the tasks that own the groups, used through a channel), MlsStorage (the SQLite storage provider
    over its tables), MemoryStore and Provider (the storage in memory, its export, and the storage
    that is one of the two), MessageStore (mailboxes and their streaming).
  \<^item> The tables of the server: SessionStore, ServerStores (users, key packages, state updates).
    The state of a client: ClientState. The groups of a user, whose state the server keeps encrypted
    between the sessions that work on it: UserUpdate (\<^verbatim>\<open>update_user_mls.rs\<close>).
  \<^item> Connections: Connections (\<^verbatim>\<open>rpc/server/mod.rs\<close>: which connection of a key is current, who is told
    of it, over a broadcast channel with its capacity), Forward (\<^verbatim>\<open>commands/forward.rs\<close>: sessions with a
    device through the server, with TLS inside), MessageLoops (\<^verbatim>\<open>svalin/src/message_streaming\<close>: both
    sides of the connections that carry messages), Tunnels (\<^verbatim>\<open>client/tunnel_manager\<close>: local ports that
    lead to a device).
  \<^item> How things come into being: InitServer (first contact with a new server), Login (a user on a
    new device), Profiles (\<^verbatim>\<open>client/profile.rs\<close>: what a login leaves on the disk and what opening it
    reads), JoinAgent (enrolment of an agent by a user), Configuration (\<^verbatim>\<open>server.rs, agent.rs\<close>: what
    server and agent write at their creation and read at each start), Installer
    (\<^verbatim>\<open>installer/agent.rs\<close>: where an agent is installed, its service, and updates).

  \<^bold>\<open>Interfaces.\<close> What a component relies on is a locale with the promised laws, interpreted on the
  model's own definitions in the theory that provides them: \<^verbatim>\<open>chain_state_laws\<close> (the state behind a block
  chain: SecureChain, provided by TrustStore), \<^verbatim>\<open>verifier_contract\<close> and \<^verbatim>\<open>timed_verifier\<close> (what a TLS
  verifier promises: Verifier), \<^verbatim>\<open>guarded_commands\<close> (a command collection with its permission handler:
  Permissions), \<^verbatim>\<open>mailbox\<close> (MessageStore), \<^verbatim>\<open>member_lookup\<close> (the members of a group: MlsCommon, provided by
  MlsServer and MlsMember), \<^verbatim>\<open>keyed_store\<close> and \<^verbatim>\<open>insert_only_store\<close> (MlsStorage),
  \<^verbatim>\<open>request_handler\<close> (what a task promises of its operations: RequestTask, provided by Processor),
  \<^verbatim>\<open>loop_invariant\<close> (what every handled message keeps: MessageLoops, for the chain of the server).

  \<^bold>\<open>Parameters.\<close> Code outside the repository is an argument: the X.509 parser, SHA-512/256, Ed25519 and
  the signature check (\<^verbatim>\<open>crypto\<close>), the AEAD, Argon2, rcgen, the serializers (\<^verbatim>\<open>codec\<close>), hexadecimal coding,
  rustls (\<^verbatim>\<open>tls_lib\<close>, handshakes and exporters), OpenMLS (\<^verbatim>\<open>openmls_scheme, public_mls, member_mls\<close>), the
  pake crates (\<^verbatim>\<open>pake, strong_register\<close>), one-time codes (\<^verbatim>\<open>totp_check\<close>), and the choice SQLite has in
  the order of rows. A theorem that relies on one states the documented behaviour as a hypothesis
  (\<^verbatim>\<open>codec_ok, pake_ok, public_mls_ok\<close> and the like), and its witness gives an instance that has it.
  Random values and clock readings are arguments; one call of a handler reads the clock once, except
  where the code reads it twice and that matters (the creation of certificates).

  \<^bold>\<open>What the lemmas show.\<close> Each theory has the operations first, then lemmas that give the exact
  condition and effect of each operation (\<^verbatim>\<open>.._Ok_iff, .._exact\<close>), an invariant with its
  preservation, and the properties, marked C1 to C40, each with a witness at a concrete input.
  The trust store: who can get in, that equal digests mean equal stores, that checking is free of
  effects, that replicas converge. The server: what commands and group changes it lets through,
  mailboxes as lists. The protocols: every order of steps of both sides over a network ends in the
  same way, and what each side may rely on whatever the other one does.

  \<^bold>\<open>Bounds.\<close> Chunks are shorter than $2^{31}$ bytes, sequence numbers stay below $2^{63}$ where the
  tables keep them as signed integers; both are hypotheses of the theorems that need them. No
  definition uses fuel: loops are recursions over what arrives, or terminate by a measure (the
  completion of a chain: hashes not seen yet). A loop that never returns is a script that waits, or
  has \<^verbatim>\<open>None\<close> as its result.

  \<^bold>\<open>Not modelled.\<close> Cancellation (except of message connections), time-outs except those of waiting agents, capacity of channels (except
  where lagging loses messages), poisoned locks, I/O errors of SQLite and of files, logging and debug
  output. Two readings of the user table during one login are taken to give the same. The graphical
  client (\<^verbatim>\<open>svalin_iced\<close>), terminals, collection of system information and the command line act on the
  operating system or the screen only; the manifest lists them. Of the installer, the registry entry
  on Windows and the removal of an agent are left out.
\<close>

end
